(* ===== verification/Prelude.thy ===== *)
theory Prelude
  imports Main "HOL-Library.Word"
begin

text \<open>
  What every component of the development shares: the machine types of \<open>include/sys/types.h\<close>,
  the ways in which kernel code can stop (a failed \<open>assert\<close>, a \<open>panic\<close>, a dereference of a null
  pointer), the state monad in which kernel functions are written, the error propagation of the
  \<open>TRY\<close> macro's shape, bit fields of machine words, and generic lemmas on lists and words.
\<close>

unbundle bit_operations_syntax

section \<open>Machine types\<close>

type_synonym word_t = "64 word"
type_synonym addr = "64 word"
type_synonym cptr_t = "64 word"
type_synonym u8 = "8 word"
type_synonym u16 = "16 word"
type_synonym u32 = "32 word"

section \<open>Collections of facts\<close>

named_theorems kern_simps \<open>unfolding of the kernel monad on a concrete state\<close>
named_theorems bitfield_simps \<open>reading a bit field after a write\<close>
named_theorems inv_rules \<open>rules for invariants that follow the structure of a kernel function\<close>
named_theorems list_rules \<open>effect of the intrusive list operations on the abstract list\<close>

section \<open>The kernel monad\<close>

text \<open>
  A kernel function either stops the machine or returns a value and the new state. The faults are
  the ways in which the source stops: \<open>assert\<close> (\<open>include/assert.h\<close>, which calls \<open>panic\<close>), a
  dereference of \<open>nullptr\<close>, \<open>debug_trap\<close> (the \<open>int3\<close> handler ends in \<open>halt_forever\<close>), a spin on
  a lock that the only running processor already holds, a loop or recursion that never ends, and an
  operation whose behaviour C leaves undefined (an oversized shift, a list node of the wrong kind).
\<close>

datatype fault = AssertFailed | NullDeref | Panic | DebugTrap | Deadlock | Diverges | Undefined

type_synonym ('s, 'a) kern = "'s \<Rightarrow> fault + ('a \<times> 's)"

definition kret :: "'a \<Rightarrow> ('s, 'a) kern" where
  [kern_simps]: "kret x = (\<lambda>s. Inr (x, s))"

definition kfail :: "fault \<Rightarrow> ('s, 'a) kern" where
  [kern_simps]: "kfail e = (\<lambda>s. Inl e)"

definition kbind :: "('s, 'a) kern \<Rightarrow> ('a \<Rightarrow> ('s, 'b) kern) \<Rightarrow> ('s, 'b) kern" where
  "kbind m f = (\<lambda>s. case m s of Inl e \<Rightarrow> Inl e | Inr (x, s') \<Rightarrow> f x s')"

definition kseq :: "('s, 'a) kern \<Rightarrow> ('s, 'b) kern \<Rightarrow> ('s, 'b) kern" where
  "kseq m n = kbind m (\<lambda>_. n)"

definition kget :: "('s \<Rightarrow> 'a) \<Rightarrow> ('s, 'a) kern" where
  [kern_simps]: "kget f = (\<lambda>s. Inr (f s, s))"

definition kmod :: "('s \<Rightarrow> 's) \<Rightarrow> ('s, unit) kern" where
  [kern_simps]: "kmod f = (\<lambda>s. Inr ((), f s))"

definition kassert :: "bool \<Rightarrow> ('s, unit) kern" where
  [kern_simps]: "kassert b = (if b then kret () else kfail AssertFailed)"

definition knonnull :: "'p option \<Rightarrow> ('s, 'p) kern" where
  [kern_simps]: "knonnull p = (case p of None \<Rightarrow> kfail NullDeref | Some a \<Rightarrow> kret a)"

lemma kbind_simps [kern_simps]:
  "kbind m f s = (case m s of Inl e \<Rightarrow> Inl e | Inr (x, s') \<Rightarrow> f x s')"
  by (simp add: kbind_def)

lemma kseq_simps [kern_simps]:
  "kseq m n s = (case m s of Inl e \<Rightarrow> Inl e | Inr (x, s') \<Rightarrow> n s')"
  by (simp add: kseq_def kbind_def)

lemma kbind_kret [simp]: "kbind (kret x) f = f x"
  by (simp add: kbind_def kret_def)

lemma kbind_ret_right [simp]: "kbind m kret = m"
  by (auto simp: kbind_def kret_def split: sum.splits prod.splits)

lemma kbind_assoc: "kbind (kbind m f) g = kbind m (\<lambda>x. kbind (f x) g)"
  by (auto simp: kbind_def split: sum.splits prod.splits)

lemma kbind_Inr:
  "kbind m f s = Inr r \<longleftrightarrow> (\<exists>x t. m s = Inr (x, t) \<and> f x t = Inr r)"
  by (auto simp: kbind_def split: sum.splits prod.splits)

lemma kseq_Inr:
  "kseq m n s = Inr r \<longleftrightarrow> (\<exists>x t. m s = Inr (x, t) \<and> n t = Inr r)"
  by (auto simp: kseq_def kbind_Inr)

lemma kassert_Inr: "kassert b s = Inr (x, t) \<longleftrightarrow> b \<and> t = s"
  by (auto simp: kassert_def kret_def kfail_def)

text \<open>A loop \<open>for (i = 0; i < n; i++) body (i)\<close> over the kernel state.\<close>

fun kfor :: "nat \<Rightarrow> nat \<Rightarrow> (nat \<Rightarrow> ('s, unit) kern) \<Rightarrow> ('s, unit) kern" where
  "kfor i 0 body = kret ()"
| "kfor i (Suc n) body = kseq (body i) (kfor (Suc i) n body)"

text \<open>
  Total correctness: from every state that satisfies \<open>P\<close> the function does not fault, and its
  result and final state satisfy \<open>Q\<close>.
\<close>

definition hoare :: "('s \<Rightarrow> bool) \<Rightarrow> ('s, 'a) kern \<Rightarrow> ('a \<Rightarrow> 's \<Rightarrow> bool) \<Rightarrow> bool" where
  "hoare P m Q \<longleftrightarrow> (\<forall>s. P s \<longrightarrow> (\<exists>x t. m s = Inr (x, t) \<and> Q x t))"

lemma hoare_bind:
  assumes "hoare P m R" and "\<And>x. hoare (R x) (f x) Q"
  shows "hoare P (kbind m f) Q"
  using assms unfolding hoare_def kbind_Inr by blast

lemma hoare_weaken: "hoare P' m Q' \<Longrightarrow> (\<And>s. P s \<Longrightarrow> P' s) \<Longrightarrow> (\<And>x t. Q' x t \<Longrightarrow> Q x t) \<Longrightarrow> hoare P m Q"
  unfolding hoare_def by blast

lemma hoare_for:
  assumes "\<And>i. i0 \<le> i \<Longrightarrow> i < i0 + n \<Longrightarrow> hoare (I i) (body i) (\<lambda>_. I (Suc i))"
  shows "hoare (I i0) (kfor i0 n body) (\<lambda>_. I (i0 + n))"
  using assms
proof (induction n arbitrary: i0)
  case 0
  then show ?case by (simp add: hoare_def kret_def)
next
  case (Suc n)
  have step: "hoare (I i0) (body i0) (\<lambda>_. I (Suc i0))" by (rule Suc.prems) auto
  have rest: "hoare (I (Suc i0)) (kfor (Suc i0) n body) (\<lambda>_. I (Suc i0 + n))"
    by (rule Suc.IH) (simp add: Suc.prems)
  show ?case
    using hoare_bind [OF step] rest by (auto simp: kseq_def)
qed

text \<open>
  Invariants that hold whether or not the function faults: from a state that satisfies \<open>I\<close> the
  function returns in a state that satisfies it, or stops with a fault in \<open>F\<close>. The rules in
  \<open>inv_rules\<close> follow the structure of a definition.
\<close>

definition inv_on :: "('s \<Rightarrow> bool) \<Rightarrow> fault set \<Rightarrow> ('s, 'a) kern \<Rightarrow> bool" where
  "inv_on I F m \<longleftrightarrow> (\<forall>s. I s \<longrightarrow> (case m s of Inl e \<Rightarrow> e \<in> F | Inr (x, t) \<Rightarrow> I t))"

lemma inv_onI: "(\<And>s. I s \<Longrightarrow> (case m s of Inl e \<Rightarrow> e \<in> F | Inr (x, t) \<Rightarrow> I t)) \<Longrightarrow> inv_on I F m"
  by (simp add: inv_on_def)

lemma inv_onD: "inv_on I F m \<Longrightarrow> I s \<Longrightarrow> m s = Inr (x, t) \<Longrightarrow> I t"
  by (fastforce simp: inv_on_def)

lemma inv_on_fault: "inv_on I F m \<Longrightarrow> I s \<Longrightarrow> m s = Inl e \<Longrightarrow> e \<in> F"
  by (fastforce simp: inv_on_def)

lemma inv_kret [inv_rules]: "inv_on I F (kret x)"
  by (simp add: inv_on_def kret_def)

lemma inv_kfail [inv_rules]: "e \<in> F \<Longrightarrow> inv_on I F (kfail e)"
  by (simp add: inv_on_def kfail_def)

lemma inv_kget [inv_rules]: "inv_on I F (kget f)"
  by (simp add: inv_on_def kget_def)

lemma inv_kmod [inv_rules]: "(\<And>s. I s \<Longrightarrow> I (f s)) \<Longrightarrow> inv_on I F (kmod f)"
  by (simp add: inv_on_def kmod_def)

lemma inv_kbind [inv_rules]: "inv_on I F m \<Longrightarrow> (\<And>x. inv_on I F (f x)) \<Longrightarrow> inv_on I F (kbind m f)"
proof (rule inv_onI)
  fix s
  assume m: "inv_on I F m" and f: "\<And>x. inv_on I F (f x)" and s: "I s"
  show "case kbind m f s of Inl e \<Rightarrow> e \<in> F | Inr (x, t) \<Rightarrow> I t"
  proof (cases "m s")
    case (Inl e)
    then show ?thesis using inv_on_fault [OF m s] by (simp add: kbind_def)
  next
    case (Inr p)
    then obtain x t where "m s = Inr (x, t)" by (cases p) auto
    moreover from this have "I t" using inv_onD [OF m s] by blast
    ultimately show ?thesis using f [of x] by (auto simp: kbind_def inv_on_def)
  qed
qed

lemma inv_kseq [inv_rules]: "inv_on I F m \<Longrightarrow> inv_on I F n \<Longrightarrow> inv_on I F (kseq m n)"
  unfolding kseq_def by (rule inv_kbind)

lemma inv_kassert [inv_rules]: "AssertFailed \<in> F \<Longrightarrow> inv_on I F (kassert b)"
  by (simp add: inv_on_def kern_simps)

lemma inv_knonnull [inv_rules]: "NullDeref \<in> F \<Longrightarrow> inv_on I F (knonnull p)"
  by (simp add: inv_on_def kern_simps split: option.splits)

lemma inv_kfor [inv_rules]: "(\<And>i. inv_on I F (body i)) \<Longrightarrow> inv_on I F (kfor i n body)"
  by (induction n arbitrary: i) (auto intro: inv_rules)

lemma inv_if [inv_rules]: "(b \<Longrightarrow> inv_on I F m) \<Longrightarrow> (\<not> b \<Longrightarrow> inv_on I F n) \<Longrightarrow> inv_on I F (if b then m else n)"
  by simp

lemma inv_option [inv_rules]:
  "(o' = None \<Longrightarrow> inv_on I F m) \<Longrightarrow> (\<And>x. o' = Some x \<Longrightarrow> inv_on I F (n x)) \<Longrightarrow>
     inv_on I F (case o' of None \<Rightarrow> m | Some x \<Rightarrow> n x)"
  by (cases o') auto

lemma inv_prod [inv_rules]: "(\<And>x y. inv_on I F (f x y)) \<Longrightarrow> inv_on I F (case p of (x, y) \<Rightarrow> f x y)"
  by (cases p) auto

section \<open>Bit fields\<close>

text \<open>
  C bit fields as GCC and Clang lay them out on x86-64: the field of width \<open>w\<close> at bit offset
  \<open>o\<close> of a 64-bit word. Writing a value keeps its low \<open>w\<close> bits and the rest of the word.
\<close>

definition get_field :: "nat \<Rightarrow> nat \<Rightarrow> word_t \<Rightarrow> word_t" where
  "get_field off w x = take_bit w (drop_bit off x)"

definition set_field :: "nat \<Rightarrow> nat \<Rightarrow> word_t \<Rightarrow> word_t \<Rightarrow> word_t" where
  "set_field off w v x = (x AND NOT (push_bit off (mask w))) OR push_bit off (take_bit w v)"

lemma bit_get_field [simp]:
  "bit (get_field off w x) n \<longleftrightarrow> n < w \<and> bit x (off + n)"
  by (auto simp: get_field_def bit_simps)

lemma bit_set_field [simp]:
  "bit (set_field off w v x) n \<longleftrightarrow>
     n < 64 \<and> (if off \<le> n \<and> n < off + w then bit v (n - off) else bit x n)"
  by (auto simp: set_field_def bit_simps)

lemma get_set_field_same [bitfield_simps]:
  "off + w \<le> 64 \<Longrightarrow> get_field off w (set_field off w v x) = take_bit w v"
  by (rule bit_word_eqI) (auto simp: bit_simps)

lemma get_set_field_other [bitfield_simps]:
  "off + w \<le> off' \<or> off' + w' \<le> off \<Longrightarrow> get_field off w (set_field off' w' v x) = get_field off w x"
  by (rule bit_word_eqI) (auto simp: bit_simps dest: bit_imp_le_length)

lemma set_field_commute:
  "off + w \<le> off' \<or> off' + w' \<le> off \<Longrightarrow>
     set_field off w v (set_field off' w' v' x) = set_field off' w' v' (set_field off w v x)"
  by (rule bit_word_eqI) auto

lemma set_set_field [simp]: "set_field off w v (set_field off w v' x) = set_field off w v x"
  by (rule bit_word_eqI) auto

lemma set_get_field [simp]: "set_field off w (get_field off w x) x = x"
  by (rule bit_word_eqI) (auto simp: bit_simps dest: bit_imp_le_length)

lemma get_field_zero [simp]: "get_field off w 0 = 0"
  by (simp add: get_field_def)

lemma get_field_bound: "w < 64 \<Longrightarrow> unat (get_field off w x) < 2 ^ w"
  by (simp add: get_field_def unsigned_take_bit_eq)

lemma take_bit_word_small: "unat v < 2 ^ w \<Longrightarrow> take_bit w v = (v :: 'a :: len word)"
  by (metis take_bit_nat_eq_self unsigned_take_bit_eq word_unat_eq_iff)

section \<open>Lists\<close>

lemma last_notin_butlast: "distinct xs \<Longrightarrow> xs \<noteq> [] \<Longrightarrow> last xs \<notin> set (butlast xs)"
  by (cases xs rule: rev_cases) auto

section \<open>Words\<close>

lemma bit64: "bit (w :: word_t) n \<Longrightarrow> n < 64"
  using bit_imp_le_length [of w n] by simp

lemma unat_push_bit_1:
  assumes "n < LENGTH('a)"
  shows "unat (push_bit n 1 :: 'a :: len word) = 2 ^ n"
proof -
  have "push_bit n 1 = (of_nat (2 ^ n) :: 'a word)" by simp
  moreover have "take_bit LENGTH('a) (2 ^ n :: nat) = 2 ^ n"
    using assms by (simp add: take_bit_nat_eq_self)
  ultimately show ?thesis by (simp only: unat_of_nat take_bit_eq_mod)
qed

lemma unat_add_small: "unat a + unat b < 2 ^ 64 \<Longrightarrow> unat (a + b :: word_t) = unat a + unat b"
  by (simp add: unat_word_ariths)

lemma unat_of_small_nat: "k < 2 ^ 64 \<Longrightarrow> unat (of_nat k :: word_t) = k"
  by (simp add: unat_of_nat)

end
