(* ===== verification/Capability.thy ===== *)
theory Capability
  imports Prelude
begin

text \<open>
  Capabilities (\<open>include/kern/cap.h\<close>, \<open>include/sys/types.h\<close>, \<open>include/sys/syscall.h\<close>). A
  capability is the union of two machine words with a bit-field struct; it is kept here as the two
  words, every field being read and written through its bit offset, so that what
  \<open>cnode_debug_get\<close> exposes and what a truncating store loses are part of the model. The bit
  fields satisfy the laws of the locale \<open>field_lens\<close>; the object pointer, packed in 44 bits,
  survives the round trip for exactly the pointers that the store accepts.
\<close>

section \<open>Object types, rights\<close>

abbreviation (input) CAP_NULL :: word_t where "CAP_NULL \<equiv> 0"
abbreviation (input) CAP_ENDPOINT :: word_t where "CAP_ENDPOINT \<equiv> 1"
abbreviation (input) CAP_REPLY :: word_t where "CAP_REPLY \<equiv> 2"
abbreviation (input) CAP_NOTIFICATION :: word_t where "CAP_NOTIFICATION \<equiv> 3"
abbreviation (input) CAP_CNODE :: word_t where "CAP_CNODE \<equiv> 4"
abbreviation (input) CAP_TCB :: word_t where "CAP_TCB \<equiv> 5"
abbreviation (input) CAP_UNTYPED :: word_t where "CAP_UNTYPED \<equiv> 6"
abbreviation (input) CAP_X86_64_IO_PORT :: word_t where "CAP_X86_64_IO_PORT \<equiv> 7"
abbreviation (input) CAP_X86_64_IO_PORT_CONTROL :: word_t where "CAP_X86_64_IO_PORT_CONTROL \<equiv> 8"
abbreviation (input) CAP_X86_64_PML4 :: word_t where "CAP_X86_64_PML4 \<equiv> 9"
abbreviation (input) CAP_X86_64_PDPT :: word_t where "CAP_X86_64_PDPT \<equiv> 10"
abbreviation (input) CAP_X86_64_PD :: word_t where "CAP_X86_64_PD \<equiv> 11"
abbreviation (input) CAP_X86_64_PT :: word_t where "CAP_X86_64_PT \<equiv> 12"
abbreviation (input) CAP_X86_64_PAGE :: word_t where "CAP_X86_64_PAGE \<equiv> 13"
abbreviation (input) CAP_X86_64_HUGE_PAGE :: word_t where "CAP_X86_64_HUGE_PAGE \<equiv> 14"
abbreviation (input) CAP_IRQ_CONTROL :: word_t where "CAP_IRQ_CONTROL \<equiv> 15"
abbreviation (input) CAP_IRQ_HANDLER :: word_t where "CAP_IRQ_HANDLER \<equiv> 16"
abbreviation (input) MAX_CAP_TYPE :: word_t where "MAX_CAP_TYPE \<equiv> 17"

definition cap_type_string :: "word_t \<Rightarrow> string" where
  "cap_type_string type =
     (if type = CAP_NULL then ''null''
      else if type = CAP_ENDPOINT then ''endpoint''
      else if type = CAP_REPLY then ''reply''
      else if type = CAP_NOTIFICATION then ''notification''
      else if type = CAP_CNODE then ''cnode''
      else if type = CAP_TCB then ''tcb''
      else if type = CAP_UNTYPED then ''untyped''
      else if type = CAP_X86_64_IO_PORT then ''x86_64_io_port''
      else if type = CAP_X86_64_IO_PORT_CONTROL then ''x86_64_io_port_control''
      else if type = CAP_X86_64_PML4 then ''x86_64_pml4''
      else if type = CAP_X86_64_PDPT then ''x86_64_pdpt''
      else if type = CAP_X86_64_PD then ''x86_64_pd''
      else if type = CAP_X86_64_PT then ''x86_64_pt''
      else if type = CAP_X86_64_PAGE then ''x86_64_page''
      else if type = CAP_X86_64_HUGE_PAGE then ''x86_64_huge_page''
      else if type = CAP_IRQ_CONTROL then ''irq_control''
      else if type = CAP_IRQ_HANDLER then ''irq_handler''
      else ''unknown'')"

abbreviation (input) CAP_RIGHTS_ALL :: word_t where "CAP_RIGHTS_ALL \<equiv> 0x1F"

text \<open>\<open>BIT (x)\<close> of \<open>include/sys/cdefs.h\<close>. Every shift in the kernel is by less than 64.\<close>

definition BIT :: "word_t \<Rightarrow> word_t" where
  "BIT x = push_bit (unat x) 1"

definition ALIGN_DOWN :: "word_t \<Rightarrow> word_t \<Rightarrow> word_t" where
  "ALIGN_DOWN x a = x AND NOT (a - 1)"

definition ALIGN_UP :: "word_t \<Rightarrow> word_t \<Rightarrow> word_t" where
  "ALIGN_UP x a = ALIGN_DOWN (x + a - 1) a"

section \<open>Packed pointers\<close>

definition BITS_PTR_MASK :: word_t where
  "BITS_PTR_MASK = 0xFFFFFFFFFFF0"

definition is_safe_cap_ptr :: "addr \<Rightarrow> bool" where
  "is_safe_cap_ptr p \<longleftrightarrow>
     (if p AND 0xF \<noteq> 0 then False
      else if drop_bit 47 p \<noteq> 0x1FFFF \<and> drop_bit 47 p \<noteq> 0 then False
      else True)"

definition bits_pointer :: "word_t \<Rightarrow> addr" where
  "bits_pointer bits =
     (let ptr_bits = bits AND BITS_PTR_MASK
      in if ptr_bits AND 0x800000000000 \<noteq> 0 then ptr_bits OR 0xFFFF000000000000 else ptr_bits)"

definition set_bits_pointer :: "word_t \<Rightarrow> addr \<Rightarrow> fault + word_t" where
  "set_bits_pointer bits ptr =
     (if is_safe_cap_ptr ptr
      then Inr ((bits AND NOT BITS_PTR_MASK) OR (ptr AND BITS_PTR_MASK))
      else Inl AssertFailed)"

section \<open>The capability union\<close>

record cap_t =
  cap_word0 :: word_t
  cap_badge :: word_t

definition cap_is_original :: "cap_t \<Rightarrow> bool" where
  "cap_is_original c \<longleftrightarrow> get_field 0 1 (cap_word0 c) \<noteq> 0"

definition cap_set_is_original :: "bool \<Rightarrow> cap_t \<Rightarrow> cap_t" where
  "cap_set_is_original b c = c\<lparr>cap_word0 := set_field 0 1 (of_bool b) (cap_word0 c)\<rparr>"

definition cap_is_device :: "cap_t \<Rightarrow> bool" where
  "cap_is_device c \<longleftrightarrow> get_field 1 1 (cap_word0 c) \<noteq> 0"

definition cap_set_is_device :: "bool \<Rightarrow> cap_t \<Rightarrow> cap_t" where
  "cap_set_is_device b c = c\<lparr>cap_word0 := set_field 1 1 (of_bool b) (cap_word0 c)\<rparr>"

definition cap_ptr_bits :: "cap_t \<Rightarrow> word_t" where
  "cap_ptr_bits c = get_field 4 44 (cap_word0 c)"

definition cap_set_ptr_bits :: "word_t \<Rightarrow> cap_t \<Rightarrow> cap_t" where
  "cap_set_ptr_bits v c = c\<lparr>cap_word0 := set_field 4 44 v (cap_word0 c)\<rparr>"

definition cap_size_bits :: "cap_t \<Rightarrow> word_t" where
  "cap_size_bits c = get_field 48 6 (cap_word0 c)"

definition cap_set_size_bits :: "word_t \<Rightarrow> cap_t \<Rightarrow> cap_t" where
  "cap_set_size_bits v c = c\<lparr>cap_word0 := set_field 48 6 v (cap_word0 c)\<rparr>"

definition cap_rights :: "cap_t \<Rightarrow> word_t" where
  "cap_rights c = get_field 54 5 (cap_word0 c)"

definition cap_set_rights :: "word_t \<Rightarrow> cap_t \<Rightarrow> cap_t" where
  "cap_set_rights v c = c\<lparr>cap_word0 := set_field 54 5 v (cap_word0 c)\<rparr>"

definition cap_type :: "cap_t \<Rightarrow> word_t" where
  "cap_type c = get_field 59 5 (cap_word0 c)"

definition cap_set_type :: "word_t \<Rightarrow> cap_t \<Rightarrow> cap_t" where
  "cap_set_type v c = c\<lparr>cap_word0 := set_field 59 5 v (cap_word0 c)\<rparr>"

definition cap_set_badge :: "word_t \<Rightarrow> cap_t \<Rightarrow> cap_t" where
  "cap_set_badge v c = c\<lparr>cap_badge := v\<rparr>"

definition cap_ptr :: "cap_t \<Rightarrow> addr" where
  "cap_ptr c = bits_pointer (cap_word0 c)"

definition cap_set_ptr :: "addr \<Rightarrow> cap_t \<Rightarrow> fault + cap_t" where
  "cap_set_ptr p c =
     (case set_bits_pointer (cap_word0 c) p of
        Inl e \<Rightarrow> Inl e | Inr w \<Rightarrow> Inr (c\<lparr>cap_word0 := w\<rparr>))"

definition cap_size :: "cap_t \<Rightarrow> word_t" where
  "cap_size c = BIT (cap_size_bits c)"

section \<open>Constructors\<close>

text \<open>A designated initialiser leaves every other field zero.\<close>

definition zero_cap :: cap_t where
  "zero_cap = \<lparr>cap_word0 = 0, cap_badge = 0\<rparr>"

definition new_null_cap :: cap_t where
  "new_null_cap = cap_set_type CAP_NULL zero_cap"

definition new_untyped_cap :: "addr \<Rightarrow> word_t \<Rightarrow> fault + cap_t" where
  "new_untyped_cap paddr size_bits =
     cap_set_ptr paddr (cap_set_size_bits size_bits (cap_set_type CAP_UNTYPED zero_cap))"

definition new_untyped_device_cap :: "addr \<Rightarrow> word_t \<Rightarrow> fault + cap_t" where
  "new_untyped_device_cap paddr size_bits =
     cap_set_ptr paddr (cap_set_is_device True (cap_set_size_bits size_bits (cap_set_type CAP_UNTYPED zero_cap)))"

definition new_endpoint_cap :: "addr \<Rightarrow> word_t \<Rightarrow> fault + cap_t" where
  "new_endpoint_cap endpoint badge =
     cap_set_ptr endpoint (cap_set_badge badge (cap_set_type CAP_ENDPOINT zero_cap))"

definition new_cnode_cap :: "addr \<Rightarrow> word_t \<Rightarrow> fault + cap_t" where
  "new_cnode_cap cnode size_bits =
     cap_set_ptr cnode (cap_set_size_bits size_bits (cap_set_type CAP_CNODE zero_cap))"

definition new_tcb_cap :: "addr \<Rightarrow> fault + cap_t" where
  "new_tcb_cap tcb = cap_set_ptr tcb (cap_set_type CAP_TCB zero_cap)"

definition new_x86_64_io_port_control_cap :: cap_t where
  "new_x86_64_io_port_control_cap = cap_set_type CAP_X86_64_IO_PORT_CONTROL zero_cap"

definition new_x86_64_io_port_cap :: "u16 \<Rightarrow> u16 \<Rightarrow> cap_t" where
  "new_x86_64_io_port_cap first_port last_port =
     cap_set_badge (ucast last_port)
       (cap_set_ptr_bits (ucast first_port) (cap_set_type CAP_X86_64_IO_PORT zero_cap))"

definition cap_x86_64_io_port_first_port :: "cap_t \<Rightarrow> u16" where
  "cap_x86_64_io_port_first_port c = ucast (cap_ptr_bits c)"

definition cap_x86_64_io_port_last_port :: "cap_t \<Rightarrow> u16" where
  "cap_x86_64_io_port_last_port c = ucast (cap_badge c)"

definition new_x86_64_pml4_cap :: "addr \<Rightarrow> fault + cap_t" where
  "new_x86_64_pml4_cap pml4_phy = cap_set_ptr pml4_phy (cap_set_type CAP_X86_64_PML4 zero_cap)"

definition new_x86_64_pdpt_cap :: "addr \<Rightarrow> fault + cap_t" where
  "new_x86_64_pdpt_cap pdpt_phy = cap_set_ptr pdpt_phy (cap_set_type CAP_X86_64_PDPT zero_cap)"

definition new_x86_64_pd_cap :: "addr \<Rightarrow> fault + cap_t" where
  "new_x86_64_pd_cap pd_phy = cap_set_ptr pd_phy (cap_set_type CAP_X86_64_PD zero_cap)"

definition new_x86_64_pt_cap :: "addr \<Rightarrow> fault + cap_t" where
  "new_x86_64_pt_cap pt_phy = cap_set_ptr pt_phy (cap_set_type CAP_X86_64_PT zero_cap)"

definition new_x86_64_page_cap :: "addr \<Rightarrow> fault + cap_t" where
  "new_x86_64_page_cap frame_phy = cap_set_ptr frame_phy (cap_set_type CAP_X86_64_PAGE zero_cap)"

definition new_irq_control_cap :: cap_t where
  "new_irq_control_cap = cap_set_type CAP_IRQ_CONTROL zero_cap"

definition new_irq_handler_cap :: "word_t \<Rightarrow> cap_t" where
  "new_irq_handler_cap irq = cap_set_size_bits irq (cap_set_type CAP_IRQ_HANDLER zero_cap)"

section \<open>Laws of the fields\<close>

text \<open>A field of a record-like value that may truncate what is stored in it.\<close>

locale field_lens =
  fixes get :: "'s \<Rightarrow> 'v" and put :: "'v \<Rightarrow> 's \<Rightarrow> 's" and norm :: "'v \<Rightarrow> 'v"
  assumes get_put: "get (put v s) = norm v"
    and put_get: "put (get s) s = s"
    and put_put: "put v (put v' s) = put v s"
begin

lemma norm_get: "norm (get s) = get s"
  using get_put [of "get s" s] put_get [of s] by simp

lemma norm_norm: "norm (norm v) = norm v"
  using get_put norm_get by metis

lemma put_norm: "put (norm v) s = put v s"
  using get_put put_get put_put by metis

lemma put_eq_iff: "put v s = put w s \<longleftrightarrow> norm v = norm w"
  using get_put put_norm by metis

end

lemmas cap_field_defs =
  cap_is_original_def cap_set_is_original_def cap_is_device_def cap_set_is_device_def
  cap_ptr_bits_def cap_set_ptr_bits_def cap_size_bits_def cap_set_size_bits_def
  cap_rights_def cap_set_rights_def cap_type_def cap_set_type_def cap_set_badge_def

lemma of_bool_get_field_1: "of_bool (get_field off 1 x \<noteq> 0) = get_field off (Suc 0) x"
  by (simp add: get_field_def take_bit_eq_mod mod_2_eq_odd)

interpretation is_original_field: field_lens cap_is_original cap_set_is_original "\<lambda>b. b"
  by unfold_locales
    (simp_all add: cap_field_defs get_set_field_same of_bool_get_field_1 [simplified])

interpretation ptr_field: field_lens cap_ptr_bits cap_set_ptr_bits "take_bit 44"
  by unfold_locales (simp_all add: cap_field_defs get_set_field_same)

interpretation size_field: field_lens cap_size_bits cap_set_size_bits "take_bit 6"
  by unfold_locales (simp_all add: cap_field_defs get_set_field_same)

interpretation rights_field: field_lens cap_rights cap_set_rights "take_bit 5"
  by unfold_locales (simp_all add: cap_field_defs get_set_field_same)

interpretation type_field: field_lens cap_type cap_set_type "take_bit 5"
  by unfold_locales (simp_all add: cap_field_defs get_set_field_same)

interpretation badge_field: field_lens cap_badge cap_set_badge "\<lambda>v. v"
  by unfold_locales (simp_all add: cap_field_defs)


text \<open>Each setter leaves every other field alone.\<close>

lemma cap_set_is_original_frame [simp]:
  "cap_ptr_bits (cap_set_is_original v c) = cap_ptr_bits c"
  "cap_size_bits (cap_set_is_original v c) = cap_size_bits c"
  "cap_rights (cap_set_is_original v c) = cap_rights c"
  "cap_type (cap_set_is_original v c) = cap_type c"
  "cap_badge (cap_set_is_original v c) = cap_badge c"
  "cap_is_device (cap_set_is_original v c) = cap_is_device c"
  by (simp_all add: cap_field_defs bitfield_simps)

lemma cap_set_is_device_frame [simp]:
  "cap_is_original (cap_set_is_device v c) = cap_is_original c"
  "cap_ptr_bits (cap_set_is_device v c) = cap_ptr_bits c"
  "cap_size_bits (cap_set_is_device v c) = cap_size_bits c"
  "cap_rights (cap_set_is_device v c) = cap_rights c"
  "cap_type (cap_set_is_device v c) = cap_type c"
  "cap_badge (cap_set_is_device v c) = cap_badge c"
  by (simp_all add: cap_field_defs bitfield_simps)

lemma cap_set_ptr_bits_frame [simp]:
  "cap_is_original (cap_set_ptr_bits v c) = cap_is_original c"
  "cap_size_bits (cap_set_ptr_bits v c) = cap_size_bits c"
  "cap_rights (cap_set_ptr_bits v c) = cap_rights c"
  "cap_type (cap_set_ptr_bits v c) = cap_type c"
  "cap_badge (cap_set_ptr_bits v c) = cap_badge c"
  "cap_is_device (cap_set_ptr_bits v c) = cap_is_device c"
  by (simp_all add: cap_field_defs bitfield_simps)

lemma cap_set_size_bits_frame [simp]:
  "cap_is_original (cap_set_size_bits v c) = cap_is_original c"
  "cap_ptr_bits (cap_set_size_bits v c) = cap_ptr_bits c"
  "cap_rights (cap_set_size_bits v c) = cap_rights c"
  "cap_type (cap_set_size_bits v c) = cap_type c"
  "cap_badge (cap_set_size_bits v c) = cap_badge c"
  "cap_is_device (cap_set_size_bits v c) = cap_is_device c"
  by (simp_all add: cap_field_defs bitfield_simps)

lemma cap_set_rights_frame [simp]:
  "cap_is_original (cap_set_rights v c) = cap_is_original c"
  "cap_ptr_bits (cap_set_rights v c) = cap_ptr_bits c"
  "cap_size_bits (cap_set_rights v c) = cap_size_bits c"
  "cap_type (cap_set_rights v c) = cap_type c"
  "cap_badge (cap_set_rights v c) = cap_badge c"
  "cap_is_device (cap_set_rights v c) = cap_is_device c"
  by (simp_all add: cap_field_defs bitfield_simps)

lemma cap_set_type_frame [simp]:
  "cap_is_original (cap_set_type v c) = cap_is_original c"
  "cap_ptr_bits (cap_set_type v c) = cap_ptr_bits c"
  "cap_size_bits (cap_set_type v c) = cap_size_bits c"
  "cap_rights (cap_set_type v c) = cap_rights c"
  "cap_badge (cap_set_type v c) = cap_badge c"
  "cap_is_device (cap_set_type v c) = cap_is_device c"
  by (simp_all add: cap_field_defs bitfield_simps)

lemma cap_set_badge_frame [simp]:
  "cap_is_original (cap_set_badge v c) = cap_is_original c"
  "cap_ptr_bits (cap_set_badge v c) = cap_ptr_bits c"
  "cap_size_bits (cap_set_badge v c) = cap_size_bits c"
  "cap_rights (cap_set_badge v c) = cap_rights c"
  "cap_type (cap_set_badge v c) = cap_type c"
  "cap_is_device (cap_set_badge v c) = cap_is_device c"
  by (simp_all add: cap_field_defs bitfield_simps)

declare is_original_field.get_put [simp] ptr_field.get_put [simp] size_field.get_put [simp]
  rights_field.get_put [simp] type_field.get_put [simp] badge_field.get_put [simp]

section \<open>The packed pointer\<close>

lemma numeral_masks:
  "BITS_PTR_MASK = push_bit 4 (mask 44)"
  "(0xFFFF000000000000 :: word_t) = push_bit 48 (mask 16)"
  "(0x800000000000 :: word_t) = push_bit 47 (mask 1)"
  "(0xF :: word_t) = push_bit 0 (mask 4)"
  "(0x1FFFF :: word_t) = push_bit 0 (mask 17)"
  by (simp_all add: BITS_PTR_MASK_def mask_eq_exp_minus_1)

lemma and_push_mask_eq_0:
  "(w AND push_bit k (mask m) = (0 :: word_t)) \<longleftrightarrow> (\<forall>n. k \<le> n \<and> n < k + m \<longrightarrow> \<not> bit w n)"
proof -
  have "bit (w AND push_bit k (mask m)) n \<longleftrightarrow> bit w n \<and> k \<le> n \<and> n < k + m" for n
    by (auto simp: bit_simps dest: bit_imp_le_length)
  then show ?thesis by (auto simp: bit_eq_iff dest: bit64)
qed

lemma bit_bits_pointer:
  "bit (bits_pointer w) n \<longleftrightarrow> (if 4 \<le> n \<and> n < 48 then bit w n else 48 \<le> n \<and> n < 64 \<and> bit w 47)"
  unfolding bits_pointer_def Let_def numeral_masks and_push_mask_eq_0
  by (auto simp: bit_simps dest: le_SucI order.antisym)

lemma is_safe_cap_ptr_bits:
  "is_safe_cap_ptr p \<longleftrightarrow> (\<forall>n < 4. \<not> bit p n) \<and> (\<forall>n. 48 \<le> n \<and> n < 64 \<longrightarrow> bit p n = bit p 47)"
proof -
  have shift: "(\<forall>n. Q (47 + n)) \<longleftrightarrow> (\<forall>n \<ge> 47. Q n)" for Q :: "nat \<Rightarrow> bool"
    by (metis le_add1 le_add_diff_inverse)
  have big: "\<not> bit p (47 + n)" if "64 \<le> n" for n
    using that bit64 [of p "47 + n"] by auto
  have "drop_bit 47 p = 0 \<longleftrightarrow> (\<forall>n. \<not> bit p (47 + n))"
    by (simp add: bit_eq_iff bit_drop_bit_eq) (use big not_less in blast)
  also have "\<dots> \<longleftrightarrow> (\<forall>n \<ge> 47. \<not> bit p n)" by (rule shift)
  finally have z: "drop_bit 47 p = 0 \<longleftrightarrow> (\<forall>n. 47 \<le> n \<and> n < 64 \<longrightarrow> \<not> bit p n)"
    by (auto dest: bit64)
  have "drop_bit 47 p = push_bit 0 (mask 17) \<longleftrightarrow> (\<forall>n. bit p (47 + n) = (n < 17))"
  proof -
    have "bit (drop_bit 47 p) n = bit (push_bit 0 (mask 17) :: word_t) n \<longleftrightarrow> bit p (47 + n) = (n < 17)" for n
      by (auto simp: bit_drop_bit_eq bit_mask_iff)
    then show ?thesis by (metis bit_word_eqI)
  qed
  also have "\<dots> \<longleftrightarrow> (\<forall>n \<ge> 47. bit p n = (n < 64))"
    using shift [of "\<lambda>n. bit p n = (n < 64)"] by simp
  finally have o: "drop_bit 47 p = push_bit 0 (mask 17) \<longleftrightarrow> (\<forall>n. 47 \<le> n \<and> n < 64 \<longrightarrow> bit p n)"
    by (auto dest: bit64)
  have split: "(\<forall>n. 47 \<le> n \<and> n < 64 \<longrightarrow> Q n) \<longleftrightarrow> Q 47 \<and> (\<forall>n. 48 \<le> n \<and> n < 64 \<longrightarrow> Q n)"
    for Q :: "nat \<Rightarrow> bool"
  proof -
    have "47 \<le> n \<and> n < 64 \<longleftrightarrow> n = 47 \<or> 48 \<le> n \<and> n < 64" for n :: nat by arith
    then show ?thesis by auto
  qed
  show ?thesis
    unfolding is_safe_cap_ptr_def numeral_masks z o and_push_mask_eq_0
      split [of "bit p"] split [of "\<lambda>n. \<not> bit p n"]
    by (cases "bit p 47") auto
qed

lemma bit_set_bits_pointer:
  "set_bits_pointer w p = Inr w' \<Longrightarrow>
     bit w' n \<longleftrightarrow> (if 4 \<le> n \<and> n < 48 then bit p n else bit w n)"
  unfolding set_bits_pointer_def numeral_masks
  by (auto simp: bit_simps split: if_splits dest: bit64)

lemma set_bits_pointer_fields:
  "set_bits_pointer w p = Inr w' \<Longrightarrow> off + k \<le> 4 \<or> 48 \<le> off \<Longrightarrow> get_field off k w' = get_field off k w"
  by (rule bit_word_eqI) (auto simp: bit_set_bits_pointer)

lemma bits_pointer_set:
  assumes "set_bits_pointer w p = Inr w'"
  shows "bits_pointer w' = p"
proof (rule bit_word_eqI)
  fix n assume n: "n < LENGTH(64)"
  have "is_safe_cap_ptr p"
    using assms by (auto simp: set_bits_pointer_def split: if_splits)
  then have low: "n < 4 \<Longrightarrow> \<not> bit p n" and high: "48 \<le> n \<Longrightarrow> bit p n = bit p 47"
    using n by (simp_all add: is_safe_cap_ptr_bits)
  have w': "bit w' 47 = bit p 47" "4 \<le> n \<Longrightarrow> n < 48 \<Longrightarrow> bit w' n = bit p n"
    using bit_set_bits_pointer [OF assms, of 47] bit_set_bits_pointer [OF assms, of n] by auto
  consider "n < 4" | "4 \<le> n" "n < 48" | "48 \<le> n" by linarith
  then show "bit (bits_pointer w') n = bit p n"
    by cases (use n low high w' in \<open>simp_all add: bit_bits_pointer\<close>)
qed

lemma is_safe_bits_pointer: "is_safe_cap_ptr (bits_pointer w)"
  by (simp add: is_safe_cap_ptr_bits bit_bits_pointer)

lemma cap_set_ptr_Inr:
  "cap_set_ptr p c = Inr c' \<longleftrightarrow>
     is_safe_cap_ptr p \<and> (\<exists>w. set_bits_pointer (cap_word0 c) p = Inr w \<and> c' = c\<lparr>cap_word0 := w\<rparr>)"
  by (auto simp: cap_set_ptr_def set_bits_pointer_def split: if_splits)

lemma cap_set_ptr_frame:
  assumes "cap_set_ptr p c = Inr c'"
  shows "cap_ptr c' = p" "cap_type c' = cap_type c" "cap_rights c' = cap_rights c"
    "cap_size_bits c' = cap_size_bits c" "cap_is_original c' = cap_is_original c"
    "cap_is_device c' = cap_is_device c" "cap_badge c' = cap_badge c"
  using assms
  by (auto simp: cap_set_ptr_Inr cap_ptr_def bits_pointer_set cap_field_defs
      set_bits_pointer_fields [where off = 59] set_bits_pointer_fields [where off = 54]
      set_bits_pointer_fields [where off = 48] set_bits_pointer_fields [where off = 0]
      set_bits_pointer_fields [where off = "Suc 0"])

lemma cap_set_ptr_total: "(\<exists>c'. cap_set_ptr p c = Inr c') \<longleftrightarrow> is_safe_cap_ptr p"
  by (auto simp: cap_set_ptr_Inr set_bits_pointer_def)

lemma cap_ptr_frame [simp]:
  "cap_ptr (cap_set_rights v c) = cap_ptr c"
  "cap_ptr (cap_set_is_original b c) = cap_ptr c"
  "cap_ptr (cap_set_badge v c) = cap_ptr c"
  "cap_ptr (cap_set_size_bits v c) = cap_ptr c"
  "cap_ptr (cap_set_type v c) = cap_ptr c"
  by (rule bit_word_eqI, auto simp: cap_ptr_def bit_bits_pointer cap_field_defs)+

lemma cap_size_frame [simp]:
  "cap_size (cap_set_rights v c) = cap_size c"
  "cap_size (cap_set_is_original b c) = cap_size c"
  "cap_size (cap_set_badge v c) = cap_size c"
  by (simp_all add: cap_size_def)

lemma zero_cap_fields [simp]:
  "cap_type zero_cap = 0" "cap_badge zero_cap = 0" "cap_rights zero_cap = 0"
  "cap_size_bits zero_cap = 0" "\<not> cap_is_original zero_cap" "\<not> cap_is_device zero_cap"
  by (simp_all add: zero_cap_def cap_field_defs)

lemma new_null_cap_eq: "new_null_cap = zero_cap"
  by (simp add: new_null_cap_def zero_cap_def cap_set_type_def set_field_def)

lemma type_null [simp]: "cap_type new_null_cap = 0"
  by (simp add: new_null_cap_eq)

lemma unat_cap_size_bits: "unat (cap_size_bits c) < 64"
  using get_field_bound [of 6 48 "cap_word0 c"] by (simp add: cap_size_bits_def)

lemma unat_BIT: "unat x < 64 \<Longrightarrow> unat (BIT x) = 2 ^ unat x"
  by (simp add: BIT_def unat_push_bit_1 del: push_bit_of_1)

text \<open>A capability whose pointer field is written directly.\<close>

lemma cap_ptr_set_ptr_bits:
  assumes "is_safe_cap_ptr p"
  shows "cap_ptr (cap_set_ptr_bits (drop_bit 4 p) c) = p"
proof (rule bit_word_eqI)
  fix n assume n: "n < LENGTH(64)"
  have low: "n < 4 \<Longrightarrow> \<not> bit p n" and high: "48 \<le> n \<Longrightarrow> bit p n = bit p 47"
    using assms n by (simp_all add: is_safe_cap_ptr_bits)
  consider "n < 4" | "4 \<le> n" "n < 48" | "48 \<le> n" by linarith
  then show "bit (cap_ptr (cap_set_ptr_bits (drop_bit 4 p) c)) n = bit p n"
    by cases (use n low high in \<open>simp_all add: cap_ptr_def bit_bits_pointer cap_set_ptr_bits_def bit_drop_bit_eq\<close>)
qed

section \<open>Alignment\<close>

lemma unat_align_down: "unat (w AND NOT (mask k) :: word_t) = unat w div 2 ^ k * 2 ^ k"
proof -
  have "w AND NOT (mask k) = push_bit k (drop_bit k w)"
    by (rule bit_word_eqI) (auto simp: bit_simps)
  moreover have "unat w div 2 ^ k * 2 ^ k < 2 ^ 64"
    using unsigned_less [of w, where 'a = nat] by (simp add: order.strict_trans1 [OF div_times_less_eq_dividend])
  moreover have "unat (push_bit k (drop_bit k w)) = take_bit 64 (push_bit k (unat (drop_bit k w)))"
    by (simp only: unsigned_push_bit_eq) simp
  moreover have "unat (drop_bit k w) = unat w div 2 ^ k"
    using unsigned_less [of w, where 'a = nat] by (simp only: unsigned_drop_bit_eq) (simp add: drop_bit_eq_div take_bit_nat_eq_self)
  ultimately show ?thesis by (simp only: push_bit_eq_mult take_bit_nat_eq_self)
qed

lemma unat_ALIGN_UP:
  assumes "a = push_bit k 1" "k < 64" "unat x + 2 ^ k \<le> 2 ^ 64"
  shows "unat (ALIGN_UP x a) = (unat x + 2 ^ k - 1) div 2 ^ k * 2 ^ k"
proof -
  have a: "unat a = 2 ^ k" using assms(1,2) by (simp add: unat_push_bit_1 del: push_bit_of_1)
  have m: "a - 1 = mask k" using assms(1) by (simp add: mask_eq_exp_minus_1)
  have pos: "0 < (2 :: nat) ^ k" by simp
  have 1: "unat (a - 1) = 2 ^ k - 1" using a pos by (metis unat_minus_one unat_gt_0 less_numeral_extra(3) unsigned_0)
  have eq: "x + a - 1 = x + (a - 1)" by simp
  have "unat (x + (a - 1)) = unat x + unat (a - 1)" using assms(3) pos 1 by (intro unat_add_small) linarith
  then have "unat (x + a - 1) = unat x + 2 ^ k - 1" unfolding eq using 1 pos by simp
  then show ?thesis unfolding ALIGN_UP_def ALIGN_DOWN_def m unat_align_down by simp
qed

end
