(* ===== verification/Message.thy ===== *)
theory Message
  imports Capability
begin

text \<open>
  Message tags (\<open>include/sys/ipc.h\<close>), error codes and method numbers (\<open>include/sys/syscall.h\<close>), and
  the result tags of \<open>include/kern/syscall.h\<close> that write no message register. A tag is the 64-bit word
  that travels in a register; its fields are read and written at their bit offsets. The outcome
  \<open>msg_noreturn\<close> marks a result that is not delivered.
\<close>

section \<open>Error codes and method numbers\<close>

abbreviation (input) NO_ERROR :: word_t where "NO_ERROR \<equiv> 0"
abbreviation (input) ALIGNMENT_ERROR :: word_t where "ALIGNMENT_ERROR \<equiv> 1"
abbreviation (input) DELETE_FIRST :: word_t where "DELETE_FIRST \<equiv> 2"
abbreviation (input) FAILED_LOOKUP :: word_t where "FAILED_LOOKUP \<equiv> 3"
abbreviation (input) ILLEGAL_OPERATION :: word_t where "ILLEGAL_OPERATION \<equiv> 4"
abbreviation (input) INVALID_ARGUMENT :: word_t where "INVALID_ARGUMENT \<equiv> 5"
abbreviation (input) INVALID_CAPABILITY :: word_t where "INVALID_CAPABILITY \<equiv> 6"
abbreviation (input) INVALID_SYSCALL :: word_t where "INVALID_SYSCALL \<equiv> 7"
abbreviation (input) INVALID_ROOT :: word_t where "INVALID_ROOT \<equiv> 8"
abbreviation (input) NOT_ENOUGH_MEMORY :: word_t where "NOT_ENOUGH_MEMORY \<equiv> 9"
abbreviation (input) RANGE_ERROR :: word_t where "RANGE_ERROR \<equiv> 10"
abbreviation (input) REVOKE_FIRST :: word_t where "REVOKE_FIRST \<equiv> 11"
abbreviation (input) TRUNCATED_MESSAGE :: word_t where "TRUNCATED_MESSAGE \<equiv> 12"
abbreviation (input) UNKNOWN_MESSAGE :: word_t where "UNKNOWN_MESSAGE \<equiv> 13"
abbreviation (input) WOULD_BLOCK :: word_t where "WOULD_BLOCK \<equiv> 14"
abbreviation (input) MAX_ERROR_CODE :: word_t where "MAX_ERROR_CODE \<equiv> 15"

definition error_string :: "word_t \<Rightarrow> string" where
  "error_string error =
     (if error = NO_ERROR then ''no error''
      else if error = ALIGNMENT_ERROR then ''alignment error''
      else if error = DELETE_FIRST then ''delete first''
      else if error = FAILED_LOOKUP then ''failed lookup''
      else if error = ILLEGAL_OPERATION then ''illegal operation''
      else if error = INVALID_ARGUMENT then ''invalid argument''
      else if error = INVALID_CAPABILITY then ''invalid capability''
      else if error = INVALID_SYSCALL then ''invalid syscall''
      else if error = INVALID_ROOT then ''invalid root''
      else if error = NOT_ENOUGH_MEMORY then ''not enough memory''
      else if error = RANGE_ERROR then ''range error''
      else if error = REVOKE_FIRST then ''revoke first''
      else if error = TRUNCATED_MESSAGE then ''truncated message''
      else if error = UNKNOWN_MESSAGE then ''unknown message''
      else if error = WOULD_BLOCK then ''would block''
      else ''unknown'')"

abbreviation (input) METHOD_INVALID :: word_t where "METHOD_INVALID \<equiv> 0"
abbreviation (input) METHOD_CNODE_COPY :: word_t where "METHOD_CNODE_COPY \<equiv> 1"
abbreviation (input) METHOD_CNODE_DELETE :: word_t where "METHOD_CNODE_DELETE \<equiv> 2"
abbreviation (input) METHOD_CNODE_MINT :: word_t where "METHOD_CNODE_MINT \<equiv> 3"
abbreviation (input) METHOD_CNODE_REVOKE :: word_t where "METHOD_CNODE_REVOKE \<equiv> 4"
abbreviation (input) METHOD_CNODE_DEBUG_PRINT :: word_t where "METHOD_CNODE_DEBUG_PRINT \<equiv> 5"
abbreviation (input) METHOD_CNODE_DEBUG_GET :: word_t where "METHOD_CNODE_DEBUG_GET \<equiv> 6"
abbreviation (input) METHOD_TCB_CONFIGURE :: word_t where "METHOD_TCB_CONFIGURE \<equiv> 7"
abbreviation (input) METHOD_TCB_READ_REGISTERS :: word_t where "METHOD_TCB_READ_REGISTERS \<equiv> 8"
abbreviation (input) METHOD_TCB_RESUME :: word_t where "METHOD_TCB_RESUME \<equiv> 9"
abbreviation (input) METHOD_TCB_BIND_NOTIFICATION :: word_t where "METHOD_TCB_BIND_NOTIFICATION \<equiv> 10"
abbreviation (input) METHOD_TCB_SET_TLS_BASE :: word_t where "METHOD_TCB_SET_TLS_BASE \<equiv> 11"
abbreviation (input) METHOD_TCB_SUSPEND :: word_t where "METHOD_TCB_SUSPEND \<equiv> 12"
abbreviation (input) METHOD_TCB_WRITE_REGISTERS :: word_t where "METHOD_TCB_WRITE_REGISTERS \<equiv> 13"
abbreviation (input) METHOD_TCB_SET_DEBUG :: word_t where "METHOD_TCB_SET_DEBUG \<equiv> 14"
abbreviation (input) METHOD_TCB_SET_NAME :: word_t where "METHOD_TCB_SET_NAME \<equiv> 15"
abbreviation (input) METHOD_UNTYPED_RETYPE :: word_t where "METHOD_UNTYPED_RETYPE \<equiv> 16"
abbreviation (input) METHOD_X86_64_IO_PORT_IN8 :: word_t where "METHOD_X86_64_IO_PORT_IN8 \<equiv> 17"
abbreviation (input) METHOD_X86_64_IO_PORT_IN16 :: word_t where "METHOD_X86_64_IO_PORT_IN16 \<equiv> 18"
abbreviation (input) METHOD_X86_64_IO_PORT_IN32 :: word_t where "METHOD_X86_64_IO_PORT_IN32 \<equiv> 19"
abbreviation (input) METHOD_X86_64_IO_PORT_OUT8 :: word_t where "METHOD_X86_64_IO_PORT_OUT8 \<equiv> 20"
abbreviation (input) METHOD_X86_64_IO_PORT_OUT16 :: word_t where "METHOD_X86_64_IO_PORT_OUT16 \<equiv> 21"
abbreviation (input) METHOD_X86_64_IO_PORT_OUT32 :: word_t where "METHOD_X86_64_IO_PORT_OUT32 \<equiv> 22"
abbreviation (input) METHOD_X86_64_IO_PORT_CONTROL_ISSUE :: word_t where "METHOD_X86_64_IO_PORT_CONTROL_ISSUE \<equiv> 23"
abbreviation (input) METHOD_X86_64_PDPT_MAP :: word_t where "METHOD_X86_64_PDPT_MAP \<equiv> 24"
abbreviation (input) METHOD_X86_64_PD_MAP :: word_t where "METHOD_X86_64_PD_MAP \<equiv> 25"
abbreviation (input) METHOD_X86_64_PT_MAP :: word_t where "METHOD_X86_64_PT_MAP \<equiv> 26"
abbreviation (input) METHOD_X86_64_PAGE_MAP :: word_t where "METHOD_X86_64_PAGE_MAP \<equiv> 27"
abbreviation (input) METHOD_X86_64_HUGE_PAGE_MAP :: word_t where "METHOD_X86_64_HUGE_PAGE_MAP \<equiv> 28"
abbreviation (input) METHOD_IRQ_CONTROL_GET :: word_t where "METHOD_IRQ_CONTROL_GET \<equiv> 29"
abbreviation (input) METHOD_IRQ_HANDLER_ACK :: word_t where "METHOD_IRQ_HANDLER_ACK \<equiv> 30"
abbreviation (input) METHOD_IRQ_HANDLER_CLEAR :: word_t where "METHOD_IRQ_HANDLER_CLEAR \<equiv> 31"
abbreviation (input) METHOD_IRQ_HANDLER_SET_NOTIFICATION :: word_t where "METHOD_IRQ_HANDLER_SET_NOTIFICATION \<equiv> 32"

section \<open>Message tags\<close>

type_synonym message_tag_t = word_t

definition message_info_from_word :: "word_t \<Rightarrow> message_tag_t" where
  "message_info_from_word value = value"

definition message_info_to_word :: "message_tag_t \<Rightarrow> word_t" where
  "message_info_to_word info = info"

definition message_length :: "message_tag_t \<Rightarrow> word_t" where
  "message_length tag = get_field 0 9 tag"

definition message_caps_unwrapped :: "message_tag_t \<Rightarrow> word_t" where
  "message_caps_unwrapped tag = get_field 9 3 tag"

definition message_extra_caps :: "message_tag_t \<Rightarrow> word_t" where
  "message_extra_caps tag = get_field 12 2 tag"

definition message_label :: "message_tag_t \<Rightarrow> word_t" where
  "message_label tag = get_field 14 50 tag"

definition tag_set_extra_caps :: "word_t \<Rightarrow> message_tag_t \<Rightarrow> message_tag_t" where
  "tag_set_extra_caps v tag = set_field 12 2 v tag"

definition new_message_tag :: "word_t \<Rightarrow> word_t \<Rightarrow> word_t \<Rightarrow> word_t \<Rightarrow> message_tag_t" where
  "new_message_tag label caps_unwrapped extra_caps len =
     set_field 0 9 len (set_field 12 2 extra_caps (set_field 9 3 caps_unwrapped (set_field 14 50 label 0)))"

definition msg_ok :: "word_t \<Rightarrow> message_tag_t" where
  "msg_ok registers = new_message_tag NO_ERROR 0 0 registers"

text \<open>\<open>msg_err\<close> prints the error when the thread is being debugged, and builds the tag.\<close>

definition msg_err :: "word_t \<Rightarrow> word_t \<Rightarrow> message_tag_t" where
  "msg_err label registers = new_message_tag label 0 0 registers"

definition msg_delete_first :: message_tag_t where
  "msg_delete_first = msg_err DELETE_FIRST 0"

definition msg_revoke_first :: message_tag_t where
  "msg_revoke_first = msg_err REVOKE_FIRST 0"

definition msg_invalid_root :: message_tag_t where
  "msg_invalid_root = msg_err INVALID_ROOT 0"

definition msg_illegal_operation :: message_tag_t where
  "msg_illegal_operation = msg_err ILLEGAL_OPERATION 0"

definition msg_noreturn :: message_tag_t where
  "msg_noreturn = message_info_from_word (NOT 0)"

definition msg_is_noreturn :: "message_tag_t \<Rightarrow> bool" where
  "msg_is_noreturn tag \<longleftrightarrow> message_info_to_word tag = NOT 0"

definition msg_needswrite :: message_tag_t where
  "msg_needswrite = message_info_from_word (NOT 1)"

definition msg_is_needswrite :: "message_tag_t \<Rightarrow> bool" where
  "msg_is_needswrite tag \<longleftrightarrow> message_info_to_word tag = NOT 1"

text \<open>
  The \<open>TRY\<close> macro: a result whose label is an error is returned at once. A lookup also fills an
  out-parameter, a pointer that stays null when the lookup fails.
\<close>

definition TRY :: "('s, message_tag_t) kern \<Rightarrow> ('s, message_tag_t) kern \<Rightarrow> ('s, message_tag_t) kern" where
  "TRY e rest = kbind e (\<lambda>tag. if message_label tag \<noteq> NO_ERROR then kret tag else rest)"

definition TRY_out :: "('s, message_tag_t \<times> 'x option) kern \<Rightarrow> ('x \<Rightarrow> ('s, message_tag_t) kern) \<Rightarrow> ('s, message_tag_t) kern" where
  "TRY_out e rest =
     kbind e (\<lambda>(tag, out). if message_label tag \<noteq> NO_ERROR then kret tag else kbind (knonnull out) rest)"

section \<open>Laws of the tag's fields\<close>

lemmas tag_field_defs =
  message_length_def message_caps_unwrapped_def message_extra_caps_def message_label_def
  tag_set_extra_caps_def new_message_tag_def

interpretation extra_caps_field: field_lens message_extra_caps tag_set_extra_caps "take_bit 2"
  by unfold_locales (simp_all add: tag_field_defs get_set_field_same)

lemma tag_fields_new [simp]:
  "message_label (new_message_tag l cu ec len) = take_bit 50 l"
  "message_caps_unwrapped (new_message_tag l cu ec len) = take_bit 3 cu"
  "message_extra_caps (new_message_tag l cu ec len) = take_bit 2 ec"
  "message_length (new_message_tag l cu ec len) = take_bit 9 len"
  by (simp_all add: tag_field_defs bitfield_simps)

lemma tag_set_extra_caps_frame [simp]:
  "message_label (tag_set_extra_caps v t) = message_label t"
  "message_caps_unwrapped (tag_set_extra_caps v t) = message_caps_unwrapped t"
  "message_length (tag_set_extra_caps v t) = message_length t"
  by (simp_all add: tag_field_defs bitfield_simps)

lemma tag_eqI:
  assumes "message_label t = message_label t'" "message_extra_caps t = message_extra_caps t'"
    "message_caps_unwrapped t = message_caps_unwrapped t'" "message_length t = message_length t'"
  shows "t = t'"
proof (rule bit_word_eqI)
  fix n assume n: "n < LENGTH(64)"
  have eq: "get_field off w t = get_field off w t' \<Longrightarrow> off \<le> n \<Longrightarrow> n < off + w \<Longrightarrow> bit t n = bit t' n" for off w
    by (metis bit_get_field le_add_diff_inverse nat_add_left_cancel_less)
  consider "n < 9" | "9 \<le> n" "n < 12" | "12 \<le> n" "n < 14" | "14 \<le> n" by linarith
  then show "bit t n = bit t' n"
    by cases (use assms n eq [of 0 9] eq [of 9 3] eq [of 12 2] eq [of 14 50]
      in \<open>simp_all add: tag_field_defs\<close>)
qed

lemma unat_message_length: "unat (message_length t) < 512"
  using get_field_bound [of 9 0 t] by (simp add: message_length_def)

lemma msg_ok_label [simp]: "message_label (msg_ok n) = 0"
  by (simp add: msg_ok_def)

lemma msg_err_label: "message_label (msg_err e n) = take_bit 50 e"
  by (simp add: msg_err_def)

lemma msg_labels [simp]:
  "message_label msg_delete_first = DELETE_FIRST"
  "message_label msg_revoke_first = REVOKE_FIRST"
  "message_label msg_invalid_root = INVALID_ROOT"
  "message_label msg_illegal_operation = ILLEGAL_OPERATION"
  by (simp_all add: msg_delete_first_def msg_revoke_first_def msg_invalid_root_def
      msg_illegal_operation_def msg_err_label)

lemma noreturn_is [simp]: "msg_is_noreturn msg_noreturn"
  by (simp add: msg_is_noreturn_def msg_noreturn_def message_info_to_word_def message_info_from_word_def)

text \<open>No result that carries an error code or success is mistaken for \<open>msg_noreturn\<close>.\<close>

lemma error_not_noreturn: "unat e < 2 ^ 49 \<Longrightarrow> \<not> msg_is_noreturn (msg_err e n)"
proof -
  assume "unat e < 2 ^ 49"
  then have "\<not> bit e 49" using take_bit_word_small [of e 49] by (metis bit_take_bit_iff less_irrefl)
  then have "\<not> bit (msg_err e n) 63"
    by (simp add: msg_err_def new_message_tag_def)
  then show ?thesis
    by (auto simp: msg_is_noreturn_def message_info_to_word_def bit_not_iff)
qed

lemma TRY_simps [kern_simps]:
  "TRY e rest s = (case e s of Inl f \<Rightarrow> Inl f
     | Inr (tag, t) \<Rightarrow> if message_label tag \<noteq> NO_ERROR then Inr (tag, t) else rest t)"
  by (auto simp: TRY_def kbind_def kret_def split: sum.splits)

lemma TRY_out_simps [kern_simps]:
  "TRY_out e f s = (case e s of Inl g \<Rightarrow> Inl g
     | Inr ((tag, out), t) \<Rightarrow> if message_label tag \<noteq> NO_ERROR then Inr (tag, t)
         else (case out of None \<Rightarrow> Inl NullDeref | Some x \<Rightarrow> f x t))"
  by (auto simp: TRY_out_def kern_simps split: sum.splits option.splits)

lemma inv_TRY [inv_rules]: "inv_on I F e \<Longrightarrow> inv_on I F rest \<Longrightarrow> inv_on I F (TRY e rest)"
  unfolding TRY_def by (intro inv_rules)

lemma inv_TRY_out [inv_rules]:
  "inv_on I F e \<Longrightarrow> NullDeref \<in> F \<Longrightarrow> (\<And>x. inv_on I F (rest x)) \<Longrightarrow> inv_on I F (TRY_out e rest)"
  unfolding TRY_out_def by (intro inv_rules)

end
