(* ===== verification/Cdt.thy ===== *)
theory Cdt
  imports Message
begin

text \<open>
  Capability slots and the capability derivation list (\<open>kern/cdt.c\<close>, \<open>untyped_contains\<close> of
  \<open>kern/obj/untyped.c\<close>). A slot is an element of a CNode array or one of the four slots inside a
  thread control block. The slots hold a capability and the links of a null-terminated, doubly
  linked list in which a derived capability is inserted right after the one it comes from. The
  recursion between \<open>delete_cap\<close> and \<open>revoke_cap\<close> ends only if the list does, so it is a partial
  function into \<open>option\<close>; \<open>revoke_refines\<close> shows that on a well-formed list it returns, and what is
  left of the list.
\<close>

section \<open>Slots\<close>

datatype slot =
    Slot addr
  | TcbCspaceRoot addr
  | TcbVspaceRoot addr
  | TcbIpcBufferFrame addr
  | TcbReply addr

record cte_t =
  cte_cap :: cap_t
  cte_next :: "slot option"
  cte_prev :: "slot option"

type_synonym cte_heap = "slot \<Rightarrow> cte_t"

definition zero_cte :: cte_t where
  "zero_cte = \<lparr>cte_cap = zero_cap, cte_next = None, cte_prev = None\<rparr>"

abbreviation slot_cap :: "cte_heap \<Rightarrow> slot \<Rightarrow> cap_t" where
  "slot_cap h c \<equiv> cte_cap (h c)"

definition set_cap :: "slot \<Rightarrow> cap_t \<Rightarrow> cte_heap \<Rightarrow> cte_heap" where
  "set_cap c cap h = h(c := (h c)\<lparr>cte_cap := cap\<rparr>)"

section \<open>Operations\<close>

definition insert_cte_after :: "slot \<Rightarrow> slot \<Rightarrow> cte_heap \<Rightarrow> cte_heap" where
  "insert_cte_after new after h =
     (let nxt = cte_next (h after);
          h1 = (case nxt of None \<Rightarrow> h | Some n \<Rightarrow> h(n := (h n)\<lparr>cte_prev := Some new\<rparr>));
          h2 = h1(after := (h1 after)\<lparr>cte_next := Some new\<rparr>);
          h3 = h2(new := (h2 new)\<lparr>cte_next := nxt\<rparr>)
      in h3(new := (h3 new)\<lparr>cte_prev := Some after\<rparr>))"

definition unlink_cte :: "slot \<Rightarrow> cte_heap \<Rightarrow> cte_heap" where
  "unlink_cte del h =
     (let h1 = (case cte_prev (h del) of None \<Rightarrow> h
                | Some p \<Rightarrow> h(p := (h p)\<lparr>cte_next := cte_next (h del)\<rparr>));
          h2 = (case cte_next (h1 del) of None \<Rightarrow> h1
                | Some n \<Rightarrow> h1(n := (h1 n)\<lparr>cte_prev := cte_prev (h1 del)\<rparr>));
          h3 = h2(del := (h2 del)\<lparr>cte_next := None\<rparr>)
      in h3(del := (h3 del)\<lparr>cte_prev := None\<rparr>))"

definition copy_cap :: "slot \<Rightarrow> slot \<Rightarrow> word_t \<Rightarrow> (cte_heap, message_tag_t) kern" where
  "copy_cap dest src rights_mask h =
     (if cap_type (slot_cap h dest) \<noteq> CAP_NULL then Inr (msg_delete_first, h)
      else if cap_type (slot_cap h src) = CAP_UNTYPED \<and> cap_badge (slot_cap h src) \<noteq> 0
      then Inr (msg_revoke_first, h)
      else
        (let h1 = set_cap dest (slot_cap h src) h;
             h2 = (if cap_type (slot_cap h1 src) \<noteq> CAP_UNTYPED
                   then set_cap dest (cap_set_is_original False (slot_cap h1 dest)) h1 else h1);
             h3 = set_cap dest
                    (cap_set_rights (cap_rights (slot_cap h2 src) AND rights_mask) (slot_cap h2 dest)) h2
         in Inr (msg_ok 0, insert_cte_after dest src h3)))"

definition mint_cap :: "slot \<Rightarrow> slot \<Rightarrow> word_t \<Rightarrow> word_t \<Rightarrow> (cte_heap, message_tag_t) kern" where
  "mint_cap dest src badge rights_mask h =
     (if cap_type (slot_cap h dest) \<noteq> CAP_NULL then Inr (msg_delete_first, h)
      else if cap_type (slot_cap h src) \<noteq> CAP_ENDPOINT \<and> cap_type (slot_cap h src) \<noteq> CAP_NOTIFICATION
      then Inr (msg_illegal_operation, h)
      else if cap_badge (slot_cap h src) \<noteq> 0 then Inr (msg_illegal_operation, h)
      else
        (let h1 = set_cap dest (slot_cap h src) h;
             h2 = set_cap dest (cap_set_badge badge (slot_cap h1 dest)) h1;
             h3 = (if cap_type (slot_cap h2 src) = CAP_NOTIFICATION
                   then set_cap dest (cap_set_is_original False (slot_cap h2 dest)) h2 else h2);
             h4 = set_cap dest
                    (cap_set_rights (cap_rights (slot_cap h3 src) AND rights_mask) (slot_cap h3 dest)) h3
         in Inr (msg_ok 0, insert_cte_after dest src h4)))"

text \<open>\<open>kern/obj/untyped.c\<close>: pointers are compared as addresses.\<close>

definition untyped_contains :: "cap_t \<Rightarrow> cap_t \<Rightarrow> bool" where
  "untyped_contains untyped obj \<longleftrightarrow>
     cap_ptr untyped \<le> cap_ptr obj \<and> cap_ptr obj < cap_ptr untyped + cap_size untyped"

definition is_child_cap :: "cte_heap \<Rightarrow> slot option \<Rightarrow> slot \<Rightarrow> bool" where
  "is_child_cap h c parent =
     (case c of None \<Rightarrow> False
      | Some d \<Rightarrow>
         (if \<not> cap_is_original (slot_cap h parent) then False
          else if cap_type (slot_cap h parent) = CAP_UNTYPED
          then untyped_contains (slot_cap h parent) (slot_cap h d)
          else if cap_type (slot_cap h d) \<noteq> cap_type (slot_cap h parent) then False
          else if cap_type (slot_cap h parent) = CAP_ENDPOINT
          then cap_badge (slot_cap h parent) = cap_badge (slot_cap h d) \<or> cap_badge (slot_cap h parent) = 0
          else True))"

text \<open>What \<open>delete_cap\<close> does after revoking: unlink the slot and clear it.\<close>

definition clear_slot :: "slot \<Rightarrow> cte_heap \<Rightarrow> cte_heap" where
  "clear_slot c h = set_cap c new_null_cap (unlink_cte c h)"

text \<open>
  \<open>revoke_cap\<close>: while the next slot is a child, delete it. The call \<open>delete_cap (c->next)\<close> is
  unfolded here (its own revocation, then \<open>clear_slot\<close>), since the two functions call each other.
\<close>

partial_function (option) revoke_slots :: "slot \<Rightarrow> cte_heap \<Rightarrow> cte_heap option" where
  "revoke_slots c h =
     (case cte_next (h c) of
        None \<Rightarrow> Some h
      | Some d \<Rightarrow>
          (if is_child_cap h (Some d) c
           then Option.bind (revoke_slots d h) (\<lambda>h1. revoke_slots c (clear_slot d h1))
           else Some h))"

definition delete_slots :: "slot \<Rightarrow> cte_heap \<Rightarrow> cte_heap option" where
  "delete_slots c h = map_option (clear_slot c) (revoke_slots c h)"

definition revoke_cap :: "slot \<Rightarrow> (cte_heap, message_tag_t) kern" where
  "revoke_cap c h = (case revoke_slots c h of None \<Rightarrow> Inl Diverges | Some h' \<Rightarrow> Inr (msg_ok 0, h'))"

definition delete_cap :: "slot \<Rightarrow> (cte_heap, message_tag_t) kern" where
  "delete_cap c h = (case delete_slots c h of None \<Rightarrow> Inl Diverges | Some h' \<Rightarrow> Inr (msg_ok 0, h'))"

lemma is_child_cap_None [simp]: "\<not> is_child_cap h None c"
  by (simp add: is_child_cap_def)

text \<open>The source's mutual recursion.\<close>

lemma revoke_slots_loop:
  "revoke_slots c h =
     (if is_child_cap h (cte_next (h c)) c
      then Option.bind (delete_slots (the (cte_next (h c))) h) (revoke_slots c)
      else Some h)"
  by (subst revoke_slots.simps)
    (auto simp: delete_slots_def bind_map_option comp_def split: option.split)

section \<open>Chains\<close>

fun chain :: "cte_heap \<Rightarrow> slot \<Rightarrow> slot list \<Rightarrow> bool" where
  "chain h c [] \<longleftrightarrow> cte_next (h c) = None"
| "chain h c (x # xs) \<longleftrightarrow> cte_next (h c) = Some x \<and> cte_prev (h x) = Some c \<and> chain h x xs"

lemma chain_unique: "chain h c xs \<Longrightarrow> chain h c ys \<Longrightarrow> xs = ys"
proof (induction xs arbitrary: c ys)
  case Nil
  then show ?case by (cases ys) auto
next
  case (Cons x xs)
  then show ?case by (cases ys) auto
qed

lemma chain_append: "chain h c (xs @ y # ys) \<Longrightarrow> chain h y ys"
  by (induction xs arbitrary: c) auto

lemma chain_distinct: "chain h c xs \<Longrightarrow> distinct (c # xs)"
proof (induction xs arbitrary: c)
  case Nil
  then show ?case by simp
next
  case (Cons x xs)
  then have d: "distinct (x # xs)" by auto
  have "c \<notin> set (x # xs)"
  proof
    assume "c \<in> set (x # xs)"
    then obtain as bs where "x # xs = as @ c # bs" by (meson split_list)
    then have "chain h c bs" using chain_append Cons.prems by metis
    then have "bs = x # xs" using chain_unique Cons.prems by blast
    with \<open>x # xs = as @ c # bs\<close> show False by (metis impossible_Cons length_append le_add2 length_Cons le_SucI)
  qed
  with d show ?case by auto
qed

lemma chain_cong:
  assumes "chain h c xs" and "cte_next (h' c) = cte_next (h c)"
    and "\<And>d. d \<in> set xs \<Longrightarrow> cte_next (h' d) = cte_next (h d) \<and> cte_prev (h' d) = cte_prev (h d)"
  shows "chain h' c xs"
  using assms by (induction xs arbitrary: c) auto

lemma chain_prev: "chain h c xs \<Longrightarrow> x \<in> set xs \<Longrightarrow> cte_prev (h x) \<noteq> None"
  by (induction xs arbitrary: c) auto

section \<open>Revocation\<close>

text \<open>The specification of revocation on the list of slots after \<open>p\<close>.\<close>

function abs_revoke :: "cte_heap \<Rightarrow> slot \<Rightarrow> slot list \<Rightarrow> slot list" where
  "abs_revoke h p [] = []"
| "abs_revoke h p (x # xs) =
     (if is_child_cap h (Some x) p then abs_revoke h p (abs_revoke h x xs) else x # xs)"
  by pat_completeness auto

lemma abs_revoke_length_dom: "abs_revoke_dom (h, p, xs) \<Longrightarrow> length (abs_revoke h p xs) \<le> length xs"
  by (induction rule: abs_revoke.pinduct) (auto simp: abs_revoke.psimps)

termination abs_revoke
  by (relation "measure (\<lambda>(h, p, xs). length xs)") (auto dest: abs_revoke_length_dom)

lemma abs_revoke_suffix: "\<exists>k. abs_revoke h p xs = drop k xs"
proof (induction h p xs rule: abs_revoke.induct)
  case (1 h p)
  then show ?case by simp
next
  case (2 h p x xs)
  show ?case
  proof (cases "is_child_cap h (Some x) p")
    case True
    with 2 obtain k l where "abs_revoke h x xs = drop k xs"
      and "abs_revoke h p (abs_revoke h x xs) = drop l (abs_revoke h x xs)" by blast
    then have "abs_revoke h p (x # xs) = drop (Suc (l + k)) (x # xs)" using True by simp
    then show ?thesis ..
  next
    case False
    then have "abs_revoke h p (x # xs) = drop 0 (x # xs)" by simp
    then show ?thesis ..
  qed
qed

lemma set_abs_revoke: "set (abs_revoke h p xs) \<subseteq> set xs"
  using abs_revoke_suffix [of h p xs] by (metis set_drop_subset)

lemma length_abs_revoke: "length (abs_revoke h p xs) \<le> length xs"
  using abs_revoke_suffix [of h p xs] by (metis length_drop diff_le_self)

lemma is_child_cap_cong:
  "slot_cap h' p = slot_cap h p \<Longrightarrow> slot_cap h' x = slot_cap h x \<Longrightarrow>
     is_child_cap h' (Some x) p = is_child_cap h (Some x) p"
  by (simp add: is_child_cap_def)

lemma abs_revoke_cong:
  "(\<And>d. d \<in> set (p # xs) \<Longrightarrow> slot_cap h' d = slot_cap h d) \<Longrightarrow> abs_revoke h' p xs = abs_revoke h p xs"
proof (induction h p xs rule: abs_revoke.induct)
  case (2 h p x xs)
  have c: "is_child_cap h' (Some x) p = is_child_cap h (Some x) p"
    using 2(3) by (intro is_child_cap_cong) auto
  show ?case
  proof (cases "is_child_cap h (Some x) p")
    case True
    have "abs_revoke h' x xs = abs_revoke h x xs" using 2(1) [OF True] 2(3) by auto
    moreover have "abs_revoke h' p (abs_revoke h x xs) = abs_revoke h p (abs_revoke h x xs)"
      using 2(2) [OF True] 2(3) set_abs_revoke [of h x xs] by auto
    ultimately show ?thesis using c by simp
  next
    case False
    then show ?thesis using c by simp
  qed
qed simp

text \<open>
  When a child's children are children of the parent, revocation removes exactly the run of
  children that follows.
\<close>

definition child_closed :: "cte_heap \<Rightarrow> slot \<Rightarrow> slot set \<Rightarrow> bool" where
  "child_closed h p S \<longleftrightarrow>
     (\<forall>x \<in> S. \<forall>y \<in> S. is_child_cap h (Some x) p \<longrightarrow> is_child_cap h (Some y) x \<longrightarrow> is_child_cap h (Some y) p)"

lemma abs_revoke_removed:
  assumes "child_closed h p S" and "x = p \<or> x \<in> S \<and> is_child_cap h (Some x) p" and "set xs \<subseteq> S"
  shows "\<exists>k. abs_revoke h x xs = drop k xs \<and> (\<forall>y \<in> set (take k xs). is_child_cap h (Some y) p)"
  using assms
proof (induction h x xs rule: abs_revoke.induct)
  case (2 h x y ys)
  show ?case
  proof (cases "is_child_cap h (Some y) x")
    case True
    then have y: "is_child_cap h (Some y) p" using 2(3-5) by (auto simp: child_closed_def)
    obtain k where k: "abs_revoke h y ys = drop k ys" "\<forall>z \<in> set (take k ys). is_child_cap h (Some z) p"
      using 2(1) [OF True 2(3)] y 2(5) by auto
    have "set (drop k ys) \<subseteq> S" using 2(5) set_drop_subset [of k ys] by auto
    then obtain l where l: "abs_revoke h x (drop k ys) = drop l (drop k ys)"
      "\<forall>z \<in> set (take l (drop k ys)). is_child_cap h (Some z) p"
      using 2(2) [OF True 2(3,4)] k(1) by auto
    have "set (take (k + l) ys) = set (take k ys) \<union> set (take l (drop k ys))"
      by (simp add: take_add)
    then have "abs_revoke h x (y # ys) = drop (Suc (k + l)) (y # ys) \<and>
        (\<forall>z \<in> set (take (Suc (k + l)) (y # ys)). is_child_cap h (Some z) p)"
      using True k l y by (auto simp: add.commute)
    then show ?thesis ..
  next
    case False
    then have "abs_revoke h x (y # ys) = drop 0 (y # ys) \<and>
        (\<forall>z \<in> set (take 0 (y # ys)). is_child_cap h (Some z) p)" by simp
    then show ?thesis ..
  qed
qed simp

lemma abs_revoke_hd: "abs_revoke h p xs \<noteq> [] \<Longrightarrow> \<not> is_child_cap h (Some (hd (abs_revoke h p xs))) p"
  by (induction h p xs rule: abs_revoke.induct) auto

lemma abs_revoke_dropWhile:
  assumes "child_closed h p (set xs)"
  shows "abs_revoke h p xs = dropWhile (\<lambda>x. is_child_cap h (Some x) p) xs"
proof -
  let ?P = "\<lambda>x. is_child_cap h (Some x) p"
  obtain k where k: "abs_revoke h p xs = drop k xs" "\<forall>y \<in> set (take k xs). ?P y"
    using abs_revoke_removed [OF assms, of p xs] by auto
  have "dropWhile ?P (take k xs @ drop k xs) = dropWhile ?P (drop k xs)"
    using k(2) by (intro dropWhile_append2) auto
  moreover have "dropWhile ?P (drop k xs) = drop k xs"
    using abs_revoke_hd [of h p xs] k(1) by (cases "drop k xs") auto
  ultimately show ?thesis using k(1) by simp
qed

lemma clear_slot_first:
  assumes ch: "chain h c (x # xs)"
  shows "chain (clear_slot x h) c xs"
    and "clear_slot x h x = zero_cte"
    and "\<And>d. d \<noteq> x \<Longrightarrow> cte_cap (clear_slot x h d) = cte_cap (h d)"
    and "\<And>d. d \<notin> set (c # x # xs) \<Longrightarrow> clear_slot x h d = h d"
    and "cte_prev (clear_slot x h c) = cte_prev (h c)"
proof -
  have d: "distinct (c # x # xs)" using ch by (rule chain_distinct)
  show "clear_slot x h x = zero_cte"
    by (simp add: clear_slot_def set_cap_def unlink_cte_def zero_cte_def new_null_cap_eq Let_def)
  show "\<And>d. d \<noteq> x \<Longrightarrow> cte_cap (clear_slot x h d) = cte_cap (h d)"
    by (auto simp: clear_slot_def set_cap_def unlink_cte_def Let_def split: option.split)
  show "cte_prev (clear_slot x h c) = cte_prev (h c)"
    using ch d by (cases xs) (auto simp: clear_slot_def set_cap_def unlink_cte_def Let_def)
  show "\<And>d. d \<notin> set (c # x # xs) \<Longrightarrow> clear_slot x h d = h d"
    using ch d by (cases xs) (auto simp: clear_slot_def set_cap_def unlink_cte_def Let_def)
  show "chain (clear_slot x h) c xs"
  proof (cases xs)
    case Nil
    then show ?thesis using ch d by (auto simp: clear_slot_def set_cap_def unlink_cte_def Let_def)
  next
    case (Cons y ys)
    then have "chain h y ys" using ch by simp
    then have "chain (clear_slot x h) y ys"
      by (rule chain_cong) (use ch d Cons in \<open>auto simp: clear_slot_def set_cap_def unlink_cte_def Let_def\<close>)
    then show ?thesis
      using ch d Cons by (auto simp: clear_slot_def set_cap_def unlink_cte_def Let_def)
  qed
qed

lemma revoke_refines:
  assumes "chain h c xs"
  shows "\<exists>h'. revoke_slots c h = Some h' \<and> chain h' c (abs_revoke h c xs) \<and>
    cte_prev (h' c) = cte_prev (h c) \<and>
    (\<forall>d. d \<notin> set xs - set (abs_revoke h c xs) \<longrightarrow> slot_cap h' d = slot_cap h d) \<and>
    (\<forall>d \<in> set xs - set (abs_revoke h c xs). h' d = zero_cte) \<and>
    (\<forall>d. d \<notin> set (c # xs) \<longrightarrow> h' d = h d)"
  using assms
proof (induction "length xs" arbitrary: c h xs rule: less_induct)
  case less
  show ?case
  proof (cases "xs \<noteq> [] \<and> is_child_cap h (Some (hd xs)) c")
    case False
    then show ?thesis using less.prems
      by (cases xs) (auto simp: revoke_slots.simps [of c h])
  next
    case True
    then obtain x ys where xs: "xs = x # ys" and child: "is_child_cap h (Some x) c" by (cases xs) auto
    have d: "distinct (c # x # ys)" using less.prems xs chain_distinct by blast
    have "chain h x ys" using less.prems xs by simp
    from less(1) [OF _ this] xs obtain h1 where
      h1: "revoke_slots x h = Some h1" "chain h1 x (abs_revoke h x ys)" "cte_prev (h1 x) = cte_prev (h x)"
        "\<forall>d. d \<notin> set ys - set (abs_revoke h x ys) \<longrightarrow> slot_cap h1 d = slot_cap h d"
        "\<forall>d \<in> set ys - set (abs_revoke h x ys). h1 d = zero_cte"
        "\<forall>d. d \<notin> set (x # ys) \<longrightarrow> h1 d = h d"
      by auto
    let ?ys = "abs_revoke h x ys"
    have sub: "set ?ys \<subseteq> set ys" by (rule set_abs_revoke)
    have c1: "h1 c = h c" using h1(6) d by auto
    have ch1: "chain h1 c (x # ?ys)" using h1 c1 less.prems xs by auto
    note cs = clear_slot_first [OF ch1]
    let ?h2 = "clear_slot x h1"
    have "length ?ys < length xs" using length_abs_revoke [of h x ys] xs by simp
    from less(1) [OF this cs(1)] obtain h' where
      h': "revoke_slots c ?h2 = Some h'" "chain h' c (abs_revoke ?h2 c ?ys)"
        "cte_prev (h' c) = cte_prev (?h2 c)"
        "\<forall>d. d \<notin> set ?ys - set (abs_revoke ?h2 c ?ys) \<longrightarrow> slot_cap h' d = slot_cap ?h2 d"
        "\<forall>d \<in> set ?ys - set (abs_revoke ?h2 c ?ys). h' d = zero_cte"
        "\<forall>d. d \<notin> set (c # ?ys) \<longrightarrow> h' d = ?h2 d"
      by auto
    have caps: "slot_cap ?h2 e = slot_cap h e" if "e \<in> set (c # ?ys)" for e
    proof -
      have "e \<noteq> x" using that d sub by auto
      moreover have "e \<notin> set ys - set ?ys" using that d by auto
      ultimately show ?thesis using cs(3) h1(4) by simp
    qed
    have ar: "abs_revoke ?h2 c ?ys = abs_revoke h c xs"
      using abs_revoke_cong [of c ?ys ?h2 h] caps child xs by simp
    have ret: "revoke_slots c h = Some h'"
      using less.prems xs child h1(1) h'(1) by (simp add: revoke_slots.simps [of c h])
    let ?R = "set (abs_revoke h c xs)"
    have R: "?R \<subseteq> set ?ys" using set_abs_revoke [of ?h2 c ?ys] ar by simp
    have keep: "slot_cap h' e = slot_cap h e" if "e \<notin> set xs - ?R" for e
    proof -
      have "e \<noteq> x" "e \<notin> set ys - set ?ys" "e \<notin> set ?ys - ?R" using that R sub xs d by auto
      then show ?thesis using h'(4) ar cs(3) h1(4) by simp
    qed
    have gone: "h' e = zero_cte" if "e \<in> set xs - ?R" for e
    proof (cases "e \<in> set ?ys")
      case True
      then show ?thesis using h'(5) ar that by simp
    next
      case False
      then have "h' e = ?h2 e" using h'(6) that xs d by auto
      moreover have "?h2 e = zero_cte"
      proof (cases "e = x")
        case False
        then have "e \<in> set ys - set ?ys" using that xs \<open>e \<notin> set ?ys\<close> by auto
        then show ?thesis using cs(4) [of e] h1(5) d False by auto
      qed (simp add: cs(2))
      ultimately show ?thesis by simp
    qed
    have frame: "h' e = h e" if "e \<notin> set (c # xs)" for e
    proof -
      have "e \<notin> set ?ys" using that sub xs by auto
      then show ?thesis using that h'(6) cs(4) [of e] h1(6) xs by simp
    qed
    have "cte_prev (h' c) = cte_prev (h c)" using h'(3) cs(5) c1 by simp
    then show ?thesis using ret h'(2) ar keep gone frame by auto
  qed
qed

section \<open>Well-formed derivation lists\<close>

text \<open>
  The invariant: following \<open>next\<close> from any slot ends, the two links of neighbours agree, and an
  empty slot is not linked.
\<close>

definition cdt_wf :: "cte_heap \<Rightarrow> bool" where
  "cdt_wf h \<longleftrightarrow>
     (\<forall>c. \<exists>xs. chain h c xs) \<and>
     (\<forall>a b. cte_prev (h b) = Some a \<longrightarrow> cte_next (h a) = Some b) \<and>
     (\<forall>c. cap_type (slot_cap h c) = CAP_NULL \<longrightarrow> cte_next (h c) = None \<and> cte_prev (h c) = None)"

lemma cdt_wf_initial: "(\<And>c. cte_next (h c) = None) \<Longrightarrow> (\<And>c. cte_prev (h c) = None) \<Longrightarrow> cdt_wf h"
proof -
  assume n: "\<And>c. cte_next (h c) = None" and p: "\<And>c. cte_prev (h c) = None"
  have "chain h c []" for c using n by simp
  then show ?thesis using n p unfolding cdt_wf_def by (metis option.distinct(1))
qed

lemma cdt_wf_next_prev: "cdt_wf h \<Longrightarrow> cte_next (h a) = Some b \<longleftrightarrow> cte_prev (h b) = Some a"
proof -
  assume wf: "cdt_wf h"
  then obtain xs where "chain h a xs" unfolding cdt_wf_def by blast
  then have "cte_next (h a) = Some b \<Longrightarrow> cte_prev (h b) = Some a" by (cases xs) auto
  then show ?thesis using wf unfolding cdt_wf_def by blast
qed

lemma cdt_wf_no_loop: "cdt_wf h \<Longrightarrow> cte_next (h c) \<noteq> Some c \<and> cte_prev (h c) \<noteq> Some c"
proof -
  assume wf: "cdt_wf h"
  then obtain xs where "chain h c xs" unfolding cdt_wf_def by blast
  then have "cte_next (h c) \<noteq> Some c" using chain_distinct by (cases xs) fastforce+
  then show ?thesis using cdt_wf_next_prev [OF wf] by blast
qed

lemma chain_set_cap: "chain (set_cap c cap h) d xs = chain h d xs"
  by (induction xs arbitrary: d) (auto simp: set_cap_def)

lemma insert_cte_after_fields:
  assumes "new \<noteq> after" and "cte_next (h after) \<noteq> Some new" and "cte_next (h after) \<noteq> Some after"
  shows "cte_next (insert_cte_after new after h d) =
      (if d = new then cte_next (h after) else if d = after then Some new else cte_next (h d))"
    and "cte_prev (insert_cte_after new after h d) =
      (if d = new then Some after else if cte_next (h after) = Some d then Some new else cte_prev (h d))"
    and "slot_cap (insert_cte_after new after h) d = slot_cap h d"
  using assms by (auto simp: insert_cte_after_def Let_def split: option.splits)

lemma chain_insert_fields:
  assumes "chain h after ys" and "new \<noteq> after" and "new \<notin> set ys"
  shows "cte_next (insert_cte_after new after h d) =
      (if d = new then cte_next (h after) else if d = after then Some new else cte_next (h d))"
    and "cte_prev (insert_cte_after new after h d) =
      (if d = new then Some after else if cte_next (h after) = Some d then Some new else cte_prev (h d))"
    and "slot_cap (insert_cte_after new after h) d = slot_cap h d"
proof -
  have "cte_next (h after) \<noteq> Some new" "cte_next (h after) \<noteq> Some after"
    using chain_distinct [OF assms(1)] assms by (cases ys; auto)+
  then show "cte_next (insert_cte_after new after h d) =
      (if d = new then cte_next (h after) else if d = after then Some new else cte_next (h d))"
    and "cte_prev (insert_cte_after new after h d) =
      (if d = new then Some after else if cte_next (h after) = Some d then Some new else cte_prev (h d))"
    and "slot_cap (insert_cte_after new after h) d = slot_cap h d"
    using insert_cte_after_fields [of new after h d] assms(2) by auto
qed

lemma chain_insert_new:
  assumes "chain h after ys" and "new \<noteq> after" and "new \<notin> set ys"
  shows "chain (insert_cte_after new after h) new ys"
proof (cases ys)
  case Nil
  then show ?thesis using assms by (simp add: chain_insert_fields [OF assms])
next
  case (Cons y zs)
  have d: "distinct (after # ys)" using chain_distinct [OF assms(1)] .
  have "chain h y zs" using assms(1) Cons by simp
  then have "chain (insert_cte_after new after h) y zs"
    by (rule chain_cong) (use assms d Cons in \<open>auto simp: chain_insert_fields [OF assms]\<close>)
  then show ?thesis using assms Cons by (auto simp: chain_insert_fields [OF assms])
qed

lemma chain_insert:
  assumes "chain h c xs" and ys: "chain h after ys"
    and "new \<notin> set (c # xs)" and ne: "new \<noteq> after" "new \<notin> set ys"
  shows "\<exists>zs. chain (insert_cte_after new after h) c zs"
  using assms(1,3)
proof (induction xs arbitrary: c)
  case Nil
  then have "chain (insert_cte_after new after h) c (if c = after then new # ys else [])"
    using chain_insert_new [OF ys ne] ne by (auto simp: chain_insert_fields [OF ys ne])
  then show ?case ..
next
  case (Cons x xs)
  then obtain zs where zs: "chain (insert_cte_after new after h) x zs" by auto
  have "c \<noteq> after \<Longrightarrow> cte_next (h after) \<noteq> Some x" using ys Cons.prems(1) by (cases ys) auto
  then have "chain (insert_cte_after new after h) c (if c = after then new # ys else x # zs)"
    using chain_insert_new [OF ys ne] Cons.prems ne zs by (auto simp: chain_insert_fields [OF ys ne])
  then show ?case ..
qed

lemma cdt_wf_insert:
  assumes wf: "cdt_wf h" and unl: "cte_next (h new) = None" "cte_prev (h new) = None"
    and ne: "new \<noteq> after" and caps: "cap_type (slot_cap h new) \<noteq> CAP_NULL" "cap_type (slot_cap h after) \<noteq> CAP_NULL"
  shows "cdt_wf (insert_cte_after new after h)"
proof -
  obtain ys where ys: "chain h after ys" using wf unfolding cdt_wf_def by blast
  have notin: "new \<notin> set xs" if "chain h c xs" for c xs using chain_prev [OF that, of new] unl by auto
  note f = chain_insert_fields [OF ys ne notin [OF ys]]
  have "\<exists>zs. chain (insert_cte_after new after h) c zs" for c
  proof (cases "c = new")
    case True
    then show ?thesis using chain_insert_new [OF ys ne notin [OF ys]] by auto
  next
    case False
    obtain xs where "chain h c xs" using wf unfolding cdt_wf_def by blast
    then show ?thesis using chain_insert [OF _ ys _ ne notin [OF ys]] notin False by auto
  qed
  moreover have "cte_next (insert_cte_after new after h a) = Some b"
    if "cte_prev (insert_cte_after new after h b) = Some a" for a b
    using that cdt_wf_next_prev [OF wf, of a b] cdt_wf_next_prev [OF wf, of new b]
      cdt_wf_next_prev [OF wf, of after b] unl ne by (auto simp: f split: if_splits)
  moreover have "cte_next (insert_cte_after new after h c) = None \<and> cte_prev (insert_cte_after new after h c) = None"
    if "cap_type (slot_cap h c) = CAP_NULL" for c
  proof -
    have "cte_next (h c) = None" "cte_prev (h c) = None" using wf that unfolding cdt_wf_def by blast+
    then show ?thesis using that caps cdt_wf_next_prev [OF wf, of after c] by (auto simp: f)
  qed
  ultimately show ?thesis unfolding cdt_wf_def f by blast
qed

lemma cdt_wf_set_cap:
  "cdt_wf h \<Longrightarrow> (cap_type cap = CAP_NULL \<Longrightarrow> cte_next (h c) = None \<and> cte_prev (h c) = None) \<Longrightarrow>
     cdt_wf (set_cap c cap h)"
  unfolding cdt_wf_def chain_set_cap by (auto simp: set_cap_def)

lemma unlink_fields:
  assumes wf: "cdt_wf h"
  shows "cte_next (unlink_cte c h d) =
      (if d = c then None else if cte_next (h d) = Some c then cte_next (h c) else cte_next (h d))"
    and "cte_prev (unlink_cte c h d) =
      (if d = c then None else if cte_prev (h d) = Some c then cte_prev (h c) else cte_prev (h d))"
    and "slot_cap (unlink_cte c h) d = slot_cap h d"
proof -
  have n: "cte_next (h c) \<noteq> Some c" and p: "cte_prev (h c) \<noteq> Some c"
    using cdt_wf_no_loop [OF wf] by blast+
  show "cte_next (unlink_cte c h d) =
      (if d = c then None else if cte_next (h d) = Some c then cte_next (h c) else cte_next (h d))"
    using n p cdt_wf_next_prev [OF wf, of d c] by (auto simp: unlink_cte_def Let_def split: option.splits)
  show "cte_prev (unlink_cte c h d) =
      (if d = c then None else if cte_prev (h d) = Some c then cte_prev (h c) else cte_prev (h d))"
    using n p cdt_wf_next_prev [OF wf, of c d] by (auto simp: unlink_cte_def Let_def split: option.splits)
  show "slot_cap (unlink_cte c h) d = slot_cap h d"
    by (auto simp: unlink_cte_def Let_def split: option.splits)
qed

lemma chain_unlink:
  assumes wf: "cdt_wf h" and "chain h d xs" and "d \<noteq> c"
  shows "chain (unlink_cte c h) d (removeAll c xs)"
  using assms(2,3)
proof (induction xs arbitrary: d)
  case Nil
  then show ?case by (simp add: unlink_fields [OF wf])
next
  case (Cons x xs)
  note f = unlink_fields [OF wf]
  show ?case
  proof (cases "x = c")
    case False
    then show ?thesis using Cons by (auto simp: f)
  next
    case True
    then have c: "chain h c xs" "cte_prev (h c) = Some d" "cte_next (h d) = Some c" using Cons.prems by auto
    have dist: "distinct (d # c # xs)" using chain_distinct [OF Cons.prems(1)] True by simp
    have "chain (unlink_cte c h) d xs"
    proof (cases xs)
      case Nil
      then show ?thesis using c Cons.prems by (simp add: f)
    next
      case [simp]: (Cons y ys)
      have "chain h y ys" using c by simp
      then have "chain (unlink_cte c h) y ys"
      proof (rule chain_cong)
        show "cte_next (unlink_cte c h y) = cte_next (h y)"
          using dist c cdt_wf_next_prev [OF wf, of y c] by (auto simp: f)
        fix z assume "z \<in> set ys"
        then show "cte_next (unlink_cte c h z) = cte_next (h z) \<and> cte_prev (unlink_cte c h z) = cte_prev (h z)"
          using dist c cdt_wf_next_prev [OF wf, of z c] cdt_wf_next_prev [OF wf, of c z] by (auto simp: f)
      qed
      then show ?thesis using c dist Cons.prems by (auto simp: f)
    qed
    moreover have "removeAll c (x # xs) = xs" using True dist by simp
    ultimately show ?thesis by simp
  qed
qed

lemma cdt_wf_clear_slot:
  assumes wf: "cdt_wf h"
  shows "cdt_wf (clear_slot c h)"
proof -
  note f = unlink_fields [OF wf]
  have ch: "\<exists>xs. chain (unlink_cte c h) d xs" for d
  proof (cases "d = c")
    case True
    then have "chain (unlink_cte c h) d []" by (simp add: f)
    then show ?thesis ..
  next
    case False
    then show ?thesis using chain_unlink [OF wf] wf unfolding cdt_wf_def by blast
  qed
  have np: "cte_prev (unlink_cte c h b) = Some a \<Longrightarrow> cte_next (unlink_cte c h a) = Some b" for a b
    using cdt_wf_next_prev [OF wf, of a b] cdt_wf_next_prev [OF wf, of a c]
      cdt_wf_next_prev [OF wf, of c b] cdt_wf_no_loop [OF wf, of c]
    by (auto simp: f split: if_splits)
  have null: "cap_type (slot_cap h d) = CAP_NULL \<Longrightarrow> cte_next (h d) = None \<and> cte_prev (h d) = None" for d
    using wf unfolding cdt_wf_def by blast
  have "cdt_wf (unlink_cte c h)"
    unfolding cdt_wf_def using ch np null by (auto simp: f)
  then show ?thesis unfolding clear_slot_def by (intro cdt_wf_set_cap) (simp_all add: f)
qed

lemma cdt_wf_revoke_slots: "revoke_slots c h = Some h' \<Longrightarrow> cdt_wf h \<Longrightarrow> cdt_wf h'"
proof -
  assume "revoke_slots c h = Some h'"
  then have "cdt_wf h \<longrightarrow> cdt_wf h'"
  proof (rule revoke_slots.raw_induct [where P = "\<lambda>c h h'. cdt_wf h \<longrightarrow> cdt_wf h'", rotated])
    fix f :: "slot \<Rightarrow> cte_heap \<Rightarrow> cte_heap option" and c h h'
    assume IH: "\<And>c h h'. f c h = Some h' \<Longrightarrow> cdt_wf h \<longrightarrow> cdt_wf h'"
      and eq: "(case cte_next (h c) of None \<Rightarrow> Some h
        | Some d \<Rightarrow> if is_child_cap h (Some d) c
            then Option.bind (f d h) (\<lambda>h1. f c (clear_slot d h1)) else Some h) = Some h'"
    show "cdt_wf h \<longrightarrow> cdt_wf h'"
      using eq by (auto split: option.splits if_splits bind_splits dest!: IH intro: cdt_wf_clear_slot)
  qed
  then show "cdt_wf h \<Longrightarrow> cdt_wf h'" by blast
qed

text \<open>On a well-formed list both operations return, and they keep it well formed.\<close>

lemma cdt_wf_revoke:
  assumes "cdt_wf h"
  shows "\<exists>h'. revoke_cap c h = Inr (msg_ok 0, h') \<and> cdt_wf h'"
proof -
  obtain xs where "chain h c xs" using assms unfolding cdt_wf_def by blast
  then obtain h' where "revoke_slots c h = Some h'" using revoke_refines by blast
  then show ?thesis using cdt_wf_revoke_slots assms by (auto simp: revoke_cap_def)
qed

lemma cdt_wf_delete:
  assumes "cdt_wf h"
  shows "\<exists>h'. delete_cap c h = Inr (msg_ok 0, h') \<and> cdt_wf h'"
proof -
  obtain xs where "chain h c xs" using assms unfolding cdt_wf_def by blast
  then obtain h' where "revoke_slots c h = Some h'" using revoke_refines by blast
  then show ?thesis using cdt_wf_revoke_slots assms
    by (auto simp: delete_cap_def delete_slots_def intro: cdt_wf_clear_slot)
qed

section \<open>Copying and minting\<close>

lemma set_cap_simps [simp]:
  "slot_cap (set_cap c cap h) d = (if d = c then cap else slot_cap h d)"
  "cte_next (set_cap c cap h d) = cte_next (h d)"
  "cte_prev (set_cap c cap h d) = cte_prev (h d)"
  "set_cap c cap (set_cap c cap' h) = set_cap c cap h"
  by (auto simp: set_cap_def)

text \<open>The capability that a copy puts in the destination.\<close>

definition copied_cap :: "cap_t \<Rightarrow> word_t \<Rightarrow> cap_t" where
  "copied_cap c m =
     cap_set_rights (cap_rights c AND m)
       (if cap_type c \<noteq> CAP_UNTYPED then cap_set_is_original False c else c)"

definition minted_cap :: "cap_t \<Rightarrow> word_t \<Rightarrow> word_t \<Rightarrow> cap_t" where
  "minted_cap c badge m =
     cap_set_rights (cap_rights c AND m)
       (if cap_type c = CAP_NOTIFICATION then cap_set_is_original False (cap_set_badge badge c)
        else cap_set_badge badge c)"

lemma copy_cap_ok:
  assumes "dest \<noteq> src" "cap_type (slot_cap h dest) = CAP_NULL"
    and "\<not> (cap_type (slot_cap h src) = CAP_UNTYPED \<and> cap_badge (slot_cap h src) \<noteq> 0)"
  shows "copy_cap dest src m h =
    Inr (msg_ok 0, insert_cte_after dest src (set_cap dest (copied_cap (slot_cap h src) m) h))"
  using assms by (auto simp: copy_cap_def copied_cap_def Let_def)

lemma mint_cap_ok:
  assumes "dest \<noteq> src" "cap_type (slot_cap h dest) = CAP_NULL"
    and "cap_type (slot_cap h src) = CAP_ENDPOINT \<or> cap_type (slot_cap h src) = CAP_NOTIFICATION"
    and "cap_badge (slot_cap h src) = 0"
  shows "mint_cap dest src badge m h =
    Inr (msg_ok 0, insert_cte_after dest src (set_cap dest (minted_cap (slot_cap h src) badge m) h))"
  using assms by (auto simp: mint_cap_def minted_cap_def Let_def)

lemma copied_cap_fields [simp]:
  "cap_type (copied_cap c m) = cap_type c" "cap_ptr (copied_cap c m) = cap_ptr c"
  "cap_badge (copied_cap c m) = cap_badge c" "cap_size_bits (copied_cap c m) = cap_size_bits c"
  "cap_rights (copied_cap c m) = take_bit 5 (cap_rights c AND m)"
  "cap_is_original (copied_cap c m) \<longleftrightarrow> cap_type c = CAP_UNTYPED \<and> cap_is_original c"
  by (auto simp: copied_cap_def)

lemma minted_cap_fields [simp]:
  "cap_type (minted_cap c b m) = cap_type c" "cap_ptr (minted_cap c b m) = cap_ptr c"
  "cap_badge (minted_cap c b m) = b" "cap_size_bits (minted_cap c b m) = cap_size_bits c"
  "cap_rights (minted_cap c b m) = take_bit 5 (cap_rights c AND m)"
  "cap_is_original (minted_cap c b m) \<longleftrightarrow> cap_type c \<noteq> CAP_NOTIFICATION \<and> cap_is_original c"
  by (auto simp: minted_cap_def)

lemma cdt_wf_derive:
  assumes wf: "cdt_wf h" and ne: "dest \<noteq> src" and null: "cap_type (slot_cap h dest) = CAP_NULL"
    and src: "cap_type (slot_cap h src) \<noteq> CAP_NULL" and cap: "cap_type cap \<noteq> CAP_NULL"
  shows "cdt_wf (insert_cte_after dest src (set_cap dest cap h))"
proof -
  have unl: "cte_next (h dest) = None" "cte_prev (h dest) = None" using wf null unfolding cdt_wf_def by blast+
  then have "cdt_wf (set_cap dest cap h)" using wf by (intro cdt_wf_set_cap) auto
  then show ?thesis using ne src cap unl by (intro cdt_wf_insert) auto
qed

lemma copy_cap_errors:
  "cap_type (slot_cap h dest) \<noteq> CAP_NULL \<Longrightarrow> copy_cap dest src m h = Inr (msg_delete_first, h)"
  "cap_type (slot_cap h dest) = CAP_NULL \<Longrightarrow> cap_type (slot_cap h src) = CAP_UNTYPED \<Longrightarrow>
     cap_badge (slot_cap h src) \<noteq> 0 \<Longrightarrow> copy_cap dest src m h = Inr (msg_revoke_first, h)"
  by (simp_all add: copy_cap_def)

lemma mint_cap_errors:
  "cap_type (slot_cap h dest) \<noteq> CAP_NULL \<Longrightarrow> mint_cap dest src b m h = Inr (msg_delete_first, h)"
  "cap_type (slot_cap h dest) = CAP_NULL \<Longrightarrow>
     cap_type (slot_cap h src) \<noteq> CAP_ENDPOINT \<and> cap_type (slot_cap h src) \<noteq> CAP_NOTIFICATION \<or>
     cap_badge (slot_cap h src) \<noteq> 0 \<Longrightarrow> mint_cap dest src b m h = Inr (msg_illegal_operation, h)"
  by (auto simp: mint_cap_def)

lemma cdt_wf_copy_cap:
  assumes "cdt_wf h" and "dest \<noteq> src" and "cap_type (slot_cap h src) \<noteq> CAP_NULL"
  shows "\<exists>tag h'. copy_cap dest src m h = Inr (tag, h') \<and> cdt_wf h'"
proof (cases "cap_type (slot_cap h dest) = CAP_NULL \<and>
    \<not> (cap_type (slot_cap h src) = CAP_UNTYPED \<and> cap_badge (slot_cap h src) \<noteq> 0)")
  case True
  then show ?thesis
    using copy_cap_ok [OF assms(2)] cdt_wf_derive [OF assms(1,2) _ assms(3)] assms(3) by fastforce
next
  case False
  then show ?thesis using copy_cap_errors [of h dest] assms(1) by blast
qed

lemma cdt_wf_mint_cap:
  assumes "cdt_wf h" and "dest \<noteq> src" and "cap_type (slot_cap h src) \<noteq> CAP_NULL"
  shows "\<exists>tag h'. mint_cap dest src b m h = Inr (tag, h') \<and> cdt_wf h'"
proof (cases "cap_type (slot_cap h dest) = CAP_NULL \<and> cap_badge (slot_cap h src) = 0 \<and>
    (cap_type (slot_cap h src) = CAP_ENDPOINT \<or> cap_type (slot_cap h src) = CAP_NOTIFICATION)")
  case True
  then show ?thesis
    using mint_cap_ok [OF assms(2)] cdt_wf_derive [OF assms(1,2) _ assms(3)] assms(3) by fastforce
next
  case False
  then show ?thesis using mint_cap_errors [of h dest] assms(1) by blast
qed

end
