(* ===== verification/Intrusive_List.thy ===== *)
theory Intrusive_List
  imports Prelude
begin

text \<open>
  The circular, doubly linked, intrusive lists of \<open>include/list.h\<close>, over any type \<open>'n\<close> of node
  addresses. A heap gives each node its \<open>next\<close> and \<open>prev\<close> pointers; \<open>None\<close> is the null pointer
  that zeroed memory holds, and following it is a fault. The operations are the statements of
  the header in their order, so that they also say what happens on nodes that are not linked or
  linked twice. \<open>is_queue h head xs\<close> is the abstraction: starting at \<open>head\<close> and following
  \<open>next\<close>, the nodes are \<open>xs\<close> and then \<open>head\<close> again, and \<open>prev\<close> goes back. Each operation is
  proved to refine an operation on the list \<open>xs\<close>; the locale \<open>lifo_queue\<close> is what the clients
  (run queue, endpoints, notifications) rely on.
\<close>

section \<open>Data and operations\<close>

record 'n list_head =
  l_next :: "'n option"
  l_prev :: "'n option"

type_synonym 'n list_heap = "'n \<Rightarrow> 'n list_head"

definition zero_list_head :: "'n list_head" where
  "zero_list_head = \<lparr>l_next = None, l_prev = None\<rparr>"

text \<open>Assignments \<open>p->next = v\<close> and \<open>p->prev = v\<close>.\<close>

definition write_next :: "'n option \<Rightarrow> 'n option \<Rightarrow> ('n list_heap, unit) kern" where
  "write_next p v = kbind (knonnull p) (\<lambda>n. kmod (\<lambda>h. h(n := (h n)\<lparr>l_next := v\<rparr>)))"

definition write_prev :: "'n option \<Rightarrow> 'n option \<Rightarrow> ('n list_heap, unit) kern" where
  "write_prev p v = kbind (knonnull p) (\<lambda>n. kmod (\<lambda>h. h(n := (h n)\<lparr>l_prev := v\<rparr>)))"

definition init_list :: "'n \<Rightarrow> ('n list_heap, unit) kern" where
  "init_list head = kseq (write_next (Some head) (Some head)) (write_prev (Some head) (Some head))"

definition insert_list_internal :: "'n \<Rightarrow> 'n option \<Rightarrow> 'n option \<Rightarrow> ('n list_heap, unit) kern" where
  "insert_list_internal new prev nxt =
     kseq (write_next (Some new) nxt)
    (kseq (write_prev (Some new) prev)
    (kseq (write_next prev (Some new))
          (write_prev nxt (Some new))))"

definition append_to_list :: "'n \<Rightarrow> 'n \<Rightarrow> ('n list_heap, unit) kern" where
  "append_to_list new prev =
     kbind (kget (\<lambda>h. l_next (h prev))) (\<lambda>nxt. insert_list_internal new (Some prev) nxt)"

definition prepend_to_list :: "'n \<Rightarrow> 'n \<Rightarrow> ('n list_heap, unit) kern" where
  "prepend_to_list new nxt =
     kbind (kget (\<lambda>h. l_prev (h nxt))) (\<lambda>prev. insert_list_internal new prev (Some nxt))"

definition remove_from_list :: "'n \<Rightarrow> ('n list_heap, unit) kern" where
  "remove_from_list entry =
     kseq (kbind (kget (\<lambda>h. h entry)) (\<lambda>e. write_next (l_prev e) (l_next e)))
    (kseq (kbind (kget (\<lambda>h. h entry)) (\<lambda>e. write_prev (l_next e) (l_prev e)))
          (init_list entry))"

definition pop_from_list :: "'n \<Rightarrow> ('n list_heap, 'n) kern" where
  "pop_from_list head =
     kbind (kget (\<lambda>h. l_next (h head))) (\<lambda>p.
     kbind (knonnull p) (\<lambda>nxt.
     kseq (remove_from_list nxt) (kret nxt)))"

definition is_list_empty :: "'n \<Rightarrow> 'n list_heap \<Rightarrow> bool" where
  "is_list_empty head h \<longleftrightarrow> l_next (h head) = Some head"

definition first_item :: "'n \<Rightarrow> 'n list_heap \<Rightarrow> 'n option" where
  "first_item head h = l_next (h head)"

lemmas list_op_defs =
  init_list_def insert_list_internal_def append_to_list_def prepend_to_list_def
  remove_from_list_def pop_from_list_def write_next_def write_prev_def kern_simps

text \<open>The only fault of the operations is a dereference of a null link.\<close>

lemma inv_list_ops [inv_rules]:
  assumes "NullDeref \<in> F"
  shows "inv_on (\<lambda>_. True) F (init_list a)" "inv_on (\<lambda>_. True) F (append_to_list a b)"
    "inv_on (\<lambda>_. True) F (prepend_to_list a b)" "inv_on (\<lambda>_. True) F (remove_from_list a)"
    "inv_on (\<lambda>_. True) F (pop_from_list a)"
  using assms unfolding list_op_defs(1-8) by (intro inv_rules; simp)+

section \<open>The abstract list\<close>

fun linked :: "'n list_heap \<Rightarrow> 'n list \<Rightarrow> bool" where
  "linked h (a # b # r) \<longleftrightarrow> l_next (h a) = Some b \<and> l_prev (h b) = Some a \<and> linked h (b # r)"
| "linked h _ \<longleftrightarrow> True"

definition is_queue :: "'n list_heap \<Rightarrow> 'n \<Rightarrow> 'n list \<Rightarrow> bool" where
  "is_queue h head xs \<longleftrightarrow> distinct (head # xs) \<and> linked h (head # xs @ [head])"

lemma linked_append:
  "linked h (xs @ a # ys) \<longleftrightarrow> linked h (xs @ [a]) \<and> linked h (a # ys)"
  by (induction h xs rule: linked.induct) auto

lemma linked_cong_upd:
  assumes "\<And>n. n \<in> set (butlast xs) \<Longrightarrow> l_next (h' n) = l_next (h n)"
    and "\<And>n. n \<in> set (tl xs) \<Longrightarrow> l_prev (h' n) = l_prev (h n)"
  shows "linked h' xs = linked h xs"
  using assms by (induction h xs rule: linked.induct) auto

lemma is_queue_cong:
  assumes "\<And>n. n \<in> set (head # xs) \<Longrightarrow> h' n = h n"
  shows "is_queue h' head xs = is_queue h head xs"
proof -
  have "linked h' (head # xs @ [head]) = linked h (head # xs @ [head])"
    by (rule linked_cong_upd) (use assms in auto)
  then show ?thesis by (simp add: is_queue_def)
qed

text \<open>The contents of a queue are determined by the heap.\<close>

lemma linked_unique:
  "linked h (a # xs @ [e]) \<Longrightarrow> linked h (a # ys @ [e]) \<Longrightarrow> e \<notin> set xs \<Longrightarrow> e \<notin> set ys \<Longrightarrow> xs = ys"
proof (induction xs arbitrary: a ys)
  case Nil
  then show ?case by (cases ys) auto
next
  case (Cons x xs)
  then show ?case by (cases ys) auto
qed

lemma is_queue_unique: "is_queue h head xs \<Longrightarrow> is_queue h head ys \<Longrightarrow> xs = ys"
  unfolding is_queue_def using linked_unique by fastforce

lemma is_queue_empty_iff [list_rules]: "is_queue h head xs \<Longrightarrow> is_list_empty head h \<longleftrightarrow> xs = []"
  by (cases xs) (auto simp: is_queue_def is_list_empty_def)

lemma is_queue_first [list_rules]: "is_queue h head (x # xs) \<Longrightarrow> first_item head h = Some x"
  by (simp add: is_queue_def first_item_def)

section \<open>Refinement of the operations\<close>

lemma init_list_ret:
  "init_list head h = Inr ((), h(head := \<lparr>l_next = Some head, l_prev = Some head\<rparr>))"
  by (cases "h head") (simp add: list_op_defs)

lemma init_list_refines [list_rules]: "is_queue (h(head := \<lparr>l_next = Some head, l_prev = Some head\<rparr>)) head []"
  by (simp add: is_queue_def)

lemma append_refines [list_rules]:
  assumes q: "is_queue h head xs" and new: "new \<notin> set (head # xs)"
  shows "\<exists>h'. append_to_list new head h = Inr ((), h') \<and> is_queue h' head (new # xs) \<and>
    (\<forall>m. m \<notin> set (new # head # xs) \<longrightarrow> h' m = h m)"
proof (cases xs)
  case Nil
  then show ?thesis
    using assms by (auto simp: is_queue_def list_op_defs)
next
  case (Cons x ys)
  let ?h1 = "h(new := \<lparr>l_next = Some x, l_prev = Some head\<rparr>)"
  let ?h2 = "?h1(head := (?h1 head)\<lparr>l_next := Some new\<rparr>)"
  let ?h3 = "?h2(x := (?h2 x)\<lparr>l_prev := Some new\<rparr>)"
  have ret: "append_to_list new head h = Inr ((), ?h3)"
    using assms Cons by (auto simp: is_queue_def list_op_defs)
  have "linked ?h3 (x # ys @ [head]) = linked h (x # ys @ [head])"
    by (rule linked_cong_upd) (use assms Cons in \<open>auto simp: is_queue_def\<close>)
  then have "is_queue ?h3 head (new # xs)"
    using assms Cons by (auto simp: is_queue_def)
  then show ?thesis using ret Cons by auto
qed

lemma prepend_refines [list_rules]:
  assumes q: "is_queue h head xs" and new: "new \<notin> set (head # xs)"
  shows "\<exists>h'. prepend_to_list new head h = Inr ((), h') \<and> is_queue h' head (xs @ [new]) \<and>
    (\<forall>m. m \<notin> set (new # head # xs) \<longrightarrow> h' m = h m)"
proof (cases xs rule: rev_cases)
  case Nil
  then show ?thesis
    using assms by (auto simp: is_queue_def list_op_defs)
next
  case (snoc ys x)
  let ?h1 = "h(new := \<lparr>l_next = Some head, l_prev = Some x\<rparr>)"
  let ?h2 = "?h1(x := (?h1 x)\<lparr>l_next := Some new\<rparr>)"
  let ?h3 = "?h2(head := (?h2 head)\<lparr>l_prev := Some new\<rparr>)"
  have lx: "l_prev (h head) = Some x"
    using q snoc linked_append [of h "head # ys" x "[head]"] by (simp add: is_queue_def)
  have ret: "prepend_to_list new head h = Inr ((), ?h3)"
    using assms snoc lx by (auto simp: is_queue_def list_op_defs)
  have "linked ?h3 ((head # ys) @ [x]) = linked h ((head # ys) @ [x])"
    by (rule linked_cong_upd) (use assms snoc in \<open>auto simp: is_queue_def butlast_append\<close>)
  moreover have "linked h ((head # ys) @ [x])"
    using q snoc linked_append [of h "head # ys" x "[head]"] by (simp add: is_queue_def)
  moreover have "linked ?h3 [x, new, head]"
    using assms snoc by (auto simp: is_queue_def)
  ultimately have "linked ?h3 ((head # ys) @ x # [new, head])"
    using linked_append [of ?h3 "head # ys" x "[new, head]"] by blast
  then have "is_queue ?h3 head (xs @ [new])"
    using assms snoc by (auto simp: is_queue_def)
  then show ?thesis using ret snoc by auto
qed

text \<open>
  Removal unlinks the node and leaves it self-linked: it can be removed again or inserted again.
  The neighbours are the nodes before and after it on the ring, which may both be the head.
\<close>

lemma linked_neighbours:
  "linked h (head # ys @ x # zs @ [head]) \<Longrightarrow>
     l_prev (h x) = Some (last (head # ys)) \<and> l_next (h x) = Some (hd (zs @ [head]))"
proof -
  assume lk: "linked h (head # ys @ x # zs @ [head])"
  have "linked h (butlast (head # ys) @ last (head # ys) # x # zs @ [head])"
    using lk by (metis append_Cons append_assoc append_butlast_last_id append_Nil list.distinct(1))
  then have l: "linked h (last (head # ys) # x # zs @ [head])"
    using linked_append by metis
  then show ?thesis by (cases zs) auto
qed

lemma linked_prefix: "linked h (xs @ ys) \<Longrightarrow> linked h xs"
  by (induction h xs rule: linked.induct) auto

lemma linked_suffix: "linked h (xs @ x # ys) \<Longrightarrow> linked h ys"
  using linked_append [of h xs x ys] by (cases ys) auto

lemma linked_bridge:
  "linked h (as @ [p]) \<Longrightarrow> linked h (n # bs) \<Longrightarrow> l_next (h p) = Some n \<Longrightarrow> l_prev (h n) = Some p \<Longrightarrow>
     linked h (as @ p # n # bs)"
  using linked_append [of h as p "n # bs"] by simp

lemma remove_refines [list_rules]:
  assumes q: "is_queue h head (ys @ x # zs)"
  shows "\<exists>h'. remove_from_list x h = Inr ((), h') \<and> is_queue h' head (ys @ zs) \<and> is_queue h' x [] \<and>
    (\<forall>m. m \<notin> set (head # ys @ x # zs) \<longrightarrow> h' m = h m)"
proof -
  let ?p = "last (head # ys)" and ?n = "hd (zs @ [head])"
  let ?h1 = "h(?p := (h ?p)\<lparr>l_next := Some ?n\<rparr>)"
  let ?h2 = "?h1(?n := (?h1 ?n)\<lparr>l_prev := Some ?p\<rparr>)"
  let ?h3 = "?h2(x := \<lparr>l_next = Some x, l_prev = Some x\<rparr>)"
  have lk: "linked h (head # ys @ x # zs @ [head])" and d: "distinct (head # ys @ x # zs)"
    using q by (auto simp: is_queue_def)
  have nb: "l_prev (h x) = Some ?p" "l_next (h x) = Some ?n"
    using linked_neighbours [OF lk] by auto
  have px: "?p \<noteq> x" using d by (auto split: if_splits dest: last_in_set)
  have nx: "?n \<noteq> x" using d by (cases zs) auto
  have ret: "remove_from_list x h = Inr ((), ?h3)"
    using nb px nx unfolding remove_from_list_def init_list_ret [unfolded init_list_def]
    by (simp add: kern_simps write_next_def write_prev_def init_list_ret)
  have pre: "linked ?h3 (head # ys)"
  proof -
    have "linked ?h3 (head # ys) = linked h (head # ys)"
    proof (rule linked_cong_upd)
      fix m assume "m \<in> set (butlast (head # ys))"
      moreover from this have "m \<noteq> ?p" and "m \<noteq> x"
        using last_notin_butlast [of "head # ys"] d in_set_butlastD [of m "head # ys"] by auto
      ultimately show "l_next (?h3 m) = l_next (h m)" by simp
    next
      fix m assume "m \<in> set (tl (head # ys))"
      moreover from this have "m \<noteq> ?n" and "m \<noteq> x" using d by (cases zs; auto)+
      ultimately show "l_prev (?h3 m) = l_prev (h m)" by simp
    qed
    then show ?thesis using linked_prefix lk by (metis append_Cons)
  qed
  have suf: "linked ?h3 (zs @ [head])"
  proof -
    have "linked ?h3 (zs @ [head]) = linked h (zs @ [head])"
    proof (rule linked_cong_upd)
      fix m assume "m \<in> set (butlast (zs @ [head]))"
      moreover from this have "m \<noteq> ?p" and "m \<noteq> x"
        using d last_in_set [of "head # ys"] by auto
      ultimately show "l_next (?h3 m) = l_next (h m)" by simp
    next
      fix m assume "m \<in> set (tl (zs @ [head]))"
      moreover from this have "m \<noteq> ?n" and "m \<noteq> x" using d by (cases zs; auto)+
      ultimately show "l_prev (?h3 m) = l_prev (h m)" by simp
    qed
    then show ?thesis using linked_suffix lk by (metis append_Cons)
  qed
  have "linked ?h3 (butlast (head # ys) @ ?p # ?n # tl (zs @ [head]))"
    using pre suf px nx by (intro linked_bridge) (auto split: if_splits)
  moreover have "butlast (head # ys) @ ?p # ?n # tl (zs @ [head]) = head # (ys @ zs) @ [head]"
    using append_butlast_last_id [of ys] by auto
  ultimately have "linked ?h3 (head # (ys @ zs) @ [head])" by metis
  then have "is_queue ?h3 head (ys @ zs)" and "is_queue ?h3 x []"
    using d by (auto simp: is_queue_def)
  moreover have "\<forall>m. m \<notin> set (head # ys @ x # zs) \<longrightarrow> ?h3 m = h m"
  proof (intro allI impI)
    fix m assume "m \<notin> set (head # ys @ x # zs)"
    moreover from this have "m \<noteq> ?p" using last_in_set [of "head # ys"] by auto
    moreover from calculation(1) have "m \<noteq> ?n" by (cases zs) auto
    ultimately show "?h3 m = h m" by simp
  qed
  ultimately show ?thesis using ret by blast
qed

lemma pop_refines [list_rules]:
  assumes q: "is_queue h head (x # xs)"
  shows "\<exists>h'. pop_from_list head h = Inr (x, h') \<and> is_queue h' head xs \<and> is_queue h' x [] \<and>
    (\<forall>m. m \<notin> set (head # x # xs) \<longrightarrow> h' m = h m)"
  using remove_refines [of h head "[]" x xs] q
  by (auto simp: pop_from_list_def kern_simps is_queue_def)

text \<open>Removing a self-linked node changes nothing.\<close>

lemma remove_self_linked: "is_queue h x [] \<Longrightarrow> remove_from_list x h = Inr ((), h)"
proof -
  assume "is_queue h x []"
  then have "h x = \<lparr>l_next = Some x, l_prev = Some x\<rparr>" by (cases "h x") (simp add: is_queue_def)
  then show ?thesis
    by (simp add: remove_from_list_def init_list_ret kern_simps write_next_def write_prev_def fun_upd_idem)
qed

section \<open>The interface the clients rely on\<close>

text \<open>
  A queue of \<open>'x\<close>s inside a state \<open>'s\<close>: \<open>holds s xs\<close> says that the queue contains \<open>xs\<close>, the next
  to be taken first. \<open>may_push s x\<close> says that \<open>x\<close> is not queued yet. The header calls its insertion
  \<open>append_to_list\<close>, but what \<open>pop_from_list\<close> takes next is what was inserted last.
\<close>

locale lifo_queue =
  fixes holds :: "'s \<Rightarrow> 'x list \<Rightarrow> bool"
    and may_push :: "'s \<Rightarrow> 'x \<Rightarrow> bool"
    and push :: "'x \<Rightarrow> ('s, unit) kern"
    and pop :: "('s, 'x) kern"
  assumes push_holds: "holds s xs \<Longrightarrow> may_push s x \<Longrightarrow> \<exists>t. push x s = Inr ((), t) \<and> holds t (x # xs)"
    and pop_holds: "holds s (x # xs) \<Longrightarrow>
      \<exists>t. pop s = Inr (x, t) \<and> holds t xs \<and> may_push t x \<and> (\<forall>y. may_push s y \<longrightarrow> may_push t y)"
    and holds_unique: "holds s xs \<Longrightarrow> holds s ys \<Longrightarrow> xs = ys"
begin

lemma pop_after_push:
  assumes "holds s xs" and "may_push s x"
  shows "\<exists>t u. push x s = Inr ((), t) \<and> pop t = Inr (x, u) \<and> holds u xs"
  using push_holds [OF assms] pop_holds by blast

text \<open>Taking an element and putting another one back never reaches the rest of the queue.\<close>

lemma swap_top:
  assumes "holds s (y # ys)" and "may_push s x"
  shows "\<exists>t u. pop s = Inr (y, t) \<and> push x t = Inr ((), u) \<and> holds u (x # ys)"
proof -
  from pop_holds [OF assms(1)] assms(2) obtain t
    where t: "pop s = Inr (y, t)" "holds t ys" "may_push t x" by blast
  from push_holds [OF t(2,3)] t(1) show ?thesis by blast
qed

end

text \<open>One list head of the heap is such a queue of nodes.\<close>

interpretation node_queue: lifo_queue
  "\<lambda>h xs. is_queue h head xs" "\<lambda>h x. x \<noteq> head \<and> (\<forall>xs. is_queue h head xs \<longrightarrow> x \<notin> set xs)"
  "\<lambda>x. append_to_list x head" "pop_from_list head" for head
proof (unfold_locales, goal_cases)
  case (1 s xs x)
  then show ?case using append_refines [of s head xs x] by auto
next
  case (2 s x xs)
  then obtain h' where h': "pop_from_list head s = Inr (x, h')" "is_queue h' head xs"
    using pop_refines [OF 2] by auto
  moreover have "distinct (head # x # xs)" using 2 by (simp add: is_queue_def)
  ultimately show ?case using 2 by (auto dest: is_queue_unique)
next
  case (3 s xs ys)
  then show ?case by (rule is_queue_unique)
qed

end
