(* ===== verification/Page_Alloc.thy ===== *)
theory Page_Alloc
  imports Capability
begin

text \<open>
  Physical memory (\<open>kern/alloc.c\<close>): cutting the extents that the boot loader reports into naturally
  aligned power-of-two regions, and giving out pages from regions that the kernel claims. The array
  \<open>regions\<close> with its counter is a list; writing past its 64 entries is undefined. The two loops that
  cut an extent end only for some inputs, so they are partial functions into \<open>option\<close>.
\<close>

section \<open>Data and operations\<close>

abbreviation (input) MAX_REGIONS :: nat where "MAX_REGIONS \<equiv> 64"
abbreviation (input) PAGE_SIZE :: word_t where "PAGE_SIZE \<equiv> 4096"

record physical_extent =
  ext_start :: addr
  ext_len :: word_t

record power_of_two_region =
  r_addr :: addr
  r_size_bits :: u8
  r_in_kernel_use :: bool
  r_in_user_use :: bool
  r_for_pages :: bool
  r_watermark :: word_t

definition new_region :: "addr \<Rightarrow> u8 \<Rightarrow> power_of_two_region" where
  "new_region a bits = \<lparr>r_addr = a, r_size_bits = bits, r_in_kernel_use = False, r_in_user_use = False,
     r_for_pages = False, r_watermark = 0\<rparr>"

partial_function (option) shrink_block :: "addr \<Rightarrow> addr \<Rightarrow> word_t \<Rightarrow> word_t option" where
  "shrink_block start end_addr block =
     (if start + block > end_addr then shrink_block start end_addr (drop_bit 1 block) else Some block)"

definition largest_fitting_block :: "addr \<Rightarrow> addr \<Rightarrow> word_t option" where
  "largest_fitting_block start end_addr = shrink_block start end_addr (start AND - start)"

text \<open>\<open>__builtin_ctzll\<close>, which is undefined at zero.\<close>

fun count_trailing :: "nat \<Rightarrow> nat \<Rightarrow> word_t \<Rightarrow> nat" where
  "count_trailing i 0 w = i"
| "count_trailing i (Suc n) w = (if bit w i then i else count_trailing (Suc i) n w)"

definition ctzll :: "word_t \<Rightarrow> fault + word_t" where
  "ctzll w = (if w = 0 then Inl Undefined else Inr (of_nat (count_trailing 0 63 w)))"

definition page_count :: "word_t \<Rightarrow> fault + word_t" where
  "page_count block_size = (case ctzll block_size of Inl e \<Rightarrow> Inl e | Inr n \<Rightarrow> Inr (n - 12))"

definition add_region :: "power_of_two_region \<Rightarrow> power_of_two_region list \<Rightarrow> fault + power_of_two_region list" where
  "add_region r rs = (if length rs < MAX_REGIONS then Inr (rs @ [r]) else Inl Undefined)"

partial_function (option) carve ::
    "addr \<Rightarrow> addr \<Rightarrow> power_of_two_region list \<Rightarrow> (fault + power_of_two_region list) option" where
  "carve start end_addr rs =
     (if start < end_addr
      then Option.bind (largest_fitting_block start end_addr) (\<lambda>block.
           case page_count block of Inl e \<Rightarrow> Some (Inl e)
           | Inr bits \<Rightarrow>
             (case add_region (new_region start (ucast bits)) rs of Inl e \<Rightarrow> Some (Inl e)
              | Inr rs' \<Rightarrow> carve (start + block) end_addr rs'))
      else Some (Inr rs))"

definition allocate_aligned_regions :: "physical_extent \<Rightarrow> power_of_two_region list \<Rightarrow> (fault + power_of_two_region list) option" where
  "allocate_aligned_regions e rs = carve (ext_start e) (ext_start e + ext_len e) rs"

fun init_page_mmap :: "physical_extent list \<Rightarrow> power_of_two_region list \<Rightarrow> (fault + power_of_two_region list) option" where
  "init_page_mmap [] rs = Some (Inr rs)"
| "init_page_mmap (e # es) rs =
     (case allocate_aligned_regions e rs of None \<Rightarrow> None | Some (Inl f) \<Rightarrow> Some (Inl f)
      | Some (Inr rs') \<Rightarrow> init_page_mmap es rs')"

text \<open>The size in bytes, \<open>PAGE_SIZE << size_bits\<close>; a shift by 64 or more is undefined.\<close>

definition region_size :: "power_of_two_region \<Rightarrow> fault + word_t" where
  "region_size r = (if unat (r_size_bits r) < 64 then Inr (push_bit (unat (r_size_bits r)) PAGE_SIZE)
     else Inl Undefined)"

text \<open>The first loop: a region that the kernel already takes pages from.\<close>

fun alloc_from_used :: "power_of_two_region list \<Rightarrow> fault + (addr \<times> power_of_two_region list) option" where
  "alloc_from_used [] = Inr None"
| "alloc_from_used (r # rs) =
     (case region_size r of Inl e \<Rightarrow> Inl e
      | Inr sz \<Rightarrow>
        if r_in_kernel_use r \<and> r_for_pages r \<and> r_watermark r < sz - PAGE_SIZE
        then Inr (Some (r_addr r + r_watermark r, r\<lparr>r_watermark := r_watermark r + PAGE_SIZE\<rparr> # rs))
        else (case alloc_from_used rs of Inl e \<Rightarrow> Inl e | Inr None \<Rightarrow> Inr None
              | Inr (Some (a, rs')) \<Rightarrow> Inr (Some (a, r # rs'))))"

text \<open>The second loop: the first region that nobody uses.\<close>

fun alloc_from_unused :: "power_of_two_region list \<Rightarrow> (addr \<times> power_of_two_region list) option" where
  "alloc_from_unused [] = None"
| "alloc_from_unused (r # rs) =
     (if \<not> r_in_kernel_use r \<and> \<not> r_in_user_use r
      then Some (r_addr r, r\<lparr>r_in_kernel_use := True, r_for_pages := True, r_watermark := PAGE_SIZE\<rparr> # rs)
      else (case alloc_from_unused rs of None \<Rightarrow> None | Some (a, rs') \<Rightarrow> Some (a, r # rs')))"

definition alloc_page :: "(power_of_two_region list, addr) kern" where
  "alloc_page rs =
     (case alloc_from_used rs of Inl e \<Rightarrow> Inl e
      | Inr (Some (a, rs')) \<Rightarrow> Inr (a, rs')
      | Inr None \<Rightarrow> (case alloc_from_unused rs of Some (a, rs') \<Rightarrow> Inr (a, rs')
                     | None \<Rightarrow> Inl AssertFailed))"

section \<open>The largest aligned block\<close>

lemma odd_and_minus: "odd (m :: int) \<Longrightarrow> m AND - m = 1"
proof -
  assume "odd m"
  then obtain a where m: "m = 2 * a + 1" by (elim oddE)
  then have "- m div 2 = NOT a" by (simp add: not_int_def)
  moreover have "m div 2 = a" using m by simp
  moreover have "a AND NOT a = 0" by (rule bit.conj_cancel_right)
  moreover have "m AND - m = of_bool (odd m \<and> odd (- m)) + 2 * ((m div 2) AND (- m div 2))" by (rule and_rec)
  ultimately show ?thesis using \<open>odd m\<close> by simp
qed

lemma two_power_odd_decomp: "0 < (n :: nat) \<Longrightarrow> \<exists>k m. n = 2 ^ k * m \<and> odd m"
proof (induction n rule: less_induct)
  case (less n)
  show ?case
  proof (cases "odd n")
    case True
    then show ?thesis by (intro exI [of _ 0] exI [of _ n]) simp
  next
    case False
    then have "even n" by simp
    then obtain j where j: "n = 2 * j" by (rule evenE)
    then obtain k m where "j = 2 ^ k * m" "odd m" using less.IH [of j] less.prems by auto
    then show ?thesis using j by (intro exI [of _ "Suc k"] exI [of _ m]) simp
  qed
qed

lemma lowest_bit_block:
  assumes "0 < unat start"
  shows "\<exists>k m. unat start = 2 ^ k * m \<and> odd m \<and> (start :: word_t) AND - start = 2 ^ k"
proof -
  obtain k m where km: "unat start = 2 ^ k * m" "odd m" using two_power_odd_decomp [OF assms] by blast
  let ?i = "2 ^ k * int m"
  have "start = of_nat (unat start)" by simp
  also have "\<dots> = word_of_int (int (2 ^ k * m))" unfolding km(1) of_int_of_nat_eq ..
  finally have s: "start = word_of_int ?i" by simp
  have "push_bit k (int m) = ?i" "push_bit k (- int m) = - ?i" by (simp_all add: push_bit_eq_mult)
  then have "?i AND - ?i = push_bit k (int m AND - int m)" by (simp only: push_bit_and)
  also have "\<dots> = 2 ^ k" using km(2) by (simp add: odd_and_minus push_bit_eq_mult)
  finally have "(word_of_int (?i AND - ?i) :: word_t) = 2 ^ k" by simp
  moreover have "start AND - start = word_of_int (?i AND - ?i)"
    unfolding s of_int_and_eq of_int_minus by simp
  ultimately show ?thesis using km by auto
qed

lemma unat_two_power: "k < 64 \<Longrightarrow> unat (2 ^ k :: word_t) = 2 ^ k"
  using unat_push_bit_1 [where 'a = 64, of k] by simp

lemma drop_bit_two_power: "drop_bit 1 (2 ^ Suc k :: word_t) = 2 ^ k" if "Suc k < 64"
proof -
  have "unat (drop_bit 1 (2 ^ Suc k :: word_t)) = drop_bit 1 (unat (2 ^ Suc k :: word_t))"
    by (rule unat_drop_bit_eq)
  also have "\<dots> = unat (2 ^ k :: word_t)"
    using that by (simp only: unat_two_power drop_bit_eq_div) (simp add: unat_two_power)
  finally show ?thesis by (simp only: word_unat_eq_iff)
qed

lemma shrink_block_ok:
  assumes "unat start < unat end_addr" "k < 64" "unat start + 2 ^ k < 2 ^ 64"
  shows "\<exists>j \<le> k. shrink_block start end_addr (2 ^ k) = Some (2 ^ j) \<and> unat start + 2 ^ j \<le> unat end_addr \<and>
    (j = k \<or> unat end_addr < unat start + 2 ^ Suc j)"
  using assms(2,3)
proof (induction k)
  case 0
  then have "unat (start + 2 ^ 0) = unat start + 1" using unat_add_small [of start 1] by simp
  then have "\<not> start + 2 ^ 0 > end_addr" using assms(1) by (simp add: word_less_nat_alt)
  then show ?case using assms(1) by (simp add: shrink_block.simps)
next
  case (Suc k)
  have u: "unat (start + 2 ^ Suc k) = unat start + 2 ^ Suc k"
    using unat_add_small [of start "2 ^ Suc k"] unat_two_power [OF Suc.prems(1)] Suc.prems(2) by simp
  show ?case
  proof (cases "start + 2 ^ Suc k > end_addr")
    case True
    then have big: "unat end_addr < unat start + 2 ^ Suc k" using u by (simp add: word_less_nat_alt)
    obtain j where "j \<le> k" "shrink_block start end_addr (2 ^ k) = Some (2 ^ j)" "unat start + 2 ^ j \<le> unat end_addr"
      "j = k \<or> unat end_addr < unat start + 2 ^ Suc j"
      using Suc.IH Suc.prems by auto
    moreover have "shrink_block start end_addr (2 ^ Suc k) = shrink_block start end_addr (2 ^ k)"
      using True Suc.prems(1) by (subst shrink_block.simps) (simp only: drop_bit_two_power if_True)
    ultimately show ?thesis using big by (intro exI [of _ j]) auto
  next
    case False
    then have "unat start + 2 ^ Suc k \<le> unat end_addr" using u by (simp add: word_less_nat_alt)
    moreover have "shrink_block start end_addr (2 ^ Suc k) = Some (2 ^ Suc k)"
      using False by (subst shrink_block.simps) (simp only: if_False)
    ultimately show ?thesis by (intro exI [of _ "Suc k"]) simp
  qed
qed

lemma largest_fitting_block_ok:
  assumes pos: "0 < unat start" and lt: "unat start < unat end_addr" and top: "unat end_addr \<le> 2 ^ 63"
    and al: "4096 dvd unat start" "4096 dvd unat end_addr"
  shows "\<exists>j. 12 \<le> j \<and> j < 64 \<and> largest_fitting_block start end_addr = Some (2 ^ j) \<and>
    2 ^ j dvd unat start \<and> unat start + 2 ^ j \<le> unat end_addr"
proof -
  obtain k m where km: "unat start = 2 ^ k * m" "odd m" "start AND - start = 2 ^ k"
    using lowest_bit_block [OF pos] by blast
  have "0 < m" using km(2) by (cases m) auto
  then have "(2 :: nat) ^ k \<le> unat start" using km(1) by simp
  moreover from this have "(2 :: nat) ^ k < 2 ^ 63" using lt top by linarith
  then have "k < 63" by (rule power_less_imp_less_exp [rotated]) simp
  ultimately have k: "k < 63" "unat start + 2 ^ k < 2 ^ 64" using lt top by auto
  have "coprime ((2 :: nat) ^ 12) m" using km(2) by (metis coprime_left_2_iff_odd coprime_power_left_iff)
  moreover have "(2 :: nat) ^ 12 dvd 2 ^ k * m" using al(1) km(1) by simp
  ultimately have "(2 :: nat) ^ 12 dvd 2 ^ k" by (metis coprime_dvd_mult_left_iff)
  then have "12 \<le> k" by (simp add: power_dvd_imp_le [of 2])
  obtain j where j: "j \<le> k" "shrink_block start end_addr (2 ^ k) = Some (2 ^ j)" "unat start + 2 ^ j \<le> unat end_addr"
    "j = k \<or> unat end_addr < unat start + 2 ^ Suc j"
    using shrink_block_ok [OF lt _ k(2)] k(1) by auto
  have "12 \<le> j"
  proof (rule ccontr)
    assume "\<not> 12 \<le> j"
    then have "unat end_addr < unat start + 2 ^ Suc j" "Suc j \<le> 12" using j(4) \<open>12 \<le> k\<close> by auto
    moreover from this have "(2 :: nat) ^ Suc j \<le> 2 ^ 12" by (intro power_increasing) auto
    moreover have "4096 \<le> unat end_addr - unat start" using al lt by (intro dvd_imp_le dvd_diff_nat) auto
    ultimately show False by simp
  qed
  moreover have "2 ^ j dvd unat start" using j(1) km(1) by (simp add: le_imp_power_dvd)
  ultimately show ?thesis using j k(1) km(3) by (auto simp: largest_fitting_block_def)
qed

lemma count_trailing_power: "i \<le> j \<Longrightarrow> j \<le> i + n \<Longrightarrow> j < 64 \<Longrightarrow> count_trailing i n (2 ^ j) = j"
  by (induction n arbitrary: i) (auto simp: bit_exp_iff)

lemma page_count_power: "12 \<le> j \<Longrightarrow> j < 64 \<Longrightarrow> page_count (2 ^ j) = Inr (of_nat (j - 12))"
  using unat_two_power [of j] by (auto simp: page_count_def ctzll_def count_trailing_power of_nat_diff)

text \<open>Regions that cover the addresses from \<open>a\<close> to \<open>e\<close> without gaps, each aligned to its size.\<close>

fun tiles :: "nat \<Rightarrow> nat \<Rightarrow> power_of_two_region list \<Rightarrow> bool" where
  "tiles a e [] \<longleftrightarrow> a = e"
| "tiles a e (r # rs) \<longleftrightarrow>
     unat (r_addr r) = a \<and> 2 ^ (unat (r_size_bits r) + 12) dvd a \<and> tiles (a + 2 ^ (unat (r_size_bits r) + 12)) e rs"

lemma unat_ucast_small: "n < 52 \<Longrightarrow> unat (ucast (of_nat n :: word_t) :: u8) = n"
  by (simp add: unsigned_ucast_eq take_bit_nat_eq_self unsigned_of_nat)

lemma carve_ok:
  assumes "0 < unat start" "unat start \<le> unat end_addr" "unat end_addr \<le> 2 ^ 63"
    "4096 dvd unat start" "4096 dvd unat end_addr"
  shows "carve start end_addr rs = Some (Inl Undefined) \<or>
    (\<exists>new. carve start end_addr rs = Some (Inr (rs @ new)) \<and> tiles (unat start) (unat end_addr) new)"
  using assms(1,2,4)
proof (induction "unat end_addr - unat start" arbitrary: start rs rule: less_induct)
  case less
  show ?case
  proof (cases "start < end_addr")
    case False
    then have "unat start = unat end_addr" using less.prems by (simp add: word_less_nat_alt)
    moreover have "carve start end_addr rs = Some (Inr rs)" using False by (subst carve.simps) simp
    ultimately show ?thesis by auto
  next
    case True
    then have lt: "unat start < unat end_addr" by (simp add: word_less_nat_alt)
    obtain j where j: "12 \<le> j" "j < 64" "largest_fitting_block start end_addr = Some (2 ^ j)"
      "2 ^ j dvd unat start" "unat start + 2 ^ j \<le> unat end_addr"
      using largest_fitting_block_ok [OF less.prems(1) lt assms(3) less.prems(3) assms(5)] by blast
    have sum: "unat (start + 2 ^ j) = unat start + 2 ^ j"
      using unat_add_small [of start "2 ^ j"] unat_two_power [OF j(2)] j(5) assms(3) by simp
    have bits: "unat (ucast (of_nat (j - 12) :: word_t) :: u8) = j - 12"
      using j(2) by (intro unat_ucast_small) auto
    have dec: "unat end_addr - unat (start + 2 ^ j) < unat end_addr - unat start"
      unfolding sum by (rule diff_less_mono2) (simp_all add: lt)
    have "(4096 :: nat) dvd 2 ^ j" using le_imp_power_dvd [OF j(1), of "2 :: nat"] by simp
    then have al: "4096 dvd unat (start + 2 ^ j)" using less.prems(3) sum by simp
    show ?thesis
    proof (cases "length rs < MAX_REGIONS")
      case False
      then show ?thesis using True j by (subst carve.simps) (simp add: page_count_power add_region_def)
    next
      case c: True
      let ?r = "new_region start (ucast (of_nat (j - 12) :: word_t))"
      have step: "carve start end_addr rs = carve (start + 2 ^ j) end_addr (rs @ [?r])"
        using True j c by (subst carve.simps) (simp add: page_count_power add_region_def)
      have "carve (start + 2 ^ j) end_addr (rs @ [?r]) = Some (Inl Undefined) \<or>
          (\<exists>new. carve (start + 2 ^ j) end_addr (rs @ [?r]) = Some (Inr ((rs @ [?r]) @ new)) \<and>
            tiles (unat (start + 2 ^ j)) (unat end_addr) new)"
        using sum j(5) al dec by (intro less.hyps) auto
      moreover have "tiles (unat start) (unat end_addr) (?r # new)" if "tiles (unat (start + 2 ^ j)) (unat end_addr) new" for new
        using that sum j(1,4) bits by (simp add: new_region_def)
      ultimately show ?thesis using step by auto
    qed
  qed
qed

section \<open>Pages that have been given out\<close>

definition region_bytes :: "power_of_two_region \<Rightarrow> nat" where
  "region_bytes r = 2 ^ (unat (r_size_bits r) + 12)"

definition span :: "power_of_two_region \<Rightarrow> nat set" where
  "span r = {unat (r_addr r) ..< unat (r_addr r) + region_bytes r}"

definition region_ok :: "power_of_two_region \<Rightarrow> bool" where
  "region_ok r \<longleftrightarrow> unat (r_size_bits r) < 52 \<and> unat (r_addr r) + region_bytes r < 2 ^ 64 \<and>
     4096 dvd unat (r_addr r) \<and> 4096 dvd unat (r_watermark r) \<and> unat (r_watermark r) \<le> region_bytes r \<and>
     \<not> (r_in_kernel_use r \<and> r_in_user_use r)"

definition regions_ok :: "power_of_two_region list \<Rightarrow> bool" where
  "regions_ok rs \<longleftrightarrow> (\<forall>i < length rs. region_ok (rs ! i)) \<and>
     (\<forall>i < length rs. \<forall>j < length rs. i \<noteq> j \<longrightarrow> span (rs ! i) \<inter> span (rs ! j) = {})"

text \<open>The pages taken from a region, and from all of them.\<close>

definition taken :: "power_of_two_region \<Rightarrow> nat set" where
  "taken r = (if r_in_kernel_use r \<and> r_for_pages r
     then {unat (r_addr r) + k | k. 4096 dvd k \<and> k < unat (r_watermark r)} else {})"

definition allocated :: "power_of_two_region list \<Rightarrow> nat set" where
  "allocated rs = (\<Union>i < length rs. taken (rs ! i))"

lemma region_size_ok: "region_ok r \<Longrightarrow> \<exists>sz. region_size r = Inr sz \<and> unat sz = region_bytes r"
proof -
  assume ok: "region_ok r"
  let ?n = "unat (r_size_bits r)"
  have n: "?n < 52" using ok by (simp add: region_ok_def)
  have "push_bit ?n PAGE_SIZE = push_bit (?n + 12) (1 :: word_t)"
    using push_bit_push_bit [of ?n 12 "1 :: word_t"] by simp
  then have "unat (push_bit ?n PAGE_SIZE) = 2 ^ (?n + 12)"
    using n unat_push_bit_1 [where 'a = 64, of "?n + 12"] by (simp del: push_bit_of_1)
  then show ?thesis using n by (simp add: region_size_def region_bytes_def)
qed

lemma alloc_from_used_Some:
  "alloc_from_used rs = Inr (Some (a, rs')) \<Longrightarrow> \<exists>i < length rs.
     rs' = rs[i := (rs ! i)\<lparr>r_watermark := r_watermark (rs ! i) + PAGE_SIZE\<rparr>] \<and>
     a = r_addr (rs ! i) + r_watermark (rs ! i) \<and> r_in_kernel_use (rs ! i) \<and> r_for_pages (rs ! i) \<and>
     (\<exists>sz. region_size (rs ! i) = Inr sz \<and> r_watermark (rs ! i) < sz - PAGE_SIZE)"
proof (induction rs arbitrary: rs')
  case Nil
  then show ?case by simp
next
  case (Cons r rs)
  obtain sz where sz: "region_size r = Inr sz" using Cons.prems by (auto split: sum.splits)
  show ?case
  proof (cases "r_in_kernel_use r \<and> r_for_pages r \<and> r_watermark r < sz - PAGE_SIZE")
    case True
    then show ?thesis using Cons.prems sz by (intro exI [of _ 0]) auto
  next
    case False
    then obtain rs1 where "alloc_from_used rs = Inr (Some (a, rs1))" "rs' = r # rs1"
      using Cons.prems sz by (auto split: sum.splits option.splits)
    then obtain i where "i < length rs" "rs1 = rs[i := (rs ! i)\<lparr>r_watermark := r_watermark (rs ! i) + PAGE_SIZE\<rparr>]"
      "a = r_addr (rs ! i) + r_watermark (rs ! i)" "r_in_kernel_use (rs ! i)" "r_for_pages (rs ! i)"
      "\<exists>sz. region_size (rs ! i) = Inr sz \<and> r_watermark (rs ! i) < sz - PAGE_SIZE"
      using Cons.IH by blast
    then show ?thesis using \<open>rs' = r # rs1\<close> by (intro exI [of _ "Suc i"]) auto
  qed
qed

lemma alloc_from_unused_Some:
  "alloc_from_unused rs = Some (a, rs') \<Longrightarrow> \<exists>i < length rs.
     rs' = rs[i := (rs ! i)\<lparr>r_in_kernel_use := True, r_for_pages := True, r_watermark := PAGE_SIZE\<rparr>] \<and>
     a = r_addr (rs ! i) \<and> \<not> r_in_kernel_use (rs ! i) \<and> \<not> r_in_user_use (rs ! i)"
proof (induction rs arbitrary: rs')
  case Nil
  then show ?case by simp
next
  case (Cons r rs)
  show ?case
  proof (cases "\<not> r_in_kernel_use r \<and> \<not> r_in_user_use r")
    case True
    then show ?thesis using Cons.prems by (intro exI [of _ 0]) auto
  next
    case False
    then obtain rs1 where "alloc_from_unused rs = Some (a, rs1)" "rs' = r # rs1"
      using Cons.prems by (auto split: option.splits)
    then obtain i where "i < length rs"
      "rs1 = rs[i := (rs ! i)\<lparr>r_in_kernel_use := True, r_for_pages := True, r_watermark := PAGE_SIZE\<rparr>]"
      "a = r_addr (rs ! i)" "\<not> r_in_kernel_use (rs ! i)" "\<not> r_in_user_use (rs ! i)"
      using Cons.IH by blast
    then show ?thesis using \<open>rs' = r # rs1\<close> by (intro exI [of _ "Suc i"]) auto
  qed
qed

text \<open>One more page from region \<open>r\<close>, which becomes \<open>r'\<close>.\<close>

definition takes_page :: "power_of_two_region \<Rightarrow> nat \<Rightarrow> power_of_two_region \<Rightarrow> bool" where
  "takes_page r p r' \<longleftrightarrow> region_ok r' \<and> span r' = span r \<and> p \<notin> taken r \<and> taken r' = insert p (taken r) \<and>
     p \<in> span r \<and> p + 4096 \<le> unat (r_addr r) + region_bytes r \<and> 4096 dvd p \<and> \<not> r_in_user_use r"

lemma multiples_insert:
  fixes w :: nat
  assumes "4096 dvd w"
  shows "{a + k | k. 4096 dvd k \<and> k < w + 4096} = insert (a + w) {a + k | k. 4096 dvd k \<and> k < w}"
proof -
  have "k = w" if "4096 dvd k" "w \<le> k" "k < w + 4096" for k
  proof -
    have "4096 dvd k - w" using assms that(1) by (rule dvd_diff_nat [rotated])
    then show ?thesis using that by (auto dest: dvd_imp_le)
  qed
  then have "4096 dvd k \<and> k < w + 4096 \<longleftrightarrow> k = w \<or> 4096 dvd k \<and> k < w" for k
    using assms by (metis le_add1 less_imp_le_nat linorder_not_le nat_less_le order_less_le_trans trans_less_add1 zero_less_numeral less_add_same_cancel1)
  then show ?thesis by auto
qed

lemma used_takes_page:
  assumes ok: "region_ok r" and u: "r_in_kernel_use r" "r_for_pages r"
    and sz: "region_size r = Inr sz" "r_watermark r < sz - PAGE_SIZE"
  shows "takes_page r (unat (r_addr r + r_watermark r)) (r\<lparr>r_watermark := r_watermark r + PAGE_SIZE\<rparr>)"
proof -
  have s: "unat sz = region_bytes r" using region_size_ok [OF ok] sz(1) by auto
  have page: "(4096 :: nat) dvd region_bytes r" using le_imp_power_dvd [of 12 "unat (r_size_bits r) + 12" "2 :: nat"]
    by (simp add: region_bytes_def)
  then have "4096 \<le> region_bytes r" by (rule dvd_imp_le) (simp add: region_bytes_def)
  then have "unat (sz - PAGE_SIZE) = region_bytes r - 4096"
    using s by (subst unat_sub) (simp_all add: word_le_nat_alt)
  then have w: "unat (r_watermark r) + 4096 < region_bytes r" using sz(2) by (simp add: word_less_nat_alt)
  have b: "unat (r_addr r) + region_bytes r < 2 ^ 64" using ok by (simp add: region_ok_def)
  have aw: "unat (r_addr r + r_watermark r) = unat (r_addr r) + unat (r_watermark r)"
    using w b by (intro unat_add_small) linarith
  have ww: "unat (r_watermark r + PAGE_SIZE) = unat (r_watermark r) + 4096"
    using w b unat_add_small [of "r_watermark r" PAGE_SIZE] by simp
  have wd: "4096 dvd unat (r_watermark r)" using ok by (simp add: region_ok_def)
  show ?thesis
    using ok u w wd unfolding takes_page_def aw
    by (auto simp: region_ok_def span_def taken_def ww multiples_insert region_bytes_def)
qed

lemma unused_takes_page:
  assumes ok: "region_ok r" and u: "\<not> r_in_kernel_use r" "\<not> r_in_user_use r"
  shows "takes_page r (unat (r_addr r)) (r\<lparr>r_in_kernel_use := True, r_for_pages := True, r_watermark := PAGE_SIZE\<rparr>)"
proof -
  have page: "(4096 :: nat) dvd region_bytes r" using le_imp_power_dvd [of 12 "unat (r_size_bits r) + 12" "2 :: nat"]
    by (simp add: region_bytes_def)
  then have "4096 \<le> region_bytes r" by (rule dvd_imp_le) (simp add: region_bytes_def)
  moreover have "{a + k | k. 4096 dvd k \<and> k < (4096 :: nat)} = {a}" for a
    using multiples_insert [of 0 a] by simp
  ultimately show ?thesis
    using ok u unfolding takes_page_def by (auto simp: region_ok_def span_def taken_def region_bytes_def)
qed

lemma update_takes_page:
  assumes ok: "regions_ok rs" and i: "i < length rs" and t: "takes_page (rs ! i) p r'"
  shows "regions_ok (rs[i := r'])" "p \<notin> allocated rs" "allocated (rs[i := r']) = insert p (allocated rs)"
proof -
  have sub: "region_ok r \<Longrightarrow> taken r \<subseteq> span r" for r
    by (auto simp: taken_def span_def region_ok_def)
  show "regions_ok (rs[i := r'])"
    using ok t i by (auto simp: regions_ok_def takes_page_def nth_list_update)
  have "p \<notin> taken (rs ! j)" if "j < length rs" for j
  proof (cases "j = i")
    case True
    then show ?thesis using t by (simp add: takes_page_def)
  next
    case False
    then have "span (rs ! i) \<inter> span (rs ! j) = {}" using ok i that by (auto simp: regions_ok_def)
    then show ?thesis using t sub [of "rs ! j"] ok that by (auto simp: takes_page_def regions_ok_def)
  qed
  then show "p \<notin> allocated rs" by (simp add: allocated_def)
  show "allocated (rs[i := r']) = insert p (allocated rs)"
    using t i unfolding allocated_def takes_page_def
    by (auto simp: nth_list_update split: if_splits)
qed

lemma alloc_page_fresh:
  assumes ok: "regions_ok rs" and a: "alloc_page rs = Inr (a, rs')"
  shows "regions_ok rs' \<and> unat a \<notin> allocated rs \<and> allocated rs' = insert (unat a) (allocated rs) \<and> 4096 dvd unat a \<and>
    (\<exists>i < length rs. unat a \<in> span (rs ! i) \<and> \<not> r_in_user_use (rs ! i) \<and>
      unat a + 4096 \<le> unat (r_addr (rs ! i)) + region_bytes (rs ! i))"
proof -
  have "\<exists>i r'. i < length rs \<and> rs' = rs[i := r'] \<and> takes_page (rs ! i) (unat a) r'"
  proof (cases "alloc_from_used rs = Inr (Some (a, rs'))")
    case True
    obtain i sz where i: "i < length rs" "rs' = rs[i := (rs ! i)\<lparr>r_watermark := r_watermark (rs ! i) + PAGE_SIZE\<rparr>]"
      "a = r_addr (rs ! i) + r_watermark (rs ! i)" "r_in_kernel_use (rs ! i)" "r_for_pages (rs ! i)"
      "region_size (rs ! i) = Inr sz" "r_watermark (rs ! i) < sz - PAGE_SIZE"
      using alloc_from_used_Some [OF True] by blast
    moreover have "region_ok (rs ! i)" using ok i(1) by (simp add: regions_ok_def)
    ultimately show ?thesis using used_takes_page [of "rs ! i" sz] by blast
  next
    case False
    then have "alloc_from_unused rs = Some (a, rs')" using a by (auto simp: alloc_page_def split: sum.splits option.splits)
    from alloc_from_unused_Some [OF this] obtain i where i: "i < length rs"
      "rs' = rs[i := (rs ! i)\<lparr>r_in_kernel_use := True, r_for_pages := True, r_watermark := PAGE_SIZE\<rparr>]"
      "a = r_addr (rs ! i)" "\<not> r_in_kernel_use (rs ! i)" "\<not> r_in_user_use (rs ! i)"
      by blast
    moreover have "region_ok (rs ! i)" using ok i(1) by (simp add: regions_ok_def)
    ultimately show ?thesis using unused_takes_page [of "rs ! i"] by blast
  qed
  then obtain i r' where i: "i < length rs" "rs' = rs[i := r']" "takes_page (rs ! i) (unat a) r'" by blast
  then show ?thesis using update_takes_page [OF ok i(1,3)] by (auto simp: takes_page_def)
qed

text \<open>A sequence of allocations.\<close>

fun alloc_pages :: "nat \<Rightarrow> (power_of_two_region list, addr list) kern" where
  "alloc_pages 0 = kret []"
| "alloc_pages (Suc n) = kbind alloc_page (\<lambda>a. kbind (alloc_pages n) (\<lambda>as. kret (a # as)))"

lemma alloc_pages_fresh:
  "regions_ok rs \<Longrightarrow> alloc_pages n rs = Inr (as, rs') \<Longrightarrow>
     regions_ok rs' \<and> distinct as \<and> set (map unat as) \<inter> allocated rs = {} \<and>
     allocated rs' = set (map unat as) \<union> allocated rs \<and> (\<forall>a \<in> set as. 4096 dvd unat a)"
proof (induction n arbitrary: rs as)
  case 0
  then show ?case by (simp add: kret_def)
next
  case (Suc n)
  then obtain a rs1 bs where a: "alloc_page rs = Inr (a, rs1)" "alloc_pages n rs1 = Inr (bs, rs')" "as = a # bs"
    by (auto simp: kbind_Inr kret_def)
  note f = alloc_page_fresh [OF Suc.prems(1) a(1)]
  note ih = Suc.IH [OF conjunct1 [OF f] a(2)]
  have "a \<notin> set bs" using f ih by auto
  then show ?case using f ih a(3) by auto
qed

definition example_regions :: "power_of_two_region list" where
  "example_regions = [(new_region 0x100000 0)\<lparr>r_in_user_use := True\<rparr>, new_region 0x200000 1]"

lemma example_regions_ok: "regions_ok example_regions"
proof -
  have two: "i < length example_regions \<Longrightarrow> i = 0 \<or> i = 1" for i by (auto simp: example_regions_def)
  have "region_ok (example_regions ! 0)" "region_ok (example_regions ! 1)"
    by (simp_all add: example_regions_def region_ok_def new_region_def region_bytes_def)
  moreover have "span (example_regions ! 0) \<inter> span (example_regions ! 1) = {}"
    by (auto simp: example_regions_def span_def new_region_def region_bytes_def)
  ultimately show ?thesis unfolding regions_ok_def using two by blast
qed

section \<open>Properties\<close>



text \<open>The page allocator never gives out a page twice: in a sequence of allocations all pages are distinct,
  none of them had been given out before, and each is page aligned.\<close>

theorem pages_never_reused:
  assumes "regions_ok rs" "alloc_pages n rs = Inr (as, rs')"
  shows "distinct as \<and> set (map unat as) \<inter> allocated rs = {} \<and> (\<forall>a \<in> set as. 4096 dvd unat a)"
  using alloc_pages_fresh [OF assms] by blast

theorem pages_never_reused_witness:
  "\<exists>as rs'. alloc_pages 1 example_regions = Inr (as, rs') \<and> as = [0x200000] \<and> distinct as"
proof -
  have "\<exists>rs'. alloc_pages 1 example_regions = Inr ([0x200000], rs')"
    by (simp add: kern_simps alloc_page_def example_regions_def new_region_def region_size_def)
  then show ?thesis using pages_never_reused [OF example_regions_ok] by blast
qed

text \<open>C20: Every page that the kernel takes for itself lies completely inside a region that has not been handed to
  user programs, and taking it keeps the allocator's bookkeeping consistent: the set of pages given out
  grows by exactly that page.\<close>

theorem alloc_page_accounted:
  assumes "regions_ok rs" "alloc_page rs = Inr (a, rs')"
  shows "regions_ok rs' \<and> allocated rs' = insert (unat a) (allocated rs) \<and>
    (\<exists>r \<in> set rs. unat (r_addr r) \<le> unat a \<and> unat a + 4096 \<le> unat (r_addr r) + region_bytes r \<and> \<not> r_in_user_use r)"
  using alloc_page_fresh [OF assms] unfolding span_def by (metis atLeastLessThan_iff nth_mem)

theorem alloc_page_accounted_witness:
  "\<exists>rs'. alloc_page example_regions = Inr (0x200000, rs') \<and> allocated rs' = insert 0x200000 (allocated example_regions)"
proof -
  have "\<exists>rs'. alloc_page example_regions = Inr (0x200000, rs')"
    by (simp add: alloc_page_def example_regions_def new_region_def region_size_def)
  then obtain rs' where a: "alloc_page example_regions = Inr (0x200000, rs')" by blast
  from alloc_page_accounted [OF example_regions_ok a] show ?thesis using a by auto
qed

end
