(* ===== verification/Kernel_State.thy ===== *)
theory Kernel_State
  imports Cdt Intrusive_List Page_Alloc
begin

text \<open>
  The data of the kernel (\<open>include/kern/obj/*.h\<close>, \<open>include/kern/per_cpu.h\<close>,
  \<open>include/kern/arch/x86_64/exports.h\<close>, \<open>include/spin_lock.h\<close>, \<open>include/sys/ipc.h\<close>) and the
  functions on saved register frames (\<open>kern/arch/x86_64/frame.c\<close>). Memory is one heap per kind of
  object, indexed by the address of the object, so that pointers stay 64-bit words and two
  capabilities to one object alias; members of a thread control block or an endpoint that other
  objects point at (capability slots, list heads) have an address made of the object's address and
  the member. The state is that of one processor holding the kernel lock, with the hardware the
  kernel touches: page tables, control registers, I/O ports and the I/O APIC registers.
\<close>

section \<open>Register frames\<close>

record frame =
  f_r15 :: word_t
  f_r14 :: word_t
  f_r13 :: word_t
  f_r12 :: word_t
  f_r11 :: word_t
  f_r10 :: word_t
  f_r9 :: word_t
  f_r8 :: word_t
  f_rdi :: word_t
  f_rsi :: word_t
  f_rbp :: word_t
  f_rbx :: word_t
  f_rdx :: word_t
  f_rcx :: word_t
  f_rax :: word_t
  f_int_no :: word_t
  f_err_code :: word_t
  f_rip :: word_t
  f_cs :: word_t
  f_rflags :: word_t
  f_rsp :: word_t
  f_ss :: word_t

definition zero_frame :: frame where
  "zero_frame = \<lparr>f_r15 = 0, f_r14 = 0, f_r13 = 0, f_r12 = 0, f_r11 = 0, f_r10 = 0, f_r9 = 0, f_r8 = 0,
     f_rdi = 0, f_rsi = 0, f_rbp = 0, f_rbx = 0, f_rdx = 0, f_rcx = 0, f_rax = 0,
     f_int_no = 0, f_err_code = 0, f_rip = 0, f_cs = 0, f_rflags = 0, f_rsp = 0, f_ss = 0\<rparr>"

abbreviation (input) USER_CS :: word_t where "USER_CS \<equiv> 0x23"
abbreviation (input) USER_SS :: word_t where "USER_SS \<equiv> 0x1B"
abbreviation (input) FLAG_IF :: word_t where "FLAG_IF \<equiv> 0x200"

definition new_user_frame :: "word_t \<Rightarrow> word_t \<Rightarrow> frame" where
  "new_user_frame rip rsp =
     zero_frame\<lparr>f_cs := USER_CS, f_ss := USER_SS, f_rip := rip, f_rsp := rsp, f_rflags := 0x202\<rparr>"

definition get_frame_arg :: "frame \<Rightarrow> nat \<Rightarrow> fault + word_t" where
  "get_frame_arg f n =
     (if n = 0 then Inr (f_rdi f)
      else if n = 1 then Inr (f_rsi f)
      else if n = 2 then Inr (f_rdx f)
      else if n = 3 then Inr (f_rcx f)
      else if n = 4 then Inr (f_r8 f)
      else if n = 5 then Inr (f_r9 f)
      else Inl Panic)"

definition get_frame_syscall_arg :: "frame \<Rightarrow> nat \<Rightarrow> fault + word_t" where
  "get_frame_syscall_arg f n = (if n = 3 then Inr (f_r10 f) else get_frame_arg f n)"

definition set_frame_arg :: "nat \<Rightarrow> word_t \<Rightarrow> frame \<Rightarrow> fault + frame" where
  "set_frame_arg n val f =
     (if n = 0 then Inr (f\<lparr>f_rdi := val\<rparr>)
      else if n = 1 then Inr (f\<lparr>f_rsi := val\<rparr>)
      else if n = 2 then Inr (f\<lparr>f_rdx := val\<rparr>)
      else if n = 3 then Inr (f\<lparr>f_rcx := val\<rparr>)
      else if n = 4 then Inr (f\<lparr>f_r8 := val\<rparr>)
      else if n = 5 then Inr (f\<lparr>f_r9 := val\<rparr>)
      else Inl Panic)"

definition set_frame_return :: "word_t \<Rightarrow> frame \<Rightarrow> frame" where
  "set_frame_return val f = f\<lparr>f_rax := val\<rparr>"

definition set_frame_r15 :: "word_t \<Rightarrow> frame \<Rightarrow> frame" where
  "set_frame_r15 val f = f\<lparr>f_r15 := val\<rparr>"

definition set_frame_sp :: "word_t \<Rightarrow> frame \<Rightarrow> frame" where
  "set_frame_sp val f = f\<lparr>f_rsp := val\<rparr>"

definition ensure_frame_valid_for_usermode :: "frame \<Rightarrow> frame" where
  "ensure_frame_valid_for_usermode f =
     f\<lparr>f_cs := USER_CS, f_ss := USER_SS, f_rflags := f_rflags f OR FLAG_IF\<rparr>"

section \<open>Kernel objects\<close>

datatype tcb_state =
    TASK_STATE_RUNNABLE
  | TASK_STATE_RUNNING
  | TASK_STATE_DEAD
  | TASK_STATE_SENDING
  | TASK_STATE_RECEIVING
  | TASK_STATE_CALLING
  | TASK_STATE_SUSPENDED

text \<open>
  A thread control block without its list nodes and capability slots, which live in their heaps.
  The name is the memory from \<open>tcb->name\<close> on, of which the first 16 bytes belong to the block.
\<close>

record tcb =
  t_state :: tcb_state
  t_ipc_buffer :: "addr option"
  t_endpoint_badge :: word_t
  t_expects_reply :: bool
  t_reply_to :: "addr option"
  t_tls_base :: word_t
  t_bound_notification :: "addr option"
  t_saved_state :: frame
  t_current_user_frame :: "addr option"
  t_debug :: bool
  t_name :: "nat \<Rightarrow> u8"

definition zero_tcb :: tcb where
  "zero_tcb = \<lparr>t_state = TASK_STATE_RUNNABLE, t_ipc_buffer = None, t_endpoint_badge = 0,
     t_expects_reply = False, t_reply_to = None, t_tls_base = 0, t_bound_notification = None,
     t_saved_state = zero_frame, t_current_user_frame = None, t_debug = False, t_name = (\<lambda>_. 0)\<rparr>"

record notification =
  n_word :: word_t
  n_bound_tcb :: "addr option"

definition zero_notification :: notification where
  "zero_notification = \<lparr>n_word = 0, n_bound_tcb = None\<rparr>"

record irq_handler_data =
  h_irq :: word_t
  h_in_service :: bool
  h_n :: "addr option"
  h_badge :: word_t

text \<open>The list heads and list nodes of the kernel.\<close>

datatype node =
    RunQueue
  | RunnableNode addr
  | SendRecvNode addr
  | EndpointList addr
  | NotificationList addr

section \<open>The IPC buffer\<close>

text \<open>
  \<open>struct ipc_buffer\<close> is an array of 511 words: 504 message words, the sender badge, three
  capability words and the receive path. Indices are word offsets from its start.
\<close>

type_synonym ipc_buffer = "nat \<Rightarrow> word_t"

abbreviation MESSAGE_MAX_LENGTH :: nat where "MESSAGE_MAX_LENGTH \<equiv> 504"
abbreviation IPC_SENDER_BADGE :: nat where "IPC_SENDER_BADGE \<equiv> 504"
abbreviation IPC_CAPS_OR_BADGES :: nat where "IPC_CAPS_OR_BADGES \<equiv> 505"
abbreviation IPC_RECEIVE_CNODE :: nat where "IPC_RECEIVE_CNODE \<equiv> 508"
abbreviation IPC_RECEIVE_INDEX :: nat where "IPC_RECEIVE_INDEX \<equiv> 509"
abbreviation IPC_RECEIVE_DEPTH :: nat where "IPC_RECEIVE_DEPTH \<equiv> 510"

section \<open>Locks\<close>

record spin_lock_t =
  lk_front :: u32
  lk_back :: u32

section \<open>The kernel state\<close>

datatype io_width = IO8 | IO16 | IO32

datatype io_event = PortIn io_width u16 | PortOut io_width u16 u32

record kstate =
  ctes :: cte_heap
  lists :: "node list_heap"
  tcbs :: "addr \<Rightarrow> tcb"
  notifications :: "addr \<Rightarrow> notification"
  ipc_buffers :: "addr \<Rightarrow> ipc_buffer"
  frame_mem :: "addr \<Rightarrow> frame"
  ptes :: "addr \<Rightarrow> word_t"
  regions :: "power_of_two_region list"
  irq_handlers :: "addr \<Rightarrow> irq_handler_data"
  irq_handlers_base :: addr
  irq_handlers_issued :: word_t
  ioapic_regs :: "u32 \<Rightarrow> u32"
  current_tcb :: "addr option"
  return_to_tcb :: "addr option"
  cr3 :: word_t
  fs_base :: word_t
  hhdm :: word_t
  user_mem :: "addr \<Rightarrow> u8"
  port_in :: "io_width \<Rightarrow> u16 \<Rightarrow> u32"
  io_log :: "io_event list"
  runnable_tcbs_lock :: spin_lock_t
  big_kernel_lock :: spin_lock_t

text \<open>Running an operation of one heap on the whole state.\<close>

definition with_ctes :: "(cte_heap, 'a) kern \<Rightarrow> (kstate, 'a) kern" where
  [kern_simps]: "with_ctes m = (\<lambda>s. case m (ctes s) of Inl e \<Rightarrow> Inl e
     | Inr (x, h) \<Rightarrow> Inr (x, s\<lparr>ctes := h\<rparr>))"

definition with_lists :: "(node list_heap, 'a) kern \<Rightarrow> (kstate, 'a) kern" where
  [kern_simps]: "with_lists m = (\<lambda>s. case m (lists s) of Inl e \<Rightarrow> Inl e
     | Inr (x, h) \<Rightarrow> Inr (x, s\<lparr>lists := h\<rparr>))"

definition with_regions :: "(power_of_two_region list, 'a) kern \<Rightarrow> (kstate, 'a) kern" where
  [kern_simps]: "with_regions m = (\<lambda>s. case m (regions s) of Inl e \<Rightarrow> Inl e
     | Inr (x, r) \<Rightarrow> Inr (x, s\<lparr>regions := r\<rparr>))"

definition klift :: "fault + 'a \<Rightarrow> ('s, 'a) kern" where
  [kern_simps]: "klift r = (\<lambda>s. case r of Inl e \<Rightarrow> Inl e | Inr x \<Rightarrow> Inr (x, s))"

definition upd_tcb :: "addr \<Rightarrow> (tcb \<Rightarrow> tcb) \<Rightarrow> kstate \<Rightarrow> kstate" where
  "upd_tcb t f s = s\<lparr>tcbs := (tcbs s)(t := f (tcbs s t))\<rparr>"

definition upd_nfn :: "addr \<Rightarrow> (notification \<Rightarrow> notification) \<Rightarrow> kstate \<Rightarrow> kstate" where
  "upd_nfn n f s = s\<lparr>notifications := (notifications s)(n := f (notifications s n))\<rparr>"

definition upd_ipc :: "addr \<Rightarrow> nat \<Rightarrow> word_t \<Rightarrow> kstate \<Rightarrow> kstate" where
  "upd_ipc b i v s = s\<lparr>ipc_buffers := (ipc_buffers s)(b := (ipc_buffers s b)(i := v))\<rparr>"

lemma inv_with_lists [inv_rules]:
  assumes "\<And>s h. I s \<Longrightarrow> I (s\<lparr>lists := h\<rparr>)" and "inv_on (\<lambda>_. True) F m"
  shows "inv_on I F (with_lists m)"
  using assms(1) inv_on_fault [OF assms(2)] unfolding inv_on_def with_lists_def
  by (auto split: sum.splits)

lemma inv_with_ctes:
  assumes "\<And>s. I s \<Longrightarrow> J (ctes s)" "\<And>s h. I s \<Longrightarrow> J h \<Longrightarrow> I (s\<lparr>ctes := h\<rparr>)" and "inv_on J F m"
  shows "inv_on I F (with_ctes m)"
  using assms(1,2) inv_on_fault [OF assms(3)] inv_onD [OF assms(3)] unfolding inv_on_def with_ctes_def
  by (fastforce split: sum.splits)

lemma inv_klift [inv_rules]: "(\<And>e. r = Inl e \<Longrightarrow> e \<in> F) \<Longrightarrow> inv_on I F (klift r)"
  by (auto simp: inv_on_def klift_def split: sum.splits)

definition this_tcb :: "(kstate, addr) kern" where
  "this_tcb = kbind (kget current_tcb) knonnull"

lemma this_tcb_ret [simp]: "current_tcb s = Some t \<Longrightarrow> this_tcb s = Inr (t, s)"
  by (simp add: this_tcb_def kern_simps)

lemma upd_tcb_simps [simp]:
  "ctes (upd_tcb t f s) = ctes s" "lists (upd_tcb t f s) = lists s"
  "notifications (upd_tcb t f s) = notifications s" "ipc_buffers (upd_tcb t f s) = ipc_buffers s"
  "frame_mem (upd_tcb t f s) = frame_mem s" "current_tcb (upd_tcb t f s) = current_tcb s"
  "return_to_tcb (upd_tcb t f s) = return_to_tcb s" "ptes (upd_tcb t f s) = ptes s"
  "tcbs (upd_tcb t f s) u = (if u = t then f (tcbs s t) else tcbs s u)"
  "runnable_tcbs_lock (upd_tcb t f s) = runnable_tcbs_lock s"
  "big_kernel_lock (upd_tcb t f s) = big_kernel_lock s" "hhdm (upd_tcb t f s) = hhdm s" "cr3 (upd_tcb t f s) = cr3 s"
  "fs_base (upd_tcb t f s) = fs_base s" "regions (upd_tcb t f s) = regions s" "user_mem (upd_tcb t f s) = user_mem s"
  "irq_handlers (upd_tcb t f s) = irq_handlers s" "ioapic_regs (upd_tcb t f s) = ioapic_regs s"
  by (simp_all add: upd_tcb_def)

lemma upd_nfn_simps [simp]:
  "ctes (upd_nfn n f s) = ctes s" "lists (upd_nfn n f s) = lists s" "tcbs (upd_nfn n f s) = tcbs s"
  "ipc_buffers (upd_nfn n f s) = ipc_buffers s" "frame_mem (upd_nfn n f s) = frame_mem s"
  "current_tcb (upd_nfn n f s) = current_tcb s" "return_to_tcb (upd_nfn n f s) = return_to_tcb s"
  "notifications (upd_nfn n f s) m = (if m = n then f (notifications s n) else notifications s m)"
  "runnable_tcbs_lock (upd_nfn n f s) = runnable_tcbs_lock s"
  "big_kernel_lock (upd_nfn n f s) = big_kernel_lock s" "hhdm (upd_nfn n f s) = hhdm s" "cr3 (upd_nfn n f s) = cr3 s"
  "fs_base (upd_nfn n f s) = fs_base s" "regions (upd_nfn n f s) = regions s" "user_mem (upd_nfn n f s) = user_mem s"
  "irq_handlers (upd_nfn n f s) = irq_handlers s" "ioapic_regs (upd_nfn n f s) = ioapic_regs s"
  by (simp_all add: upd_nfn_def)

lemma upd_ipc_simps [simp]:
  "ctes (upd_ipc b i v s) = ctes s" "lists (upd_ipc b i v s) = lists s" "tcbs (upd_ipc b i v s) = tcbs s"
  "notifications (upd_ipc b i v s) = notifications s" "frame_mem (upd_ipc b i v s) = frame_mem s"
  "current_tcb (upd_ipc b i v s) = current_tcb s" "return_to_tcb (upd_ipc b i v s) = return_to_tcb s"
  "ipc_buffers (upd_ipc b i v s) c = (if c = b then (ipc_buffers s b)(i := v) else ipc_buffers s c)"
  "runnable_tcbs_lock (upd_ipc b i v s) = runnable_tcbs_lock s"
  "big_kernel_lock (upd_ipc b i v s) = big_kernel_lock s" "hhdm (upd_ipc b i v s) = hhdm s" "cr3 (upd_ipc b i v s) = cr3 s"
  "fs_base (upd_ipc b i v s) = fs_base s" "regions (upd_ipc b i v s) = regions s" "user_mem (upd_ipc b i v s) = user_mem s"
  "irq_handlers (upd_ipc b i v s) = irq_handlers s" "ioapic_regs (upd_ipc b i v s) = ioapic_regs s"
  by (simp_all add: upd_ipc_def)

lemma usermode_frame_privilege:
  "f_cs (ensure_frame_valid_for_usermode f) = USER_CS" "f_ss (ensure_frame_valid_for_usermode f) = USER_SS"
  "bit (f_rflags (ensure_frame_valid_for_usermode f)) 9"
  by (simp_all add: ensure_frame_valid_for_usermode_def bit_or_iff)

end
