(* ===== verification/Authority.thy ===== *)
theory Authority
  imports Cdt
begin

text \<open>
  Sequences of the operations on capabilities. The step relation covers every call of \<open>copy_cap\<close>,
  \<open>mint_cap\<close>, \<open>revoke_cap\<close> and \<open>delete_cap\<close>, with any slots and arguments; the two theorems on runs say
  that the derivation list stays well formed and that no capability gains authority over what the
  first state contained. The last part shows where revocation does not follow derivation.
\<close>

section \<open>Authority of a capability\<close>

text \<open>
  \<open>cap_le c d\<close>: \<open>c\<close> names the same object as \<open>d\<close>, with no more rights, and with the badge of \<open>d\<close>
  unless \<open>d\<close> has none.
\<close>

definition cap_le :: "cap_t \<Rightarrow> cap_t \<Rightarrow> bool" where
  "cap_le c d \<longleftrightarrow> cap_type c = cap_type d \<and> cap_ptr c = cap_ptr d \<and> cap_size_bits c = cap_size_bits d \<and>
     cap_rights c AND NOT (cap_rights d) = 0 \<and> (cap_badge c = cap_badge d \<or> cap_badge d = 0)"

lemma rights_subset: "(w :: word_t) AND NOT v = 0 \<longleftrightarrow> (\<forall>n. bit w n \<longrightarrow> bit v n)"
  by (auto simp: bit_eq_iff bit_simps dest: bit64)

lemma cap_le_refl: "cap_le c c"
  by (simp add: cap_le_def rights_subset)

lemma cap_le_trans: "cap_le a b \<Longrightarrow> cap_le b c \<Longrightarrow> cap_le a c"
  unfolding cap_le_def rights_subset by auto

lemma cap_le_copied: "cap_le (copied_cap c m) c"
  unfolding cap_le_def rights_subset by (auto simp: bit_simps)

lemma cap_le_minted: "cap_badge c = 0 \<Longrightarrow> cap_le (minted_cap c b m) c"
  unfolding cap_le_def rights_subset by (auto simp: bit_simps)

text \<open>Every capability of \<open>h'\<close> that is not null has at most the authority of one of \<open>h\<close>.\<close>

definition confined :: "cte_heap \<Rightarrow> cte_heap \<Rightarrow> bool" where
  "confined h h' \<longleftrightarrow> (\<forall>c. cap_type (slot_cap h' c) \<noteq> CAP_NULL \<longrightarrow>
     (\<exists>d. cap_type (slot_cap h d) \<noteq> CAP_NULL \<and> cap_le (slot_cap h' c) (slot_cap h d)))"

lemma confined_refl: "confined h h"
  by (auto simp: confined_def intro: cap_le_refl)

lemma confined_trans:
  assumes "confined h1 h2" and "confined h2 h3"
  shows "confined h1 h3"
  unfolding confined_def
proof (intro allI impI)
  fix c assume "cap_type (slot_cap h3 c) \<noteq> CAP_NULL"
  then obtain d where d: "cap_type (slot_cap h2 d) \<noteq> CAP_NULL" "cap_le (slot_cap h3 c) (slot_cap h2 d)"
    using assms(2) unfolding confined_def by blast
  then obtain e where "cap_type (slot_cap h1 e) \<noteq> CAP_NULL" "cap_le (slot_cap h2 d) (slot_cap h1 e)"
    using assms(1) unfolding confined_def by blast
  then show "\<exists>d. cap_type (slot_cap h1 d) \<noteq> CAP_NULL \<and> cap_le (slot_cap h3 c) (slot_cap h1 d)"
    using d(2) cap_le_trans by blast
qed

lemma confined_links: "(\<And>c. slot_cap h' c = slot_cap h c) \<Longrightarrow> confined h h'"
  by (auto simp: confined_def intro: cap_le_refl)

lemma confined_set:
  assumes "cap_type cap = CAP_NULL \<or> (\<exists>d. cap_type (slot_cap h d) \<noteq> CAP_NULL \<and> cap_le cap (slot_cap h d))"
    and "\<And>d. slot_cap h' d = (if d = c then cap else slot_cap h d)"
  shows "confined h h'"
  unfolding confined_def
proof (intro allI impI)
  fix d assume d: "cap_type (slot_cap h' d) \<noteq> CAP_NULL"
  show "\<exists>e. cap_type (slot_cap h e) \<noteq> CAP_NULL \<and> cap_le (slot_cap h' d) (slot_cap h e)"
  proof (cases "d = c")
    case True
    then show ?thesis using d assms by simp
  next
    case False
    then show ?thesis using d assms(2) cap_le_refl [of "slot_cap h d"] by (intro exI [of _ d]) simp
  qed
qed

section \<open>Each operation\<close>

lemma slot_cap_insert [simp]: "slot_cap (insert_cte_after new after h) d = slot_cap h d"
  by (auto simp: insert_cte_after_def Let_def split: option.splits)

lemma slot_cap_unlink [simp]: "slot_cap (unlink_cte c h) d = slot_cap h d"
  by (auto simp: unlink_cte_def Let_def split: option.splits)

lemma confined_copy_cap:
  assumes "copy_cap dest src m h = Inr (tag, h')"
  shows "confined h h'"
proof (cases "cap_type (slot_cap h dest) = CAP_NULL \<and> dest \<noteq> src \<and>
    \<not> (cap_type (slot_cap h src) = CAP_UNTYPED \<and> cap_badge (slot_cap h src) \<noteq> 0)")
  case True
  then have "h' = insert_cte_after dest src (set_cap dest (copied_cap (slot_cap h src) m) h)"
    using copy_cap_ok [of dest src h m] assms by auto
  then show ?thesis
    using cap_le_copied [of "slot_cap h src" m]
    by (intro confined_set [of "copied_cap (slot_cap h src) m" _ _ dest]) auto
next
  case False
  then consider "h' = h" | "dest = src" "cap_type (slot_cap h dest) = CAP_NULL"
    using assms by (auto simp: copy_cap_def split: if_splits)
  then show ?thesis
  proof cases
    case 1
    then show ?thesis by (simp add: confined_refl)
  next
    case 2
    then have "slot_cap h' d = (if d = dest then cap_set_rights (cap_rights (cap_set_is_original False (slot_cap h dest)) AND m)
          (cap_set_is_original False (slot_cap h dest)) else slot_cap h d)" for d
      using assms by (auto simp: copy_cap_def Let_def)
    then show ?thesis using 2 by (intro confined_set) auto
  qed
qed

lemma confined_mint_cap:
  assumes "mint_cap dest src b m h = Inr (tag, h')"
  shows "confined h h'"
proof (cases "cap_type (slot_cap h dest) = CAP_NULL \<and> cap_badge (slot_cap h src) = 0 \<and>
    (cap_type (slot_cap h src) = CAP_ENDPOINT \<or> cap_type (slot_cap h src) = CAP_NOTIFICATION)")
  case True
  then have "dest \<noteq> src" by auto
  with True have "h' = insert_cte_after dest src (set_cap dest (minted_cap (slot_cap h src) b m) h)"
    using mint_cap_ok [of dest src h b m] assms by auto
  then show ?thesis
    using cap_le_minted [of "slot_cap h src" b m] True
    by (intro confined_set [of "minted_cap (slot_cap h src) b m" _ _ dest]) auto
next
  case False
  then have "h' = h" using assms by (auto simp: mint_cap_def split: if_splits)
  then show ?thesis by (simp add: confined_refl)
qed

lemma confined_clear_slot: "confined h (clear_slot c h)"
  by (rule confined_set [of new_null_cap _ _ c]) (auto simp: clear_slot_def)

lemma confined_revoke_slots: "revoke_slots c h = Some h' \<Longrightarrow> confined h h'"
proof (rule revoke_slots.raw_induct [where P = "\<lambda>c h h'. confined h h'", rotated])
  fix f :: "slot \<Rightarrow> cte_heap \<Rightarrow> cte_heap option" and c h h'
  assume IH: "\<And>c h h'. f c h = Some h' \<Longrightarrow> confined h h'"
    and eq: "(case cte_next (h c) of None \<Rightarrow> Some h
      | Some d \<Rightarrow> if is_child_cap h (Some d) c
          then Option.bind (f d h) (\<lambda>h1. f c (clear_slot d h1)) else Some h) = Some h'"
  consider "h' = h" | d h1 where "f d h = Some h1" "f c (clear_slot d h1) = Some h'"
    using eq by (auto split: option.splits if_splits bind_splits)
  then show "confined h h'"
    using IH confined_refl confined_clear_slot confined_trans by cases blast+
qed

lemma confined_revoke_delete:
  "revoke_cap c h = Inr (tag, h') \<Longrightarrow> confined h h'" "delete_cap c h = Inr (tag, h') \<Longrightarrow> confined h h'"
  using confined_revoke_slots confined_trans [OF _ confined_clear_slot]
  by (auto simp: revoke_cap_def delete_cap_def delete_slots_def split: option.splits)

section \<open>Types in the slots\<close>

definition typed_slots :: "(word_t \<Rightarrow> bool) \<Rightarrow> cte_heap \<Rightarrow> bool" where
  "typed_slots P h \<longleftrightarrow> (\<forall>c. P (cap_type (slot_cap h c)))"

lemma confined_typed: "confined h h' \<Longrightarrow> P CAP_NULL \<Longrightarrow> typed_slots P h \<Longrightarrow> typed_slots P h'"
  unfolding confined_def typed_slots_def cap_le_def by metis

text \<open>
  The four operations bring no type into a slot that no slot had, apart from the null type, and only the
  recursive ones can fail to return.
\<close>

lemma inv_cdt_ops [inv_rules]:
  "P CAP_NULL \<Longrightarrow> inv_on (typed_slots P) F (copy_cap dest src m)"
  "P CAP_NULL \<Longrightarrow> inv_on (typed_slots P) F (mint_cap dest src b m)"
  "P CAP_NULL \<Longrightarrow> Diverges \<in> F \<Longrightarrow> inv_on (typed_slots P) F (revoke_cap c)"
  "P CAP_NULL \<Longrightarrow> Diverges \<in> F \<Longrightarrow> inv_on (typed_slots P) F (delete_cap c)"
proof -
  have "copy_cap dest src m h \<noteq> Inl e" "mint_cap dest src b m h \<noteq> Inl e"
    "revoke_cap c h = Inl e \<Longrightarrow> e = Diverges" "delete_cap c h = Inl e \<Longrightarrow> e = Diverges" for h e
    by (auto simp: copy_cap_def mint_cap_def revoke_cap_def delete_cap_def Let_def split: option.splits)
  note faults = this
  show "P CAP_NULL \<Longrightarrow> inv_on (typed_slots P) F (copy_cap dest src m)"
    "P CAP_NULL \<Longrightarrow> inv_on (typed_slots P) F (mint_cap dest src b m)"
    "P CAP_NULL \<Longrightarrow> Diverges \<in> F \<Longrightarrow> inv_on (typed_slots P) F (revoke_cap c)"
    "P CAP_NULL \<Longrightarrow> Diverges \<in> F \<Longrightarrow> inv_on (typed_slots P) F (delete_cap c)"
    using faults confined_copy_cap confined_mint_cap confined_revoke_delete
    by (fastforce simp: inv_on_def split: sum.splits intro: confined_typed)+
qed

section \<open>Runs\<close>

inductive cap_step :: "cte_heap \<Rightarrow> cte_heap \<Rightarrow> bool" where
  copy: "copy_cap dest src m h = Inr (tag, h') \<Longrightarrow> cap_step h h'"
| mint: "mint_cap dest src b m h = Inr (tag, h') \<Longrightarrow> cap_step h h'"
| revoke: "revoke_cap c h = Inr (tag, h') \<Longrightarrow> cap_step h h'"
| delete: "delete_cap c h = Inr (tag, h') \<Longrightarrow> cap_step h h'"

text \<open>The same steps with sources that hold a capability.\<close>

inductive derive_step :: "cte_heap \<Rightarrow> cte_heap \<Rightarrow> bool" where
  copy: "copy_cap dest src m h = Inr (tag, h') \<Longrightarrow> cap_type (slot_cap h src) \<noteq> CAP_NULL \<Longrightarrow> derive_step h h'"
| mint: "mint_cap dest src b m h = Inr (tag, h') \<Longrightarrow> derive_step h h'"
| revoke: "revoke_cap c h = Inr (tag, h') \<Longrightarrow> derive_step h h'"
| delete: "delete_cap c h = Inr (tag, h') \<Longrightarrow> derive_step h h'"

lemma cap_step_confined: "cap_step h h' \<Longrightarrow> confined h h'"
  by (induction rule: cap_step.induct)
    (auto intro: confined_copy_cap confined_mint_cap confined_revoke_delete)

lemma derive_step_wf: "derive_step h h' \<Longrightarrow> cdt_wf h \<Longrightarrow> cdt_wf h'"
proof (induction rule: derive_step.induct)
  case (copy dest src m h tag h')
  show ?case
  proof (cases "dest = src")
    case True
    then have "h' = h" using copy by (simp add: copy_cap_def)
    then show ?thesis using copy by simp
  next
    case False
    then show ?thesis using cdt_wf_copy_cap [OF copy(3) False copy(2), of m] copy(1) by auto
  qed
next
  case (mint dest src b m h tag h')
  show ?case
  proof (cases "dest = src \<or> cap_type (slot_cap h src) = CAP_NULL")
    case True
    then have "h' = h" using mint(1) by (auto simp: mint_cap_def split: if_splits)
    then show ?thesis using mint by simp
  next
    case False
    then show ?thesis using cdt_wf_mint_cap [OF mint(2), of dest src b m] mint(1) by auto
  qed
next
  case (revoke c h tag h')
  then show ?case using cdt_wf_revoke [of h c] by auto
next
  case (delete c h tag h')
  then show ?case using cdt_wf_delete [of h c] by auto
qed

section \<open>Concrete capabilities\<close>

definition example_cap :: "word_t \<Rightarrow> addr \<Rightarrow> word_t \<Rightarrow> bool \<Rightarrow> cap_t" where
  "example_cap ty p bits orig = cap_set_rights CAP_RIGHTS_ALL (cap_set_is_original orig
     (cap_set_ptr_bits (drop_bit 4 p) (cap_set_size_bits bits (cap_set_type ty zero_cap))))"

lemma example_cap_fields [simp]:
  "cap_type (example_cap ty p bits orig) = take_bit 5 ty" "cap_is_original (example_cap ty p bits orig) = orig"
  "cap_size_bits (example_cap ty p bits orig) = take_bit 6 bits" "cap_badge (example_cap ty p bits orig) = 0"
  "cap_rights (example_cap ty p bits orig) = CAP_RIGHTS_ALL"
  by (simp_all add: example_cap_def)

text \<open>One endpoint, alone in slot 0.\<close>

definition one_endpoint :: cte_heap where
  "one_endpoint = (\<lambda>_. zero_cte)(Slot 0 := zero_cte\<lparr>cte_cap := example_cap CAP_ENDPOINT 0x10000 0 True\<rparr>)"

lemma one_endpoint_wf: "cdt_wf one_endpoint"
  by (rule cdt_wf_initial) (simp_all add: one_endpoint_def zero_cte_def)

text \<open>Two endpoints created from the same untyped memory, the second one first in the list.\<close>

definition two_endpoints :: cte_heap where
  "two_endpoints = (\<lambda>_. zero_cte)(
     Slot 0 := \<lparr>cte_cap = example_cap CAP_UNTYPED 0x10000 12 True, cte_next = Some (Slot 32), cte_prev = None\<rparr>,
     Slot 32 := \<lparr>cte_cap = example_cap CAP_ENDPOINT 0x10010 0 True, cte_next = Some (Slot 64), cte_prev = Some (Slot 0)\<rparr>,
     Slot 64 := \<lparr>cte_cap = example_cap CAP_ENDPOINT 0x10000 0 True, cte_next = None, cte_prev = Some (Slot 32)\<rparr>)"

lemma two_endpoints_fields [simp]:
  "cte_next (two_endpoints (Slot 0)) = Some (Slot 32)" "cte_next (two_endpoints (Slot 32)) = Some (Slot 64)"
  "cte_next (two_endpoints (Slot 64)) = None" "cte_prev (two_endpoints (Slot 32)) = Some (Slot 0)"
  "cte_prev (two_endpoints (Slot 64)) = Some (Slot 32)"
  "slot_cap two_endpoints (Slot 32) = example_cap CAP_ENDPOINT 0x10010 0 True"
  "slot_cap two_endpoints (Slot 64) = example_cap CAP_ENDPOINT 0x10000 0 True"
  by (simp_all add: two_endpoints_def)

lemma two_endpoints_wf: "cdt_wf two_endpoints"
proof -
  have others: "c = Slot 0 \<or> c = Slot 32 \<or> c = Slot 64 \<or> two_endpoints c = zero_cte" for c
    by (simp add: two_endpoints_def)
  have "\<exists>xs. chain two_endpoints c xs" for c
  proof -
    have "chain two_endpoints (Slot 0) [Slot 32, Slot 64]" "chain two_endpoints (Slot 32) [Slot 64]"
      "chain two_endpoints (Slot 64) []" "two_endpoints c = zero_cte \<Longrightarrow> chain two_endpoints c []"
      by (simp_all add: zero_cte_def)
    then show ?thesis using others [of c] by blast
  qed
  moreover have "cte_prev (two_endpoints b) = Some a \<Longrightarrow> cte_next (two_endpoints a) = Some b" for a b
    using others [of b] by (auto simp: zero_cte_def two_endpoints_def split: if_splits)
  moreover have "cap_type (slot_cap two_endpoints c) = CAP_NULL \<Longrightarrow>
      cte_next (two_endpoints c) = None \<and> cte_prev (two_endpoints c) = None" for c
    using others [of c] by (auto simp: zero_cte_def two_endpoints_def split: if_splits)
  ultimately show ?thesis unfolding cdt_wf_def by blast
qed

section \<open>Properties\<close>

text \<open>C2: No sequence of copies, mints, revocations and deletions, on any slots and with any arguments,
  manufactures authority: every capability in the final state names an object that some capability of
  the first state names, with the same type and size, with a subset of its rights, and with its badge
  unless that one had no badge.\<close>

theorem authority_confined:
  assumes "cap_step\<^sup>*\<^sup>* h h'" and "cap_type (slot_cap h' c) \<noteq> CAP_NULL"
  shows "\<exists>d. cap_type (slot_cap h d) = cap_type (slot_cap h' c) \<and> cap_ptr (slot_cap h d) = cap_ptr (slot_cap h' c) \<and>
    cap_size_bits (slot_cap h d) = cap_size_bits (slot_cap h' c) \<and>
    cap_rights (slot_cap h' c) AND NOT (cap_rights (slot_cap h d)) = 0 \<and>
    (cap_badge (slot_cap h' c) = cap_badge (slot_cap h d) \<or> cap_badge (slot_cap h d) = 0)"
proof -
  have "confined h h'"
    using assms(1) by (induction rule: rtranclp_induct) (auto intro: confined_refl confined_trans cap_step_confined)
  then obtain d where "cap_le (slot_cap h' c) (slot_cap h d)"
    using assms(2) unfolding confined_def by blast
  then show ?thesis unfolding cap_le_def by auto
qed

theorem authority_confined_witness:
  "\<exists>h' d. cap_step one_endpoint h' \<and> cap_type (slot_cap h' (Slot 32)) = CAP_ENDPOINT \<and>
    cap_rights (slot_cap h' (Slot 32)) AND NOT (cap_rights (slot_cap one_endpoint d)) = 0"
proof -
  let ?h = "insert_cte_after (Slot 32) (Slot 0) (set_cap (Slot 32) (copied_cap (slot_cap one_endpoint (Slot 0)) 4) one_endpoint)"
  have "copy_cap (Slot 32) (Slot 0) 4 one_endpoint = Inr (msg_ok 0, ?h)"
    by (rule copy_cap_ok) (simp_all add: one_endpoint_def zero_cte_def)
  then have st: "cap_step one_endpoint ?h" by (rule cap_step.copy)
  have ty: "cap_type (slot_cap ?h (Slot 32)) = CAP_ENDPOINT" by (simp add: one_endpoint_def)
  then have ne: "cap_type (slot_cap ?h (Slot 32)) \<noteq> CAP_NULL" by simp
  show ?thesis
    using authority_confined [OF r_into_rtranclp [of cap_step, OF st] ne] st ty by blast
qed





text \<open>Deleting an original endpoint capability without a badge deletes the capability that follows it in
  the list whenever that one is an endpoint capability too, whichever endpoint it names: two endpoints
  made from one untyped capability are deleted together.\<close>

theorem delete_takes_sibling:
  assumes "cdt_wf h" "cte_next (h c) = Some d"
    and "cap_is_original (slot_cap h c)" "cap_type (slot_cap h c) = CAP_ENDPOINT" "cap_badge (slot_cap h c) = 0"
    and "cap_type (slot_cap h d) = CAP_ENDPOINT"
  shows "\<exists>h'. delete_cap c h = Inr (msg_ok 0, h') \<and> cap_type (slot_cap h' d) = CAP_NULL"
proof -
  obtain xs where ch: "chain h c xs" using assms(1) unfolding cdt_wf_def by blast
  then obtain ys where xs: "xs = d # ys" using assms(2) by (cases xs) auto
  have "is_child_cap h (Some d) c" using assms by (simp add: is_child_cap_def)
  then have "set (abs_revoke h c xs) \<subseteq> set ys"
    using set_abs_revoke [of h c "abs_revoke h d ys"] set_abs_revoke [of h d ys] xs by simp
  moreover have "d \<in> set xs" "d \<notin> set ys" "d \<noteq> c"
    using chain_distinct [OF ch] xs by auto
  ultimately have "d \<in> set xs - set (abs_revoke h c xs)" and "d \<noteq> c" by blast+
  moreover obtain h1 where "revoke_slots c h = Some h1" "\<forall>d \<in> set xs - set (abs_revoke h c xs). h1 d = zero_cte"
    using revoke_refines [OF ch] by blast
  ultimately show ?thesis by (simp add: delete_cap_def delete_slots_def clear_slot_def zero_cte_def)
qed

theorem delete_takes_sibling_witness:
  "\<exists>h'. delete_cap (Slot 32) two_endpoints = Inr (msg_ok 0, h') \<and> cap_type (slot_cap h' (Slot 64)) = CAP_NULL"
  by (rule delete_takes_sibling [OF two_endpoints_wf]) simp_all

text \<open>Copying an empty slot into another empty slot is reported as a success and breaks the derivation
  list: two slots without a capability are linked.\<close>

theorem copy_null_breaks_list:
  assumes "dest \<noteq> src" "cap_type (slot_cap h dest) = CAP_NULL" "cap_type (slot_cap h src) = CAP_NULL"
  shows "\<exists>h'. copy_cap dest src m h = Inr (msg_ok 0, h') \<and> \<not> cdt_wf h'"
proof -
  let ?h = "insert_cte_after dest src (set_cap dest (copied_cap (slot_cap h src) m) h)"
  have "copy_cap dest src m h = Inr (msg_ok 0, ?h)" using assms by (intro copy_cap_ok) auto
  moreover have "cap_type (slot_cap ?h src) = CAP_NULL" using assms by simp
  moreover have "cte_next (?h src) = Some dest"
    using assms(1) by (auto simp: insert_cte_after_def Let_def split: option.splits)
  ultimately show ?thesis unfolding cdt_wf_def by (metis option.distinct(1))
qed

theorem copy_null_breaks_list_witness:
  "\<exists>h'. copy_cap (Slot 32) (Slot 64) 0 one_endpoint = Inr (msg_ok 0, h') \<and> \<not> cdt_wf h'"
  by (rule copy_null_breaks_list) (simp_all add: one_endpoint_def zero_cte_def)

end
