(* ===== verification/Ipc.thy ===== *)
theory Ipc
  imports Kernel_State Authority
begin

text \<open>
  Access to the IPC buffer and to the frame that carries the system call's result
  (\<open>include/kern/ipc.h\<close>), the result tags that fill message registers
  (\<open>include/kern/syscall.h\<close>), and the ticket lock as one processor runs it (\<open>lib/spin_lock.c\<close>).
\<close>

section \<open>Locks on one processor\<close>

text \<open>
  Taking a ticket and waiting until it is served. In the state of a single processor nobody else
  can serve it: if the lock is held, the wait never ends. The concurrent behaviour is the subject of
  theory \<open>Spin_Lock\<close>.
\<close>

definition lock_free :: "spin_lock_t \<Rightarrow> bool" where
  "lock_free l \<longleftrightarrow> lk_front l = lk_back l"

definition acquire :: "spin_lock_t \<Rightarrow> fault + spin_lock_t" where
  "acquire l =
     (let back = lk_back l; l' = l\<lparr>lk_back := lk_back l + 1\<rparr>
      in if lk_front l' = back then Inr l' else Inl Deadlock)"

definition release :: "spin_lock_t \<Rightarrow> spin_lock_t" where
  "release l = l\<lparr>lk_front := lk_front l + 1\<rparr>"

definition lock_runnable_tcbs :: "(kstate, unit) kern" where
  "lock_runnable_tcbs = (\<lambda>s. case acquire (runnable_tcbs_lock s) of
     Inl e \<Rightarrow> Inl e | Inr l \<Rightarrow> Inr ((), s\<lparr>runnable_tcbs_lock := l\<rparr>))"

definition unlock_runnable_tcbs :: "(kstate, unit) kern" where
  "unlock_runnable_tcbs = kmod (\<lambda>s. s\<lparr>runnable_tcbs_lock := release (runnable_tcbs_lock s)\<rparr>)"

definition lock_big_kernel :: "(kstate, unit) kern" where
  "lock_big_kernel = (\<lambda>s. case acquire (big_kernel_lock s) of
     Inl e \<Rightarrow> Inl e | Inr l \<Rightarrow> Inr ((), s\<lparr>big_kernel_lock := l\<rparr>))"

definition unlock_big_kernel :: "(kstate, unit) kern" where
  "unlock_big_kernel = kmod (\<lambda>s. s\<lparr>big_kernel_lock := release (big_kernel_lock s)\<rparr>)"

section \<open>Frames and message registers\<close>

datatype frame_ref = SavedStateOf addr | FrameAt addr

definition ipc_frame :: "addr option \<Rightarrow> (kstate, frame_ref) kern" where
  "ipc_frame t =
     (case t of None \<Rightarrow> kfail AssertFailed
      | Some a \<Rightarrow>
          kbind (kget current_tcb) (\<lambda>cur.
          if cur = Some a
          then kbind (kget (\<lambda>s. t_current_user_frame (tcbs s a))) (\<lambda>f.
               case f of None \<Rightarrow> kfail AssertFailed | Some p \<Rightarrow> kret (FrameAt p))
          else kret (SavedStateOf a)))"

definition read_frame :: "frame_ref \<Rightarrow> kstate \<Rightarrow> frame" where
  "read_frame r s = (case r of SavedStateOf t \<Rightarrow> t_saved_state (tcbs s t) | FrameAt p \<Rightarrow> frame_mem s p)"

definition write_frame :: "frame_ref \<Rightarrow> frame \<Rightarrow> kstate \<Rightarrow> kstate" where
  "write_frame r f s = (case r of
     SavedStateOf t \<Rightarrow> upd_tcb t (\<lambda>u. u\<lparr>t_saved_state := f\<rparr>) s
   | FrameAt p \<Rightarrow> s\<lparr>frame_mem := (frame_mem s)(p := f)\<rparr>)"

definition get_pending_ipc_info :: "addr \<Rightarrow> (kstate, message_tag_t) kern" where
  "get_pending_ipc_info t =
     kbind (ipc_frame (Some t)) (\<lambda>r.
     kbind (kget (read_frame r)) (\<lambda>f.
     kbind (klift (get_frame_syscall_arg f 1)) (\<lambda>w.
     kret (message_info_from_word w))))"

definition set_ipc_result :: "addr \<Rightarrow> message_tag_t \<Rightarrow> (kstate, unit) kern" where
  "set_ipc_result t tag =
     kbind (ipc_frame (Some t)) (\<lambda>r.
     kmod (\<lambda>s. write_frame r (set_frame_return (message_info_to_word tag) (read_frame r s)) s))"

definition this_ipc_buffer :: "(kstate, addr) kern" where
  "this_ipc_buffer =
     kbind (kget current_tcb) (\<lambda>cur.
     case cur of None \<Rightarrow> kfail AssertFailed
     | Some t \<Rightarrow> kbind (kget (\<lambda>s. t_ipc_buffer (tcbs s t))) (\<lambda>b.
         case b of None \<Rightarrow> kfail AssertFailed | Some p \<Rightarrow> kret p))"

definition get_mr :: "nat \<Rightarrow> (kstate, word_t) kern" where
  "get_mr i = kbind this_ipc_buffer (\<lambda>b. kget (\<lambda>s. ipc_buffers s b i))"

definition get_cap :: "nat \<Rightarrow> (kstate, word_t) kern" where
  "get_cap i = kbind this_ipc_buffer (\<lambda>b. kget (\<lambda>s. ipc_buffers s b (IPC_CAPS_OR_BADGES + i)))"

definition set_mr :: "nat \<Rightarrow> word_t \<Rightarrow> (kstate, unit) kern" where
  "set_mr i v = kbind this_ipc_buffer (\<lambda>b. kmod (upd_ipc b i v))"

definition set_ipc_info :: "message_tag_t \<Rightarrow> (kstate, unit) kern" where
  "set_ipc_info tag = kbind this_tcb (\<lambda>t. set_ipc_result t tag)"

section \<open>Result tags with message registers\<close>

definition msg_range_error :: "word_t \<Rightarrow> word_t \<Rightarrow> (kstate, message_tag_t) kern" where
  "msg_range_error mn mx = kseq (set_mr 0 mn) (kseq (set_mr 1 mx) (kret (msg_err RANGE_ERROR 2)))"

definition msg_truncated_message :: "word_t \<Rightarrow> word_t \<Rightarrow> (kstate, message_tag_t) kern" where
  "msg_truncated_message expected provided =
     kseq (set_mr 0 expected) (kseq (set_mr 1 provided) (kret (msg_err TRUNCATED_MESSAGE 2)))"

definition msg_invalid_argument :: "word_t \<Rightarrow> (kstate, message_tag_t) kern" where
  "msg_invalid_argument argument_number = kseq (set_mr 0 argument_number) (kret (msg_err INVALID_ARGUMENT 1))"

definition msg_not_enough_memory :: "word_t \<Rightarrow> (kstate, message_tag_t) kern" where
  "msg_not_enough_memory available_memory =
     kseq (set_mr 0 available_memory) (kret (msg_err NOT_ENOUGH_MEMORY 1))"

definition msg_failed_lookup :: "word_t \<Rightarrow> (kstate, message_tag_t) kern" where
  "msg_failed_lookup level = kseq (set_mr 0 level) (kret (msg_err FAILED_LOOKUP 1))"

section \<open>What system calls leave alone\<close>

text \<open>
  A property of the state that no kernel operation below the exit path can break: it is kept by
  every write to the objects and devices that system calls change, it implies that the lock of the
  run queue is free, and it is kept by taking and releasing that lock. Every operation that is proved
  to keep such a property, here and in the theories that follow, is proved at the same time not to
  wait for a lock that is never released. Writes to slots keep the property as long as every slot holds
  a capability of a type in \<open>typed\<close>; the types that system calls can give to a slot must be among them.
\<close>

abbreviation no_deadlock :: "fault set" where "no_deadlock \<equiv> - {Deadlock}"

abbreviation creatable :: "word_t \<Rightarrow> bool" where
  "creatable t \<equiv> t < MAX_CAP_TYPE \<and> t \<noteq> CAP_REPLY \<and> t \<noteq> CAP_X86_64_IO_PORT_CONTROL \<and> t \<noteq> CAP_IRQ_CONTROL"

locale kernel_frame =
  fixes I :: "kstate \<Rightarrow> bool" and typed :: "word_t \<Rightarrow> bool"
  assumes creatable_typed: "creatable t \<Longrightarrow> typed t"
    and slots_typed: "I s \<Longrightarrow> typed_slots typed (ctes s)"
    and keep_ctes: "I s \<Longrightarrow> typed_slots typed a \<Longrightarrow> I (s\<lparr>ctes := a\<rparr>)"
    and keep_lists: "I s \<Longrightarrow> I (s\<lparr>lists := b\<rparr>)"
    and keep_tcbs: "I s \<Longrightarrow> I (s\<lparr>tcbs := c\<rparr>)"
    and keep_notifications: "I s \<Longrightarrow> I (s\<lparr>notifications := d\<rparr>)"
    and keep_ipc_buffers: "I s \<Longrightarrow> I (s\<lparr>ipc_buffers := e\<rparr>)"
    and keep_frame_mem: "I s \<Longrightarrow> I (s\<lparr>frame_mem := f\<rparr>)"
    and keep_ptes: "I s \<Longrightarrow> I (s\<lparr>ptes := g\<rparr>)"
    and keep_irq_handlers: "I s \<Longrightarrow> I (s\<lparr>irq_handlers := h\<rparr>)"
    and keep_irq_handlers_issued: "I s \<Longrightarrow> I (s\<lparr>irq_handlers_issued := i\<rparr>)"
    and keep_ioapic_regs: "I s \<Longrightarrow> I (s\<lparr>ioapic_regs := j\<rparr>)"
    and keep_return_to_tcb: "I s \<Longrightarrow> I (s\<lparr>return_to_tcb := k\<rparr>)"
    and keep_fs_base: "I s \<Longrightarrow> I (s\<lparr>fs_base := l\<rparr>)"
    and keep_io_log: "I s \<Longrightarrow> I (s\<lparr>io_log := m\<rparr>)"
    and run_lock_free: "I s \<Longrightarrow> lock_free (runnable_tcbs_lock s)"
    and keep_lock_cycle: "I s \<Longrightarrow> acquire (runnable_tcbs_lock s) = Inr n \<Longrightarrow>
      I (s\<lparr>runnable_tcbs_lock := release n\<rparr>)"
begin

lemma typed_slot: "I s \<Longrightarrow> typed (cap_type (slot_cap (ctes s) c))"
  using slots_typed by (simp add: typed_slots_def)

lemma typed_null [inv_rules]: "typed CAP_NULL"
  by (rule creatable_typed) simp

lemma keep_set_cap: "I s \<Longrightarrow> typed (cap_type cap) \<Longrightarrow> I (s\<lparr>ctes := set_cap c cap (ctes s)\<rparr>)"
  by (frule keep_ctes) (auto simp: typed_slots_def typed_slot set_cap_def)

lemma keep_insert: "I s \<Longrightarrow> I (s\<lparr>ctes := insert_cte_after c d (ctes s)\<rparr>)"
  by (frule keep_ctes) (auto simp: typed_slots_def typed_slot)

lemma frame_with_ctes [inv_rules]: "inv_on (typed_slots typed) F m \<Longrightarrow> inv_on I F (with_ctes m)"
  by (rule inv_with_ctes [where J = "typed_slots typed"]) (simp_all add: slots_typed keep_ctes)

text \<open>A pointer stored into the capability of a slot.\<close>

lemma inv_store_ptr:
  assumes "inv_on I no_deadlock rest"
  shows "inv_on I no_deadlock (kbind (kget (\<lambda>s. slot_cap (ctes s) c)) (\<lambda>cap. kbind (klift (cap_set_ptr p cap)) (\<lambda>cap'.
    kseq (kmod (\<lambda>s. s\<lparr>ctes := set_cap c cap' (ctes s)\<rparr>)) rest)))"
proof (rule inv_onI)
  fix s assume s: "I s"
  have typed: "cap_set_ptr p (slot_cap (ctes s) c) = Inr cap' \<Longrightarrow> typed (cap_type cap')" for cap'
    using typed_slot [OF s, of c] cap_set_ptr_frame(2) by metis
  have fault: "cap_set_ptr p (slot_cap (ctes s) c) = Inl e \<Longrightarrow> e \<noteq> Deadlock" for e
    by (auto simp: cap_set_ptr_def set_bits_pointer_def split: if_splits)
  show "case kbind (kget (\<lambda>s. slot_cap (ctes s) c)) (\<lambda>cap. kbind (klift (cap_set_ptr p cap)) (\<lambda>cap'.
      kseq (kmod (\<lambda>s. s\<lparr>ctes := set_cap c cap' (ctes s)\<rparr>)) rest)) s of Inl e \<Rightarrow> e \<in> no_deadlock | Inr (x, t) \<Rightarrow> I t"
    using assms [unfolded inv_on_def] keep_set_cap [OF s typed] fault
    by (auto simp: kern_simps split: sum.splits)
qed

lemmas keep = keep_set_cap keep_insert keep_lists keep_tcbs keep_notifications keep_ipc_buffers keep_frame_mem
  keep_ptes keep_irq_handlers keep_irq_handlers_issued keep_ioapic_regs keep_return_to_tcb
  keep_fs_base keep_io_log

lemma keep_upd: "I s \<Longrightarrow> I (upd_tcb t f s)" "I s \<Longrightarrow> I (upd_nfn n f' s)" "I s \<Longrightarrow> I (upd_ipc b i v s)"
  "I s \<Longrightarrow> I (write_frame r fr s)"
  by (simp_all add: upd_tcb_def upd_nfn_def upd_ipc_def write_frame_def keep split: frame_ref.splits)

text \<open>A critical section: the lock is taken, the list is worked on, and the lock is released.\<close>

lemma locked_section:
  assumes "inv_on (\<lambda>_. True) no_deadlock body"
  shows "inv_on I no_deadlock (kseq lock_runnable_tcbs (kseq (with_lists body) unlock_runnable_tcbs))"
proof (rule inv_onI)
  fix s assume s: "I s"
  obtain l where l: "acquire (runnable_tcbs_lock s) = Inr l"
    using run_lock_free [OF s] by (auto simp: lock_free_def acquire_def Let_def)
  show "case kseq lock_runnable_tcbs (kseq (with_lists body) unlock_runnable_tcbs) s of
      Inl e \<Rightarrow> e \<in> no_deadlock | Inr (x, t) \<Rightarrow> I t"
    using inv_on_fault [OF assms, of "lists s"] keep_lock_cycle [OF keep_lists [OF s]] l
    by (auto simp: kern_simps lock_runnable_tcbs_def unlock_runnable_tcbs_def split: sum.splits)
qed

lemma ipc_ops [inv_rules]:
  "inv_on I no_deadlock this_tcb" "inv_on I no_deadlock (ipc_frame t)"
  "inv_on I no_deadlock (get_pending_ipc_info u)" "inv_on I no_deadlock (set_ipc_result u tag)"
  "inv_on I no_deadlock this_ipc_buffer" "inv_on I no_deadlock (get_mr i)" "inv_on I no_deadlock (get_cap i)"
  "inv_on I no_deadlock (set_mr i v)"
proof -
  show a: "inv_on I no_deadlock this_tcb" "inv_on I no_deadlock this_ipc_buffer"
    and f: "inv_on I no_deadlock (ipc_frame t)" for t
    unfolding this_tcb_def ipc_frame_def this_ipc_buffer_def by (intro inv_rules; simp)+
  have arg: "\<And>f n e. get_frame_syscall_arg f n = Inl e \<Longrightarrow> e \<in> no_deadlock"
    by (auto simp: get_frame_syscall_arg_def get_frame_arg_def split: if_splits)
  show "inv_on I no_deadlock (get_pending_ipc_info u)" "inv_on I no_deadlock (set_ipc_result u tag)"
    "inv_on I no_deadlock (get_mr i)" "inv_on I no_deadlock (get_cap i)" "inv_on I no_deadlock (set_mr i v)"
    unfolding get_pending_ipc_info_def set_ipc_result_def get_mr_def get_cap_def set_mr_def
    by (intro inv_rules a f keep_upd; (assumption | erule arg))+
qed

lemma msg_ops [inv_rules]:
  "inv_on I no_deadlock (msg_range_error v w)" "inv_on I no_deadlock (msg_truncated_message v w)"
  "inv_on I no_deadlock (msg_invalid_argument v)" "inv_on I no_deadlock (msg_not_enough_memory v)"
  "inv_on I no_deadlock (msg_failed_lookup v)"
  unfolding msg_range_error_def msg_truncated_message_def msg_invalid_argument_def
    msg_not_enough_memory_def msg_failed_lookup_def
  by (intro inv_rules)+

end

section \<open>Message registers of the current thread\<close>

text \<open>The hypothesis under which system calls run: a current thread that has an IPC buffer.\<close>

definition has_buffer :: "kstate \<Rightarrow> addr \<Rightarrow> bool" where
  "has_buffer s b \<longleftrightarrow> (\<exists>t. current_tcb s = Some t \<and> t_ipc_buffer (tcbs s t) = Some b)"

lemma set_mr_ret: "has_buffer s b \<Longrightarrow> set_mr i v s = Inr ((), upd_ipc b i v s)"
  by (auto simp: has_buffer_def set_mr_def this_ipc_buffer_def kern_simps)

lemma get_mr_ret: "has_buffer s b \<Longrightarrow> get_mr i s = Inr (ipc_buffers s b i, s)"
  by (auto simp: has_buffer_def get_mr_def this_ipc_buffer_def kern_simps)

lemma has_buffer_upd [simp]: "has_buffer (upd_ipc c i v s) b = has_buffer s b"
  by (simp add: has_buffer_def)

lemma msg_error_ret:
  assumes "has_buffer s b"
  shows "msg_range_error l h s = Inr (msg_err RANGE_ERROR 2, upd_ipc b 1 h (upd_ipc b 0 l s))"
    "msg_invalid_argument n s = Inr (msg_err INVALID_ARGUMENT 1, upd_ipc b 0 n s)"
    "msg_not_enough_memory n s = Inr (msg_err NOT_ENOUGH_MEMORY 1, upd_ipc b 0 n s)"
    "msg_truncated_message l h s = Inr (msg_err TRUNCATED_MESSAGE 2, upd_ipc b 1 h (upd_ipc b 0 l s))"
  using assms
  by (simp_all add: msg_range_error_def msg_invalid_argument_def msg_not_enough_memory_def msg_truncated_message_def
      kern_simps set_mr_ret)

end
