(* ===== verification/Cnode.thy ===== *)
theory Cnode
  imports Ipc
begin

text \<open>
  Capability lookup and the methods of a CNode (\<open>kern/obj/cnode.c\<close>, \<open>include/kern/obj/cnode.h\<close>). A
  lookup fills an out-parameter that is null until the slot is found. The depth is asserted to be 64:
  a caller that passes another depth stops the kernel.
\<close>

section \<open>Lookup\<close>

text \<open>The address of element \<open>i\<close> of an array of 32-byte slots.\<close>

definition cte_at :: "addr \<Rightarrow> word_t \<Rightarrow> slot" where
  "cte_at base i = Slot (base + 32 * i)"

definition lookup_cap_slot_raw :: "slot \<Rightarrow> word_t \<Rightarrow> word_t \<Rightarrow> (kstate, word_t \<times> slot option) kern" where
  "lookup_cap_slot_raw cspace_root index depth =
     kseq (kassert (depth = 64))
    (kbind (kget (\<lambda>s. slot_cap (ctes s) cspace_root)) (\<lambda>root.
     if cap_type root \<noteq> CAP_CNODE then kret (INVALID_ROOT, None)
     else if index \<ge> cap_size root then kret (RANGE_ERROR, None)
     else kret (NO_ERROR, Some (cte_at (cap_ptr root) index))))"

definition lookup_cap_slot :: "slot \<Rightarrow> word_t \<Rightarrow> word_t \<Rightarrow> (kstate, message_tag_t \<times> slot option) kern" where
  "lookup_cap_slot cspace_root index depth =
     kbind (lookup_cap_slot_raw cspace_root index depth) (\<lambda>(err, out).
     if err = INVALID_ROOT then kret (msg_invalid_root, out)
     else if err = RANGE_ERROR
     then kbind (kget (\<lambda>s. cap_size (slot_cap (ctes s) cspace_root))) (\<lambda>len.
          kbind (msg_range_error 0 len) (\<lambda>tag. kret (tag, out)))
     else kret (msg_ok 0, out))"

definition cte_for :: "slot \<Rightarrow> word_t \<Rightarrow> word_t \<Rightarrow> (kstate, slot) kern" where
  "cte_for root_cnode index depth =
     kseq (kassert (depth = 64))
    (kbind (kget (\<lambda>s. slot_cap (ctes s) root_cnode)) (\<lambda>root.
     kseq (kassert (cap_size root > index)) (kret (cte_at (cap_ptr root) index))))"

section \<open>Methods\<close>

definition cnode_copy :: "slot \<Rightarrow> word_t \<Rightarrow> u8 \<Rightarrow> slot \<Rightarrow> word_t \<Rightarrow> u8 \<Rightarrow> word_t \<Rightarrow> (kstate, message_tag_t) kern" where
  "cnode_copy obj dst_offset dst_depth root src_offset src_depth rights =
     TRY_out (lookup_cap_slot obj dst_offset (ucast dst_depth)) (\<lambda>dst.
     TRY_out (lookup_cap_slot root src_offset (ucast src_depth)) (\<lambda>src.
     TRY (with_ctes (copy_cap dst src rights))
     (kret (msg_ok 0))))"

definition cnode_mint ::
    "slot \<Rightarrow> word_t \<Rightarrow> u8 \<Rightarrow> slot \<Rightarrow> word_t \<Rightarrow> u8 \<Rightarrow> word_t \<Rightarrow> word_t \<Rightarrow> (kstate, message_tag_t) kern" where
  "cnode_mint obj dst_offset dst_depth root src_offset src_depth rights badge =
     TRY_out (lookup_cap_slot obj dst_offset (ucast dst_depth)) (\<lambda>dst.
     TRY_out (lookup_cap_slot root src_offset (ucast src_depth)) (\<lambda>src.
     TRY (with_ctes (mint_cap dst src badge rights))
     (kret (msg_ok 0))))"

definition cnode_delete :: "slot \<Rightarrow> word_t \<Rightarrow> u8 \<Rightarrow> (kstate, message_tag_t) kern" where
  "cnode_delete obj offset depth =
     TRY_out (lookup_cap_slot obj offset (ucast depth)) (\<lambda>cte.
     TRY (with_ctes (delete_cap cte))
     (kret (msg_ok 0)))"

definition cnode_revoke :: "slot \<Rightarrow> word_t \<Rightarrow> u8 \<Rightarrow> (kstate, message_tag_t) kern" where
  "cnode_revoke obj offset depth =
     TRY_out (lookup_cap_slot obj offset (ucast depth)) (\<lambda>cte.
     TRY (with_ctes (revoke_cap cte))
     (kret (msg_ok 0)))"

definition cnode_debug_get :: "slot \<Rightarrow> word_t \<Rightarrow> u8 \<Rightarrow> (kstate, message_tag_t) kern" where
  "cnode_debug_get obj offset depth =
     TRY_out (lookup_cap_slot obj offset (ucast depth)) (\<lambda>cte.
     kseq (kbind (kget (\<lambda>s. slot_cap (ctes s) cte)) (\<lambda>c. set_mr 0 (cap_word0 c)))
    (kseq (kbind (kget (\<lambda>s. slot_cap (ctes s) cte)) (\<lambda>c. set_mr 1 (cap_badge c)))
     (kret (msg_ok 2))))"

text \<open>
  What \<open>cnode_debug_print\<close> prints, one entry per slot that is not null: the index, and either the
  type and pointer or an invalid type. Printing itself is not modelled.
\<close>

datatype print_entry = InvalidCapType nat word_t | CapEntry nat word_t addr

definition debug_print_entry :: "kstate \<Rightarrow> addr \<Rightarrow> nat \<Rightarrow> print_entry list" where
  "debug_print_entry s base i =
     (let e = slot_cap (ctes s) (cte_at base (of_nat i))
      in if cap_type e = CAP_NULL then []
         else if cap_type e \<ge> MAX_CAP_TYPE then [InvalidCapType i (cap_type e)]
         else [CapEntry i (cap_type e) (cap_ptr e)])"

definition cnode_debug_print :: "slot \<Rightarrow> (kstate, print_entry list \<times> message_tag_t) kern" where
  "cnode_debug_print obj =
     kbind (kget (\<lambda>s. slot_cap (ctes s) obj)) (\<lambda>c.
     kbind (kget (\<lambda>s. concat (map (debug_print_entry s (cap_ptr c)) [0 ..< unat (cap_size c)]))) (\<lambda>out.
     kret (out, msg_ok 0)))"

section \<open>What the methods leave alone\<close>

context kernel_frame
begin

lemma lookup_ops [inv_rules]:
  "inv_on I no_deadlock (lookup_cap_slot_raw c i d)" "inv_on I no_deadlock (lookup_cap_slot c i d)"
  "inv_on I no_deadlock (cte_for c i d)"
  unfolding lookup_cap_slot_raw_def lookup_cap_slot_def cte_for_def by (intro inv_rules; simp)+

lemma cnode_ops [inv_rules]:
  "inv_on I no_deadlock (cnode_copy obj a b root c d r)" "inv_on I no_deadlock (cnode_mint obj a b root c d r bd)"
  "inv_on I no_deadlock (cnode_delete obj a b)" "inv_on I no_deadlock (cnode_revoke obj a b)"
  "inv_on I no_deadlock (cnode_debug_get obj a b)" "inv_on I no_deadlock (cnode_debug_print obj)"
  unfolding cnode_copy_def cnode_mint_def cnode_delete_def cnode_revoke_def cnode_debug_get_def
    cnode_debug_print_def
  by (intro inv_rules keep; simp)+

end

section \<open>Successful lookups\<close>

lemma lookup_found:
  assumes "cap_type (slot_cap (ctes s) root) = CAP_CNODE" "index < cap_size (slot_cap (ctes s) root)"
  shows "lookup_cap_slot root index 64 s = Inr ((msg_ok 0, Some (cte_at (cap_ptr (slot_cap (ctes s) root)) index)), s)"
  using assms by (auto simp: lookup_cap_slot_def lookup_cap_slot_raw_def kern_simps dest: leD)

lemma TRY_out_found:
  assumes "cap_type (slot_cap (ctes s) root) = CAP_CNODE" "index < cap_size (slot_cap (ctes s) root)"
  shows "TRY_out (lookup_cap_slot root index 64) f s = f (cte_at (cap_ptr (slot_cap (ctes s) root)) index) s"
  using assms by (simp add: kern_simps lookup_found)

end
