(* ===== verification/Tcb.thy ===== *)
theory Tcb
  imports Cnode
begin

text \<open>
  Threads and the scheduler (\<open>kern/obj/tcb.c\<close>, \<open>save_frame_on_tcb\<close> and \<open>clear_frame_on_tcb\<close> of
  \<open>kern/arch/x86_64/frame.c\<close>, \<open>direct_map_of\<close> and \<open>physical_of\<close> of
  \<open>kern/arch/x86_64/phy_mem.c\<close>). The functions that do not return to their caller
  (\<open>jump_to_userland_frame\<close>, \<open>halt_forever_interrupts_enabled\<close>) give an exit as their value. The
  run queue is the intrusive list at \<open>RunQueue\<close>; the lemmas show what each operation does to the
  list of queued threads.
\<close>

section \<open>Addresses\<close>

definition direct_map_of :: "addr \<Rightarrow> (kstate, addr) kern" where
  "direct_map_of a = kbind (kget hhdm) (\<lambda>hhdm_cache.
     kseq (kassert (hhdm_cache \<noteq> 0)) (kret (a OR hhdm_cache)))"

definition physical_of :: "addr \<Rightarrow> (kstate, addr) kern" where
  "physical_of a = kbind (direct_map_of 0) (\<lambda>d. kret (a - d))"

definition set_vm_root :: "word_t \<Rightarrow> (kstate, unit) kern" where
  "set_vm_root root = kmod (\<lambda>s. s\<lparr>cr3 := root\<rparr>)"

definition set_tls_base :: "word_t \<Rightarrow> (kstate, unit) kern" where
  "set_tls_base base = kmod (\<lambda>s. s\<lparr>fs_base := base\<rparr>)"

section \<open>Frames of the running thread\<close>

definition save_frame_on_tcb :: "addr \<Rightarrow> (kstate, unit) kern" where
  "save_frame_on_tcb f = kmod (\<lambda>s.
     case current_tcb s of None \<Rightarrow> s
     | Some t \<Rightarrow> if f_cs (frame_mem s f) = USER_CS
                 then upd_tcb t (\<lambda>u. u\<lparr>t_current_user_frame := Some f\<rparr>) s else s)"

definition clear_frame_on_tcb :: "addr \<Rightarrow> (kstate, unit) kern" where
  "clear_frame_on_tcb f = kmod (\<lambda>s.
     case current_tcb s of None \<Rightarrow> s
     | Some t \<Rightarrow> if t_current_user_frame (tcbs s t) \<noteq> Some f then s
                 else upd_tcb t (\<lambda>u. u\<lparr>t_current_user_frame := None\<rparr>) s)"

section \<open>Threads\<close>

abbreviation set_state :: "addr \<Rightarrow> tcb_state \<Rightarrow> (kstate, unit) kern" where
  "set_state t st \<equiv> kmod (upd_tcb t (\<lambda>u. u\<lparr>t_state := st\<rparr>))"

definition init_tcb :: "addr \<Rightarrow> (kstate, unit) kern" where
  "init_tcb t = kret ()"

definition destroy_tcb :: "addr \<Rightarrow> (kstate, unit) kern" where
  "destroy_tcb t =
     kseq (kbind (kget lists) (\<lambda>h. kassert (is_list_empty (RunnableNode t) h)))
          (kbind (kget (\<lambda>s. t_state (tcbs s t))) (\<lambda>st. kassert (st = TASK_STATE_DEAD)))"

definition save_tcb_state :: "addr \<Rightarrow> (kstate, unit) kern" where
  "save_tcb_state t =
     kbind (kget (\<lambda>s. t_current_user_frame (tcbs s t))) (\<lambda>p.
     case p of None \<Rightarrow> kfail AssertFailed
     | Some f \<Rightarrow> kmod (\<lambda>s. upd_tcb t (\<lambda>u. u\<lparr>t_saved_state := frame_mem s f\<rparr>) s))"

definition schedule_tcb :: "addr \<Rightarrow> (kstate, unit) kern" where
  "schedule_tcb t =
     kseq (kbind (kget (\<lambda>s. t_state (tcbs s t))) (\<lambda>st. kassert (st \<noteq> TASK_STATE_DEAD)))
    (kseq (set_state t TASK_STATE_RUNNABLE)
    (kseq lock_runnable_tcbs
    (kseq (with_lists (append_to_list (RunnableNode t) RunQueue))
          unlock_runnable_tcbs)))"

definition suspend_tcb :: "addr \<Rightarrow> (kstate, unit) kern" where
  "suspend_tcb t =
     kseq (set_state t TASK_STATE_SUSPENDED)
    (kseq lock_runnable_tcbs
    (kseq (with_lists (remove_from_list (RunnableNode t)))
          unlock_runnable_tcbs))"

definition kill_tcb :: "addr \<Rightarrow> (kstate, unit) kern" where
  "kill_tcb t = kseq (set_state t TASK_STATE_DEAD) (destroy_tcb t)"

section \<open>Scheduling\<close>

text \<open>\<open>CONTAINER_OF\<close> on a list node that is not a \<open>runnable_tcbs\<close> member is not a thread.\<close>

definition runnable_container :: "node \<Rightarrow> (kstate, addr) kern" where
  "runnable_container n = (case n of RunnableNode t \<Rightarrow> kret t | _ \<Rightarrow> kfail Undefined)"

definition pick_next_tcb :: "(kstate, addr option) kern" where
  "pick_next_tcb =
     kseq lock_runnable_tcbs
    (kbind (kget lists) (\<lambda>h.
     if is_list_empty RunQueue h
     then kseq unlock_runnable_tcbs (kret None)
     else kbind (kbind (with_lists (pop_from_list RunQueue)) runnable_container) (\<lambda>t.
          kseq unlock_runnable_tcbs (kret (Some t)))))"

definition switch_tcb :: "addr \<Rightarrow> (kstate, unit) kern" where
  "switch_tcb t = kseq (set_state t TASK_STATE_RUNNABLE) (kmod (\<lambda>s. s\<lparr>return_to_tcb := Some t\<rparr>))"

definition current_is_running :: "kstate \<Rightarrow> bool" where
  "current_is_running s = (case current_tcb s of None \<Rightarrow> False
     | Some c \<Rightarrow> t_state (tcbs s c) = TASK_STATE_RUNNING)"

definition schedule :: "(kstate, unit) kern" where
  "schedule =
     kbind pick_next_tcb (\<lambda>nxt.
     kbind (kget current_is_running) (\<lambda>running.
     if nxt = None \<and> running then kret ()
     else case nxt of None \<Rightarrow> kmod (\<lambda>s. s\<lparr>return_to_tcb := None\<rparr>)
          | Some t \<Rightarrow> switch_tcb t))"

definition tcb_vm_root :: "addr \<Rightarrow> (kstate, addr) kern" where
  "tcb_vm_root t = kbind (kget (\<lambda>s. cap_ptr (slot_cap (ctes s) (TcbVspaceRoot t)))) physical_of"

datatype kexit =
    ReturnToFrame
  | JumpToUserlandFrame addr
  | HaltInterruptsEnabled
  | HaltForever

definition halt_forever_interrupts_enabled :: "(kstate, kexit) kern" where
  "halt_forever_interrupts_enabled =
     kseq (kmod (\<lambda>s. s\<lparr>current_tcb := None\<rparr>)) (kret HaltInterruptsEnabled)"

definition halt_forever :: "(kstate, kexit) kern" where
  "halt_forever = kseq (kmod (\<lambda>s. s\<lparr>current_tcb := None\<rparr>)) (kret HaltForever)"

definition save_unless_dead :: "addr option \<Rightarrow> (kstate, unit) kern" where
  "save_unless_dead cur = (case cur of None \<Rightarrow> kret ()
     | Some c \<Rightarrow> kbind (kget (\<lambda>s. t_state (tcbs s c))) (\<lambda>st.
         if st \<noteq> TASK_STATE_DEAD then save_tcb_state c else kret ()))"

definition switch_tcb_actual :: "addr \<Rightarrow> (kstate, kexit) kern" where
  "switch_tcb_actual t =
     kbind (kget current_tcb) (\<lambda>current.
     kseq (kassert (current \<noteq> Some t))
    (kseq (save_unless_dead current)
    (kseq (case current of None \<Rightarrow> kret ()
           | Some c \<Rightarrow> kbind (kget (\<lambda>s. t_state (tcbs s c))) (\<lambda>st.
               if st = TASK_STATE_RUNNING then schedule_tcb c else kret ()))
    (kseq (kbind (kget (\<lambda>s. t_state (tcbs s t))) (\<lambda>st. kassert (st = TASK_STATE_RUNNABLE)))
    (kseq (kmod (\<lambda>s. s\<lparr>current_tcb := Some t\<rparr>))
    (kseq (kbind (tcb_vm_root t) set_vm_root)
    (kseq (kbind (kget (\<lambda>s. t_tls_base (tcbs s t))) set_tls_base)
    (kseq (set_state t TASK_STATE_RUNNING)
    (kseq (kmod (upd_tcb t (\<lambda>u. u\<lparr>t_saved_state := ensure_frame_valid_for_usermode (t_saved_state u)\<rparr>)))
          (kret (JumpToUserlandFrame t)))))))))))"

definition return_from_kernel_code :: "(kstate, kexit) kern" where
  "return_from_kernel_code =
     kbind (kget return_to_tcb) (\<lambda>ret.
     kbind (kget current_tcb) (\<lambda>current.
     if ret = current then kret ReturnToFrame
     else case ret of
       Some t \<Rightarrow> switch_tcb_actual t
     | None \<Rightarrow> kseq (save_unless_dead current) halt_forever_interrupts_enabled))"

section \<open>Methods of a thread capability\<close>

abbreviation slot_ptr :: "slot \<Rightarrow> (kstate, addr) kern" where
  "slot_ptr c \<equiv> kget (\<lambda>s. cap_ptr (slot_cap (ctes s) c))"

definition tcb_resume :: "slot \<Rightarrow> (kstate, message_tag_t) kern" where
  "tcb_resume c = kbind (slot_ptr c) (\<lambda>t. kseq (schedule_tcb t) (kret (msg_ok 0)))"

definition tcb_suspend :: "slot \<Rightarrow> (kstate, message_tag_t) kern" where
  "tcb_suspend c = kbind (slot_ptr c) (\<lambda>t. kseq (suspend_tcb t) (kret (msg_ok 0)))"

definition tcb_read_registers :: "slot \<Rightarrow> bool \<Rightarrow> word_t \<Rightarrow> word_t \<Rightarrow> addr \<Rightarrow> (kstate, message_tag_t) kern" where
  "tcb_read_registers c suspend_source arch_flags count regs =
     kbind (slot_ptr c) (\<lambda>t.
     kseq (kmod (\<lambda>s. s\<lparr>frame_mem := (frame_mem s)(regs := t_saved_state (tcbs s t))\<rparr>))
          (kret (msg_ok 0)))"

definition tcb_write_registers :: "slot \<Rightarrow> bool \<Rightarrow> word_t \<Rightarrow> word_t \<Rightarrow> addr \<Rightarrow> (kstate, message_tag_t) kern" where
  "tcb_write_registers c resume_target arch_flags count regs =
     kbind (slot_ptr c) (\<lambda>t.
     kseq (kmod (\<lambda>s. upd_tcb t (\<lambda>u. u\<lparr>t_saved_state := frame_mem s regs\<rparr>) s))
          (kret (msg_ok 0)))"

definition tcb_configure ::
    "slot \<Rightarrow> word_t \<Rightarrow> slot \<Rightarrow> slot \<Rightarrow> word_t \<Rightarrow> slot \<Rightarrow> (kstate, message_tag_t) kern" where
  "tcb_configure c fault_ep cspace_root vspace_root buffer buffer_frame =
     kbind (slot_ptr c) (\<lambda>t.
     kseq (with_ctes (copy_cap (TcbCspaceRoot t) cspace_root CAP_RIGHTS_ALL))
    (kseq (with_ctes (copy_cap (TcbVspaceRoot t) vspace_root CAP_RIGHTS_ALL))
    (kseq (with_ctes (copy_cap (TcbIpcBufferFrame t) buffer_frame CAP_RIGHTS_ALL))
    (kbind (slot_ptr buffer_frame) (\<lambda>p.
     kseq (kmod (upd_tcb t (\<lambda>u. u\<lparr>t_ipc_buffer := if p = 0 then None else Some p\<rparr>)))
          (kret (msg_ok 0)))))))"

definition tcb_bind_notification :: "slot \<Rightarrow> slot \<Rightarrow> (kstate, message_tag_t) kern" where
  "tcb_bind_notification c nslot =
     kbind (slot_ptr c) (\<lambda>t.
     kbind (kget (\<lambda>s. slot_cap (ctes s) nslot)) (\<lambda>ncap.
     if cap_type ncap \<noteq> CAP_NOTIFICATION then kret msg_illegal_operation
     else kbind (kget (\<lambda>s. n_bound_tcb (notifications s (cap_ptr ncap)))) (\<lambda>bound.
          if bound \<noteq> None then kret msg_illegal_operation
          else kseq (kmod (upd_tcb t (\<lambda>u. u\<lparr>t_bound_notification := Some (cap_ptr ncap)\<rparr>)))
              (kseq (kmod (upd_nfn (cap_ptr ncap) (\<lambda>n. n\<lparr>n_bound_tcb := Some t\<rparr>)))
                    (kret (msg_ok 0))))))"

definition tcb_set_tls_base :: "slot \<Rightarrow> word_t \<Rightarrow> (kstate, message_tag_t) kern" where
  "tcb_set_tls_base c tls_base =
     kbind (slot_ptr c) (\<lambda>t.
     kseq (kmod (upd_tcb t (\<lambda>u. u\<lparr>t_tls_base := tls_base\<rparr>)))
    (kbind (kget current_tcb) (\<lambda>cur.
     kseq (if cur = Some t then set_tls_base tls_base else kret ()) (kret (msg_ok 0)))))"

definition tcb_set_debug :: "slot \<Rightarrow> word_t \<Rightarrow> (kstate, message_tag_t) kern" where
  "tcb_set_debug c flags =
     kbind (slot_ptr c) (\<lambda>t.
     kseq (kmod (upd_tcb t (\<lambda>u. u\<lparr>t_debug := (flags \<noteq> 0)\<rparr>))) (kret (msg_ok 0)))"

text \<open>\<open>strncpy\<close> of \<open>lib/string.c\<close> between two memories: it stops after a zero byte or \<open>n\<close> bytes.\<close>

fun strncpy :: "nat \<Rightarrow> (nat \<Rightarrow> u8) \<Rightarrow> (nat \<Rightarrow> u8) \<Rightarrow> nat \<Rightarrow> (nat \<Rightarrow> u8)" where
  "strncpy i dest src 0 = dest"
| "strncpy i dest src (Suc n) =
     (let dest' = dest(i := src i) in if src i = 0 then dest' else strncpy (Suc i) dest' src n)"

definition tcb_set_name :: "slot \<Rightarrow> addr \<Rightarrow> word_t \<Rightarrow> (kstate, message_tag_t) kern" where
  "tcb_set_name c name len =
     kbind (slot_ptr c) (\<lambda>t.
     kseq (kmod (\<lambda>s. upd_tcb t (\<lambda>u. u\<lparr>t_name :=
             strncpy 0 (t_name u) (\<lambda>i. user_mem s (name + of_nat i)) (unat len)\<rparr>) s))
          (kret (msg_ok 0)))"

section \<open>What the operations leave alone\<close>

context kernel_frame
begin

lemma pick_next_tcb_inv [inv_rules]: "inv_on I no_deadlock pick_next_tcb"
proof (rule inv_onI)
  fix s assume s: "I s"
  obtain l where l: "acquire (runnable_tcbs_lock s) = Inr l"
    using run_lock_free [OF s] by (auto simp: lock_free_def acquire_def Let_def)
  have pop: "pop_from_list RunQueue (lists s) = Inl e \<Longrightarrow> e \<noteq> Deadlock" for e
    using inv_on_fault [OF inv_list_ops(5) [of no_deadlock]] by force
  show "case pick_next_tcb s of Inl e \<Rightarrow> e \<in> no_deadlock | Inr (x, t) \<Rightarrow> I t"
    using pop keep_lock_cycle [OF keep_lists [OF s]] keep_lock_cycle [OF s l] l
    by (auto simp: pick_next_tcb_def kern_simps lock_runnable_tcbs_def unlock_runnable_tcbs_def
        runnable_container_def split: sum.splits node.splits)
qed

lemma sched_ops [inv_rules]:
  "inv_on I no_deadlock (schedule_tcb t)" "inv_on I no_deadlock (suspend_tcb t)"
  "inv_on I no_deadlock (kill_tcb t)" "inv_on I no_deadlock (switch_tcb t)" "inv_on I no_deadlock schedule"
  "inv_on I no_deadlock (direct_map_of a)" "inv_on I no_deadlock (physical_of a)"
proof -
  show sw: "inv_on I no_deadlock (switch_tcb t)" for t
    unfolding switch_tcb_def by (intro inv_rules keep_upd keep; assumption)
  show "inv_on I no_deadlock (schedule_tcb t)" "inv_on I no_deadlock (suspend_tcb t)"
    unfolding schedule_tcb_def suspend_tcb_def
    by (intro locked_section inv_list_ops inv_rules keep_upd; simp)+
  show "inv_on I no_deadlock (kill_tcb t)"
    unfolding kill_tcb_def destroy_tcb_def by (intro inv_rules keep_upd; simp)
  show "inv_on I no_deadlock schedule"
    unfolding schedule_def by (intro inv_rules sw keep; assumption)
  show d: "inv_on I no_deadlock (direct_map_of a)" for a
    unfolding direct_map_of_def by (intro inv_rules; simp)
  show "inv_on I no_deadlock (physical_of a)"
    unfolding physical_of_def by (intro inv_rules d)
qed

lemma tcb_ops [inv_rules]:
  "inv_on I no_deadlock (tcb_resume c)" "inv_on I no_deadlock (tcb_suspend c)"
  "inv_on I no_deadlock (tcb_read_registers c b x y p)" "inv_on I no_deadlock (tcb_write_registers c b x y p)"
  "inv_on I no_deadlock (tcb_configure c x r v y f)" "inv_on I no_deadlock (tcb_bind_notification c n)"
  "inv_on I no_deadlock (tcb_set_tls_base c x)" "inv_on I no_deadlock (tcb_set_debug c x)"
  "inv_on I no_deadlock (tcb_set_name c x y)"
  unfolding tcb_resume_def tcb_suspend_def tcb_read_registers_def tcb_write_registers_def
    tcb_configure_def tcb_bind_notification_def tcb_set_tls_base_def tcb_set_debug_def
    tcb_set_name_def set_tls_base_def
  by (intro inv_rules keep keep_upd; assumption)+

end

section \<open>Functional behaviour of the scheduler\<close>

definition cycled :: "spin_lock_t \<Rightarrow> spin_lock_t" where
  "cycled l = l\<lparr>lk_front := lk_front l + 1, lk_back := lk_back l + 1\<rparr>"

lemma lock_cycle [simp]: "lock_free l \<Longrightarrow> lock_free (cycled l)"
  by (simp add: lock_free_def cycled_def)

lemma acquire_Inr: "acquire l = Inr l' \<longleftrightarrow> lock_free l \<and> l' = l\<lparr>lk_back := lk_back l + 1\<rparr>"
  by (auto simp: acquire_def Let_def lock_free_def)

lemma release_acquired [simp]: "release (l\<lparr>lk_back := lk_back l + 1\<rparr>) = cycled l"
  by (simp add: release_def cycled_def)

lemma lock_runnable_Inr:
  "lock_free (runnable_tcbs_lock s) \<Longrightarrow> lock_runnable_tcbs s =
     Inr ((), s\<lparr>runnable_tcbs_lock := (runnable_tcbs_lock s)\<lparr>lk_back := lk_back (runnable_tcbs_lock s) + 1\<rparr>\<rparr>)"
  by (simp add: lock_runnable_tcbs_def acquire_def Let_def lock_free_def)

lemma lock_runnable_deadlock:
  "\<not> lock_free (runnable_tcbs_lock s) \<Longrightarrow> lock_runnable_tcbs s = Inl Deadlock"
  by (simp add: lock_runnable_tcbs_def acquire_def Let_def lock_free_def)

text \<open>The threads in the run queue, the next one first.\<close>

definition run_queue :: "kstate \<Rightarrow> addr list \<Rightarrow> bool" where
  "run_queue s q \<longleftrightarrow> is_queue (lists s) RunQueue (map RunnableNode q)"

lemma run_queue_cong: "lists s = lists s' \<Longrightarrow> run_queue s q = run_queue s' q"
  by (simp add: run_queue_def)

lemma run_queue_distinct: "run_queue s q \<Longrightarrow> distinct q"
  by (auto simp: run_queue_def is_queue_def distinct_map)

lemma schedule_tcb_eq:
  assumes "t_state (tcbs s t) \<noteq> TASK_STATE_DEAD" "lock_free (runnable_tcbs_lock s)"
    and "append_to_list (RunnableNode t) RunQueue (lists s) = Inr ((), h)"
  shows "schedule_tcb t s = Inr ((), (upd_tcb t (\<lambda>u. u\<lparr>t_state := TASK_STATE_RUNNABLE\<rparr>) s)
    \<lparr>lists := h, runnable_tcbs_lock := cycled (runnable_tcbs_lock s)\<rparr>)"
  using assms by (simp add: schedule_tcb_def kern_simps lock_runnable_Inr unlock_runnable_tcbs_def)

lemma schedule_tcb_Inr:
  assumes "schedule_tcb t s = Inr (x, s')"
  shows "t_state (tcbs s t) \<noteq> TASK_STATE_DEAD" "lock_free (runnable_tcbs_lock s)"
    and "\<exists>h. append_to_list (RunnableNode t) RunQueue (lists s) = Inr ((), h) \<and>
      s' = (upd_tcb t (\<lambda>u. u\<lparr>t_state := TASK_STATE_RUNNABLE\<rparr>) s)
        \<lparr>lists := h, runnable_tcbs_lock := cycled (runnable_tcbs_lock s)\<rparr>"
proof -
  show d: "t_state (tcbs s t) \<noteq> TASK_STATE_DEAD"
    using assms by (auto simp: schedule_tcb_def kern_simps)
  show l: "lock_free (runnable_tcbs_lock s)"
  proof (rule ccontr)
    assume "\<not> lock_free (runnable_tcbs_lock s)"
    then show False using assms d by (simp add: schedule_tcb_def kern_simps lock_runnable_deadlock)
  qed
  show "\<exists>h. append_to_list (RunnableNode t) RunQueue (lists s) = Inr ((), h) \<and>
      s' = (upd_tcb t (\<lambda>u. u\<lparr>t_state := TASK_STATE_RUNNABLE\<rparr>) s)
        \<lparr>lists := h, runnable_tcbs_lock := cycled (runnable_tcbs_lock s)\<rparr>"
    using assms d l by (auto simp: schedule_tcb_def kern_simps lock_runnable_Inr unlock_runnable_tcbs_def
        split: sum.splits)
qed

text \<open>A thread that is scheduled goes to the front of the run queue.\<close>

lemma schedule_tcb_queue:
  assumes q: "run_queue s q" and t: "t \<notin> set q"
    and "t_state (tcbs s t) \<noteq> TASK_STATE_DEAD" "lock_free (runnable_tcbs_lock s)"
  shows "\<exists>h. schedule_tcb t s = Inr ((), (upd_tcb t (\<lambda>u. u\<lparr>t_state := TASK_STATE_RUNNABLE\<rparr>) s)
      \<lparr>lists := h, runnable_tcbs_lock := cycled (runnable_tcbs_lock s)\<rparr>) \<and>
    is_queue h RunQueue (map RunnableNode (t # q)) \<and>
    (\<forall>n. n \<notin> insert RunQueue (RunnableNode ` set (t # q)) \<longrightarrow> h n = lists s n)"
proof -
  have "RunnableNode t \<notin> set (RunQueue # map RunnableNode q)" using t by auto
  from append_refines [OF q [unfolded run_queue_def] this] obtain h where
    h: "append_to_list (RunnableNode t) RunQueue (lists s) = Inr ((), h)"
      "is_queue h RunQueue (RunnableNode t # map RunnableNode q)"
      "\<forall>m. m \<notin> set (RunnableNode t # RunQueue # map RunnableNode q) \<longrightarrow> h m = lists s m"
    by blast
  then show ?thesis using schedule_tcb_eq [OF assms(3,4) h(1)] by auto
qed

lemma pick_next_tcb_empty:
  assumes "run_queue s []" "lock_free (runnable_tcbs_lock s)"
  shows "pick_next_tcb s = Inr (None, s\<lparr>runnable_tcbs_lock := cycled (runnable_tcbs_lock s)\<rparr>)"
  using assms is_queue_empty_iff [of "lists s" RunQueue "[]"]
  by (simp add: pick_next_tcb_def kern_simps lock_runnable_Inr unlock_runnable_tcbs_def run_queue_def)

lemma pick_next_tcb_first:
  assumes q: "run_queue s (t # q)" and l: "lock_free (runnable_tcbs_lock s)"
  shows "\<exists>h. pick_next_tcb s = Inr (Some t, s\<lparr>lists := h, runnable_tcbs_lock := cycled (runnable_tcbs_lock s)\<rparr>) \<and>
    is_queue h RunQueue (map RunnableNode q) \<and> is_queue h (RunnableNode t) [] \<and>
    (\<forall>n. n \<notin> insert RunQueue (RunnableNode ` set (t # q)) \<longrightarrow> h n = lists s n)"
proof -
  from q have q': "is_queue (lists s) RunQueue (RunnableNode t # map RunnableNode q)"
    by (simp add: run_queue_def)
  from pop_refines [OF q'] obtain h where
    h: "pop_from_list RunQueue (lists s) = Inr (RunnableNode t, h)"
      "is_queue h RunQueue (map RunnableNode q)" "is_queue h (RunnableNode t) []"
      "\<forall>m. m \<notin> set (RunQueue # RunnableNode t # map RunnableNode q) \<longrightarrow> h m = lists s m"
    by blast
  then show ?thesis using is_queue_empty_iff [OF q'] l
    by (auto simp: pick_next_tcb_def kern_simps lock_runnable_Inr unlock_runnable_tcbs_def runnable_container_def)
qed

text \<open>The decision of \<open>schedule\<close>.\<close>

lemma current_is_running_lock [simp]:
  "current_is_running (s\<lparr>runnable_tcbs_lock := l\<rparr>) = current_is_running s"
  by (simp add: current_is_running_def split: option.splits)

lemma schedule_empty:
  assumes "run_queue s []" "lock_free (runnable_tcbs_lock s)"
  shows "schedule s = Inr ((), let s' = s\<lparr>runnable_tcbs_lock := cycled (runnable_tcbs_lock s)\<rparr>
    in if current_is_running s then s' else s'\<lparr>return_to_tcb := None\<rparr>)"
  by (cases "current_is_running s")
    (simp_all add: schedule_def kern_simps pick_next_tcb_empty [OF assms])

lemma schedule_first:
  assumes "run_queue s (t # q)" and "lock_free (runnable_tcbs_lock s)"
  shows "\<exists>h. schedule s = Inr ((), (upd_tcb t (\<lambda>u. u\<lparr>t_state := TASK_STATE_RUNNABLE\<rparr>)
      (s\<lparr>lists := h, runnable_tcbs_lock := cycled (runnable_tcbs_lock s)\<rparr>))\<lparr>return_to_tcb := Some t\<rparr>) \<and>
    is_queue h RunQueue (map RunnableNode q) \<and> is_queue h (RunnableNode t) [] \<and>
    (\<forall>n. n \<notin> insert RunQueue (RunnableNode ` set (t # q)) \<longrightarrow> h n = lists s n)"
  using pick_next_tcb_first [OF assms]
  by (elim exE, intro exI) (auto simp: schedule_def kern_simps switch_tcb_def)

text \<open>Both cases together, with what they leave alone.\<close>

definition sched_frame :: "kstate \<Rightarrow> kstate \<Rightarrow> bool" where
  "sched_frame s s' \<longleftrightarrow> ctes s' = ctes s \<and> notifications s' = notifications s \<and> ipc_buffers s' = ipc_buffers s \<and>
     frame_mem s' = frame_mem s \<and> current_tcb s' = current_tcb s \<and> hhdm s' = hhdm s \<and>
     lock_free (runnable_tcbs_lock s') \<and> big_kernel_lock s' = big_kernel_lock s \<and>
     (\<forall>n. n \<noteq> RunQueue \<and> (\<forall>t. n \<noteq> RunnableNode t) \<longrightarrow> lists s' n = lists s n)"

lemma schedule_any:
  assumes "run_queue s rq" "lock_free (runnable_tcbs_lock s)"
  shows "\<exists>s'. schedule s = Inr ((), s') \<and> sched_frame s s' \<and> run_queue s' (tl rq) \<and>
    return_to_tcb s' = (if rq = [] then if current_is_running s then return_to_tcb s else None else Some (hd rq)) \<and>
    (\<forall>u. tcbs s' u = (if rq \<noteq> [] \<and> u = hd rq then (tcbs s u)\<lparr>t_state := TASK_STATE_RUNNABLE\<rparr> else tcbs s u))"
proof (cases rq)
  case Nil
  then show ?thesis using schedule_empty [of s] assms
    by (auto simp: Let_def sched_frame_def run_queue_def)
next
  case (Cons t q)
  then show ?thesis using schedule_first [of s t q] assms
    by (fastforce simp: sched_frame_def run_queue_def)
qed

end
