(* ===== verification/Notification.thy ===== *)
theory Notification
  imports Tcb
begin

text \<open>
  Notification objects (\<open>kern/obj/notification.c\<close>): a word in which the badges of signals accumulate,
  a list of waiting threads and at most one bound thread.
\<close>

section \<open>Operations\<close>

text \<open>\<open>CONTAINER_OF\<close> on a \<open>send_receive_node\<close> member.\<close>

definition send_receive_container :: "node \<Rightarrow> (kstate, addr) kern" where
  "send_receive_container n = (case n of SendRecvNode t \<Rightarrow> kret t | _ \<Rightarrow> kfail Undefined)"

abbreviation ipc_buffer_of :: "addr \<Rightarrow> (kstate, addr) kern" where
  "ipc_buffer_of t \<equiv> kbind (kget (\<lambda>s. t_ipc_buffer (tcbs s t))) knonnull"

definition signal_waiting_receiver :: "addr \<Rightarrow> word_t \<Rightarrow> (kstate, message_tag_t) kern" where
  "signal_waiting_receiver receiver badge =
     kseq (set_ipc_result receiver (msg_ok 0))
    (kseq (kbind (ipc_buffer_of receiver) (\<lambda>b. kmod (upd_ipc b IPC_SENDER_BADGE badge)))
    (kseq (switch_tcb receiver)
          (kret (msg_ok 0))))"

definition signal_bound_receiver_waiting_on_something_else :: "addr \<Rightarrow> word_t \<Rightarrow> (kstate, unit) kern" where
  "signal_bound_receiver_waiting_on_something_else receiver badge =
     kseq (with_lists (remove_from_list (SendRecvNode receiver)))
    (kseq (signal_waiting_receiver receiver badge) (kret ()))"

definition queue_receiver_on_notification :: "addr \<Rightarrow> (kstate, message_tag_t) kern" where
  "queue_receiver_on_notification nfn =
     kbind this_tcb (\<lambda>t.
     kseq (with_lists (append_to_list (SendRecvNode t) (NotificationList nfn)))
    (kseq (set_state t TASK_STATE_RECEIVING)
    (kseq schedule
          (kret msg_noreturn))))"

definition init_notification :: "addr \<Rightarrow> (kstate, unit) kern" where
  "init_notification nfn = with_lists (init_list (NotificationList nfn))"

definition bound_is_receiving :: "addr option \<Rightarrow> kstate \<Rightarrow> bool" where
  "bound_is_receiving bound s = (case bound of None \<Rightarrow> False
     | Some b \<Rightarrow> t_state (tcbs s b) = TASK_STATE_RECEIVING)"

definition notification_signal :: "addr \<Rightarrow> word_t \<Rightarrow> (kstate, unit) kern" where
  "notification_signal nfn badge =
     kseq (kmod (upd_nfn nfn (\<lambda>n. n\<lparr>n_word := n_word n OR badge\<rparr>)))
    (kbind (kget (\<lambda>s. n_word (notifications s nfn))) (\<lambda>nfn_word.
     kbind (kget (\<lambda>s. is_list_empty (NotificationList nfn) (lists s))) (\<lambda>empty.
     kbind (kget (\<lambda>s. n_bound_tcb (notifications s nfn))) (\<lambda>bound.
     kbind (kget (bound_is_receiving bound)) (\<lambda>receiving.
     if empty \<and> receiving
     then kseq (kmod (upd_nfn nfn (\<lambda>n. n\<lparr>n_word := 0\<rparr>)))
              (kbind (knonnull bound) (\<lambda>b. signal_bound_receiver_waiting_on_something_else b nfn_word))
     else if empty then kret ()
     else kseq (kmod (upd_nfn nfn (\<lambda>n. n\<lparr>n_word := 0\<rparr>)))
         (kbind (kbind (kget (\<lambda>s. first_item (NotificationList nfn) (lists s))) knonnull) (\<lambda>node.
          kbind (send_receive_container node) (\<lambda>t.
          kseq (with_lists (remove_from_list (SendRecvNode t)))
         (kseq (signal_waiting_receiver t nfn_word) (kret ()))))))))))"

definition invoke_notification_send :: "slot \<Rightarrow> (kstate, message_tag_t) kern" where
  "invoke_notification_send c =
     kbind (kget (\<lambda>s. slot_cap (ctes s) c)) (\<lambda>cap.
     kseq (kassert (cap_type cap = CAP_NOTIFICATION))
    (kseq (notification_signal (cap_ptr cap) (cap_badge cap))
          (kret (msg_ok 0))))"

definition invoke_notification_recv :: "slot \<Rightarrow> (kstate, message_tag_t) kern" where
  "invoke_notification_recv c =
     kbind (kget (\<lambda>s. slot_cap (ctes s) c)) (\<lambda>cap.
     kseq (kassert (cap_type cap = CAP_NOTIFICATION))
    (let nfn = cap_ptr cap in
     kbind (kget (\<lambda>s. n_bound_tcb (notifications s nfn))) (\<lambda>bound.
     kbind (kget current_tcb) (\<lambda>cur.
     kseq (if bound \<noteq> None \<and> bound \<noteq> cur
           then kbind this_tcb (\<lambda>t. kseq (kill_tcb t) schedule) else kret ())
    (kbind (kget (\<lambda>s. n_word (notifications s nfn))) (\<lambda>w.
     if w = 0 then queue_receiver_on_notification nfn
     else kseq (kmod (upd_nfn nfn (\<lambda>n. n\<lparr>n_word := 0\<rparr>)))
               (kret (msg_ok 0))))))))"

section \<open>What the operations leave alone\<close>

context kernel_frame
begin

lemma send_receive_container_inv [inv_rules]: "inv_on I no_deadlock (send_receive_container n)"
  unfolding send_receive_container_def by (cases n) (auto intro: inv_rules)

lemma signal_waiting_receiver_inv [inv_rules]: "inv_on I no_deadlock (signal_waiting_receiver t b)"
  unfolding signal_waiting_receiver_def by (intro inv_rules keep_upd; simp)

lemma notification_signal_inv [inv_rules]: "inv_on I no_deadlock (notification_signal n b)"
  unfolding notification_signal_def signal_bound_receiver_waiting_on_something_else_def
  by (intro inv_rules keep_upd keep; simp)

lemma notification_ops [inv_rules]:
  "inv_on I no_deadlock (init_notification n)" "inv_on I no_deadlock (invoke_notification_send c)"
  "inv_on I no_deadlock (invoke_notification_recv c)"
  unfolding init_notification_def invoke_notification_send_def invoke_notification_recv_def
    queue_receiver_on_notification_def Let_def
  by (intro inv_rules keep_upd keep; simp)+

end

section \<open>Waiting threads\<close>

text \<open>The threads linked by their \<open>send_receive_node\<close> at a list head, the next one first.\<close>

definition waiting :: "kstate \<Rightarrow> node \<Rightarrow> addr list \<Rightarrow> bool" where
  "waiting s head q \<longleftrightarrow> is_queue (lists s) head (map SendRecvNode q)"

lemma waiting_empty: "waiting s head q \<Longrightarrow> is_list_empty head (lists s) \<longleftrightarrow> q = []"
  unfolding waiting_def using is_queue_empty_iff by fastforce

lemma waiting_first: "waiting s head (t # q) \<Longrightarrow> first_item head (lists s) = Some (SendRecvNode t)"
  unfolding waiting_def using is_queue_first by fastforce

lemma pop_waiting:
  assumes "waiting s head (t # q)"
  shows "\<exists>h. pop_from_list head (lists s) = Inr (SendRecvNode t, h) \<and> is_queue h head (map SendRecvNode q) \<and>
    is_queue h (SendRecvNode t) [] \<and>
    (\<forall>n. n \<noteq> head \<and> (\<forall>u. n \<noteq> SendRecvNode u) \<longrightarrow> h n = lists s n)"
proof -
  have "is_queue (lists s) head (SendRecvNode t # map SendRecvNode q)" using assms by (simp add: waiting_def)
  from pop_refines [OF this] show ?thesis by fastforce
qed

lemma remove_waiting_first:
  assumes "waiting s head (t # q)"
  shows "\<exists>h. remove_from_list (SendRecvNode t) (lists s) = Inr ((), h) \<and> is_queue h head (map SendRecvNode q) \<and>
    (\<forall>n. n \<noteq> head \<and> (\<forall>u. n \<noteq> SendRecvNode u) \<longrightarrow> h n = lists s n)"
proof -
  have "is_queue (lists s) head ([] @ SendRecvNode t # map SendRecvNode q)" using assms by (simp add: waiting_def)
  from remove_refines [OF this] show ?thesis by fastforce
qed

lemma append_waiting:
  assumes "waiting s head q" and "t \<notin> set q" and "head \<noteq> SendRecvNode t"
  shows "\<exists>h. append_to_list (SendRecvNode t) head (lists s) = Inr ((), h) \<and> is_queue h head (map SendRecvNode (t # q)) \<and>
    (\<forall>n. n \<noteq> head \<and> (\<forall>u. n \<noteq> SendRecvNode u) \<longrightarrow> h n = lists s n)"
proof -
  have "SendRecvNode t \<notin> set (head # map SendRecvNode q)" using assms(2,3) by auto
  from append_refines [OF assms(1) [unfolded waiting_def] this] show ?thesis by (elim ex_forward) auto
qed

text \<open>The run queue lives on other nodes.\<close>

lemma run_queue_other:
  assumes "run_queue s q" and "\<And>n. n \<noteq> head \<and> (\<forall>u. n \<noteq> SendRecvNode u) \<longrightarrow> h n = lists s n"
    and "head \<noteq> RunQueue" "\<And>t. head \<noteq> RunnableNode t"
  shows "is_queue h RunQueue (map RunnableNode q)"
proof -
  have "h n = lists s n" if "n \<in> set (RunQueue # map RunnableNode q)" for n
    using that assms(2) [of n] assms(3,4) by auto
  from is_queue_cong [of RunQueue "map RunnableNode q" h "lists s", OF this] show ?thesis
    using assms(1) by (simp add: run_queue_def)
qed

lemma waiting_other:
  assumes "is_queue h head (map SendRecvNode q)"
    and "\<And>n. n \<noteq> RunQueue \<and> (\<forall>t. n \<noteq> RunnableNode t) \<Longrightarrow> h' n = h n"
    and "head \<noteq> RunQueue" "\<And>t. head \<noteq> RunnableNode t"
  shows "is_queue h' head (map SendRecvNode q)"
proof -
  have "h' n = h n" if "n \<in> set (head # map SendRecvNode q)" for n
    using that assms(2) [of n] assms(3,4) by auto
  from is_queue_cong [of head "map SendRecvNode q" h' h, OF this] show ?thesis using assms(1) by simp
qed

section \<open>Signals that nobody waits for\<close>

definition nobody_listens :: "addr \<Rightarrow> kstate \<Rightarrow> bool" where
  "nobody_listens n s \<longleftrightarrow> is_list_empty (NotificationList n) (lists s) \<and>
     \<not> bound_is_receiving (n_bound_tcb (notifications s n)) s"

lemma bound_is_receiving_cong: "tcbs s = tcbs s' \<Longrightarrow> bound_is_receiving b s = bound_is_receiving b s'"
  by (cases b) (simp_all add: bound_is_receiving_def)

lemma signal_pending:
  assumes "nobody_listens n s"
  shows "notification_signal n b s = Inr ((), upd_nfn n (\<lambda>u. u\<lparr>n_word := n_word u OR b\<rparr>) s)"
    and "nobody_listens n (upd_nfn n (\<lambda>u. u\<lparr>n_word := n_word u OR b\<rparr>) s)"
  using assms bound_is_receiving_cong [of "upd_nfn n (\<lambda>u. u\<lparr>n_word := n_word u OR b\<rparr>) s" s]
  by (simp_all add: notification_signal_def kern_simps nobody_listens_def)

end
