(* ===== verification/Endpoint.thy ===== *)
theory Endpoint
  imports Notification
begin

text \<open>
  Endpoints (\<open>kern/obj/endpoint.c\<close>): a list of blocked senders or of blocked receivers, and the
  transfer of a message, a badge and possibly a capability from a sender's buffer to a receiver's.
\<close>

section \<open>Transfer\<close>

text \<open>
  \<open>memcpy\<close> of the message words. The length comes from the nine-bit field of the tag, and the copy
  is not limited to the \<open>MESSAGE_MAX_LENGTH\<close> words of \<open>msg\<close>.
\<close>

definition copy_message :: "nat \<Rightarrow> ipc_buffer \<Rightarrow> ipc_buffer \<Rightarrow> ipc_buffer" where
  "copy_message len from to = (\<lambda>i. if i < len then from i else to i)"

definition transfer_extra_cap :: "addr \<Rightarrow> addr \<Rightarrow> addr \<Rightarrow> addr \<Rightarrow> message_tag_t \<Rightarrow> (kstate, message_tag_t) kern" where
  "transfer_extra_cap sender receiver sbuf rbuf tag =
     kbind (kget (\<lambda>s. ipc_buffers s sbuf IPC_CAPS_OR_BADGES)) (\<lambda>send_cptr.
     kbind (lookup_cap_slot_raw (TcbCspaceRoot sender) send_cptr 64) (\<lambda>(err, cap).
     if err \<noteq> NO_ERROR then kret (tag_set_extra_caps 0 tag)
     else kbind (kget (\<lambda>s. ipc_buffers s rbuf IPC_RECEIVE_CNODE)) (\<lambda>receive_cnode.
     kbind (lookup_cap_slot_raw (TcbCspaceRoot receiver) receive_cnode 64) (\<lambda>(err, recv_cnode_root).
     if err \<noteq> NO_ERROR then kret (tag_set_extra_caps 0 tag)
     else kbind (knonnull recv_cnode_root) (\<lambda>root.
     kbind (kget (\<lambda>s. ipc_buffers s rbuf IPC_RECEIVE_INDEX)) (\<lambda>receive_index.
     kbind (kget (\<lambda>s. ipc_buffers s rbuf IPC_RECEIVE_DEPTH)) (\<lambda>receive_depth.
     kbind (lookup_cap_slot_raw root receive_index receive_depth) (\<lambda>(err, recv_slot).
     if err \<noteq> NO_ERROR then kret (tag_set_extra_caps 0 tag)
     else kbind (knonnull recv_slot) (\<lambda>dst.
          kbind (knonnull cap) (\<lambda>src.
          kseq (with_ctes (copy_cap dst src CAP_RIGHTS_ALL)) (kret tag))))))))))) "

definition transfer_message :: "addr \<Rightarrow> addr \<Rightarrow> word_t \<Rightarrow> message_tag_t \<Rightarrow> (kstate, message_tag_t) kern" where
  "transfer_message sender receiver badge tag =
     kbind (ipc_buffer_of receiver) (\<lambda>rbuf.
     kbind (ipc_buffer_of sender) (\<lambda>sbuf.
     kseq (kmod (\<lambda>s. s\<lparr>ipc_buffers := (ipc_buffers s)(rbuf :=
             copy_message (unat (message_length tag)) (ipc_buffers s sbuf) (ipc_buffers s rbuf))\<rparr>))
    (kseq (kmod (upd_ipc rbuf IPC_SENDER_BADGE badge))
    (kbind (if message_extra_caps tag \<noteq> 0 then transfer_extra_cap sender receiver sbuf rbuf tag
            else kret tag) (\<lambda>tag.
     kbind (kget (\<lambda>s. t_expects_reply (tcbs s sender))) (\<lambda>expects.
     kseq (if expects then kmod (upd_tcb receiver (\<lambda>u. u\<lparr>t_reply_to := Some sender\<rparr>)) else kret ())
    (kseq (set_ipc_result receiver tag)
          (kret tag))))))))"

section \<open>Sending and receiving\<close>

definition send_message_directly :: "addr option \<Rightarrow> word_t \<Rightarrow> message_tag_t \<Rightarrow> bool \<Rightarrow> (kstate, unit) kern" where
  "send_message_directly receiver badge tag resume_now =
     (case receiver of None \<Rightarrow> kfail AssertFailed
      | Some r \<Rightarrow>
        kseq (kbind (kget (\<lambda>s. t_ipc_buffer (tcbs s r))) (\<lambda>b. kassert (b \<noteq> None)))
       (kbind this_tcb (\<lambda>me.
        kseq (kbind (kget (\<lambda>s. t_ipc_buffer (tcbs s me))) (\<lambda>b. kassert (b \<noteq> None)))
       (kseq (transfer_message me r badge tag)
             (if resume_now then switch_tcb r else schedule_tcb r)))))"

definition send_message_to_blocked_receiver :: "addr \<Rightarrow> word_t \<Rightarrow> message_tag_t \<Rightarrow> bool \<Rightarrow> (kstate, unit) kern" where
  "send_message_to_blocked_receiver e badge tag resume_now =
     kbind (with_lists (pop_from_list (EndpointList e))) (\<lambda>nxt.
     kbind (send_receive_container nxt) (\<lambda>receiver.
     send_message_directly (Some receiver) badge tag resume_now))"

definition queue_message_on_endpoint :: "addr \<Rightarrow> word_t \<Rightarrow> message_tag_t \<Rightarrow> bool \<Rightarrow> (kstate, unit) kern" where
  "queue_message_on_endpoint e badge tag is_call =
     kbind this_tcb (\<lambda>me.
     kseq (kbind (get_pending_ipc_info me) (\<lambda>pending.
           kassert (message_info_to_word pending = message_info_to_word tag)))
    (kseq (with_lists (append_to_list (SendRecvNode me) (EndpointList e)))
    (kseq (set_state me (if is_call then TASK_STATE_CALLING else TASK_STATE_SENDING))
    (kseq (kmod (upd_tcb me (\<lambda>u. u\<lparr>t_endpoint_badge := badge\<rparr>)))
          schedule))))"

definition receive_message_from_blocked_sender :: "addr \<Rightarrow> (kstate, message_tag_t) kern" where
  "receive_message_from_blocked_sender e =
     kbind (with_lists (pop_from_list (EndpointList e))) (\<lambda>nxt.
     kbind (send_receive_container nxt) (\<lambda>sender.
     kbind (get_pending_ipc_info sender) (\<lambda>tag.
     kbind this_tcb (\<lambda>me.
     kbind (kget (\<lambda>s. t_endpoint_badge (tcbs s sender))) (\<lambda>badge.
     kbind (transfer_message sender me badge tag) (\<lambda>result.
     kbind (kget (\<lambda>s. t_expects_reply (tcbs s sender))) (\<lambda>expects.
     kseq (if expects then kmod (upd_tcb me (\<lambda>u. u\<lparr>t_reply_to := Some sender\<rparr>))
           else schedule_tcb sender)
          (kret result))))))))"

definition queue_receiver_on_endpoint :: "addr \<Rightarrow> (kstate, message_tag_t) kern" where
  "queue_receiver_on_endpoint e =
     kbind this_tcb (\<lambda>me.
     kseq (with_lists (append_to_list (SendRecvNode me) (EndpointList e)))
    (kseq (set_state me TASK_STATE_RECEIVING)
    (kseq schedule
          (kret msg_noreturn))))"

definition first_tcb :: "addr \<Rightarrow> (kstate, addr) kern" where
  "first_tcb e =
     kbind (kbind (kget (\<lambda>s. first_item (EndpointList e) (lists s))) knonnull) send_receive_container"

definition recv_will_block :: "addr \<Rightarrow> (kstate, bool) kern" where
  "recv_will_block e =
     kbind (kget (\<lambda>s. is_list_empty (EndpointList e) (lists s))) (\<lambda>empty.
     if empty then kret True
     else kbind (first_tcb e) (\<lambda>t. kget (\<lambda>s. t_state (tcbs s t) = TASK_STATE_RECEIVING)))"

definition send_will_block :: "addr \<Rightarrow> (kstate, bool) kern" where
  "send_will_block e =
     kbind (kget (\<lambda>s. is_list_empty (EndpointList e) (lists s))) (\<lambda>empty.
     if empty then kret True
     else kbind (first_tcb e) (\<lambda>t. kget (\<lambda>s.
            t_state (tcbs s t) = TASK_STATE_SENDING \<or> t_state (tcbs s t) = TASK_STATE_CALLING)))"

definition endpoint_send :: "addr \<Rightarrow> word_t \<Rightarrow> message_tag_t \<Rightarrow> bool \<Rightarrow> (kstate, unit) kern" where
  "endpoint_send e badge tag is_call =
     kbind (send_will_block e) (\<lambda>block.
     if block then queue_message_on_endpoint e badge tag is_call
     else send_message_to_blocked_receiver e badge tag True)"

definition endpoint_nbsend :: "addr \<Rightarrow> word_t \<Rightarrow> message_tag_t \<Rightarrow> (kstate, unit) kern" where
  "endpoint_nbsend e badge tag =
     kbind (send_will_block e) (\<lambda>block.
     if block then kret () else send_message_to_blocked_receiver e badge tag False)"

definition endpoint_recv :: "addr \<Rightarrow> (kstate, message_tag_t) kern" where
  "endpoint_recv e =
     kbind (recv_will_block e) (\<lambda>block.
     if block then queue_receiver_on_endpoint e else receive_message_from_blocked_sender e)"

definition endpoint_nbrecv :: "addr \<Rightarrow> (kstate, message_tag_t) kern" where
  "endpoint_nbrecv e =
     kbind (recv_will_block e) (\<lambda>block.
     if block then kret (msg_ok 0) else receive_message_from_blocked_sender e)"

definition init_endpoint :: "addr \<Rightarrow> (kstate, unit) kern" where
  "init_endpoint e = with_lists (init_list (EndpointList e))"

section \<open>Invocations\<close>

definition invoke_endpoint_send :: "slot \<Rightarrow> message_tag_t \<Rightarrow> (kstate, unit) kern" where
  "invoke_endpoint_send c tag =
     kbind (kget (\<lambda>s. slot_cap (ctes s) c)) (\<lambda>cap.
     kseq (kassert (cap_type cap = CAP_ENDPOINT))
    (kbind this_tcb (\<lambda>me.
     kseq (kmod (upd_tcb me (\<lambda>u. u\<lparr>t_expects_reply := False\<rparr>)))
          (endpoint_send (cap_ptr cap) (cap_badge cap) tag False))))"

text \<open>The body after the \<open>panic\<close> is not reached.\<close>

definition invoke_endpoint_nbsend :: "slot \<Rightarrow> message_tag_t \<Rightarrow> (kstate, unit) kern" where
  "invoke_endpoint_nbsend c tag =
     kseq (kfail Panic :: (kstate, unit) kern)
    (kbind (kget (\<lambda>s. slot_cap (ctes s) c)) (\<lambda>cap.
     kseq (kassert (cap_type cap = CAP_ENDPOINT))
    (kbind this_tcb (\<lambda>me.
     kseq (kmod (upd_tcb me (\<lambda>u. u\<lparr>t_expects_reply := False\<rparr>)))
          (endpoint_nbsend (cap_ptr cap) (cap_badge cap) tag)))))"

definition handle_recv_with_pending_notification :: "(kstate, bool) kern" where
  "handle_recv_with_pending_notification =
     kbind this_tcb (\<lambda>me.
     kbind (kget (\<lambda>s. t_bound_notification (tcbs s me))) (\<lambda>bound.
     case bound of None \<Rightarrow> kret False
     | Some n \<Rightarrow> kbind (kget (\<lambda>s. n_word (notifications s n))) (\<lambda>w.
         if w = 0 then kret False
         else kseq (kbind (ipc_buffer_of me) (\<lambda>b. kmod (upd_ipc b IPC_SENDER_BADGE w)))
             (kseq (kmod (upd_nfn n (\<lambda>u. u\<lparr>n_word := 0\<rparr>)))
                   (kret True)))))"

definition invoke_endpoint_recv :: "slot \<Rightarrow> (kstate, message_tag_t) kern" where
  "invoke_endpoint_recv c =
     kbind (kget (\<lambda>s. slot_cap (ctes s) c)) (\<lambda>cap.
     kseq (kassert (cap_type cap = CAP_ENDPOINT))
    (kbind handle_recv_with_pending_notification (\<lambda>handled.
     if handled then kret (msg_ok 0) else endpoint_recv (cap_ptr cap))))"

definition invoke_endpoint_nbrecv :: "slot \<Rightarrow> (kstate, message_tag_t) kern" where
  "invoke_endpoint_nbrecv c =
     kbind (kget (\<lambda>s. slot_cap (ctes s) c)) (\<lambda>cap.
     kseq (kassert (cap_type cap = CAP_ENDPOINT))
    (kbind handle_recv_with_pending_notification (\<lambda>handled.
     if handled then kret (msg_ok 0) else endpoint_nbrecv (cap_ptr cap))))"

definition invoke_endpoint_call :: "slot \<Rightarrow> message_tag_t \<Rightarrow> (kstate, unit) kern" where
  "invoke_endpoint_call c tag =
     kbind (kget (\<lambda>s. slot_cap (ctes s) c)) (\<lambda>cap.
     kseq (kassert (cap_type cap = CAP_ENDPOINT))
    (kbind this_tcb (\<lambda>me.
     kseq (kmod (upd_tcb me (\<lambda>u. u\<lparr>t_expects_reply := True\<rparr>)))
    (kseq (set_state me TASK_STATE_CALLING)
          (endpoint_send (cap_ptr cap) (cap_badge cap) tag True)))))"

text \<open>
  \<open>debug_trap\<close> raises interrupt 3, whose handler ends in \<open>halt_forever\<close>: what follows it is not
  reached.
\<close>

definition invoke_reply :: "message_tag_t \<Rightarrow> (kstate, unit) kern" where
  "invoke_reply tag =
     kbind this_tcb (\<lambda>me.
     kbind (kget (\<lambda>s. t_reply_to (tcbs s me))) (\<lambda>receiver.
     kbind (kget (\<lambda>s. case receiver of None \<Rightarrow> False
                      | Some r \<Rightarrow> t_state (tcbs s r) = TASK_STATE_CALLING)) (\<lambda>calling.
     kseq (if \<not> calling then kseq (kfail DebugTrap :: (kstate, unit) kern) (kill_tcb me) else kret ())
          (send_message_directly receiver 0 tag False))))"

definition invoke_reply_recv :: "slot \<Rightarrow> message_tag_t \<Rightarrow> (kstate, message_tag_t) kern" where
  "invoke_reply_recv c tag = kseq (invoke_reply tag) (invoke_endpoint_recv c)"

section \<open>What the operations leave alone\<close>

context kernel_frame
begin

lemma transfer_message_inv [inv_rules]: "inv_on I no_deadlock (transfer_message t r b tag)"
proof -
  have "inv_on I no_deadlock (transfer_extra_cap t r sb rb tag)" for sb rb
    unfolding transfer_extra_cap_def by (intro inv_rules keep; simp)
  then show ?thesis unfolding transfer_message_def by (intro inv_rules keep_upd keep; simp)
qed

lemma send_message_directly_inv [inv_rules]: "inv_on I no_deadlock (send_message_directly r b tag now)"
  unfolding send_message_directly_def by (intro inv_rules; simp)

lemma endpoint_ops [inv_rules]:
  "inv_on I no_deadlock (endpoint_send e b tag is_call)" "inv_on I no_deadlock (endpoint_recv e)"
  "inv_on I no_deadlock (endpoint_nbrecv e)" "inv_on I no_deadlock (endpoint_nbsend e b tag)"
  "inv_on I no_deadlock (init_endpoint e)"
proof -
  have first: "inv_on I no_deadlock (first_tcb e)"
    unfolding first_tcb_def by (intro inv_rules; simp)
  have will: "inv_on I no_deadlock (send_will_block e)" "inv_on I no_deadlock (recv_will_block e)"
    unfolding send_will_block_def recv_will_block_def by (intro inv_rules first)+
  have send: "inv_on I no_deadlock (send_message_to_blocked_receiver e b tag now)"
    "inv_on I no_deadlock (queue_message_on_endpoint e b tag is_call)" for now
    unfolding send_message_to_blocked_receiver_def queue_message_on_endpoint_def
    by (intro inv_rules keep keep_upd; simp)+
  have recv: "inv_on I no_deadlock (receive_message_from_blocked_sender e)"
    "inv_on I no_deadlock (queue_receiver_on_endpoint e)"
    unfolding receive_message_from_blocked_sender_def queue_receiver_on_endpoint_def
    by (intro inv_rules keep keep_upd; simp)+
  show "inv_on I no_deadlock (endpoint_send e b tag is_call)" "inv_on I no_deadlock (endpoint_recv e)"
    "inv_on I no_deadlock (endpoint_nbrecv e)" "inv_on I no_deadlock (endpoint_nbsend e b tag)"
    unfolding endpoint_send_def endpoint_recv_def endpoint_nbrecv_def endpoint_nbsend_def
    by (intro inv_rules will send recv)+
  show "inv_on I no_deadlock (init_endpoint e)"
    unfolding init_endpoint_def by (intro inv_rules keep; simp)
qed

lemma pending_notification_inv [inv_rules]: "inv_on I no_deadlock handle_recv_with_pending_notification"
  unfolding handle_recv_with_pending_notification_def by (intro inv_rules keep_upd; simp)

lemma invoke_ops [inv_rules]:
  "inv_on I no_deadlock (invoke_endpoint_send c tag)" "inv_on I no_deadlock (invoke_endpoint_nbsend c tag)"
  "inv_on I no_deadlock (invoke_endpoint_recv c)" "inv_on I no_deadlock (invoke_endpoint_nbrecv c)"
  "inv_on I no_deadlock (invoke_endpoint_call c tag)" "inv_on I no_deadlock (invoke_reply tag)"
  "inv_on I no_deadlock (invoke_reply_recv c tag)"
  unfolding invoke_endpoint_send_def invoke_endpoint_nbsend_def invoke_endpoint_recv_def
    invoke_endpoint_nbrecv_def invoke_endpoint_call_def invoke_reply_recv_def invoke_reply_def
  by (intro inv_rules keep_upd; simp)+

end

section \<open>Delivery\<close>

text \<open>What a transfer leaves in the receiver's buffer.\<close>

definition deliver :: "message_tag_t \<Rightarrow> word_t \<Rightarrow> ipc_buffer \<Rightarrow> ipc_buffer \<Rightarrow> ipc_buffer" where
  "deliver tag badge from to = (copy_message (unat (message_length tag)) from to)(IPC_SENDER_BADGE := badge)"

lemma deliver_words:
  "deliver tag badge from to i = (if i = IPC_SENDER_BADGE then badge
     else if i < unat (message_length tag) then from i else to i)"
  by (simp add: deliver_def copy_message_def)

text \<open>The receiver's control block after a transfer to a blocked receiver.\<close>

definition received :: "bool \<Rightarrow> addr \<Rightarrow> message_tag_t \<Rightarrow> tcb \<Rightarrow> tcb" where
  "received expects sender tag u = u\<lparr>t_reply_to := if expects then Some sender else t_reply_to u,
     t_saved_state := (t_saved_state u)\<lparr>f_rax := tag\<rparr>\<rparr>"

lemma transfer_to_blocked:
  assumes "t_ipc_buffer (tcbs s r) = Some rb" "t_ipc_buffer (tcbs s x) = Some sb"
    and "message_extra_caps tag = 0" and "current_tcb s \<noteq> Some r"
  shows "transfer_message x r badge tag s = Inr (tag,
    upd_tcb r (received (t_expects_reply (tcbs s x)) x tag)
      (s\<lparr>ipc_buffers := (ipc_buffers s)(rb := deliver tag badge (ipc_buffers s sb) (ipc_buffers s rb))\<rparr>))"
  using assms
  by (auto simp: transfer_message_def kern_simps deliver_def upd_ipc_def upd_tcb_def received_def set_ipc_result_def
      ipc_frame_def write_frame_def read_frame_def set_frame_return_def message_info_to_word_def)

lemma transfer_to_current:
  assumes "t_ipc_buffer (tcbs s r) = Some rb" "t_ipc_buffer (tcbs s x) = Some sb"
    and "message_extra_caps tag = 0" and "current_tcb s = Some r" and "t_current_user_frame (tcbs s r) = Some f"
    and "r \<noteq> x"
  shows "transfer_message x r badge tag s = Inr (tag,
    (upd_tcb r (\<lambda>u. u\<lparr>t_reply_to := if t_expects_reply (tcbs s x) then Some x else t_reply_to u\<rparr>) s)
      \<lparr>ipc_buffers := (ipc_buffers s)(rb := deliver tag badge (ipc_buffers s sb) (ipc_buffers s rb)),
       frame_mem := (frame_mem s)(f := (frame_mem s f)\<lparr>f_rax := tag\<rparr>)\<rparr>)"
  using assms
  by (auto simp: transfer_message_def kern_simps deliver_def upd_ipc_def upd_tcb_def set_ipc_result_def
      ipc_frame_def write_frame_def read_frame_def set_frame_return_def message_info_to_word_def)

lemma send_will_block_eq:
  "waiting s (EndpointList e) [] \<Longrightarrow> send_will_block e s = Inr (True, s)"
  "waiting s (EndpointList e) (r # q) \<Longrightarrow> send_will_block e s =
     Inr (t_state (tcbs s r) = TASK_STATE_SENDING \<or> t_state (tcbs s r) = TASK_STATE_CALLING, s)"
  by (simp_all add: send_will_block_def first_tcb_def kern_simps waiting_empty waiting_first send_receive_container_def)

lemma recv_will_block_eq:
  "waiting s (EndpointList e) [] \<Longrightarrow> recv_will_block e s = Inr (True, s)"
  "waiting s (EndpointList e) (r # q) \<Longrightarrow> recv_will_block e s = Inr (t_state (tcbs s r) = TASK_STATE_RECEIVING, s)"
  by (simp_all add: recv_will_block_def first_tcb_def kern_simps waiting_empty waiting_first send_receive_container_def)

lemma endpoint_send_rendezvous:
  assumes q: "waiting s (EndpointList e) (r # q)" and st: "t_state (tcbs s r) = TASK_STATE_RECEIVING"
    and cur: "current_tcb s = Some me" "r \<noteq> me"
    and buf: "t_ipc_buffer (tcbs s r) = Some rb" "t_ipc_buffer (tcbs s me) = Some sb"
    and ec: "message_extra_caps tag = 0"
  shows "\<exists>h. endpoint_send e badge tag is_call s = Inr ((),
      (upd_tcb r (\<lambda>u. (received (t_expects_reply (tcbs s me)) me tag u)\<lparr>t_state := TASK_STATE_RUNNABLE\<rparr>)
        (s\<lparr>lists := h, ipc_buffers := (ipc_buffers s)(rb := deliver tag badge (ipc_buffers s sb) (ipc_buffers s rb))\<rparr>))
      \<lparr>return_to_tcb := Some r\<rparr>) \<and>
    is_queue h (EndpointList e) (map SendRecvNode q) \<and> (\<forall>rq. run_queue s rq \<longrightarrow> is_queue h RunQueue (map RunnableNode rq))"
proof -
  obtain h where h: "pop_from_list (EndpointList e) (lists s) = Inr (SendRecvNode r, h)"
    "is_queue h (EndpointList e) (map SendRecvNode q)"
    "\<forall>n. n \<noteq> EndpointList e \<and> (\<forall>u. n \<noteq> SendRecvNode u) \<longrightarrow> h n = lists s n"
    using pop_waiting [OF q] by blast
  have pre: "t_ipc_buffer (tcbs (s\<lparr>lists := h\<rparr>) r) = Some rb" "t_ipc_buffer (tcbs (s\<lparr>lists := h\<rparr>) me) = Some sb"
    "current_tcb (s\<lparr>lists := h\<rparr>) \<noteq> Some r" using buf cur by auto
  have "endpoint_send e badge tag is_call s = Inr ((),
      (upd_tcb r (\<lambda>u. (received (t_expects_reply (tcbs s me)) me tag u)\<lparr>t_state := TASK_STATE_RUNNABLE\<rparr>)
        (s\<lparr>lists := h, ipc_buffers := (ipc_buffers s)(rb := deliver tag badge (ipc_buffers s sb) (ipc_buffers s rb))\<rparr>))
      \<lparr>return_to_tcb := Some r\<rparr>)"
    using h(1) st cur buf transfer_to_blocked [OF pre(1,2) ec pre(3)]
    by (simp add: endpoint_send_def kern_simps send_will_block_eq(2) [OF q] send_message_to_blocked_receiver_def
        send_receive_container_def send_message_directly_def switch_tcb_def upd_tcb_def)
  then show ?thesis using h(2) run_queue_other [of s _ "EndpointList e" h] h(3) by blast
qed

lemma endpoint_recv_rendezvous:
  assumes q: "waiting s (EndpointList e) (x # q)"
    and st: "t_state (tcbs s x) = TASK_STATE_SENDING \<or> t_state (tcbs s x) = TASK_STATE_CALLING"
    and cur: "current_tcb s = Some me" "x \<noteq> me" "t_current_user_frame (tcbs s me) = Some f"
    and buf: "t_ipc_buffer (tcbs s me) = Some rb" "t_ipc_buffer (tcbs s x) = Some sb"
    and tag: "tag = f_rsi (t_saved_state (tcbs s x))" "message_extra_caps tag = 0"
    and rq: "run_queue s rq" "x \<notin> set rq" and l: "lock_free (runnable_tcbs_lock s)"
  shows "\<exists>s'. endpoint_recv e s = Inr (tag, s') \<and> waiting s' (EndpointList e) q \<and>
    ipc_buffers s' = (ipc_buffers s)(rb := deliver tag (t_endpoint_badge (tcbs s x)) (ipc_buffers s sb) (ipc_buffers s rb)) \<and>
    f_rax (frame_mem s' f) = tag \<and> ctes s' = ctes s \<and> (\<forall>t. t \<noteq> me \<and> t \<noteq> x \<longrightarrow> tcbs s' t = tcbs s t) \<and>
    (if t_expects_reply (tcbs s x)
     then t_reply_to (tcbs s' me) = Some x \<and> t_state (tcbs s' x) = t_state (tcbs s x) \<and> run_queue s' rq
     else t_reply_to (tcbs s' me) = t_reply_to (tcbs s me) \<and> t_state (tcbs s' x) = TASK_STATE_RUNNABLE \<and>
       run_queue s' (x # rq))"
proof -
  obtain h where h: "pop_from_list (EndpointList e) (lists s) = Inr (SendRecvNode x, h)"
    "is_queue h (EndpointList e) (map SendRecvNode q)"
    "\<forall>n. n \<noteq> EndpointList e \<and> (\<forall>u. n \<noteq> SendRecvNode u) \<longrightarrow> h n = lists s n"
    using pop_waiting [OF q] by blast
  let ?s1 = "s\<lparr>lists := h\<rparr>"
  have rq1: "is_queue h RunQueue (map RunnableNode rq)"
    using run_queue_other [of s rq "EndpointList e" h] rq(1) h(3) by blast
  have pre: "t_ipc_buffer (tcbs ?s1 me) = Some rb" "t_ipc_buffer (tcbs ?s1 x) = Some sb"
    "current_tcb ?s1 = Some me" "t_current_user_frame (tcbs ?s1 me) = Some f" "me \<noteq> x" using buf cur by auto
  let ?s2 = "(upd_tcb me (\<lambda>u. u\<lparr>t_reply_to := if t_expects_reply (tcbs s x) then Some x else t_reply_to u\<rparr>) ?s1)
      \<lparr>ipc_buffers := (ipc_buffers s)(rb := deliver tag (t_endpoint_badge (tcbs s x)) (ipc_buffers s sb) (ipc_buffers s rb)),
       frame_mem := (frame_mem s)(f := (frame_mem s f)\<lparr>f_rax := tag\<rparr>)\<rparr>"
  have tr: "transfer_message x me (t_endpoint_badge (tcbs s x)) tag ?s1 = Inr (tag, ?s2)"
    using transfer_to_current [OF pre(1,2) tag(2) pre(3,4,5)] by simp
  have nb: "t_state (tcbs s x) \<noteq> TASK_STATE_RECEIVING" using st by auto
  have pend: "get_pending_ipc_info x ?s1 = Inr (tag, ?s1)"
    using cur tag(1) by (simp add: get_pending_ipc_info_def ipc_frame_def read_frame_def kern_simps
        get_frame_syscall_arg_def get_frame_arg_def message_info_from_word_def)
  let ?fin = "if t_expects_reply (tcbs s x) then kmod (upd_tcb me (\<lambda>u. u\<lparr>t_reply_to := Some x\<rparr>)) else schedule_tcb x"
  have recv: "endpoint_recv e s = kseq ?fin (kret tag) ?s2"
    using h(1) nb pre(3,5) tr pend
    by (simp add: endpoint_recv_def kern_simps recv_will_block_eq(2) [OF q] receive_message_from_blocked_sender_def
        send_receive_container_def)
  have wq: "waiting ?s2 (EndpointList e) q" "run_queue ?s2 rq" using h(2) rq1 by (simp_all add: waiting_def run_queue_def)
  show ?thesis
  proof (cases "t_expects_reply (tcbs s x)")
    case True
    then show ?thesis using recv wq pre(5) by (auto simp: kern_simps waiting_def run_queue_def)
  next
    case False
    have "t_state (tcbs ?s2 x) \<noteq> TASK_STATE_DEAD" "lock_free (runnable_tcbs_lock ?s2)"
      using st l pre(5) by auto
    from schedule_tcb_queue [OF wq(2) rq(2) this] obtain h' where
      h': "schedule_tcb x ?s2 = Inr ((), (upd_tcb x (\<lambda>u. u\<lparr>t_state := TASK_STATE_RUNNABLE\<rparr>) ?s2)
          \<lparr>lists := h', runnable_tcbs_lock := cycled (runnable_tcbs_lock ?s2)\<rparr>)"
        "is_queue h' RunQueue (map RunnableNode (x # rq))"
        "\<forall>n. n \<notin> insert RunQueue (RunnableNode ` set (x # rq)) \<longrightarrow> h' n = lists ?s2 n" by blast
    have "is_queue h' (EndpointList e) (map SendRecvNode q)"
      by (rule waiting_other [OF h(2)]) (use h'(3) in auto)
    then show ?thesis using False recv h'(1,2) pre(5) by (auto simp: kern_simps waiting_def run_queue_def)
  qed
qed

end
