(* ===== verification/Untyped.thy ===== *)
theory Untyped
  imports Endpoint
begin

text \<open>
  Untyped memory (\<open>kern/obj/untyped.c\<close>, \<open>include/kern/size.h\<close>): the sizes of objects, and the creation
  of objects in the memory of an untyped capability, whose badge holds the offset up to which the
  memory is used.
\<close>

section \<open>Object sizes\<close>

abbreviation (input) ENDPOINT_SIZE_BITS :: word_t where "ENDPOINT_SIZE_BITS \<equiv> 4"
abbreviation (input) NOTIFICATION_SIZE_BITS :: word_t where "NOTIFICATION_SIZE_BITS \<equiv> 5"
abbreviation (input) CNODE_SLOT_BITS :: word_t where "CNODE_SLOT_BITS \<equiv> 5"
abbreviation (input) TCB_SIZE_BITS :: word_t where "TCB_SIZE_BITS \<equiv> 9"
abbreviation (input) FRAME_SIZE_BITS :: word_t where "FRAME_SIZE_BITS \<equiv> 12"
abbreviation (input) HUGE_FRAME_SIZE_BITS :: word_t where "HUGE_FRAME_SIZE_BITS \<equiv> 21"
abbreviation (input) PML4_SIZE_BITS :: word_t where "PML4_SIZE_BITS \<equiv> 12"
abbreviation (input) PDPT_SIZE_BITS :: word_t where "PDPT_SIZE_BITS \<equiv> 12"
abbreviation (input) PD_SIZE_BITS :: word_t where "PD_SIZE_BITS \<equiv> 12"
abbreviation (input) PT_SIZE_BITS :: word_t where "PT_SIZE_BITS \<equiv> 12"

text \<open>\<open>BIT (n)\<close> with a computed \<open>n\<close>: a shift by 64 or more is undefined.\<close>

definition checked_BIT :: "word_t \<Rightarrow> fault + word_t" where
  "checked_BIT n = (if unat n < 64 then Inr (BIT n) else Inl Undefined)"

definition object_size :: "word_t \<Rightarrow> word_t \<Rightarrow> fault + word_t" where
  "object_size object_type size_bits =
     (if object_type = CAP_NULL then Inr 0
      else if object_type = CAP_TCB then Inr (BIT TCB_SIZE_BITS)
      else if object_type = CAP_CNODE then checked_BIT (size_bits + CNODE_SLOT_BITS)
      else if object_type = CAP_ENDPOINT then Inr (BIT ENDPOINT_SIZE_BITS)
      else if object_type = CAP_NOTIFICATION then Inr (BIT NOTIFICATION_SIZE_BITS)
      else if object_type = CAP_UNTYPED then checked_BIT size_bits
      else if object_type = CAP_X86_64_PML4 then Inr (BIT PML4_SIZE_BITS)
      else if object_type = CAP_X86_64_PAGE then Inr (BIT FRAME_SIZE_BITS)
      else if object_type = CAP_X86_64_HUGE_PAGE then Inr (BIT HUGE_FRAME_SIZE_BITS)
      else if object_type = CAP_X86_64_PDPT then Inr (BIT PDPT_SIZE_BITS)
      else if object_type = CAP_X86_64_PD then Inr (BIT PD_SIZE_BITS)
      else if object_type = CAP_X86_64_PT then Inr (BIT PT_SIZE_BITS)
      else Inl AssertFailed)"

section \<open>Clearing memory\<close>

text \<open>
  \<open>memset (base, 0, len)\<close> on the typed heaps: every object whose address lies in the range becomes
  all zeroes. Slots and list nodes inside a thread control block go with the block.
\<close>

definition in_range :: "addr \<Rightarrow> word_t \<Rightarrow> addr \<Rightarrow> bool" where
  "in_range base len p \<longleftrightarrow> p - base < len"

fun slot_object :: "slot \<Rightarrow> addr" where
  "slot_object (Slot a) = a"
| "slot_object (TcbCspaceRoot t) = t"
| "slot_object (TcbVspaceRoot t) = t"
| "slot_object (TcbIpcBufferFrame t) = t"
| "slot_object (TcbReply t) = t"

fun node_object :: "node \<Rightarrow> addr option" where
  "node_object RunQueue = None"
| "node_object (RunnableNode t) = Some t"
| "node_object (SendRecvNode t) = Some t"
| "node_object (EndpointList e) = Some e"
| "node_object (NotificationList n) = Some n"

definition node_in_range :: "addr \<Rightarrow> word_t \<Rightarrow> node \<Rightarrow> bool" where
  "node_in_range base len n = (case node_object n of None \<Rightarrow> False | Some p \<Rightarrow> in_range base len p)"

definition zero_irq_handler_data :: irq_handler_data where
  "zero_irq_handler_data = \<lparr>h_irq = 0, h_in_service = False, h_n = None, h_badge = 0\<rparr>"

definition clear_memory :: "addr \<Rightarrow> word_t \<Rightarrow> kstate \<Rightarrow> kstate" where
  "clear_memory base len s = s\<lparr>
     ctes := (\<lambda>c. if in_range base len (slot_object c) then zero_cte else ctes s c),
     lists := (\<lambda>n. if node_in_range base len n then zero_list_head else lists s n),
     tcbs := (\<lambda>p. if in_range base len p then zero_tcb else tcbs s p),
     notifications := (\<lambda>p. if in_range base len p then zero_notification else notifications s p),
     ipc_buffers := (\<lambda>p. if in_range base len p then (\<lambda>_. 0) else ipc_buffers s p),
     frame_mem := (\<lambda>p. if in_range base len p then zero_frame else frame_mem s p),
     ptes := (\<lambda>p. if in_range base len p then 0 else ptes s p),
     irq_handlers := (\<lambda>p. if in_range base len p then zero_irq_handler_data else irq_handlers s p)\<rparr>"

section \<open>Creating objects\<close>

text \<open>Pointer arithmetic on an element of a slot array.\<close>

fun slot_plus :: "slot \<Rightarrow> word_t \<Rightarrow> slot" where
  "slot_plus (Slot a) i = Slot (a + 32 * i)"
| "slot_plus c i = c"

definition init_object :: "word_t \<Rightarrow> addr \<Rightarrow> (kstate, unit) kern" where
  "init_object type obj_ptr =
     (if type = CAP_ENDPOINT then init_endpoint obj_ptr
      else if type = CAP_NOTIFICATION then init_notification obj_ptr
      else if type = CAP_TCB then init_tcb obj_ptr
      else kret ())"

definition created_cap :: "word_t \<Rightarrow> word_t \<Rightarrow> cap_t \<Rightarrow> cap_t" where
  "created_cap type size_bits c =
     cap_set_rights CAP_RIGHTS_ALL (cap_set_is_original True (cap_set_badge 0
       (cap_set_size_bits size_bits (cap_set_type type c))))"

lemma created_cap_type: "cap_type (created_cap type size_bits c) = take_bit 5 type"
  by (simp add: created_cap_def)

definition create_object :: "slot \<Rightarrow> word_t \<Rightarrow> word_t \<Rightarrow> word_t \<Rightarrow> slot \<Rightarrow> addr \<Rightarrow> word_t \<Rightarrow> (kstate, unit) kern" where
  "create_object untyped type size_bits obj_size dest_slot_0 usable_memory i =
     (let dest_slot = slot_plus dest_slot_0 i;
          obj_paddr = usable_memory + i * obj_size in
     kbind (direct_map_of obj_paddr) (\<lambda>obj_ptr.
     kseq (kmod (clear_memory obj_ptr obj_size))
    (kseq (init_object type obj_ptr)
    (kseq (kmod (\<lambda>s. s\<lparr>ctes := set_cap dest_slot (created_cap type size_bits (slot_cap (ctes s) dest_slot)) (ctes s)\<rparr>))
    (kbind (kget (\<lambda>s. slot_cap (ctes s) dest_slot)) (\<lambda>c.
     kbind (klift (cap_set_ptr obj_ptr c)) (\<lambda>c'.
     kseq (kmod (\<lambda>s. s\<lparr>ctes := set_cap dest_slot c' (ctes s)\<rparr>))
          (kmod (\<lambda>s. s\<lparr>ctes := insert_cte_after dest_slot untyped (ctes s)\<rparr>)))))))))"

definition create_objects :: "slot \<Rightarrow> word_t \<Rightarrow> word_t \<Rightarrow> slot \<Rightarrow> word_t \<Rightarrow> addr \<Rightarrow> (kstate, unit) kern" where
  "create_objects untyped type size_bits dest_slot_0 num_objects usable_memory =
     kbind (klift (object_size type size_bits)) (\<lambda>obj_size.
     kfor 0 (unat num_objects) (\<lambda>i.
       create_object untyped type size_bits obj_size dest_slot_0 usable_memory (of_nat i)))"

definition untyped_retype ::
    "slot \<Rightarrow> word_t \<Rightarrow> word_t \<Rightarrow> slot \<Rightarrow> word_t \<Rightarrow> u8 \<Rightarrow> word_t \<Rightarrow> word_t \<Rightarrow> (kstate, message_tag_t) kern" where
  "untyped_retype slot type size_bits root node_index node_depth node_offset num_objects =
     kbind (kget (\<lambda>s. slot_cap (ctes s) slot)) (\<lambda>untyped.
     kbind (klift (object_size type size_bits)) (\<lambda>obj_size.
     let untyped_size = BIT (cap_size_bits untyped);
         total_size = obj_size * num_objects;
         untyped_offset = ALIGN_UP (cap_badge untyped) obj_size;
         available_memory = untyped_size - untyped_offset
     in if available_memory < total_size then msg_not_enough_memory available_memory
     else TRY_out (lookup_cap_slot root node_index (ucast node_depth)) (\<lambda>dest_cnode.
       kbind (kget (\<lambda>s. slot_cap (ctes s) dest_cnode)) (\<lambda>dest.
       kseq (kassert (cap_type dest = CAP_CNODE))
      (if cap_size dest < node_offset + num_objects then msg_range_error 0 (cap_size dest)
       else kbind (cte_for dest_cnode node_offset (ucast node_depth)) (\<lambda>dest_slot_0.
         kbind (slot_ptr slot) (\<lambda>untyped_paddr.
         kseq (create_objects slot type size_bits dest_slot_0 num_objects (untyped_paddr + untyped_offset))
        (kseq (kmod (\<lambda>s. s\<lparr>ctes := set_cap slot
                 (cap_set_badge (untyped_offset + total_size) (slot_cap (ctes s) slot)) (ctes s)\<rparr>))
              (kret (msg_ok 0))))))))))"

section \<open>What the method leaves alone\<close>

context kernel_frame
begin

lemma keep_clear_memory: "I s \<Longrightarrow> I (clear_memory base len s)"
  unfolding clear_memory_def
  by (frule slots_typed, drule keep_ctes [where a = "\<lambda>c. if in_range base len (slot_object c) then zero_cte else ctes s c"])
    (simp_all add: typed_slots_def typed_null zero_cte_def keep)

lemma create_objects_inv [inv_rules]: "inv_on I no_deadlock (create_objects c ty b dst n m)"
proof -
  have ptr: "\<And>p c e. cap_set_ptr p c = Inl e \<Longrightarrow> e \<in> no_deadlock"
    by (auto simp: cap_set_ptr_def set_bits_pointer_def split: if_splits)
  have obj: "\<And>e. object_size ty b = Inl e \<Longrightarrow> e \<in> no_deadlock"
    by (auto simp: object_size_def checked_BIT_def split: if_splits)
  have init: "inv_on I no_deadlock (init_object ty p)" for p
    unfolding init_object_def init_tcb_def by (intro inv_rules)
  show ?thesis
  proof (cases "object_size ty b")
    case (Inl e)
    then show ?thesis using obj by (auto simp: create_objects_def inv_on_def kern_simps)
  next
    case (Inr size)
    then have "creatable (take_bit 5 ty)" by (auto simp: object_size_def split: if_splits)
    then have ty: "typed (cap_type (created_cap ty b d))" for d
      by (simp add: created_cap_type creatable_typed)
    have create: "inv_on I no_deadlock (create_object c ty b size dst m i)" for size i
      unfolding create_object_def Let_def
      by (intro inv_store_ptr inv_rules init keep_clear_memory keep ty; (assumption | erule ptr))
    show ?thesis unfolding create_objects_def by (intro inv_rules create; erule obj)
  qed
qed

lemma untyped_retype_inv [inv_rules]: "inv_on I no_deadlock (untyped_retype c ty b root x d off n)"
proof -
  have obj: "\<And>e. object_size ty b = Inl e \<Longrightarrow> e \<in> no_deadlock"
    by (auto simp: object_size_def checked_BIT_def split: if_splits)
  show ?thesis unfolding untyped_retype_def Let_def
    by (intro inv_rules keep; (assumption | erule obj | simp add: typed_slot))
qed

end

end
