(* ===== verification/Irq.thy ===== *)
theory Irq
  imports Notification
begin

text \<open>
  Interrupt handler capabilities (\<open>kern/obj/irq.c\<close>) and the redirection table of the I/O APIC
  (\<open>kern/arch/x86_64/ioapic.c\<close>). The table is read and written through a register file; an entry
  is the 64-bit value of two consecutive registers, with the mask at bit 16.
\<close>

section \<open>The I/O APIC\<close>

abbreviation (input) IOAPIC_BASE :: addr where "IOAPIC_BASE \<equiv> 0xFEC00000"

definition write_register :: "u32 \<Rightarrow> u32 \<Rightarrow> (kstate, unit) kern" where
  "write_register reg data =
     kseq (direct_map_of IOAPIC_BASE) (kseq (direct_map_of (IOAPIC_BASE + 0x10))
          (kmod (\<lambda>s. s\<lparr>ioapic_regs := (ioapic_regs s)(reg := data)\<rparr>)))"

definition read_register :: "u32 \<Rightarrow> (kstate, u32) kern" where
  "read_register reg =
     kseq (kassert (reg < 0x40))
    (kseq (direct_map_of IOAPIC_BASE) (kseq (direct_map_of (IOAPIC_BASE + 0x10))
          (kget (\<lambda>s. ioapic_regs s reg))))"

type_synonym ioapic_relocation_entry = word_t

definition entry_low :: "ioapic_relocation_entry \<Rightarrow> u32" where
  "entry_low e = ucast e"

definition entry_high :: "ioapic_relocation_entry \<Rightarrow> u32" where
  "entry_high e = ucast (drop_bit 32 e)"

definition entry_of :: "u32 \<Rightarrow> u32 \<Rightarrow> ioapic_relocation_entry" where
  "entry_of low high = ucast low OR push_bit 32 (ucast high)"

definition write_relocation_entry :: "u32 \<Rightarrow> ioapic_relocation_entry \<Rightarrow> (kstate, unit) kern" where
  "write_relocation_entry irq entry =
     (let reg = 0x10 + irq * 2
      in kseq (write_register reg (entry_low entry)) (write_register (reg + 1) (entry_high entry)))"

definition read_relocation_entry :: "u32 \<Rightarrow> (kstate, ioapic_relocation_entry) kern" where
  "read_relocation_entry irq =
     (let reg = 0x10 + irq * 2
      in kbind (read_register reg) (\<lambda>low. kbind (read_register (reg + 1)) (\<lambda>high. kret (entry_of low high))))"

definition entry_mask :: "ioapic_relocation_entry \<Rightarrow> bool" where
  "entry_mask e \<longleftrightarrow> get_field 16 1 e \<noteq> 0"

definition entry_set_mask :: "bool \<Rightarrow> ioapic_relocation_entry \<Rightarrow> ioapic_relocation_entry" where
  "entry_set_mask b e = set_field 16 1 (of_bool b) e"

definition mask_irq :: "u32 \<Rightarrow> (kstate, unit) kern" where
  "mask_irq irq = kbind (read_relocation_entry irq) (\<lambda>e. write_relocation_entry irq (entry_set_mask True e))"

definition unmask_irq :: "u32 \<Rightarrow> (kstate, unit) kern" where
  "unmask_irq irq = kbind (read_relocation_entry irq) (\<lambda>e. write_relocation_entry irq (entry_set_mask False e))"

text \<open>
  The entries that \<open>init_ioapic\<close> writes: vector \<open>i + 0x20\<close> for the lines 1 to 23, level triggered and
  masked for the four PCI link lines, and then line 2 as the masked timer. The mapping of the
  registers' page that precedes the loop is \<open>add_vm_mapping\<close>, in theory \<open>Paging\<close>.
\<close>

definition ioapic_entry :: "nat \<Rightarrow> ioapic_relocation_entry" where
  "ioapic_entry i =
     (let is_pci_link = (i = 5 \<or> i = 9 \<or> i = 10 \<or> i = 11)
      in set_field 16 1 (of_bool is_pci_link) (set_field 15 1 (of_bool is_pci_link)
           (set_field 56 8 0 (set_field 0 8 (of_nat i + 0x20) 0))))"

definition timer_entry :: ioapic_relocation_entry where
  "timer_entry = set_field 16 1 1 (set_field 0 8 0x20 0)"

definition init_ioapic_entries :: "(kstate, unit) kern" where
  "init_ioapic_entries =
     kseq (kfor 1 23 (\<lambda>i. write_relocation_entry (of_nat i) (ioapic_entry i)))
          (write_relocation_entry 2 timer_entry)"

section \<open>Interrupt handlers\<close>

text \<open>The address of \<open>irq_handlers[irq]\<close>; an element has 24 bytes.\<close>

definition irq_handler_at :: "word_t \<Rightarrow> kstate \<Rightarrow> addr" where
  "irq_handler_at irq s = irq_handlers_base s + 24 * irq"

definition upd_irq :: "addr \<Rightarrow> (irq_handler_data \<Rightarrow> irq_handler_data) \<Rightarrow> kstate \<Rightarrow> kstate" where
  "upd_irq p f s = s\<lparr>irq_handlers := (irq_handlers s)(p := f (irq_handlers s p))\<rparr>"

definition irq_control_get :: "slot \<Rightarrow> word_t \<Rightarrow> slot \<Rightarrow> word_t \<Rightarrow> u8 \<Rightarrow> (kstate, message_tag_t) kern" where
  "irq_control_get obj irq root index depth =
     TRY_out (lookup_cap_slot root index (ucast depth)) (\<lambda>result_cte.
     kbind (kget (\<lambda>s. cap_type (slot_cap (ctes s) result_cte))) (\<lambda>ty.
     if ty \<noteq> CAP_NULL then kret msg_delete_first
     else if irq \<ge> 16 then msg_invalid_argument 0
     else kbind (kget irq_handlers_issued) (\<lambda>issued.
       if push_bit (unat irq) 1 AND issued \<noteq> 0 then msg_invalid_argument 0
       else
         kseq (kmod (\<lambda>s. s\<lparr>irq_handlers_issued := irq_handlers_issued s OR push_bit (unat irq) 1\<rparr>))
        (kseq (kmod (\<lambda>s. s\<lparr>ctes := set_cap result_cte (new_irq_handler_cap irq) (ctes s)\<rparr>))
        (kbind (kget (irq_handler_at irq)) (\<lambda>p.
         kbind (kget (\<lambda>s. slot_cap (ctes s) result_cte)) (\<lambda>c.
         kbind (klift (cap_set_ptr p c)) (\<lambda>c'.
         kseq (kmod (\<lambda>s. s\<lparr>ctes := set_cap result_cte c' (ctes s)\<rparr>))
        (kseq (kmod (upd_irq p (\<lambda>d. d\<lparr>h_irq := irq\<rparr>)))
              (kret (msg_ok 0))))))))))) "

definition irq_handler_clear :: "slot \<Rightarrow> (kstate, message_tag_t) kern" where
  "irq_handler_clear obj =
     kbind (slot_ptr obj) (\<lambda>p. kseq (kmod (upd_irq p (\<lambda>d. d\<lparr>h_n := None\<rparr>))) (kret (msg_ok 0)))"

definition irq_handler_ack :: "slot \<Rightarrow> (kstate, message_tag_t) kern" where
  "irq_handler_ack obj =
     kbind (slot_ptr obj) (\<lambda>p.
     kseq (kbind (kget (\<lambda>s. h_irq (irq_handlers s p))) (\<lambda>irq. unmask_irq (ucast irq)))
    (kseq (kmod (upd_irq p (\<lambda>d. d\<lparr>h_in_service := False\<rparr>)))
          (kret (msg_ok 0))))"

definition irq_handler_set_notification :: "slot \<Rightarrow> slot \<Rightarrow> (kstate, message_tag_t) kern" where
  "irq_handler_set_notification obj notification_slot =
     kbind (slot_ptr obj) (\<lambda>p.
     kbind (kget (\<lambda>s. slot_cap (ctes s) notification_slot)) (\<lambda>c.
     kseq (kmod (upd_irq p (\<lambda>d. d\<lparr>h_n := if cap_ptr c = 0 then None else Some (cap_ptr c)\<rparr>)))
    (kseq (kmod (upd_irq p (\<lambda>d. d\<lparr>h_badge := cap_badge c\<rparr>)))
    (kseq (kbind (kget (\<lambda>s. h_irq (irq_handlers s p))) (\<lambda>irq. unmask_irq (ucast irq)))
          (kret (msg_ok 0))))))"

text \<open>Reading past the 16 elements of \<open>irq_handlers\<close> is undefined.\<close>

definition handle_irq :: "word_t \<Rightarrow> (kstate, unit) kern" where
  "handle_irq irq =
     kseq (if irq < 16 then kret () else kfail Undefined)
    (kbind (kget (irq_handler_at irq)) (\<lambda>p.
     kbind (kget (\<lambda>s. irq_handlers s p)) (\<lambda>d.
     case h_n d of None \<Rightarrow> kret ()
     | Some n \<Rightarrow>
         if h_in_service d then kret ()
         else kseq (mask_irq (ucast (h_irq d)))
             (kseq (kmod (upd_irq p (\<lambda>d. d\<lparr>h_in_service := True\<rparr>)))
                   (notification_signal n (h_badge d))))))"

section \<open>What the operations leave alone\<close>

context kernel_frame
begin

lemma ioapic_ops [inv_rules]: "inv_on I no_deadlock (mask_irq i)" "inv_on I no_deadlock (unmask_irq i)"
  unfolding mask_irq_def unmask_irq_def read_relocation_entry_def write_relocation_entry_def
    read_register_def write_register_def Let_def
  by (intro inv_rules keep; simp)+

lemma keep_upd_irq: "I s \<Longrightarrow> I (upd_irq p f s)"
  by (simp add: upd_irq_def keep)

lemma irq_ops [inv_rules]:
  "inv_on I no_deadlock (irq_control_get c i root x d)" "inv_on I no_deadlock (irq_handler_clear c)"
  "inv_on I no_deadlock (irq_handler_ack c)" "inv_on I no_deadlock (irq_handler_set_notification c n)"
  "inv_on I no_deadlock (handle_irq i)"
proof -
  have ptr: "\<And>p c e. cap_set_ptr p c = Inl e \<Longrightarrow> e \<in> no_deadlock"
    by (auto simp: cap_set_ptr_def set_bits_pointer_def split: if_splits)
  show "inv_on I no_deadlock (irq_control_get c i root x d)"
    unfolding irq_control_get_def
    by (intro inv_store_ptr inv_rules keep keep_upd_irq; (assumption | erule ptr | simp add: creatable_typed new_irq_handler_cap_def))
  show "inv_on I no_deadlock (irq_handler_clear c)" "inv_on I no_deadlock (irq_handler_ack c)"
    "inv_on I no_deadlock (irq_handler_set_notification c n)" "inv_on I no_deadlock (handle_irq i)"
    unfolding irq_handler_clear_def irq_handler_ack_def irq_handler_set_notification_def handle_irq_def
    by (intro inv_rules keep_upd_irq; simp)+
qed

end

end
