(* ===== verification/Io_Port.thy ===== *)
theory Io_Port
  imports Cnode
begin

text \<open>
  I/O port capabilities (\<open>kern/arch/x86_64/obj/io_port.c\<close>) over the port instructions of
  \<open>kern/arch/x86_64/intrin.c\<close>. What a port returns is part of the state, and the accesses are logged.
\<close>

section \<open>Port instructions\<close>

definition write_port_b :: "u16 \<Rightarrow> u8 \<Rightarrow> (kstate, unit) kern" where
  "write_port_b port v = kmod (\<lambda>s. s\<lparr>io_log := io_log s @ [PortOut IO8 port (ucast v)]\<rparr>)"

definition write_port_w :: "u16 \<Rightarrow> u16 \<Rightarrow> (kstate, unit) kern" where
  "write_port_w port v = kmod (\<lambda>s. s\<lparr>io_log := io_log s @ [PortOut IO16 port (ucast v)]\<rparr>)"

definition write_port_l :: "u16 \<Rightarrow> u32 \<Rightarrow> (kstate, unit) kern" where
  "write_port_l port v = kmod (\<lambda>s. s\<lparr>io_log := io_log s @ [PortOut IO32 port v]\<rparr>)"

definition read_port_b :: "u16 \<Rightarrow> (kstate, u8) kern" where
  "read_port_b port = kseq (kmod (\<lambda>s. s\<lparr>io_log := io_log s @ [PortIn IO8 port]\<rparr>))
     (kget (\<lambda>s. ucast (port_in s IO8 port)))"

definition read_port_w :: "u16 \<Rightarrow> (kstate, u16) kern" where
  "read_port_w port = kseq (kmod (\<lambda>s. s\<lparr>io_log := io_log s @ [PortIn IO16 port]\<rparr>))
     (kget (\<lambda>s. ucast (port_in s IO16 port)))"

definition read_port_l :: "u16 \<Rightarrow> (kstate, u32) kern" where
  "read_port_l port = kseq (kmod (\<lambda>s. s\<lparr>io_log := io_log s @ [PortIn IO32 port]\<rparr>))
     (kget (\<lambda>s. port_in s IO32 port))"

section \<open>Methods\<close>

definition x86_64_io_port_control_issue ::
    "slot \<Rightarrow> u16 \<Rightarrow> u16 \<Rightarrow> slot \<Rightarrow> word_t \<Rightarrow> word_t \<Rightarrow> (kstate, message_tag_t) kern" where
  "x86_64_io_port_control_issue obj first_port last_port root index depth =
     TRY_out (lookup_cap_slot root index depth) (\<lambda>dest_slot.
     kseq (kmod (\<lambda>s. s\<lparr>ctes := set_cap dest_slot (new_x86_64_io_port_cap first_port last_port) (ctes s)\<rparr>))
          (kret (msg_ok 0)))"

text \<open>
  The comparison is done in 64 bits: \<open>last_port + 1\<close> is an \<open>int\<close> that does not wrap, \<open>port + size\<close> is
  a \<open>word_t\<close> that does.
\<close>

definition x86_64_io_port_range_check :: "slot \<Rightarrow> word_t \<Rightarrow> word_t \<Rightarrow> (kstate, message_tag_t) kern" where
  "x86_64_io_port_range_check slot port sz =
     kbind (kget (\<lambda>s. slot_cap (ctes s) slot)) (\<lambda>c.
     let first_port = cap_x86_64_io_port_first_port c;
         last_port = cap_x86_64_io_port_last_port c
     in if port < ucast first_port \<or> port + sz > ucast last_port + 1
        then msg_range_error (ucast first_port) (ucast last_port)
        else kret (msg_ok 0))"

definition x86_64_io_port_in8 :: "slot \<Rightarrow> word_t \<Rightarrow> (kstate, message_tag_t) kern" where
  "x86_64_io_port_in8 slot port =
     TRY (x86_64_io_port_range_check slot port 1)
    (kbind (read_port_b (ucast port)) (\<lambda>v. kseq (set_mr 0 (ucast v)) (kret (msg_ok 1))))"

definition x86_64_io_port_in16 :: "slot \<Rightarrow> word_t \<Rightarrow> (kstate, message_tag_t) kern" where
  "x86_64_io_port_in16 slot port =
     TRY (x86_64_io_port_range_check slot port 1)
    (kbind (read_port_w (ucast port)) (\<lambda>v. kseq (set_mr 0 (ucast v)) (kret (msg_ok 1))))"

definition x86_64_io_port_in32 :: "slot \<Rightarrow> word_t \<Rightarrow> (kstate, message_tag_t) kern" where
  "x86_64_io_port_in32 slot port =
     TRY (x86_64_io_port_range_check slot port 1)
    (kbind (read_port_l (ucast port)) (\<lambda>v. kseq (set_mr 0 (ucast v)) (kret (msg_ok 1))))"

definition x86_64_io_port_out8 :: "slot \<Rightarrow> word_t \<Rightarrow> word_t \<Rightarrow> (kstate, message_tag_t) kern" where
  "x86_64_io_port_out8 slot port v =
     TRY (x86_64_io_port_range_check slot port 1)
    (kseq (write_port_b (ucast port) (ucast v)) (kret (msg_ok 0)))"

definition x86_64_io_port_out16 :: "slot \<Rightarrow> word_t \<Rightarrow> word_t \<Rightarrow> (kstate, message_tag_t) kern" where
  "x86_64_io_port_out16 slot port v =
     TRY (x86_64_io_port_range_check slot port 1)
    (kseq (write_port_w (ucast port) (ucast v)) (kret (msg_ok 0)))"

definition x86_64_io_port_out32 :: "slot \<Rightarrow> word_t \<Rightarrow> word_t \<Rightarrow> (kstate, message_tag_t) kern" where
  "x86_64_io_port_out32 slot port v =
     TRY (x86_64_io_port_range_check slot port 1)
    (kseq (write_port_l (ucast port) (ucast v)) (kret (msg_ok 0)))"

section \<open>What the operations leave alone\<close>

context kernel_frame
begin

lemma port_instructions [inv_rules]:
  "inv_on I no_deadlock (write_port_b p v)" "inv_on I no_deadlock (write_port_w p w)"
  "inv_on I no_deadlock (write_port_l p x)" "inv_on I no_deadlock (read_port_b p)"
  "inv_on I no_deadlock (read_port_w p)" "inv_on I no_deadlock (read_port_l p)"
  unfolding write_port_b_def write_port_w_def write_port_l_def read_port_b_def read_port_w_def read_port_l_def
  by (intro inv_rules keep; assumption)+

lemma io_port_ops [inv_rules]:
  "inv_on I no_deadlock (x86_64_io_port_in8 c p)" "inv_on I no_deadlock (x86_64_io_port_in16 c p)"
  "inv_on I no_deadlock (x86_64_io_port_in32 c p)" "inv_on I no_deadlock (x86_64_io_port_out8 c p v)"
  "inv_on I no_deadlock (x86_64_io_port_out16 c p v)" "inv_on I no_deadlock (x86_64_io_port_out32 c p v)"
  "inv_on I no_deadlock (x86_64_io_port_control_issue c a b root i d)"
proof -
  have check: "inv_on I no_deadlock (x86_64_io_port_range_check c p n)" for n
    unfolding x86_64_io_port_range_check_def Let_def by (intro inv_rules)
  show "inv_on I no_deadlock (x86_64_io_port_in8 c p)" "inv_on I no_deadlock (x86_64_io_port_in16 c p)"
    "inv_on I no_deadlock (x86_64_io_port_in32 c p)" "inv_on I no_deadlock (x86_64_io_port_out8 c p v)"
    "inv_on I no_deadlock (x86_64_io_port_out16 c p v)" "inv_on I no_deadlock (x86_64_io_port_out32 c p v)"
    unfolding x86_64_io_port_in8_def x86_64_io_port_in16_def x86_64_io_port_in32_def
      x86_64_io_port_out8_def x86_64_io_port_out16_def x86_64_io_port_out32_def
    by (intro inv_rules check)+
  show "inv_on I no_deadlock (x86_64_io_port_control_issue c a b root i d)"
    unfolding x86_64_io_port_control_issue_def
    by (intro inv_rules keep; simp add: creatable_typed new_x86_64_io_port_cap_def)
qed

end

end
