(* ===== verification/Paging.thy ===== *)
theory Paging
  imports Tcb
begin

text \<open>
  Page tables: the walk and the kernel's own mappings (\<open>kern/arch/x86_64/mmu.c\<close>), and the methods that
  map tables and pages into an address space (\<open>kern/arch/x86_64/obj/page.c\<close>). A table entry is a
  64-bit word at its direct-map address.
\<close>

section \<open>The walk\<close>

abbreviation (input) PTE_PRESENT :: word_t where "PTE_PRESENT \<equiv> 1"
abbreviation (input) PTE_WRITE :: word_t where "PTE_WRITE \<equiv> 2"
abbreviation (input) PTE_USER :: word_t where "PTE_USER \<equiv> 4"
abbreviation (input) PTE_PWT :: word_t where "PTE_PWT \<equiv> 8"
abbreviation (input) PTE_PCD :: word_t where "PTE_PCD \<equiv> 16"
abbreviation (input) PTE_ACCESSED :: word_t where "PTE_ACCESSED \<equiv> 32"
abbreviation (input) PTE_DIRTY :: word_t where "PTE_DIRTY \<equiv> 64"
abbreviation (input) PTE_PSE :: word_t where "PTE_PSE \<equiv> 128"
abbreviation (input) PTE_GLOBAL :: word_t where "PTE_GLOBAL \<equiv> 256"
abbreviation (input) PTE_PAT :: word_t where "PTE_PAT \<equiv> 4096"
abbreviation (input) PTE_NX :: word_t where "PTE_NX \<equiv> 0x8000000000000000"

definition PTE_ADDR :: "word_t \<Rightarrow> addr" where
  "PTE_ADDR pte = pte AND 0x000FFFFFFFFFF000"

definition PTE :: "word_t \<Rightarrow> (kstate, addr) kern" where
  "PTE pte = direct_map_of (PTE_ADDR pte)"

text \<open>Index of an address in a table of level \<open>shift\<close>, and the address of a table's element.\<close>

definition table_index :: "nat \<Rightarrow> addr \<Rightarrow> word_t" where
  "table_index shift a = drop_bit shift a AND 0x1FF"

definition pte_at :: "addr \<Rightarrow> word_t \<Rightarrow> addr" where
  "pte_at table i = table + 8 * i"

definition get_vm_root :: "(kstate, word_t) kern" where
  "get_vm_root = kget cr3"

abbreviation read_pte :: "addr \<Rightarrow> (kstate, word_t) kern" where
  "read_pte p \<equiv> kget (\<lambda>s. ptes s p)"

definition write_pte :: "addr \<Rightarrow> word_t \<Rightarrow> (kstate, unit) kern" where
  "write_pte p v = kmod (\<lambda>s. s\<lparr>ptes := (ptes s)(p := v)\<rparr>)"

definition get_pml4e :: "word_t \<Rightarrow> addr \<Rightarrow> (kstate, addr) kern" where
  "get_pml4e root a = kbind (PTE root) (\<lambda>pml4. kret (pte_at pml4 (table_index 39 a)))"

definition get_pdpte :: "word_t \<Rightarrow> addr \<Rightarrow> (kstate, addr) kern" where
  "get_pdpte root a =
     kbind (kbind (kbind (get_pml4e root a) read_pte) PTE) (\<lambda>pdpt. kret (pte_at pdpt (table_index 30 a)))"

definition get_pde :: "word_t \<Rightarrow> addr \<Rightarrow> (kstate, addr) kern" where
  "get_pde root a =
     kbind (kbind (kbind (get_pdpte root a) read_pte) PTE) (\<lambda>pd. kret (pte_at pd (table_index 21 a)))"

definition get_pte :: "word_t \<Rightarrow> addr \<Rightarrow> (kstate, addr) kern" where
  "get_pte root a =
     kbind (kbind (kbind (get_pde root a) read_pte) PTE) (\<lambda>pt. kret (pte_at pt (table_index 12 a)))"

definition alloc_table :: "(kstate, addr) kern" where
  "alloc_table =
     kbind (with_regions alloc_page) (\<lambda>page.
     kbind (direct_map_of page) (\<lambda>table.
     kseq (kmod (\<lambda>s. s\<lparr>ptes := (\<lambda>p. if p - table < PAGE_SIZE then 0 else ptes s p)\<rparr>))
          (kret page)))"

text \<open>One level of \<open>add_vm_mapping\<close>: the next table, allocated if its entry is not present.\<close>

definition next_table :: "addr \<Rightarrow> word_t \<Rightarrow> (kstate, addr) kern" where
  "next_table p table_flags =
     kbind (read_pte p) (\<lambda>e.
     if e AND PTE_PRESENT = 0
     then kbind alloc_table (\<lambda>page. kseq (write_pte p (page OR table_flags)) (PTE page))
     else PTE e)"

definition add_vm_mapping :: "word_t \<Rightarrow> addr \<Rightarrow> word_t \<Rightarrow> word_t \<Rightarrow> (kstate, unit) kern" where
  "add_vm_mapping root a phys flags =
     kbind (PTE root) (\<lambda>pml4.
     let table_flags = PTE_PRESENT OR PTE_WRITE OR (flags AND PTE_USER) in
     kbind (next_table (pte_at pml4 (table_index 39 a)) table_flags) (\<lambda>pdp.
     kbind (next_table (pte_at pdp (table_index 30 a)) table_flags) (\<lambda>pd.
     kbind (next_table (pte_at pd (table_index 21 a)) table_flags) (\<lambda>pt.
     write_pte (pte_at pt (table_index 12 a)) (phys OR flags)))))"

definition resolve_vm_mapping :: "word_t \<Rightarrow> addr \<Rightarrow> (kstate, word_t) kern" where
  "resolve_vm_mapping root virt =
     kbind (PTE root) (\<lambda>pml4.
     kbind (read_pte (pte_at pml4 (table_index 39 virt))) (\<lambda>pml4e.
     if pml4e AND PTE_PRESENT = 0 then kret 0
     else kbind (PTE pml4e) (\<lambda>pdp.
     kbind (read_pte (pte_at pdp (table_index 30 virt))) (\<lambda>pdpe.
     if pdpe AND PTE_PRESENT = 0 then kret 0
     else kbind (PTE pdpe) (\<lambda>pd.
     kbind (read_pte (pte_at pd (table_index 21 virt))) (\<lambda>pde.
     if pde AND PTE_PRESENT = 0 then kret 0
     else kbind (PTE pde) (\<lambda>pt.
     kbind (read_pte (pte_at pt (table_index 12 virt))) (\<lambda>pte.
     if pte AND PTE_PRESENT = 0 then kret 0
     else kret (PTE_ADDR pte OR (virt AND 0xFFF))))))))))"

section \<open>Mapping methods\<close>

definition already_mapped :: "(kstate, message_tag_t) kern" where
  "already_mapped = kret msg_delete_first"

definition table_missing :: "word_t \<Rightarrow> (kstate, message_tag_t) kern" where
  "table_missing level = msg_failed_lookup level"

text \<open>An early return if the entry is not present.\<close>

definition require_present :: "(kstate, addr) kern \<Rightarrow> word_t \<Rightarrow> (kstate, message_tag_t) kern \<Rightarrow> (kstate, message_tag_t) kern" where
  "require_present get level rest =
     kbind get (\<lambda>p. kbind (read_pte p) (\<lambda>e.
     if e AND PTE_PRESENT = 0 then table_missing level else rest))"

text \<open>The last step: the entry must be free, and is then written.\<close>

definition install :: "(kstate, addr) kern \<Rightarrow> word_t \<Rightarrow> (kstate, message_tag_t) kern" where
  "install get v =
     kbind get (\<lambda>p. kbind (read_pte p) (\<lambda>e.
     if e AND PTE_PRESENT \<noteq> 0 then already_mapped else kseq (write_pte p v) (kret (msg_ok 0))))"

definition x86_64_pdpt_map :: "slot \<Rightarrow> slot \<Rightarrow> word_t \<Rightarrow> word_t \<Rightarrow> (kstate, message_tag_t) kern" where
  "x86_64_pdpt_map cte vspace vaddr0 attr =
     (let vaddr = vaddr0 AND NOT (mask 39) in
     kbind (slot_ptr vspace) (\<lambda>root_phy.
     kbind (kbind (slot_ptr cte) physical_of) (\<lambda>pdpt_phy.
     kbind (get_pml4e root_phy vaddr) (\<lambda>pml4e.
     kbind get_vm_root (\<lambda>current_vm_root.
     kbind (get_pml4e current_vm_root 0) (\<lambda>current_pml4.
     kseq (kfor 256 256 (\<lambda>i.
             kbind (read_pte (pte_at current_pml4 (of_nat i))) (write_pte (pte_at pml4e (of_nat i)))))
          (install (kret pml4e) (pdpt_phy OR PTE_PRESENT OR PTE_WRITE OR PTE_USER))))))))"

definition x86_64_pd_map :: "slot \<Rightarrow> slot \<Rightarrow> word_t \<Rightarrow> word_t \<Rightarrow> (kstate, message_tag_t) kern" where
  "x86_64_pd_map cte vspace vaddr0 attr =
     (let vaddr = vaddr0 AND NOT (mask 30) in
     kbind (slot_ptr vspace) (\<lambda>root_phy.
     kbind (kbind (slot_ptr cte) physical_of) (\<lambda>pd_phy.
     require_present (get_pml4e root_phy vaddr) 3
    (install (get_pdpte root_phy vaddr) (pd_phy OR PTE_PRESENT OR PTE_WRITE OR PTE_USER)))))"

definition x86_64_pt_map :: "slot \<Rightarrow> slot \<Rightarrow> word_t \<Rightarrow> word_t \<Rightarrow> (kstate, message_tag_t) kern" where
  "x86_64_pt_map cte vspace vaddr0 attr =
     (let vaddr = vaddr0 AND NOT (mask 21) in
     kbind (slot_ptr vspace) (\<lambda>root_phy.
     kbind (kbind (slot_ptr cte) physical_of) (\<lambda>pt_phy.
     require_present (get_pml4e root_phy vaddr) 3
    (require_present (get_pdpte root_phy vaddr) 2
    (install (get_pde root_phy vaddr) (pt_phy OR PTE_PRESENT OR PTE_WRITE OR PTE_USER))))))"

definition x86_64_page_map :: "slot \<Rightarrow> slot \<Rightarrow> word_t \<Rightarrow> word_t \<Rightarrow> (kstate, message_tag_t) kern" where
  "x86_64_page_map cte vspace vaddr attr =
     kbind (slot_ptr vspace) (\<lambda>root_phy.
     kbind (kbind (slot_ptr cte) physical_of) (\<lambda>page_phy.
     require_present (get_pml4e root_phy vaddr) 3
    (require_present (get_pdpte root_phy vaddr) 2
    (require_present (get_pde root_phy vaddr) 1
    (install (get_pte root_phy vaddr) (page_phy OR PTE_PRESENT OR PTE_USER OR attr))))))"

definition x86_64_huge_page_map :: "slot \<Rightarrow> slot \<Rightarrow> word_t \<Rightarrow> word_t \<Rightarrow> (kstate, message_tag_t) kern" where
  "x86_64_huge_page_map cte vspace vaddr attr =
     kbind (slot_ptr vspace) (\<lambda>root_phy.
     kbind (kbind (slot_ptr cte) physical_of) (\<lambda>page_phy.
     require_present (get_pml4e root_phy vaddr) 3
    (require_present (get_pdpte root_phy vaddr) 2
    (install (get_pde root_phy vaddr) (page_phy OR PTE_PRESENT OR PTE_USER OR attr)))))"

section \<open>What the methods leave alone\<close>

context kernel_frame
begin

lemma walk_ops [inv_rules]:
  "inv_on I no_deadlock (get_pml4e r a)" "inv_on I no_deadlock (get_pdpte r a)"
  "inv_on I no_deadlock (get_pde r a)" "inv_on I no_deadlock (get_pte r a)" "inv_on I no_deadlock get_vm_root"
  "inv_on I no_deadlock (write_pte p v)"
  unfolding get_pte_def get_pde_def get_pdpte_def get_pml4e_def PTE_def get_vm_root_def write_pte_def
  by (intro inv_rules keep; assumption)+

lemma map_steps [inv_rules]:
  "inv_on I no_deadlock get \<Longrightarrow> inv_on I no_deadlock rest \<Longrightarrow> inv_on I no_deadlock (require_present get l rest)"
  "inv_on I no_deadlock get \<Longrightarrow> inv_on I no_deadlock (install get v)"
  unfolding require_present_def install_def table_missing_def already_mapped_def by (intro inv_rules; assumption)+

lemma map_ops [inv_rules]:
  "inv_on I no_deadlock (x86_64_pdpt_map c v x a)" "inv_on I no_deadlock (x86_64_pd_map c v x a)"
  "inv_on I no_deadlock (x86_64_pt_map c v x a)" "inv_on I no_deadlock (x86_64_page_map c v x a)"
  "inv_on I no_deadlock (x86_64_huge_page_map c v x a)"
  unfolding x86_64_pdpt_map_def x86_64_pd_map_def x86_64_pt_map_def x86_64_page_map_def
    x86_64_huge_page_map_def Let_def
  by (intro inv_rules)+

end

end
