(* ===== verification/Dispatch.thy ===== *)
theory Dispatch
  imports Untyped Irq Io_Port Paging
begin

text \<open>
  The dispatch of a method invocation (\<open>include/kern/syscall_dispatch.c\<close>): one definition per case of
  the switch, which reads the arguments from the message registers with their casts, checks the
  type of the invoked capability, the number of message words and of extra capabilities, looks the
  capability arguments up in the caller's capability space and calls the method.
\<close>

section \<open>The checks shared by the cases\<close>

definition require_type :: "slot \<Rightarrow> word_t \<Rightarrow> (kstate, message_tag_t) kern \<Rightarrow> (kstate, message_tag_t) kern" where
  "require_type slot ty rest =
     kbind (kget (\<lambda>s. cap_type (slot_cap (ctes s) slot))) (\<lambda>t.
     if t \<noteq> ty then kret msg_illegal_operation else rest)"

definition require_length :: "message_tag_t \<Rightarrow> word_t \<Rightarrow> (kstate, message_tag_t) kern \<Rightarrow> (kstate, message_tag_t) kern" where
  "require_length info n rest =
     (if message_length info < n then msg_truncated_message (message_length info) n else rest)"

definition require_caps :: "message_tag_t \<Rightarrow> word_t \<Rightarrow> (kstate, message_tag_t) kern \<Rightarrow> (kstate, message_tag_t) kern" where
  "require_caps info n rest =
     (if message_extra_caps info < n then msg_truncated_message (message_extra_caps info) n else rest)"

definition lookup_cap_slot_this_tcb :: "word_t \<Rightarrow> (kstate, message_tag_t \<times> slot option) kern" where
  "lookup_cap_slot_this_tcb index = kbind this_tcb (\<lambda>t. lookup_cap_slot (TcbCspaceRoot t) index 64)"

definition cap_argument :: "nat \<Rightarrow> (slot \<Rightarrow> (kstate, message_tag_t) kern) \<Rightarrow> (kstate, message_tag_t) kern" where
  "cap_argument i rest = TRY_out (kbind (get_cap i) lookup_cap_slot_this_tcb) rest"

section \<open>The cases\<close>

definition dispatch_cnode_copy :: "slot \<Rightarrow> message_tag_t \<Rightarrow> (kstate, message_tag_t) kern" where
  "dispatch_cnode_copy slot info =
     kbind (get_mr 0) (\<lambda>dest_index.
     kbind (get_mr 1) (\<lambda>dest_depth.
     kbind (get_mr 2) (\<lambda>src_index.
     kbind (get_mr 3) (\<lambda>src_depth.
     kbind (get_mr 4) (\<lambda>rights.
     require_type slot CAP_CNODE (
     require_length info 5 (
     require_caps info 1 (
     cap_argument 0 (\<lambda>src_root.
     cnode_copy slot dest_index (ucast dest_depth) src_root src_index (ucast src_depth) rights)))))))))"

definition dispatch_cnode_delete :: "slot \<Rightarrow> message_tag_t \<Rightarrow> (kstate, message_tag_t) kern" where
  "dispatch_cnode_delete slot info =
     kbind (get_mr 0) (\<lambda>index.
     kbind (get_mr 1) (\<lambda>depth.
     require_type slot CAP_CNODE (
     require_length info 2 (
     cnode_delete slot index (ucast depth)))))"

definition dispatch_cnode_mint :: "slot \<Rightarrow> message_tag_t \<Rightarrow> (kstate, message_tag_t) kern" where
  "dispatch_cnode_mint slot info =
     kbind (get_mr 0) (\<lambda>dest_index.
     kbind (get_mr 1) (\<lambda>dest_depth.
     kbind (get_mr 2) (\<lambda>src_index.
     kbind (get_mr 3) (\<lambda>src_depth.
     kbind (get_mr 4) (\<lambda>rights.
     kbind (get_mr 5) (\<lambda>badge.
     require_type slot CAP_CNODE (
     require_length info 6 (
     require_caps info 1 (
     cap_argument 0 (\<lambda>src_root.
     cnode_mint slot dest_index (ucast dest_depth) src_root src_index (ucast src_depth) rights badge))))))))))"

definition dispatch_cnode_revoke :: "slot \<Rightarrow> message_tag_t \<Rightarrow> (kstate, message_tag_t) kern" where
  "dispatch_cnode_revoke slot info =
     kbind (get_mr 0) (\<lambda>index.
     kbind (get_mr 1) (\<lambda>depth.
     require_type slot CAP_CNODE (
     require_length info 2 (
     cnode_revoke slot index (ucast depth)))))"

definition dispatch_cnode_debug_print :: "slot \<Rightarrow> message_tag_t \<Rightarrow> (kstate, message_tag_t) kern" where
  "dispatch_cnode_debug_print slot info =
     require_type slot CAP_CNODE (
     kbind (cnode_debug_print slot) (\<lambda>(out, tag). kret tag))"

definition dispatch_cnode_debug_get :: "slot \<Rightarrow> message_tag_t \<Rightarrow> (kstate, message_tag_t) kern" where
  "dispatch_cnode_debug_get slot info =
     kbind (get_mr 0) (\<lambda>index.
     kbind (get_mr 1) (\<lambda>depth.
     require_type slot CAP_CNODE (
     require_length info 2 (
     cnode_debug_get slot index (ucast depth)))))"

definition dispatch_tcb_configure :: "slot \<Rightarrow> message_tag_t \<Rightarrow> (kstate, message_tag_t) kern" where
  "dispatch_tcb_configure slot info =
     kbind (get_mr 0) (\<lambda>fault_ep.
     kbind (get_mr 1) (\<lambda>buffer.
     require_type slot CAP_TCB (
     require_length info 2 (
     require_caps info 3 (
     cap_argument 0 (\<lambda>cspace_root.
     cap_argument 1 (\<lambda>vspace_root.
     cap_argument 2 (\<lambda>buffer_frame.
     tcb_configure slot fault_ep cspace_root vspace_root buffer buffer_frame))))))))"

definition dispatch_tcb_read_registers :: "slot \<Rightarrow> message_tag_t \<Rightarrow> (kstate, message_tag_t) kern" where
  "dispatch_tcb_read_registers slot info =
     kbind (get_mr 0) (\<lambda>suspend_source.
     kbind (get_mr 1) (\<lambda>arch_flags.
     kbind (get_mr 2) (\<lambda>count.
     kbind (get_mr 3) (\<lambda>regs.
     require_type slot CAP_TCB (
     require_length info 4 (
     tcb_read_registers slot (suspend_source \<noteq> 0) arch_flags count regs))))))"

definition dispatch_tcb_resume :: "slot \<Rightarrow> message_tag_t \<Rightarrow> (kstate, message_tag_t) kern" where
  "dispatch_tcb_resume slot info =
     require_type slot CAP_TCB (
     tcb_resume slot)"

definition dispatch_tcb_bind_notification :: "slot \<Rightarrow> message_tag_t \<Rightarrow> (kstate, message_tag_t) kern" where
  "dispatch_tcb_bind_notification slot info =
     require_type slot CAP_TCB (
     require_caps info 1 (
     cap_argument 0 (\<lambda>notification.
     tcb_bind_notification slot notification)))"

definition dispatch_tcb_set_tls_base :: "slot \<Rightarrow> message_tag_t \<Rightarrow> (kstate, message_tag_t) kern" where
  "dispatch_tcb_set_tls_base slot info =
     kbind (get_mr 0) (\<lambda>tls_base.
     require_type slot CAP_TCB (
     require_length info 1 (
     tcb_set_tls_base slot tls_base)))"

definition dispatch_tcb_suspend :: "slot \<Rightarrow> message_tag_t \<Rightarrow> (kstate, message_tag_t) kern" where
  "dispatch_tcb_suspend slot info =
     require_type slot CAP_TCB (
     tcb_suspend slot)"

definition dispatch_tcb_write_registers :: "slot \<Rightarrow> message_tag_t \<Rightarrow> (kstate, message_tag_t) kern" where
  "dispatch_tcb_write_registers slot info =
     kbind (get_mr 0) (\<lambda>resume_target.
     kbind (get_mr 1) (\<lambda>arch_flags.
     kbind (get_mr 2) (\<lambda>count.
     kbind (get_mr 3) (\<lambda>regs.
     require_type slot CAP_TCB (
     require_length info 4 (
     tcb_write_registers slot (resume_target \<noteq> 0) arch_flags count regs))))))"

definition dispatch_tcb_set_debug :: "slot \<Rightarrow> message_tag_t \<Rightarrow> (kstate, message_tag_t) kern" where
  "dispatch_tcb_set_debug slot info =
     kbind (get_mr 0) (\<lambda>flags.
     require_type slot CAP_TCB (
     require_length info 1 (
     tcb_set_debug slot flags)))"

definition dispatch_tcb_set_name :: "slot \<Rightarrow> message_tag_t \<Rightarrow> (kstate, message_tag_t) kern" where
  "dispatch_tcb_set_name slot info =
     kbind (get_mr 0) (\<lambda>name.
     kbind (get_mr 1) (\<lambda>len.
     require_type slot CAP_TCB (
     require_length info 2 (
     tcb_set_name slot name len))))"

definition dispatch_untyped_retype :: "slot \<Rightarrow> message_tag_t \<Rightarrow> (kstate, message_tag_t) kern" where
  "dispatch_untyped_retype slot info =
     kbind (get_mr 0) (\<lambda>type.
     kbind (get_mr 1) (\<lambda>size_bits.
     kbind (get_mr 2) (\<lambda>node_index.
     kbind (get_mr 3) (\<lambda>node_depth.
     kbind (get_mr 4) (\<lambda>node_offset.
     kbind (get_mr 5) (\<lambda>num_objects.
     require_type slot CAP_UNTYPED (
     require_length info 6 (
     require_caps info 1 (
     cap_argument 0 (\<lambda>root.
     untyped_retype slot type size_bits root node_index (ucast node_depth) node_offset num_objects))))))))))"

definition dispatch_x86_64_io_port_in8 :: "slot \<Rightarrow> message_tag_t \<Rightarrow> (kstate, message_tag_t) kern" where
  "dispatch_x86_64_io_port_in8 slot info =
     kbind (get_mr 0) (\<lambda>port.
     require_type slot CAP_X86_64_IO_PORT (
     require_length info 1 (
     x86_64_io_port_in8 slot port)))"

definition dispatch_x86_64_io_port_in16 :: "slot \<Rightarrow> message_tag_t \<Rightarrow> (kstate, message_tag_t) kern" where
  "dispatch_x86_64_io_port_in16 slot info =
     kbind (get_mr 0) (\<lambda>port.
     require_type slot CAP_X86_64_IO_PORT (
     require_length info 1 (
     x86_64_io_port_in16 slot port)))"

definition dispatch_x86_64_io_port_in32 :: "slot \<Rightarrow> message_tag_t \<Rightarrow> (kstate, message_tag_t) kern" where
  "dispatch_x86_64_io_port_in32 slot info =
     kbind (get_mr 0) (\<lambda>port.
     require_type slot CAP_X86_64_IO_PORT (
     require_length info 1 (
     x86_64_io_port_in32 slot port)))"

definition dispatch_x86_64_io_port_out8 :: "slot \<Rightarrow> message_tag_t \<Rightarrow> (kstate, message_tag_t) kern" where
  "dispatch_x86_64_io_port_out8 slot info =
     kbind (get_mr 0) (\<lambda>port.
     kbind (get_mr 1) (\<lambda>value.
     require_type slot CAP_X86_64_IO_PORT (
     require_length info 2 (
     x86_64_io_port_out8 slot port value))))"

definition dispatch_x86_64_io_port_out16 :: "slot \<Rightarrow> message_tag_t \<Rightarrow> (kstate, message_tag_t) kern" where
  "dispatch_x86_64_io_port_out16 slot info =
     kbind (get_mr 0) (\<lambda>port.
     kbind (get_mr 1) (\<lambda>value.
     require_type slot CAP_X86_64_IO_PORT (
     require_length info 2 (
     x86_64_io_port_out16 slot port value))))"

definition dispatch_x86_64_io_port_out32 :: "slot \<Rightarrow> message_tag_t \<Rightarrow> (kstate, message_tag_t) kern" where
  "dispatch_x86_64_io_port_out32 slot info =
     kbind (get_mr 0) (\<lambda>port.
     kbind (get_mr 1) (\<lambda>value.
     require_type slot CAP_X86_64_IO_PORT (
     require_length info 2 (
     x86_64_io_port_out32 slot port value))))"

definition dispatch_x86_64_io_port_control_issue :: "slot \<Rightarrow> message_tag_t \<Rightarrow> (kstate, message_tag_t) kern" where
  "dispatch_x86_64_io_port_control_issue slot info =
     kbind (get_mr 0) (\<lambda>first_port.
     kbind (get_mr 1) (\<lambda>last_port.
     kbind (get_mr 2) (\<lambda>index.
     kbind (get_mr 3) (\<lambda>depth.
     require_type slot CAP_X86_64_IO_PORT_CONTROL (
     require_length info 4 (
     require_caps info 1 (
     cap_argument 0 (\<lambda>root.
     x86_64_io_port_control_issue slot (ucast first_port) (ucast last_port) root index (ucast (ucast depth :: u8))))))))))"

definition dispatch_x86_64_pdpt_map :: "slot \<Rightarrow> message_tag_t \<Rightarrow> (kstate, message_tag_t) kern" where
  "dispatch_x86_64_pdpt_map slot info =
     kbind (get_mr 0) (\<lambda>vaddr.
     kbind (get_mr 1) (\<lambda>attr.
     require_type slot CAP_X86_64_PDPT (
     require_length info 2 (
     require_caps info 1 (
     cap_argument 0 (\<lambda>vspace.
     x86_64_pdpt_map slot vspace vaddr attr))))))"

definition dispatch_x86_64_pd_map :: "slot \<Rightarrow> message_tag_t \<Rightarrow> (kstate, message_tag_t) kern" where
  "dispatch_x86_64_pd_map slot info =
     kbind (get_mr 0) (\<lambda>vaddr.
     kbind (get_mr 1) (\<lambda>attr.
     require_type slot CAP_X86_64_PD (
     require_length info 2 (
     require_caps info 1 (
     cap_argument 0 (\<lambda>vspace.
     x86_64_pd_map slot vspace vaddr attr))))))"

definition dispatch_x86_64_pt_map :: "slot \<Rightarrow> message_tag_t \<Rightarrow> (kstate, message_tag_t) kern" where
  "dispatch_x86_64_pt_map slot info =
     kbind (get_mr 0) (\<lambda>vaddr.
     kbind (get_mr 1) (\<lambda>attr.
     require_type slot CAP_X86_64_PT (
     require_length info 2 (
     require_caps info 1 (
     cap_argument 0 (\<lambda>vspace.
     x86_64_pt_map slot vspace vaddr attr))))))"

definition dispatch_x86_64_page_map :: "slot \<Rightarrow> message_tag_t \<Rightarrow> (kstate, message_tag_t) kern" where
  "dispatch_x86_64_page_map slot info =
     kbind (get_mr 0) (\<lambda>vaddr.
     kbind (get_mr 1) (\<lambda>attr.
     require_type slot CAP_X86_64_PAGE (
     require_length info 2 (
     require_caps info 1 (
     cap_argument 0 (\<lambda>vspace.
     x86_64_page_map slot vspace vaddr attr))))))"

definition dispatch_x86_64_huge_page_map :: "slot \<Rightarrow> message_tag_t \<Rightarrow> (kstate, message_tag_t) kern" where
  "dispatch_x86_64_huge_page_map slot info =
     kbind (get_mr 0) (\<lambda>vaddr.
     kbind (get_mr 1) (\<lambda>attr.
     require_type slot CAP_X86_64_HUGE_PAGE (
     require_length info 2 (
     require_caps info 1 (
     cap_argument 0 (\<lambda>vspace.
     x86_64_huge_page_map slot vspace vaddr attr))))))"

definition dispatch_irq_control_get :: "slot \<Rightarrow> message_tag_t \<Rightarrow> (kstate, message_tag_t) kern" where
  "dispatch_irq_control_get slot info =
     kbind (get_mr 0) (\<lambda>irq.
     kbind (get_mr 1) (\<lambda>index.
     kbind (get_mr 2) (\<lambda>depth.
     require_type slot CAP_IRQ_CONTROL (
     require_length info 3 (
     require_caps info 1 (
     cap_argument 0 (\<lambda>root.
     irq_control_get slot irq root index (ucast depth))))))))"

definition dispatch_irq_handler_ack :: "slot \<Rightarrow> message_tag_t \<Rightarrow> (kstate, message_tag_t) kern" where
  "dispatch_irq_handler_ack slot info =
     require_type slot CAP_IRQ_HANDLER (
     irq_handler_ack slot)"

definition dispatch_irq_handler_clear :: "slot \<Rightarrow> message_tag_t \<Rightarrow> (kstate, message_tag_t) kern" where
  "dispatch_irq_handler_clear slot info =
     require_type slot CAP_IRQ_HANDLER (
     irq_handler_clear slot)"

definition dispatch_irq_handler_set_notification :: "slot \<Rightarrow> message_tag_t \<Rightarrow> (kstate, message_tag_t) kern" where
  "dispatch_irq_handler_set_notification slot info =
     require_type slot CAP_IRQ_HANDLER (
     require_caps info 1 (
     cap_argument 0 (\<lambda>notification.
     irq_handler_set_notification slot notification)))"

definition dispatch_method :: "slot \<Rightarrow> message_tag_t \<Rightarrow> (kstate, message_tag_t) kern" where
  "dispatch_method slot info =
     (let label = message_label info in
      if label = METHOD_CNODE_COPY then dispatch_cnode_copy slot info else
      if label = METHOD_CNODE_DELETE then dispatch_cnode_delete slot info else
      if label = METHOD_CNODE_MINT then dispatch_cnode_mint slot info else
      if label = METHOD_CNODE_REVOKE then dispatch_cnode_revoke slot info else
      if label = METHOD_CNODE_DEBUG_PRINT then dispatch_cnode_debug_print slot info else
      if label = METHOD_CNODE_DEBUG_GET then dispatch_cnode_debug_get slot info else
      if label = METHOD_TCB_CONFIGURE then dispatch_tcb_configure slot info else
      if label = METHOD_TCB_READ_REGISTERS then dispatch_tcb_read_registers slot info else
      if label = METHOD_TCB_RESUME then dispatch_tcb_resume slot info else
      if label = METHOD_TCB_BIND_NOTIFICATION then dispatch_tcb_bind_notification slot info else
      if label = METHOD_TCB_SET_TLS_BASE then dispatch_tcb_set_tls_base slot info else
      if label = METHOD_TCB_SUSPEND then dispatch_tcb_suspend slot info else
      if label = METHOD_TCB_WRITE_REGISTERS then dispatch_tcb_write_registers slot info else
      if label = METHOD_TCB_SET_DEBUG then dispatch_tcb_set_debug slot info else
      if label = METHOD_TCB_SET_NAME then dispatch_tcb_set_name slot info else
      if label = METHOD_UNTYPED_RETYPE then dispatch_untyped_retype slot info else
      if label = METHOD_X86_64_IO_PORT_IN8 then dispatch_x86_64_io_port_in8 slot info else
      if label = METHOD_X86_64_IO_PORT_IN16 then dispatch_x86_64_io_port_in16 slot info else
      if label = METHOD_X86_64_IO_PORT_IN32 then dispatch_x86_64_io_port_in32 slot info else
      if label = METHOD_X86_64_IO_PORT_OUT8 then dispatch_x86_64_io_port_out8 slot info else
      if label = METHOD_X86_64_IO_PORT_OUT16 then dispatch_x86_64_io_port_out16 slot info else
      if label = METHOD_X86_64_IO_PORT_OUT32 then dispatch_x86_64_io_port_out32 slot info else
      if label = METHOD_X86_64_IO_PORT_CONTROL_ISSUE then dispatch_x86_64_io_port_control_issue slot info else
      if label = METHOD_X86_64_PDPT_MAP then dispatch_x86_64_pdpt_map slot info else
      if label = METHOD_X86_64_PD_MAP then dispatch_x86_64_pd_map slot info else
      if label = METHOD_X86_64_PT_MAP then dispatch_x86_64_pt_map slot info else
      if label = METHOD_X86_64_PAGE_MAP then dispatch_x86_64_page_map slot info else
      if label = METHOD_X86_64_HUGE_PAGE_MAP then dispatch_x86_64_huge_page_map slot info else
      if label = METHOD_IRQ_CONTROL_GET then dispatch_irq_control_get slot info else
      if label = METHOD_IRQ_HANDLER_ACK then dispatch_irq_handler_ack slot info else
      if label = METHOD_IRQ_HANDLER_CLEAR then dispatch_irq_handler_clear slot info else
      if label = METHOD_IRQ_HANDLER_SET_NOTIFICATION then dispatch_irq_handler_set_notification slot info else
      kret msg_illegal_operation)"

section \<open>What the dispatch leaves alone\<close>

context kernel_frame
begin

lemma dispatch_checks [inv_rules]:
  "inv_on I no_deadlock rest \<Longrightarrow> inv_on I no_deadlock (require_type c ty rest)"
  "inv_on I no_deadlock rest \<Longrightarrow> inv_on I no_deadlock (require_length info n rest)"
  "inv_on I no_deadlock rest \<Longrightarrow> inv_on I no_deadlock (require_caps info n rest)"
  "inv_on I no_deadlock (lookup_cap_slot_this_tcb x)"
  "(\<And>a. inv_on I no_deadlock (f a)) \<Longrightarrow> inv_on I no_deadlock (cap_argument i f)"
  unfolding require_type_def require_length_def require_caps_def cap_argument_def lookup_cap_slot_this_tcb_def
  by (intro inv_rules; simp)+

lemma dispatch_method_inv [inv_rules]: "inv_on I no_deadlock (dispatch_method c info)"
  unfolding dispatch_method_def Let_def
    dispatch_cnode_copy_def dispatch_cnode_delete_def dispatch_cnode_mint_def
    dispatch_cnode_revoke_def dispatch_cnode_debug_print_def dispatch_cnode_debug_get_def
    dispatch_tcb_configure_def dispatch_tcb_read_registers_def dispatch_tcb_resume_def
    dispatch_tcb_bind_notification_def dispatch_tcb_set_tls_base_def dispatch_tcb_suspend_def
    dispatch_tcb_write_registers_def dispatch_tcb_set_debug_def dispatch_tcb_set_name_def
    dispatch_untyped_retype_def dispatch_x86_64_io_port_in8_def dispatch_x86_64_io_port_in16_def
    dispatch_x86_64_io_port_in32_def dispatch_x86_64_io_port_out8_def
    dispatch_x86_64_io_port_out16_def dispatch_x86_64_io_port_out32_def
    dispatch_x86_64_io_port_control_issue_def dispatch_x86_64_pdpt_map_def
    dispatch_x86_64_pd_map_def dispatch_x86_64_pt_map_def dispatch_x86_64_page_map_def
    dispatch_x86_64_huge_page_map_def dispatch_irq_control_get_def dispatch_irq_handler_ack_def
    dispatch_irq_handler_clear_def dispatch_irq_handler_set_notification_def
  by (intro inv_rules)

end

end
