(* ===== verification/Syscall.thy ===== *)
theory Syscall
  imports Dispatch
begin

text \<open>
  The entry points of the kernel: system calls (\<open>kern/syscall.c\<close>, \<open>c_syscall_entry\<close> of
  \<open>kern/arch/x86_64/entry.c\<close>) and interrupts (\<open>c_interrupt_entry\<close>, \<open>print_interrupt_info\<close> of
  \<open>kern/arch/x86_64/ints.c\<close>). Console output, the backtraces and the end-of-interrupt write to the
  local APIC are not modelled.
\<close>

section \<open>System calls\<close>

abbreviation (input) SYS_EXIT :: u32 where "SYS_EXIT \<equiv> 0"
abbreviation (input) SYS_DEBUG_WRITE :: u32 where "SYS_DEBUG_WRITE \<equiv> 1"
abbreviation (input) SYS_CALL :: u32 where "SYS_CALL \<equiv> 2"
abbreviation (input) SYS_YIELD :: u32 where "SYS_YIELD \<equiv> 3"
abbreviation (input) SYS_SEND :: u32 where "SYS_SEND \<equiv> 4"
abbreviation (input) SYS_NBSEND :: u32 where "SYS_NBSEND \<equiv> 5"
abbreviation (input) SYS_RECV :: u32 where "SYS_RECV \<equiv> 6"
abbreviation (input) SYS_NBRECV :: u32 where "SYS_NBRECV \<equiv> 7"
abbreviation (input) SYS_REPLY :: u32 where "SYS_REPLY \<equiv> 8"
abbreviation (input) SYS_REPLYRECV :: u32 where "SYS_REPLYRECV \<equiv> 9"

text \<open>The second switch of \<open>op_syscall\<close>: the calls on a capability.\<close>

definition op_cap_syscall :: "slot \<Rightarrow> message_tag_t \<Rightarrow> u32 \<Rightarrow> (kstate, message_tag_t) kern" where
  "op_cap_syscall slot info syscall_number =
     kbind (kget (\<lambda>s. cap_type (slot_cap (ctes s) slot))) (\<lambda>ty.
     if syscall_number = SYS_CALL
     then if ty \<noteq> CAP_ENDPOINT then dispatch_method slot info
          else kseq (invoke_endpoint_call slot info) (kret msg_noreturn)
     else if syscall_number = SYS_SEND
     then if ty \<noteq> CAP_NOTIFICATION \<and> ty \<noteq> CAP_ENDPOINT then kret (msg_err INVALID_CAPABILITY 0)
          else kseq (if ty = CAP_NOTIFICATION
                     then kseq (invoke_notification_send slot) (kret ())
                     else invoke_endpoint_send slot info)
                    (kret msg_noreturn)
     else if syscall_number = SYS_NBSEND
     then if ty \<noteq> CAP_ENDPOINT then kret (msg_err INVALID_CAPABILITY 0)
          else kseq (invoke_endpoint_nbsend slot info) (kret msg_noreturn)
     else if syscall_number = SYS_RECV
     then if ty \<noteq> CAP_NOTIFICATION \<and> ty \<noteq> CAP_ENDPOINT then kret (msg_err INVALID_CAPABILITY 0)
          else if ty = CAP_NOTIFICATION then invoke_notification_recv slot
          else invoke_endpoint_recv slot
     else if syscall_number = SYS_NBRECV
     then if ty \<noteq> CAP_ENDPOINT then kret (msg_err INVALID_CAPABILITY 0)
          else invoke_endpoint_nbrecv slot
     else if syscall_number = SYS_REPLYRECV
     then if ty \<noteq> CAP_ENDPOINT then kret (msg_err INVALID_CAPABILITY 0)
          else invoke_reply_recv slot info
     else kret (msg_err INVALID_SYSCALL 0))"

definition op_syscall :: "word_t \<Rightarrow> word_t \<Rightarrow> u32 \<Rightarrow> (kstate, message_tag_t) kern" where
  "op_syscall a0 a1 syscall_number =
     (let info = message_info_from_word a1 in
      if syscall_number = SYS_EXIT
      then kbind this_tcb (\<lambda>t. kseq (kill_tcb t) (kseq schedule (kret msg_noreturn)))
      else if syscall_number = SYS_DEBUG_WRITE then kret (msg_ok 0)
      else if syscall_number = SYS_YIELD then kseq schedule (kret msg_noreturn)
      else if syscall_number = SYS_REPLY then kseq (invoke_reply info) (kret info)
      else TRY_out (lookup_cap_slot_this_tcb a0) (\<lambda>slot. op_cap_syscall slot info syscall_number))"

definition do_syscall :: "word_t \<Rightarrow> word_t \<Rightarrow> u32 \<Rightarrow> (kstate, unit) kern" where
  "do_syscall a0 a1 syscall_number =
     kseq lock_big_kernel
    (kbind (op_syscall a0 a1 syscall_number) (\<lambda>tag.
     kseq (if \<not> msg_is_noreturn tag then kbind this_tcb (\<lambda>t. set_ipc_result t tag) else kret ())
          unlock_big_kernel))"

definition c_syscall_entry :: "word_t \<Rightarrow> word_t \<Rightarrow> u32 \<Rightarrow> addr \<Rightarrow> (kstate, kexit) kern" where
  "c_syscall_entry a0 a1 syscall_number f =
     kseq (save_frame_on_tcb f)
    (kseq (do_syscall a0 a1 syscall_number)
          return_from_kernel_code)"

section \<open>Interrupts\<close>

text \<open>The result says whether the function returns; otherwise it halts the processor.\<close>

definition print_interrupt_info :: "addr \<Rightarrow> (kstate, bool) kern" where
  "print_interrupt_info f =
     kbind (kget (\<lambda>s. f_int_no (frame_mem s f))) (\<lambda>int_no.
     if 32 \<le> int_no \<and> int_no \<le> 48 then kseq (handle_irq (int_no - 32)) (kret True)
     else if int_no = 255 then kret True
     else kret False)"

definition c_interrupt_entry :: "addr \<Rightarrow> (kstate, kexit) kern" where
  "c_interrupt_entry f =
     kseq (save_frame_on_tcb f)
    (kbind (print_interrupt_info f) (\<lambda>returns.
     if returns then return_from_kernel_code else halt_forever))"

section \<open>What a system call leaves alone\<close>

context kernel_frame
begin

lemma op_syscall_inv: "inv_on I no_deadlock (op_syscall a0 a1 n)"
proof -
  have "inv_on I no_deadlock (op_cap_syscall c info n)" for c info
    unfolding op_cap_syscall_def by (intro inv_rules)
  then show ?thesis unfolding op_syscall_def Let_def by (intro inv_rules; simp)
qed

end

end
