(* ===== verification/Example_State.thy ===== *)
theory Example_State
  imports Kernel_State
begin

text \<open>
  Concrete states on which theorems with hypotheses are applied: a machine with zeroed memory, and
  small configurations of threads and queues built on it.
\<close>

definition idle_machine :: kstate where
  "idle_machine = \<lparr>ctes = (\<lambda>_. zero_cte), lists = (\<lambda>_. zero_list_head), tcbs = (\<lambda>_. zero_tcb),
     notifications = (\<lambda>_. zero_notification), ipc_buffers = (\<lambda>_ _. 0), frame_mem = (\<lambda>_. zero_frame),
     ptes = (\<lambda>_. 0), regions = [], irq_handlers = (\<lambda>_. \<lparr>h_irq = 0, h_in_service = False, h_n = None, h_badge = 0\<rparr>),
     irq_handlers_base = 0xFFFFFFFF80200000, irq_handlers_issued = 0, ioapic_regs = (\<lambda>_. 0),
     current_tcb = None, return_to_tcb = None, cr3 = 0x1000, fs_base = 0, hhdm = 0xFFFF800000000000,
     user_mem = (\<lambda>_. 0), port_in = (\<lambda>_ _. 0), io_log = [],
     runnable_tcbs_lock = \<lparr>lk_front = 0, lk_back = 0\<rparr>, big_kernel_lock = \<lparr>lk_front = 0, lk_back = 0\<rparr>\<rparr>"

abbreviation (input) thread_a :: addr where "thread_a \<equiv> 0xFFFF800000100000"
abbreviation (input) thread_b :: addr where "thread_b \<equiv> 0xFFFF800000200000"
abbreviation (input) thread_c :: addr where "thread_c \<equiv> 0xFFFF800000300000"
abbreviation (input) user_frame_addr :: addr where "user_frame_addr \<equiv> 0xFFFF800000400000"

text \<open>Thread A runs; B and C are in the run queue, B first.\<close>

definition three_threads :: kstate where
  "three_threads = idle_machine\<lparr>
     lists := (\<lambda>_. zero_list_head)(
       RunQueue := \<lparr>l_next = Some (RunnableNode thread_b), l_prev = Some (RunnableNode thread_c)\<rparr>,
       RunnableNode thread_b := \<lparr>l_next = Some (RunnableNode thread_c), l_prev = Some RunQueue\<rparr>,
       RunnableNode thread_c := \<lparr>l_next = Some RunQueue, l_prev = Some (RunnableNode thread_b)\<rparr>),
     tcbs := (\<lambda>_. zero_tcb)(thread_a := zero_tcb\<lparr>t_state := TASK_STATE_RUNNING\<rparr>),
     frame_mem := (\<lambda>_. zero_frame)(user_frame_addr := new_user_frame 0x400000 0x7FFF0000),
     current_tcb := Some thread_a, return_to_tcb := Some thread_a\<rparr>"

section \<open>An endpoint and a notification\<close>

abbreviation (input) buffer_a :: addr where "buffer_a \<equiv> 0xFFFF800000500000"
abbreviation (input) buffer_b :: addr where "buffer_b \<equiv> 0xFFFF800000600000"

definition endpoint_cap :: cap_t where
  "endpoint_cap = cap_set_badge 7 (cap_set_rights CAP_RIGHTS_ALL (cap_set_type CAP_ENDPOINT zero_cap))"

definition notification_cap :: cap_t where
  "notification_cap = cap_set_badge 4 (cap_set_rights CAP_RIGHTS_ALL (cap_set_type CAP_NOTIFICATION zero_cap))"

text \<open>
  Thread A runs with an endpoint capability in slot 0 and a notification capability in slot 32;
  thread B is in state \<open>st\<close> and linked at \<open>head\<close>; the run queue is empty.
\<close>

definition ipc_example :: "node \<Rightarrow> tcb_state \<Rightarrow> kstate" where
  "ipc_example head st = idle_machine\<lparr>
     ctes := (\<lambda>_. zero_cte)(Slot 0 := zero_cte\<lparr>cte_cap := endpoint_cap\<rparr>,
                            Slot 32 := zero_cte\<lparr>cte_cap := notification_cap\<rparr>),
     lists := (\<lambda>_. zero_list_head)(
       RunQueue := \<lparr>l_next = Some RunQueue, l_prev = Some RunQueue\<rparr>,
       head := \<lparr>l_next = Some (SendRecvNode thread_b), l_prev = Some (SendRecvNode thread_b)\<rparr>,
       SendRecvNode thread_b := \<lparr>l_next = Some head, l_prev = Some head\<rparr>),
     tcbs := (\<lambda>_. zero_tcb)(
       thread_a := zero_tcb\<lparr>t_state := TASK_STATE_RUNNING, t_ipc_buffer := Some buffer_a,
         t_current_user_frame := Some user_frame_addr, t_reply_to := Some thread_b\<rparr>,
       thread_b := zero_tcb\<lparr>t_state := st, t_ipc_buffer := Some buffer_b, t_endpoint_badge := 9,
         t_expects_reply := True, t_saved_state := zero_frame\<lparr>f_rsi := 2\<rparr>\<rparr>),
     ipc_buffers := (\<lambda>_ _. 0)(buffer_a := (\<lambda>i. of_nat (100 + i)), buffer_b := (\<lambda>i. of_nat (200 + i))),
     frame_mem := (\<lambda>_. zero_frame)(user_frame_addr := (new_user_frame 0x400000 0x7FFF0000)\<lparr>f_rsi := 2\<rparr>),
     current_tcb := Some thread_a, return_to_tcb := Some thread_a\<rparr>"

abbreviation (input) the_endpoint :: addr where "the_endpoint \<equiv> cap_ptr endpoint_cap"
abbreviation (input) the_notification :: addr where "the_notification \<equiv> cap_ptr notification_cap"

lemma example_caps [simp]:
  "cap_type endpoint_cap = CAP_ENDPOINT" "cap_badge endpoint_cap = 7"
  "cap_type notification_cap = CAP_NOTIFICATION" "cap_badge notification_cap = 4"
  by (simp_all add: endpoint_cap_def notification_cap_def)

lemma ipc_example_fields [simp]:
  "slot_cap (ctes (ipc_example head st)) (Slot 0) = endpoint_cap"
  "slot_cap (ctes (ipc_example head st)) (Slot 32) = notification_cap"
  "current_tcb (ipc_example head st) = Some thread_a"
  "t_state (tcbs (ipc_example head st) thread_b) = st"
  "t_ipc_buffer (tcbs (ipc_example head st) thread_a) = Some buffer_a"
  "t_ipc_buffer (tcbs (ipc_example head st) thread_b) = Some buffer_b"
  "t_current_user_frame (tcbs (ipc_example head st) thread_a) = Some user_frame_addr"
  "t_reply_to (tcbs (ipc_example head st) thread_a) = Some thread_b"
  "t_bound_notification (tcbs (ipc_example head st) thread_a) = None"
  "t_endpoint_badge (tcbs (ipc_example head st) thread_b) = 9"
  "t_expects_reply (tcbs (ipc_example head st) thread_b)"
  "f_rsi (t_saved_state (tcbs (ipc_example head st) thread_b)) = 2"
  "f_rsi (frame_mem (ipc_example head st) user_frame_addr) = 2"
  "ipc_buffers (ipc_example head st) buffer_a i = of_nat (100 + i)"
  "ipc_buffers (ipc_example head st) buffer_b i = of_nat (200 + i)"
  "notifications (ipc_example head st) n = zero_notification"
  "runnable_tcbs_lock (ipc_example head st) = \<lparr>lk_front = 0, lk_back = 0\<rparr>"
  by (simp_all add: ipc_example_def zero_tcb_def idle_machine_def)

end
