(* ===== verification/Scheduling.thy ===== *)
theory Scheduling
  imports Syscall Example_State
begin

text \<open>
  How the kernel is left: which thread runs next, with which registers and address space, and what
  becomes of the thread that ran before. The lemmas are about the composition of \<open>schedule\<close>,
  \<open>return_from_kernel_code\<close> and \<open>switch_tcb_actual\<close> in the entry points; the last part follows threads
  that yield through any number of system calls.
\<close>

section \<open>Leaving the kernel\<close>

lemma physical_of_eq: "hhdm s \<noteq> 0 \<Longrightarrow> physical_of a s = Inr (a - hhdm s, s)"
  by (simp add: physical_of_def direct_map_of_def kern_simps)

lemma physical_of_Inr: "physical_of a s = Inr (p, s') \<Longrightarrow> p = a - hhdm s \<and> s' = s"
  by (auto simp: physical_of_def direct_map_of_def kern_simps split: if_splits)

lemma save_unless_dead_Inr:
  assumes "save_unless_dead cur s = Inr (x, s')"
  shows "\<exists>g. s' = (case cur of None \<Rightarrow> s | Some c \<Rightarrow> upd_tcb c (\<lambda>u. u\<lparr>t_saved_state := g\<rparr>) s)"
proof (cases cur)
  case None
  then show ?thesis using assms by (auto simp: save_unless_dead_def kern_simps)
next
  case (Some c)
  have "upd_tcb c (\<lambda>u. u\<lparr>t_saved_state := t_saved_state (tcbs s c)\<rparr>) s = s"
    by (simp add: upd_tcb_def)
  moreover have "s' = s \<or> (\<exists>g. s' = upd_tcb c (\<lambda>u. u\<lparr>t_saved_state := g\<rparr>) s)"
    using assms Some
    by (auto simp: save_unless_dead_def save_tcb_state_def kern_simps split: if_splits option.splits)
  ultimately show ?thesis using Some by (metis option.simps(5))
qed

text \<open>The requeueing step of \<open>switch_tcb_actual\<close>.\<close>

definition requeue_running :: "addr option \<Rightarrow> (kstate, unit) kern" where
  "requeue_running current = (case current of None \<Rightarrow> kret ()
     | Some c \<Rightarrow> kbind (kget (\<lambda>s. t_state (tcbs s c))) (\<lambda>st.
         if st = TASK_STATE_RUNNING then schedule_tcb c else kret ()))"

lemma requeue_running_Inr:
  assumes "requeue_running cur s = Inr (x, s')"
  shows "\<exists>T h l. s' = s\<lparr>tcbs := T, lists := h, runnable_tcbs_lock := l\<rparr> \<and>
    (\<forall>u. Some u \<noteq> cur \<longrightarrow> T u = tcbs s u) \<and>
    (lock_free (runnable_tcbs_lock s) \<longrightarrow> lock_free l)"
proof (cases "\<exists>c. cur = Some c \<and> t_state (tcbs s c) = TASK_STATE_RUNNING")
  case True
  then obtain c where c: "cur = Some c" "schedule_tcb c s = Inr (x, s')"
    using assms by (auto simp: requeue_running_def kern_simps)
  then show ?thesis using schedule_tcb_Inr(3) [OF c(2)] by (fastforce simp: upd_tcb_def)
next
  case False
  then have "s' = s" using assms by (auto simp: requeue_running_def kern_simps split: option.splits)
  then show ?thesis by (intro exI [of _ "tcbs s"] exI [of _ "lists s"] exI [of _ "runnable_tcbs_lock s"]) simp
qed

definition enter_thread :: "addr \<Rightarrow> (kstate, kexit) kern" where
  "enter_thread t =
     kseq (kbind (kget (\<lambda>s. t_state (tcbs s t))) (\<lambda>st. kassert (st = TASK_STATE_RUNNABLE)))
    (kseq (kmod (\<lambda>s. s\<lparr>current_tcb := Some t\<rparr>))
    (kseq (kbind (tcb_vm_root t) set_vm_root)
    (kseq (kbind (kget (\<lambda>s. t_tls_base (tcbs s t))) set_tls_base)
    (kseq (set_state t TASK_STATE_RUNNING)
    (kseq (kmod (upd_tcb t (\<lambda>u. u\<lparr>t_saved_state := ensure_frame_valid_for_usermode (t_saved_state u)\<rparr>)))
          (kret (JumpToUserlandFrame t)))))))"

lemma switch_tcb_actual_split:
  "switch_tcb_actual t =
     kbind (kget current_tcb) (\<lambda>current.
     kseq (kassert (current \<noteq> Some t))
    (kseq (save_unless_dead current) (kseq (requeue_running current) (enter_thread t))))"
  by (simp add: switch_tcb_actual_def requeue_running_def enter_thread_def)

lemma enter_thread_Inr:
  assumes "enter_thread t s = Inr (x, s')"
  shows "x = JumpToUserlandFrame t" "t_state (tcbs s t) = TASK_STATE_RUNNABLE"
    and "s' = s\<lparr>tcbs := (tcbs s)(t := (tcbs s t)\<lparr>t_state := TASK_STATE_RUNNING,
        t_saved_state := ensure_frame_valid_for_usermode (t_saved_state (tcbs s t))\<rparr>),
      current_tcb := Some t, cr3 := cap_ptr (slot_cap (ctes s) (TcbVspaceRoot t)) - hhdm s,
      fs_base := t_tls_base (tcbs s t)\<rparr>"
  using assms
  by (auto simp: enter_thread_def kern_simps tcb_vm_root_def set_vm_root_def set_tls_base_def upd_tcb_def
      split: if_splits sum.splits dest!: physical_of_Inr)

lemma enter_thread_eq:
  assumes "t_state (tcbs s t) = TASK_STATE_RUNNABLE" "hhdm s \<noteq> 0"
  shows "enter_thread t s = Inr (JumpToUserlandFrame t,
    s\<lparr>tcbs := (tcbs s)(t := (tcbs s t)\<lparr>t_state := TASK_STATE_RUNNING,
        t_saved_state := ensure_frame_valid_for_usermode (t_saved_state (tcbs s t))\<rparr>),
      current_tcb := Some t, cr3 := cap_ptr (slot_cap (ctes s) (TcbVspaceRoot t)) - hhdm s,
      fs_base := t_tls_base (tcbs s t)\<rparr>)"
  using assms
  by (simp add: enter_thread_def kern_simps tcb_vm_root_def physical_of_eq set_vm_root_def set_tls_base_def upd_tcb_def)

lemma ensure_frame_fields:
  "f_cs (ensure_frame_valid_for_usermode f) = USER_CS" "f_ss (ensure_frame_valid_for_usermode f) = USER_SS"
  "bit (f_rflags (ensure_frame_valid_for_usermode f)) 9"
  by (rule usermode_frame_privilege)+

text \<open>
  What holds when the kernel hands the processor over: it resumes the interrupted context of the same
  thread, or enters another thread in user mode and in that thread's address space, or idles.
\<close>

definition exit_ok :: "kstate \<Rightarrow> kexit \<Rightarrow> kstate \<Rightarrow> bool" where
  "exit_ok s x s' \<longleftrightarrow>
     (case x of
        ReturnToFrame \<Rightarrow> current_tcb s' = current_tcb s \<and> return_to_tcb s' = current_tcb s
      | JumpToUserlandFrame t \<Rightarrow>
          current_tcb s' = Some t \<and> return_to_tcb s' = Some t \<and> current_tcb s \<noteq> Some t \<and>
          t_state (tcbs s' t) = TASK_STATE_RUNNING \<and>
          f_cs (t_saved_state (tcbs s' t)) = USER_CS \<and> f_ss (t_saved_state (tcbs s' t)) = USER_SS \<and>
          bit (f_rflags (t_saved_state (tcbs s' t))) 9 \<and>
          cr3 s' = cap_ptr (slot_cap (ctes s') (TcbVspaceRoot t)) - hhdm s' \<and>
          fs_base s' = t_tls_base (tcbs s' t)
      | HaltInterruptsEnabled \<Rightarrow> current_tcb s' = None \<and> return_to_tcb s' = None
      | HaltForever \<Rightarrow> current_tcb s' = None)"

definition locks_free :: "kstate \<Rightarrow> bool" where
  "locks_free s \<longleftrightarrow> lock_free (runnable_tcbs_lock s) \<and> lock_free (big_kernel_lock s)"

lemma switch_tcb_actual_exit:
  assumes sw: "switch_tcb_actual t s = Inr (x, s')" and l: "locks_free s" and r: "return_to_tcb s = Some t"
  shows "exit_ok s x s' \<and> locks_free s' \<and> x = JumpToUserlandFrame t"
proof -
  from sw obtain s1 s2 where ne: "current_tcb s \<noteq> Some t"
    and s1: "save_unless_dead (current_tcb s) s = Inr ((), s1)"
    and s2: "requeue_running (current_tcb s) s1 = Inr ((), s2)"
    and e: "enter_thread t s2 = Inr (x, s')"
    unfolding switch_tcb_actual_split by (auto simp: kbind_Inr kseq_Inr kassert_Inr kget_def)
  obtain g where "s1 = (case current_tcb s of None \<Rightarrow> s | Some c \<Rightarrow> upd_tcb c (\<lambda>u. u\<lparr>t_saved_state := g\<rparr>) s)"
    using save_unless_dead_Inr [OF s1] by blast
  then have f1: "return_to_tcb s1 = return_to_tcb s" "runnable_tcbs_lock s1 = runnable_tcbs_lock s"
    "big_kernel_lock s1 = big_kernel_lock s"
    by (auto split: option.splits)
  obtain T h lk where f2: "s2 = s1\<lparr>tcbs := T, lists := h, runnable_tcbs_lock := lk\<rparr>"
    "lock_free (runnable_tcbs_lock s1) \<longrightarrow> lock_free lk"
    using requeue_running_Inr [OF s2] by blast
  show ?thesis
    using enter_thread_Inr [OF e] f1 f2 l r ne
    by (simp add: exit_ok_def locks_free_def ensure_frame_fields)
qed

lemma save_unless_dead_frame:
  assumes "save_unless_dead cur s = Inr (x, s')"
  shows "return_to_tcb s' = return_to_tcb s \<and> runnable_tcbs_lock s' = runnable_tcbs_lock s \<and>
    big_kernel_lock s' = big_kernel_lock s"
  using save_unless_dead_Inr [OF assms] by (auto split: option.splits)

lemma return_from_kernel_code_exit:
  assumes ret: "return_from_kernel_code s = Inr (x, s')" and l: "locks_free s"
  shows "exit_ok s x s' \<and> locks_free s' \<and> x \<noteq> HaltForever"
proof -
  consider (same) "return_to_tcb s = current_tcb s"
    | (switch) t where "return_to_tcb s = Some t" "return_to_tcb s \<noteq> current_tcb s"
    | (idle) "return_to_tcb s = None" "return_to_tcb s \<noteq> current_tcb s"
    by (cases "return_to_tcb s") auto
  then show ?thesis
  proof cases
    case same
    then show ?thesis using ret l by (auto simp: return_from_kernel_code_def kern_simps exit_ok_def)
  next
    case (switch t)
    then have "switch_tcb_actual t s = Inr (x, s')"
      using ret by (simp add: return_from_kernel_code_def kern_simps)
    then show ?thesis using switch_tcb_actual_exit [OF _ l switch(1)] by auto
  next
    case idle
    then show ?thesis using ret l
      by (auto simp: return_from_kernel_code_def halt_forever_interrupts_enabled_def kern_simps
          exit_ok_def locks_free_def split: sum.splits dest!: save_unless_dead_frame)
  qed
qed

section \<open>System calls below the exit\<close>

text \<open>The parts of the state that only booting and the exit path write.\<close>

definition same_machine :: "kstate \<Rightarrow> kstate \<Rightarrow> bool" where
  "same_machine s0 s \<longleftrightarrow> current_tcb s = current_tcb s0 \<and> cr3 s = cr3 s0 \<and> hhdm s = hhdm s0 \<and>
     regions s = regions s0 \<and> irq_handlers_base s = irq_handlers_base s0 \<and>
     user_mem s = user_mem s0 \<and> port_in s = port_in s0"

definition in_syscall :: "kstate \<Rightarrow> kstate \<Rightarrow> bool" where
  "in_syscall s0 s \<longleftrightarrow> lock_free (runnable_tcbs_lock s) \<and> big_kernel_lock s = big_kernel_lock s0 \<and>
     same_machine s0 s"

interpretation syscall_frame: kernel_frame "in_syscall s0" "\<lambda>_. True" for s0
  by unfold_locales (auto simp: typed_slots_def in_syscall_def same_machine_def acquire_Inr)

lemma acquired_big_lock:
  "lock_free (big_kernel_lock s) \<Longrightarrow> lock_big_kernel s =
     Inr ((), s\<lparr>big_kernel_lock := (big_kernel_lock s)\<lparr>lk_back := lk_back (big_kernel_lock s) + 1\<rparr>\<rparr>)"
  by (simp add: lock_big_kernel_def acquire_def Let_def lock_free_def)

lemma do_syscall_frame:
  assumes l: "locks_free s"
  shows "case do_syscall a0 a1 n s of Inl e \<Rightarrow> e \<noteq> Deadlock | Inr (_, s') \<Rightarrow> locks_free s' \<and> same_machine s s'"
proof -
  let ?s1 = "s\<lparr>big_kernel_lock := (big_kernel_lock s)\<lparr>lk_back := lk_back (big_kernel_lock s) + 1\<rparr>\<rparr>"
  let ?body = "kbind (op_syscall a0 a1 n) (\<lambda>tag.
     if \<not> msg_is_noreturn tag then kbind this_tcb (\<lambda>t. set_ipc_result t tag) else kret ())"
  have lb: "lock_big_kernel s = Inr ((), ?s1)"
    using l by (simp add: acquired_big_lock locks_free_def)
  have I: "in_syscall ?s1 ?s1" using l by (simp add: in_syscall_def same_machine_def locks_free_def)
  have body: "inv_on (in_syscall ?s1) no_deadlock ?body"
    by (intro inv_rules syscall_frame.op_syscall_inv syscall_frame.ipc_ops)
  have split: "do_syscall a0 a1 n s = kseq ?body unlock_big_kernel ?s1"
    using lb by (simp add: do_syscall_def kseq_def kbind_assoc kbind_simps)
  show ?thesis
  proof (cases "?body ?s1")
    case (Inl e)
    then show ?thesis using inv_on_fault [OF body I Inl] by (simp add: split kseq_simps)
  next
    case (Inr p)
    then obtain x s2 where s2: "?body ?s1 = Inr (x, s2)" by (cases p) auto
    have "in_syscall ?s1 s2" by (rule inv_onD [OF body I s2])
    then show ?thesis using s2 l
      by (simp add: split kseq_simps unlock_big_kernel_def kmod_def in_syscall_def same_machine_def locks_free_def)
  qed
qed

section \<open>The entry points as a whole\<close>

text \<open>
  The exit path writes the current thread and the page table root as well. A property that allows this is
  kept by it, and by every entry into the kernel if it does not speak about the big lock.
\<close>

locale exit_frame = kernel_frame +
  assumes keep_current_tcb: "I s \<Longrightarrow> I (s\<lparr>current_tcb := t\<rparr>)"
    and keep_cr3: "I s \<Longrightarrow> I (s\<lparr>cr3 := r\<rparr>)"
begin

lemma exit_path_inv: "inv_on I no_deadlock return_from_kernel_code"
proof -
  have save: "inv_on I no_deadlock (save_unless_dead c)" for c
    unfolding save_unless_dead_def save_tcb_state_def by (intro inv_rules keep_upd; simp)
  have enter: "inv_on I no_deadlock (enter_thread t)" for t
    unfolding enter_thread_def tcb_vm_root_def set_vm_root_def set_tls_base_def
    by (intro inv_rules keep keep_upd sched_ops keep_current_tcb keep_cr3; simp)
  have "inv_on I no_deadlock (switch_tcb_actual t)" for t
    unfolding switch_tcb_actual_split requeue_running_def by (intro inv_rules save enter sched_ops; simp)
  then show ?thesis
    unfolding return_from_kernel_code_def halt_forever_interrupts_enabled_def
    by (intro inv_rules save keep_current_tcb; simp)
qed

end

interpretation locks_frame: exit_frame locks_free "\<lambda>_. True"
  by unfold_locales (auto simp: typed_slots_def locks_free_def acquire_Inr)

lemma exit_ok_cong: "current_tcb s = current_tcb s0 \<Longrightarrow> exit_ok s x s' \<Longrightarrow> exit_ok s0 x s'"
  by (auto simp: exit_ok_def split: kexit.splits)

lemma save_frame_on_tcb_eq:
  "save_frame_on_tcb f s = Inr ((), s') \<Longrightarrow> locks_free s' = locks_free s \<and> same_machine s s'"
  by (auto simp: save_frame_on_tcb_def kern_simps locks_free_def same_machine_def upd_tcb_def
      split: option.splits if_splits)

lemma entry_exit:
  assumes m: "case m s of Inl e \<Rightarrow> e \<noteq> Deadlock | Inr (_, s') \<Rightarrow> locks_free s' \<and> same_machine s0 s'"
  shows "case kseq m return_from_kernel_code s of Inl e \<Rightarrow> e \<noteq> Deadlock
    | Inr (x, s') \<Rightarrow> locks_free s' \<and> exit_ok s0 x s' \<and> x \<noteq> HaltForever"
proof (cases "m s")
  case (Inl e)
  then show ?thesis using m by (simp add: kseq_simps)
next
  case (Inr p)
  then obtain y s1 where s1: "m s = Inr (y, s1)" by (cases p) auto
  then have l: "locks_free s1" and c: "current_tcb s1 = current_tcb s0"
    using m by (simp_all add: same_machine_def)
  show ?thesis
  proof (cases "return_from_kernel_code s1")
    case (Inl e)
    then show ?thesis using inv_on_fault [OF locks_frame.exit_path_inv l Inl] s1 by (simp add: kseq_simps)
  next
    case (Inr q)
    then obtain x s2 where "return_from_kernel_code s1 = Inr (x, s2)" by (cases q) auto
    then show ?thesis using return_from_kernel_code_exit [OF _ l] exit_ok_cong [OF c] s1
      by (simp add: kseq_simps)
  qed
qed

lemma same_machine_trans: "same_machine s0 s1 \<Longrightarrow> same_machine s1 s2 \<Longrightarrow> same_machine s0 s2"
  by (simp add: same_machine_def)

lemma syscall_entry_exit:
  assumes "locks_free s"
  shows "case c_syscall_entry a0 a1 n f s of Inl e \<Rightarrow> e \<noteq> Deadlock
    | Inr (x, s') \<Rightarrow> locks_free s' \<and> exit_ok s x s' \<and> x \<noteq> HaltForever"
proof -
  obtain s1 where s1: "save_frame_on_tcb f s = Inr ((), s1)"
    by (auto simp: save_frame_on_tcb_def kern_simps)
  then have f: "locks_free s1" "same_machine s s1" using assms save_frame_on_tcb_eq by blast+
  have "case do_syscall a0 a1 n s1 of Inl e \<Rightarrow> e \<noteq> Deadlock | Inr (_, s') \<Rightarrow> locks_free s' \<and> same_machine s s'"
    using do_syscall_frame [OF f(1), of a0 a1 n] same_machine_trans [OF f(2)]
    by (auto split: sum.splits)
  from entry_exit [where m = "do_syscall a0 a1 n", OF this] show ?thesis
    using s1 by (simp add: c_syscall_entry_def kseq_simps)
qed

lemma handle_irq_frame:
  assumes l: "locks_free s"
  shows "case handle_irq i s of Inl e \<Rightarrow> e \<noteq> Deadlock | Inr (_, s') \<Rightarrow> locks_free s' \<and> same_machine s s'"
proof -
  have I: "in_syscall s s" using l by (simp add: in_syscall_def same_machine_def locks_free_def)
  note h = syscall_frame.irq_ops(5) [of s i]
  show ?thesis using inv_onD [OF h I] inv_on_fault [OF h I] l
    by (auto simp: in_syscall_def locks_free_def split: sum.splits)
qed

lemma interrupt_entry_exit:
  assumes l: "locks_free s"
  shows "case c_interrupt_entry f s of Inl e \<Rightarrow> e \<noteq> Deadlock | Inr (x, s') \<Rightarrow> locks_free s' \<and> exit_ok s x s'"
proof -
  obtain s1 where s1: "save_frame_on_tcb f s = Inr ((), s1)"
    by (auto simp: save_frame_on_tcb_def kern_simps)
  then have f: "locks_free s1" "same_machine s s1" using assms save_frame_on_tcb_eq by blast+
  let ?n = "f_int_no (frame_mem s1 f)"
  show ?thesis
  proof (cases "32 \<le> ?n \<and> ?n \<le> 48")
    case True
    have "case handle_irq (?n - 32) s1 of Inl e \<Rightarrow> e \<noteq> Deadlock | Inr (_, s') \<Rightarrow> locks_free s' \<and> same_machine s s'"
      using handle_irq_frame [OF f(1), of "?n - 32"] same_machine_trans [OF f(2)] by (auto split: sum.splits)
    from entry_exit [where m = "handle_irq (?n - 32)", OF this] show ?thesis
      using s1 True by (auto simp: c_interrupt_entry_def print_interrupt_info_def kern_simps split: sum.splits)
  next
    case False
    have "case kret () s1 of Inl e \<Rightarrow> e \<noteq> Deadlock | Inr (_, s') \<Rightarrow> locks_free s' \<and> same_machine s s'"
      using f by (simp add: kret_def)
    from entry_exit [where m = "kret ()", OF this] show ?thesis
      using s1 False f by (auto simp: c_interrupt_entry_def print_interrupt_info_def kern_simps
          halt_forever_def exit_ok_def locks_free_def split: sum.splits)
  qed
qed

section \<open>Context switches and yielding\<close>

definition entered :: "addr \<Rightarrow> kstate \<Rightarrow> tcb" where
  "entered t s = (tcbs s t)\<lparr>t_state := TASK_STATE_RUNNING,
     t_saved_state := ensure_frame_valid_for_usermode (t_saved_state (tcbs s t))\<rparr>"

lemma context_switch:
  assumes cur: "current_tcb s = Some c" "c \<noteq> t" "t_current_user_frame (tcbs s c) = Some f"
    and st: "t_state (tcbs s c) = TASK_STATE_RUNNING" "t_state (tcbs s t) = TASK_STATE_RUNNABLE"
    and q: "run_queue s q" "c \<notin> set q" and l: "lock_free (runnable_tcbs_lock s)" and d: "hhdm s \<noteq> 0"
  shows "\<exists>s'. switch_tcb_actual t s = Inr (JumpToUserlandFrame t, s') \<and> run_queue s' (c # q) \<and>
    current_tcb s' = Some t \<and> return_to_tcb s' = return_to_tcb s \<and> hhdm s' = hhdm s \<and>
    tcbs s' = (tcbs s)(c := (tcbs s c)\<lparr>t_state := TASK_STATE_RUNNABLE, t_saved_state := frame_mem s f\<rparr>,
      t := entered t s) \<and>
    runnable_tcbs_lock s' = cycled (runnable_tcbs_lock s) \<and> big_kernel_lock s' = big_kernel_lock s"
proof -
  let ?s1 = "upd_tcb c (\<lambda>u. u\<lparr>t_saved_state := frame_mem s f\<rparr>) s"
  have save: "save_unless_dead (Some c) s = Inr ((), ?s1)"
    using cur st by (simp add: save_unless_dead_def save_tcb_state_def kern_simps)
  have "run_queue ?s1 q" using q by (simp add: run_queue_def)
  then obtain h where h: "schedule_tcb c ?s1 = Inr ((), (upd_tcb c (\<lambda>u. u\<lparr>t_state := TASK_STATE_RUNNABLE\<rparr>) ?s1)
      \<lparr>lists := h, runnable_tcbs_lock := cycled (runnable_tcbs_lock ?s1)\<rparr>)"
    "is_queue h RunQueue (map RunnableNode (c # q))"
    using schedule_tcb_queue [of ?s1 q c] q st l by auto
  let ?s2 = "(upd_tcb c (\<lambda>u. u\<lparr>t_state := TASK_STATE_RUNNABLE\<rparr>) ?s1)
      \<lparr>lists := h, runnable_tcbs_lock := cycled (runnable_tcbs_lock s)\<rparr>"
  have req: "requeue_running (Some c) ?s1 = Inr ((), ?s2)"
    using h st by (simp add: requeue_running_def kern_simps)
  have enter: "t_state (tcbs ?s2 t) = TASK_STATE_RUNNABLE" "hhdm ?s2 \<noteq> 0"
    using st cur d by (simp_all add: upd_tcb_def)
  show ?thesis
    using cur save req enter_thread_eq [OF enter] h(2)
    by (auto simp: switch_tcb_actual_split kern_simps run_queue_def entered_def upd_tcb_def)
qed

text \<open>The state between two system calls: thread \<open>c\<close> runs and \<open>q\<close> waits.\<close>

definition running_with :: "addr \<Rightarrow> addr list \<Rightarrow> kstate \<Rightarrow> bool" where
  "running_with c q s \<longleftrightarrow> current_tcb s = Some c \<and> return_to_tcb s = Some c \<and>
     t_state (tcbs s c) = TASK_STATE_RUNNING \<and> run_queue s q \<and> c \<notin> set q \<and> locks_free s \<and> hhdm s \<noteq> 0"

text \<open>What one yield does to the running thread and the queue.\<close>

fun yield_abs :: "addr \<times> addr list \<Rightarrow> addr \<times> addr list" where
  "yield_abs (c, []) = (c, [])"
| "yield_abs (c, t # q) = (t, c # q)"

lemma run_queue_fields [simp]:
  "run_queue (upd_tcb t f s) q = run_queue s q" "run_queue (s\<lparr>big_kernel_lock := l\<rparr>) q = run_queue s q"
  "run_queue (s\<lparr>return_to_tcb := r\<rparr>) q = run_queue s q" "run_queue (s\<lparr>runnable_tcbs_lock := l\<rparr>) q = run_queue s q"
  by (simp_all add: run_queue_def)

lemma current_is_running_Some: "current_tcb s = Some c \<Longrightarrow>
    current_is_running s \<longleftrightarrow> t_state (tcbs s c) = TASK_STATE_RUNNING"
  by (simp add: current_is_running_def)

lemma yield_empty:
  assumes "running_with c [] s" "f_cs (frame_mem s f) = USER_CS"
  shows "\<exists>s'. c_syscall_entry a0 a1 SYS_YIELD f s = Inr (ReturnToFrame, s') \<and> running_with c [] s'"
proof -
  let ?s1 = "upd_tcb c (\<lambda>u. u\<lparr>t_current_user_frame := Some f\<rparr>) s"
  let ?s2 = "?s1\<lparr>big_kernel_lock := (big_kernel_lock s)\<lparr>lk_back := lk_back (big_kernel_lock s) + 1\<rparr>\<rparr>"
  have s1: "save_frame_on_tcb f s = Inr ((), ?s1)"
    using assms by (simp add: save_frame_on_tcb_def kern_simps running_with_def)
  have lb: "lock_big_kernel ?s1 = Inr ((), ?s2)"
    using assms acquired_big_lock [of ?s1] by (simp add: running_with_def locks_free_def)
  have sch: "schedule ?s2 = Inr ((), ?s2\<lparr>runnable_tcbs_lock := cycled (runnable_tcbs_lock s)\<rparr>)"
    using assms schedule_empty [of ?s2] current_is_running_Some [of ?s2 c]
    by (simp add: running_with_def locks_free_def)
  show ?thesis
    using assms s1 lb sch
    by (auto simp: c_syscall_entry_def do_syscall_def op_syscall_def Let_def kern_simps unlock_big_kernel_def
        return_from_kernel_code_def running_with_def locks_free_def)
qed

lemma yield_switch:
  assumes r: "running_with c (t # q) s" and f: "f_cs (frame_mem s f) = USER_CS"
  shows "\<exists>s'. c_syscall_entry a0 a1 SYS_YIELD f s = Inr (JumpToUserlandFrame t, s') \<and> running_with t (c # q) s'"
proof -
  let ?s1 = "upd_tcb c (\<lambda>u. u\<lparr>t_current_user_frame := Some f\<rparr>) s"
  let ?s2 = "?s1\<lparr>big_kernel_lock := (big_kernel_lock s)\<lparr>lk_back := lk_back (big_kernel_lock s) + 1\<rparr>\<rparr>"
  have s1: "save_frame_on_tcb f s = Inr ((), ?s1)"
    using assms by (simp add: save_frame_on_tcb_def kern_simps running_with_def)
  have lb: "lock_big_kernel ?s1 = Inr ((), ?s2)"
    using assms acquired_big_lock [of ?s1] by (simp add: running_with_def locks_free_def)
  have rq: "run_queue ?s2 (t # q)" "lock_free (runnable_tcbs_lock ?s2)"
    using r by (simp_all add: running_with_def locks_free_def)
  from schedule_first [OF rq] obtain h where
    sch: "schedule ?s2 = Inr ((), (upd_tcb t (\<lambda>u. u\<lparr>t_state := TASK_STATE_RUNNABLE\<rparr>)
      (?s2\<lparr>lists := h, runnable_tcbs_lock := cycled (runnable_tcbs_lock s)\<rparr>))\<lparr>return_to_tcb := Some t\<rparr>)"
    and h: "is_queue h RunQueue (map RunnableNode q)" by auto
  let ?s3 = "(upd_tcb t (\<lambda>u. u\<lparr>t_state := TASK_STATE_RUNNABLE\<rparr>)
      (?s2\<lparr>lists := h, runnable_tcbs_lock := cycled (runnable_tcbs_lock s)\<rparr>))\<lparr>return_to_tcb := Some t\<rparr>"
  let ?s4 = "?s3\<lparr>big_kernel_lock := cycled (big_kernel_lock s)\<rparr>"
  have do: "do_syscall a0 a1 SYS_YIELD ?s1 = Inr ((), ?s4)"
    using lb sch by (simp add: do_syscall_def op_syscall_def Let_def kern_simps unlock_big_kernel_def)
  have tq: "c \<noteq> t" "c \<notin> set q" "t \<notin> set q" using r run_queue_distinct [OF rq(1)] by (auto simp: running_with_def)
  have pre: "current_tcb ?s4 = Some c" "t_current_user_frame (tcbs ?s4 c) = Some f"
    "t_state (tcbs ?s4 c) = TASK_STATE_RUNNING" "t_state (tcbs ?s4 t) = TASK_STATE_RUNNABLE"
    "run_queue ?s4 q" "lock_free (runnable_tcbs_lock ?s4)" "hhdm ?s4 \<noteq> 0"
    using r tq h by (simp_all add: running_with_def run_queue_def locks_free_def upd_tcb_def)
  from context_switch [OF pre(1) tq(1) pre(2,3,4,5) tq(2) pre(6,7)] obtain s' where
    s': "switch_tcb_actual t ?s4 = Inr (JumpToUserlandFrame t, s')" "run_queue s' (c # q)"
      "current_tcb s' = Some t" "return_to_tcb s' = return_to_tcb ?s4" "hhdm s' = hhdm ?s4"
      "tcbs s' t = entered t ?s4" "runnable_tcbs_lock s' = cycled (runnable_tcbs_lock ?s4)"
      "big_kernel_lock s' = big_kernel_lock ?s4"
    by (metis fun_upd_same)
  have "return_from_kernel_code ?s4 = Inr (JumpToUserlandFrame t, s')"
    using s'(1) pre(1) tq by (simp add: return_from_kernel_code_def kern_simps)
  moreover have "running_with t (c # q) s'"
    using s'(2-) pre(6,7) tq r by (simp add: running_with_def entered_def locks_free_def)
  ultimately show ?thesis using s1 do by (auto simp: c_syscall_entry_def kern_simps)
qed

text \<open>
  One yield as the processor performs it: user code runs in between and changes the frame that the
  entry code pushes, and then the system call is made from user mode.
\<close>

inductive yield_step :: "kstate \<Rightarrow> kstate \<Rightarrow> bool" where
  "f_cs (fm f) = USER_CS \<Longrightarrow>
   c_syscall_entry a0 a1 SYS_YIELD f (s\<lparr>frame_mem := fm\<rparr>) = Inr (x, s') \<Longrightarrow> yield_step s s'"

inductive_cases yield_stepE: "yield_step s s'"

lemma running_with_frame_mem [simp]: "running_with c q (s\<lparr>frame_mem := fm\<rparr>) = running_with c q s"
  by (simp add: running_with_def run_queue_def locks_free_def)

lemma yield_refines_step:
  assumes "running_with c q s" and "yield_step s s'"
  shows "running_with (fst (yield_abs (c, q))) (snd (yield_abs (c, q))) s'"
  using assms(2)
proof (rule yield_stepE)
  fix fm f a0 a1 x
  assume f: "f_cs (fm f) = USER_CS"
    and e: "c_syscall_entry a0 a1 SYS_YIELD f (s\<lparr>frame_mem := fm\<rparr>) = Inr (x, s')"
  show ?thesis
  proof (cases q)
    case Nil
    then show ?thesis using yield_empty [of c "s\<lparr>frame_mem := fm\<rparr>" f a0 a1] assms(1) f e by auto
  next
    case (Cons t r)
    then show ?thesis using yield_switch [of c t r "s\<lparr>frame_mem := fm\<rparr>" f a0 a1] assms(1) f e by auto
  qed
qed

lemma running_with_current: "running_with c q s \<Longrightarrow> current_tcb s = Some c"
  by (simp add: running_with_def)

lemma yield_possible:
  assumes "running_with c q s"
  shows "\<exists>s'. yield_step s s'"
proof -
  let ?fm = "\<lambda>_. new_user_frame 0 0"
  have f: "f_cs (?fm 0) = USER_CS" by (simp add: new_user_frame_def)
  have "\<exists>x s'. c_syscall_entry 0 0 SYS_YIELD 0 (s\<lparr>frame_mem := ?fm\<rparr>) = Inr (x, s')"
    using yield_empty [of c "s\<lparr>frame_mem := ?fm\<rparr>" 0 0 0] yield_switch [of c _ _ "s\<lparr>frame_mem := ?fm\<rparr>" 0 0 0] assms f
    by (cases q) fastforce+
  then show ?thesis using yield_step.intros [where fm = ?fm and f = 0, OF f] by blast
qed

lemma yields_alternate:
  assumes "yield_step\<^sup>*\<^sup>* s s'" and "running_with a (b # r) s"
  shows "running_with a (b # r) s' \<or> running_with b (a # r) s'"
  using assms
proof (induction rule: rtranclp_induct)
  case base
  then show ?case by simp
next
  case (step y z)
  then show ?case using yield_refines_step [of a "b # r" y z] yield_refines_step [of b "a # r" y z] by auto
qed

lemma three_threads_running: "running_with thread_a [thread_b, thread_c] three_threads"
  by (simp add: running_with_def three_threads_def idle_machine_def run_queue_def is_queue_def
      locks_free_def lock_free_def)

section \<open>Properties\<close>





text \<open>Up to the point where the kernel leaves, a system call changes neither the current thread nor the
  page table root, the direct map, the physical memory regions or user memory, whatever the call.\<close>

theorem syscall_keeps_machine:
  assumes "lock_free (runnable_tcbs_lock s)" "lock_free (big_kernel_lock s)"
    and "do_syscall a0 a1 n s = Inr (r, s')"
  shows "current_tcb s' = current_tcb s \<and> cr3 s' = cr3 s \<and> hhdm s' = hhdm s \<and> regions s' = regions s \<and>
    user_mem s' = user_mem s \<and> irq_handlers_base s' = irq_handlers_base s"
  using do_syscall_frame [of s a0 a1 n] assms by (simp add: locks_free_def same_machine_def)

theorem syscall_keeps_machine_witness:
  "\<exists>s'. do_syscall 0 0 SYS_DEBUG_WRITE (three_threads\<lparr>tcbs := (\<lambda>_. zero_tcb\<lparr>t_current_user_frame := Some 8\<rparr>)\<rparr>) = Inr ((), s') \<and>
    cr3 s' = 0x1000"
proof -
  let ?s = "three_threads\<lparr>tcbs := (\<lambda>_. zero_tcb\<lparr>t_current_user_frame := Some 8\<rparr>)\<rparr>"
  have l: "lock_free (runnable_tcbs_lock ?s)" "lock_free (big_kernel_lock ?s)"
    by (simp_all add: three_threads_def idle_machine_def lock_free_def)
  have "\<exists>s'. do_syscall 0 0 SYS_DEBUG_WRITE ?s = Inr ((), s')"
    using acquired_big_lock [OF l(2)]
    by (simp add: do_syscall_def op_syscall_def kern_simps Let_def set_ipc_result_def ipc_frame_def
        unlock_big_kernel_def three_threads_def)
  then show ?thesis
    using syscall_keeps_machine [OF l] by (fastforce simp: three_threads_def idle_machine_def)
qed

text \<open>C14: A yield gives the processor to the head of the run queue, puts the running thread there in its
  place and keeps the rest of the queue in order; with an empty queue the thread keeps running. Its
  registers are saved from the frame of the system call.\<close>

theorem yield_implements_abs:
  assumes "running_with c q s" "f_cs (frame_mem s f) = USER_CS"
  shows "\<exists>x s'. c_syscall_entry a0 a1 SYS_YIELD f s = Inr (x, s') \<and>
    running_with (fst (yield_abs (c, q))) (snd (yield_abs (c, q))) s'"
proof (cases q)
  case Nil
  then show ?thesis using yield_empty [of c s f a0 a1] assms by auto
next
  case (Cons t r)
  then show ?thesis using yield_switch [of c t r s f a0 a1] assms by auto
qed

theorem yield_implements_abs_witness:
  "\<exists>x s'. c_syscall_entry 0 0 SYS_YIELD user_frame_addr three_threads = Inr (x, s') \<and>
    running_with thread_b [thread_a, thread_c] s'"
proof -
  have f: "f_cs (frame_mem three_threads user_frame_addr) = USER_CS"
    by (simp add: three_threads_def new_user_frame_def)
  show ?thesis using yield_implements_abs [OF three_threads_running f, of 0 0] by simp
qed

text \<open>C40: The run queue is a stack, so yielding starves: while the two threads at its top do nothing but
  yield, no run of the system ever reaches a state in which one of the other queued threads runs, and
  yielding is always possible.\<close>

theorem yielding_starves:
  assumes "running_with a (b # r) s" "yield_step\<^sup>*\<^sup>* s s'"
  shows "(current_tcb s' = Some a \<or> current_tcb s' = Some b) \<and> (\<exists>s''. yield_step s' s'')"
  using yields_alternate [OF assms(2,1)] running_with_current yield_possible by blast

theorem yielding_starves_witness: "\<exists>s'. yield_step three_threads s' \<and> current_tcb s' \<noteq> Some thread_c"
proof -
  obtain s' where s': "yield_step three_threads s'" using yield_possible [OF three_threads_running] by blast
  show ?thesis using yielding_starves [OF three_threads_running r_into_rtranclp [of yield_step, OF s']] s' by auto
qed

end
