(* ===== verification/Ipc_Properties.thy ===== *)
theory Ipc_Properties
  imports Endpoint Example_State
begin

text \<open>
  Message passing and notifications as their users see them: what a sender, a receiver, a caller and a
  signaller obtain in each order of arrival, and two places where a message or a signal is damaged.
\<close>

section \<open>Blocking\<close>

lemma queue_message_eq:
  assumes q: "waiting s (EndpointList e) q" "me \<notin> set q"
    and cur: "current_tcb s = Some me" "t_current_user_frame (tcbs s me) = Some f" "f_rsi (frame_mem s f) = tag"
    and rq: "run_queue s rq" "me \<notin> set rq" and l: "lock_free (runnable_tcbs_lock s)"
  shows "\<exists>s'. queue_message_on_endpoint e badge tag is_call s = Inr ((), s') \<and>
    waiting s' (EndpointList e) (me # q) \<and> run_queue s' (tl rq) \<and>
    return_to_tcb s' = (if rq = [] then None else Some (hd rq)) \<and>
    tcbs s' me = (tcbs s me)\<lparr>t_state := if is_call then TASK_STATE_CALLING else TASK_STATE_SENDING, t_endpoint_badge := badge\<rparr> \<and>
    ipc_buffers s' = ipc_buffers s \<and> frame_mem s' = frame_mem s \<and> ctes s' = ctes s \<and> current_tcb s' = Some me"
proof -
  obtain h where h: "append_to_list (SendRecvNode me) (EndpointList e) (lists s) = Inr ((), h)"
    "is_queue h (EndpointList e) (map SendRecvNode (me # q))"
    "\<forall>n. n \<noteq> EndpointList e \<and> (\<forall>u. n \<noteq> SendRecvNode u) \<longrightarrow> h n = lists s n"
    using append_waiting [OF q] by blast
  let ?st = "if is_call then TASK_STATE_CALLING else TASK_STATE_SENDING"
  let ?s1 = "upd_tcb me (\<lambda>u. u\<lparr>t_endpoint_badge := badge\<rparr>) (upd_tcb me (\<lambda>u. u\<lparr>t_state := ?st\<rparr>) (s\<lparr>lists := h\<rparr>))"
  have pend: "get_pending_ipc_info me s = Inr (tag, s)"
    using cur by (simp add: get_pending_ipc_info_def ipc_frame_def read_frame_def kern_simps
        get_frame_syscall_arg_def get_frame_arg_def message_info_from_word_def)
  have qm: "queue_message_on_endpoint e badge tag is_call s = schedule ?s1"
    using cur pend h(1) by (simp add: queue_message_on_endpoint_def kern_simps)
  have rq1: "run_queue ?s1 rq"
    using run_queue_other [of s rq "EndpointList e" h] rq(1) h(3) by (simp add: run_queue_def)
  have nr: "\<not> current_is_running ?s1" using cur by (simp add: current_is_running_def)
  have "lock_free (runnable_tcbs_lock ?s1)" using l by simp
  from schedule_any [OF rq1 this] obtain s' where
    s': "schedule ?s1 = Inr ((), s')" "sched_frame ?s1 s'" "run_queue s' (tl rq)"
      "return_to_tcb s' = (if rq = [] then None else Some (hd rq))"
      "tcbs s' me = tcbs ?s1 me"
    using rq(2) nr hd_in_set [of rq] by (metis (no_types, lifting))
  have "is_queue (lists s') (EndpointList e) (map SendRecvNode (me # q))"
    by (rule waiting_other [OF h(2)]) (use s'(2) in \<open>auto simp: sched_frame_def\<close>)
  then show ?thesis using qm s' cur by (simp add: sched_frame_def waiting_def)
qed

section \<open>Replies and notifications\<close>

lemma invoke_reply_eq:
  assumes cur: "current_tcb s = Some me" "t_reply_to (tcbs s me) = Some r" "r \<noteq> me"
    and st: "t_state (tcbs s r) = TASK_STATE_CALLING"
    and buf: "t_ipc_buffer (tcbs s r) = Some rb" "t_ipc_buffer (tcbs s me) = Some sb" "message_extra_caps tag = 0"
    and rq: "run_queue s rq" "r \<notin> set rq" and l: "lock_free (runnable_tcbs_lock s)"
  shows "\<exists>s'. invoke_reply tag s = Inr ((), s') \<and> run_queue s' (r # rq) \<and>
    ipc_buffers s' = (ipc_buffers s)(rb := deliver tag 0 (ipc_buffers s sb) (ipc_buffers s rb)) \<and>
    f_rax (t_saved_state (tcbs s' r)) = tag \<and> t_state (tcbs s' r) = TASK_STATE_RUNNABLE \<and>
    (\<forall>t. t \<noteq> r \<longrightarrow> tcbs s' t = tcbs s t) \<and> return_to_tcb s' = return_to_tcb s"
proof -
  let ?s1 = "upd_tcb r (received (t_expects_reply (tcbs s me)) me tag)
      (s\<lparr>ipc_buffers := (ipc_buffers s)(rb := deliver tag 0 (ipc_buffers s sb) (ipc_buffers s rb))\<rparr>)"
  have ne: "current_tcb s \<noteq> Some r" using cur by simp
  have "run_queue ?s1 rq" "t_state (tcbs ?s1 r) \<noteq> TASK_STATE_DEAD" "lock_free (runnable_tcbs_lock ?s1)"
    using rq(1) st l by (simp_all add: run_queue_def received_def)
  from schedule_tcb_queue [OF this(1) rq(2) this(2,3)] obtain h where
    h: "schedule_tcb r ?s1 = Inr ((), (upd_tcb r (\<lambda>u. u\<lparr>t_state := TASK_STATE_RUNNABLE\<rparr>) ?s1)
        \<lparr>lists := h, runnable_tcbs_lock := cycled (runnable_tcbs_lock ?s1)\<rparr>)"
      "is_queue h RunQueue (map RunnableNode (r # rq))" by blast
  have "invoke_reply tag s = schedule_tcb r ?s1"
    using cur st buf transfer_to_blocked [OF buf ne]
    by (simp add: invoke_reply_def send_message_directly_def kern_simps)
  then show ?thesis using h by (simp add: run_queue_def received_def)
qed

text \<open>A sequence of signals on one notification.\<close>

fun signal_all :: "addr \<Rightarrow> word_t list \<Rightarrow> (kstate, unit) kern" where
  "signal_all n [] = kret ()"
| "signal_all n (b # bs) = kseq (notification_signal n b) (signal_all n bs)"

lemma signal_all_pending:
  "nobody_listens n s \<Longrightarrow> signal_all n bs s = Inr ((), upd_nfn n (\<lambda>u. u\<lparr>n_word := fold (\<lambda>b w. w OR b) bs (n_word u)\<rparr>) s)"
proof (induction bs arbitrary: s)
  case Nil
  then show ?case by (simp add: kern_simps upd_nfn_def)
next
  case (Cons b bs)
  show ?case using Cons.IH [OF signal_pending(2) [OF Cons.prems, of b]] signal_pending(1) [OF Cons.prems, of b]
    by (simp add: kern_simps upd_nfn_def)
qed

lemma signal_waiting:
  assumes q: "waiting s (NotificationList n) (t # q)" and cur: "current_tcb s \<noteq> Some t"
    and buf: "t_ipc_buffer (tcbs s t) = Some tb"
  shows "\<exists>s'. notification_signal n b s = Inr ((), s') \<and> waiting s' (NotificationList n) q \<and>
    n_word (notifications s' n) = 0 \<and>
    ipc_buffers s' = (ipc_buffers s)(tb := (ipc_buffers s tb)(IPC_SENDER_BADGE := n_word (notifications s n) OR b)) \<and>
    t_state (tcbs s' t) = TASK_STATE_RUNNABLE \<and> f_rax (t_saved_state (tcbs s' t)) = msg_ok 0 \<and>
    return_to_tcb s' = Some t \<and> (\<forall>u. u \<noteq> t \<longrightarrow> tcbs s' u = tcbs s u)"
proof -
  obtain h where h: "remove_from_list (SendRecvNode t) (lists s) = Inr ((), h)"
    "is_queue h (NotificationList n) (map SendRecvNode q)"
    using remove_waiting_first [OF q] by blast
  then show ?thesis
    using cur buf waiting_empty [OF q] waiting_first [OF q]
    by (auto simp: notification_signal_def kern_simps send_receive_container_def signal_waiting_receiver_def
        set_ipc_result_def ipc_frame_def write_frame_def read_frame_def set_frame_return_def
        message_info_to_word_def switch_tcb_def waiting_def upd_ipc_def)
qed

lemma example_waiting:
  "waiting (ipc_example (EndpointList e) st) (EndpointList e) [thread_b]"
  "waiting (ipc_example (NotificationList e) st) (NotificationList e) [thread_b]"
  by (simp_all add: waiting_def ipc_example_def is_queue_def)

lemma example_run_queue:
  "run_queue (ipc_example (EndpointList e) st) []" "run_queue (ipc_example (NotificationList e) st) []"
  by (simp_all add: run_queue_def ipc_example_def is_queue_def)

lemma tag_numerals [simp]:
  "message_extra_caps 2 = 0" "message_length 2 = 2" "message_extra_caps 511 = 0" "message_length 511 = 511"
  by (simp_all add: message_extra_caps_def message_length_def get_field_def drop_bit_eq_div take_bit_eq_mod)

lemma invoke_send_eq:
  assumes "cap_type (slot_cap (ctes s) c) = CAP_ENDPOINT" "current_tcb s = Some me"
  shows "invoke_endpoint_send c tag s = endpoint_send (cap_ptr (slot_cap (ctes s) c)) (cap_badge (slot_cap (ctes s) c)) tag False
    (upd_tcb me (\<lambda>u. u\<lparr>t_expects_reply := False\<rparr>) s)"
  using assms by (simp add: invoke_endpoint_send_def kern_simps)

lemma waiting_upd [simp]: "waiting (upd_tcb t f s) head q = waiting s head q"
  by (simp add: waiting_def)

section \<open>Properties\<close>



text \<open>C8: A receive on an endpoint at which a sender is blocked takes the message that the sender left: the
  words from its buffer, the badge with which it was queued and the tag from its saved registers, which
  is also the result of the call. A sender that expects a reply stays blocked and is recorded as the
  one to reply to; any other sender goes to the run queue.\<close>

theorem recv_delivers:
  assumes cap: "cap_type (slot_cap (ctes s) c) = CAP_ENDPOINT"
    and q: "waiting s (EndpointList (cap_ptr (slot_cap (ctes s) c))) (x # q)"
      "t_state (tcbs s x) = TASK_STATE_SENDING \<or> t_state (tcbs s x) = TASK_STATE_CALLING"
    and cur: "current_tcb s = Some me" "x \<noteq> me" "t_current_user_frame (tcbs s me) = Some f" "t_bound_notification (tcbs s me) = None"
    and buf: "t_ipc_buffer (tcbs s me) = Some rb" "t_ipc_buffer (tcbs s x) = Some sb"
    and tag: "tag = f_rsi (t_saved_state (tcbs s x))" "message_extra_caps tag = 0"
    and rq: "run_queue s rq" "x \<notin> set rq" and l: "lock_free (runnable_tcbs_lock s)"
  shows "\<exists>s'. invoke_endpoint_recv c s = Inr (tag, s') \<and> waiting s' (EndpointList (cap_ptr (slot_cap (ctes s) c))) q \<and>
    (\<forall>i. ipc_buffers s' rb i = (if i = IPC_SENDER_BADGE then t_endpoint_badge (tcbs s x)
       else if i < unat (message_length tag) then ipc_buffers s sb i else ipc_buffers s rb i)) \<and>
    (\<forall>b. b \<noteq> rb \<longrightarrow> ipc_buffers s' b = ipc_buffers s b) \<and> f_rax (frame_mem s' f) = tag \<and>
    (if t_expects_reply (tcbs s x)
     then t_reply_to (tcbs s' me) = Some x \<and> t_state (tcbs s' x) = t_state (tcbs s x) \<and> run_queue s' rq
     else t_reply_to (tcbs s' me) = t_reply_to (tcbs s me) \<and> t_state (tcbs s' x) = TASK_STATE_RUNNABLE \<and>
       run_queue s' (x # rq)) \<and>
    (\<forall>t. t \<noteq> me \<and> t \<noteq> x \<longrightarrow> tcbs s' t = tcbs s t)"
proof -
  have "invoke_endpoint_recv c s = endpoint_recv (cap_ptr (slot_cap (ctes s) c)) s"
    using cap cur by (simp add: invoke_endpoint_recv_def handle_recv_with_pending_notification_def kern_simps)
  then show ?thesis
    using endpoint_recv_rendezvous [OF q cur(1-3) buf tag rq l] by (fastforce simp: deliver_words)
qed

theorem recv_delivers_witness:
  "\<exists>s'. invoke_endpoint_recv (Slot 0) (ipc_example (EndpointList the_endpoint) TASK_STATE_CALLING) = Inr (2, s') \<and>
    ipc_buffers s' buffer_a 1 = 201 \<and> ipc_buffers s' buffer_a IPC_SENDER_BADGE = 9 \<and>
    t_reply_to (tcbs s' thread_a) = Some thread_b"
proof -
  let ?s = "ipc_example (EndpointList the_endpoint) TASK_STATE_CALLING"
  have w: "waiting ?s (EndpointList (cap_ptr (slot_cap (ctes ?s) (Slot 0)))) [thread_b]"
    using example_waiting(1) [of the_endpoint] by simp
  have l: "lock_free (runnable_tcbs_lock ?s)" by (simp add: lock_free_def)
  from recv_delivers [OF _ w, of thread_a user_frame_addr buffer_a buffer_b 2 "[]"] l show ?thesis
    using example_run_queue(1) by fastforce
qed

text \<open>A send on an endpoint without a waiting receiver blocks the sender: it becomes the first of the
  endpoint's queue in the sending state with the badge of its capability, its message stays in its
  buffer and its tag in its registers, and the head of the run queue, if there is one, runs next.\<close>

theorem send_blocks:
  assumes cap: "cap_type (slot_cap (ctes s) c) = CAP_ENDPOINT"
    and q: "waiting s (EndpointList (cap_ptr (slot_cap (ctes s) c))) q" "me \<notin> set q"
      "q = [] \<or> t_state (tcbs s (hd q)) = TASK_STATE_SENDING \<or> t_state (tcbs s (hd q)) = TASK_STATE_CALLING"
    and cur: "current_tcb s = Some me" "t_current_user_frame (tcbs s me) = Some f" "f_rsi (frame_mem s f) = tag"
    and rq: "run_queue s rq" "me \<notin> set rq" and l: "lock_free (runnable_tcbs_lock s)"
  shows "\<exists>s'. invoke_endpoint_send c tag s = Inr ((), s') \<and>
    waiting s' (EndpointList (cap_ptr (slot_cap (ctes s) c))) (me # q) \<and> run_queue s' (tl rq) \<and>
    t_state (tcbs s' me) = TASK_STATE_SENDING \<and> t_endpoint_badge (tcbs s' me) = cap_badge (slot_cap (ctes s) c) \<and>
    \<not> t_expects_reply (tcbs s' me) \<and> ipc_buffers s' = ipc_buffers s \<and> frame_mem s' = frame_mem s \<and>
    return_to_tcb s' = (if rq = [] then None else Some (hd rq))"
proof -
  let ?s = "upd_tcb me (\<lambda>u. u\<lparr>t_expects_reply := False\<rparr>) s"
  let ?e = "cap_ptr (slot_cap (ctes s) c)"
  have w: "waiting ?s (EndpointList ?e) q" using q(1) by simp
  have hd_ne: "q \<noteq> [] \<Longrightarrow> hd q \<noteq> me" using q(2) by (cases q) auto
  have blk: "send_will_block ?e ?s = Inr (True, ?s)"
    using send_will_block_eq [of ?s ?e] w q(3) hd_ne by (cases q) auto
  have "current_tcb ?s = Some me" "t_current_user_frame (tcbs ?s me) = Some f" "f_rsi (frame_mem ?s f) = tag"
    "run_queue ?s rq" "lock_free (runnable_tcbs_lock ?s)"
    using cur rq l by (auto simp: run_queue_def)
  from queue_message_eq [OF w q(2) this(1-4) rq(2) this(5), of "cap_badge (slot_cap (ctes s) c)" False]
  show ?thesis using invoke_send_eq [OF cap cur(1), of tag] blk by (auto simp: endpoint_send_def kern_simps)
qed

theorem send_blocks_witness:
  "\<exists>s'. invoke_endpoint_send (Slot 0) 2 (ipc_example (EndpointList the_endpoint) TASK_STATE_SENDING) = Inr ((), s') \<and>
    waiting s' (EndpointList the_endpoint) [thread_a, thread_b] \<and> return_to_tcb s' = None"
proof -
  let ?s = "ipc_example (EndpointList the_endpoint) TASK_STATE_SENDING"
  have w: "waiting ?s (EndpointList (cap_ptr (slot_cap (ctes ?s) (Slot 0)))) [thread_b]"
    using example_waiting(1) [of the_endpoint] by simp
  have l: "lock_free (runnable_tcbs_lock ?s)" by (simp add: lock_free_def)
  from send_blocks [OF _ w, of thread_a user_frame_addr 2 "[]"] l show ?thesis
    using example_run_queue(1) by fastforce
qed

text \<open>C12: A call on an endpoint at which a server waits delivers the message like a send and records the caller
  as the one to reply to; the caller is left in the calling state, so that the server's reply finds it
  there.\<close>

theorem call_records_caller:
  assumes cap: "cap_type (slot_cap (ctes s) c) = CAP_ENDPOINT" "current_tcb s = Some me"
    and q: "waiting s (EndpointList (cap_ptr (slot_cap (ctes s) c))) (r # q)" "r \<noteq> me" "t_state (tcbs s r) = TASK_STATE_RECEIVING"
    and buf: "t_ipc_buffer (tcbs s r) = Some rb" "t_ipc_buffer (tcbs s me) = Some sb" "message_extra_caps tag = 0"
  shows "\<exists>s'. invoke_endpoint_call c tag s = Inr ((), s') \<and>
    ipc_buffers s' rb = deliver tag (cap_badge (slot_cap (ctes s) c)) (ipc_buffers s sb) (ipc_buffers s rb) \<and>
    t_reply_to (tcbs s' r) = Some me \<and> t_state (tcbs s' me) = TASK_STATE_CALLING \<and>
    t_state (tcbs s' r) = TASK_STATE_RUNNABLE \<and> f_rax (t_saved_state (tcbs s' r)) = tag \<and> return_to_tcb s' = Some r"
proof -
  let ?s = "upd_tcb me (\<lambda>u. u\<lparr>t_state := TASK_STATE_CALLING\<rparr>) (upd_tcb me (\<lambda>u. u\<lparr>t_expects_reply := True\<rparr>) s)"
  have inv: "invoke_endpoint_call c tag s =
      endpoint_send (cap_ptr (slot_cap (ctes s) c)) (cap_badge (slot_cap (ctes s) c)) tag True ?s"
    using cap by (simp add: invoke_endpoint_call_def kern_simps)
  have "waiting ?s (EndpointList (cap_ptr (slot_cap (ctes s) c))) (r # q)" "t_state (tcbs ?s r) = TASK_STATE_RECEIVING"
    "current_tcb ?s = Some me" "t_ipc_buffer (tcbs ?s r) = Some rb" "t_ipc_buffer (tcbs ?s me) = Some sb"
    using assms by auto
  from endpoint_send_rendezvous [OF this(1-3) q(2) this(4,5) buf(3),
      of "cap_badge (slot_cap (ctes s) c)" True]
  show ?thesis using inv q(2) by (auto simp: received_def)
qed

theorem call_records_caller_witness:
  "\<exists>s'. invoke_endpoint_call (Slot 0) 2 (ipc_example (EndpointList the_endpoint) TASK_STATE_RECEIVING) = Inr ((), s') \<and>
    t_reply_to (tcbs s' thread_b) = Some thread_a"
proof -
  let ?s = "ipc_example (EndpointList the_endpoint) TASK_STATE_RECEIVING"
  have "waiting ?s (EndpointList (cap_ptr (slot_cap (ctes ?s) (Slot 0)))) [thread_b]"
    using example_waiting(1) [of the_endpoint] by simp
  from call_records_caller [OF _ _ this, of thread_a buffer_b buffer_a 2] show ?thesis by fastforce
qed

text \<open>C13: A reply to a thread that is calling delivers the message with badge zero, puts the tag into the
  caller's result register, makes it runnable and puts it at the head of the run queue; the replying
  thread keeps the processor.\<close>

theorem reply_resumes_caller:
  assumes "current_tcb s = Some me" "t_reply_to (tcbs s me) = Some r" "r \<noteq> me"
    and "t_state (tcbs s r) = TASK_STATE_CALLING"
    and "t_ipc_buffer (tcbs s r) = Some rb" "t_ipc_buffer (tcbs s me) = Some sb" "message_extra_caps tag = 0"
    and "run_queue s rq" "r \<notin> set rq" "lock_free (runnable_tcbs_lock s)"
  shows "\<exists>s'. invoke_reply tag s = Inr ((), s') \<and> run_queue s' (r # rq) \<and>
    (\<forall>i < unat (message_length tag). i \<noteq> IPC_SENDER_BADGE \<longrightarrow> ipc_buffers s' rb i = ipc_buffers s sb i) \<and>
    ipc_buffers s' rb IPC_SENDER_BADGE = 0 \<and>
    f_rax (t_saved_state (tcbs s' r)) = tag \<and> t_state (tcbs s' r) = TASK_STATE_RUNNABLE \<and>
    (\<forall>t. t \<noteq> r \<longrightarrow> tcbs s' t = tcbs s t) \<and> return_to_tcb s' = return_to_tcb s"
  using invoke_reply_eq [OF assms] by (fastforce simp: deliver_words)

theorem reply_resumes_caller_witness:
  "\<exists>s'. invoke_reply 2 (ipc_example (EndpointList the_endpoint) TASK_STATE_CALLING) = Inr ((), s') \<and>
    run_queue s' [thread_b] \<and> ipc_buffers s' buffer_b 1 = 101"
proof -
  have l: "lock_free (runnable_tcbs_lock (ipc_example (EndpointList the_endpoint) TASK_STATE_CALLING))"
    by (simp add: lock_free_def)
  from reply_resumes_caller [of _ thread_a thread_b buffer_b buffer_a 2 "[]", OF _ _ _ _ _ _ _ example_run_queue(1) _ l]
  show ?thesis by fastforce
qed

text \<open>A message of more than 504 words is not rejected and not cut: the copy runs over the end of the
  receiver's message words, and the fields behind them, with which the receiver says where a
  transferred capability goes, become words chosen by the sender.\<close>

theorem long_message_overwrites_receive_path:
  assumes cap: "cap_type (slot_cap (ctes s) c) = CAP_ENDPOINT" "current_tcb s = Some me"
    and q: "waiting s (EndpointList (cap_ptr (slot_cap (ctes s) c))) (r # q)" "r \<noteq> me" "t_state (tcbs s r) = TASK_STATE_RECEIVING"
    and buf: "t_ipc_buffer (tcbs s r) = Some rb" "t_ipc_buffer (tcbs s me) = Some sb" "message_extra_caps tag = 0"
    and len: "message_length tag = 511"
  shows "\<exists>s'. invoke_endpoint_send c tag s = Inr ((), s') \<and>
    ipc_buffers s' rb IPC_RECEIVE_CNODE = ipc_buffers s sb IPC_RECEIVE_CNODE \<and>
    ipc_buffers s' rb IPC_RECEIVE_INDEX = ipc_buffers s sb IPC_RECEIVE_INDEX \<and>
    ipc_buffers s' rb IPC_RECEIVE_DEPTH = ipc_buffers s sb IPC_RECEIVE_DEPTH"
proof -
  let ?s = "upd_tcb me (\<lambda>u. u\<lparr>t_expects_reply := False\<rparr>) s"
  have "waiting ?s (EndpointList (cap_ptr (slot_cap (ctes s) c))) (r # q)" "t_state (tcbs ?s r) = TASK_STATE_RECEIVING"
    "current_tcb ?s = Some me" "t_ipc_buffer (tcbs ?s r) = Some rb" "t_ipc_buffer (tcbs ?s me) = Some sb"
    using assms by auto
  from endpoint_send_rendezvous [OF this(1-3) q(2) this(4,5) buf(3),
      of "cap_badge (slot_cap (ctes s) c)" False]
  show ?thesis using invoke_send_eq [OF cap, of tag] len by (auto simp: deliver_words)
qed

theorem long_message_overwrites_receive_path_witness:
  "\<exists>s'. invoke_endpoint_send (Slot 0) 511 (ipc_example (EndpointList the_endpoint) TASK_STATE_RECEIVING) = Inr ((), s') \<and>
    ipc_buffers s' buffer_b IPC_RECEIVE_CNODE = 608"
proof -
  let ?s = "ipc_example (EndpointList the_endpoint) TASK_STATE_RECEIVING"
  have "waiting ?s (EndpointList (cap_ptr (slot_cap (ctes ?s) (Slot 0)))) [thread_b]"
    using example_waiting(1) [of the_endpoint] by simp
  from long_message_overwrites_receive_path [OF _ _ this, of thread_a buffer_b buffer_a 511] show ?thesis by fastforce
qed

text \<open>Signals on a notification for which nobody listens accumulate: after any sequence of signals the
  word is the bitwise or of the old word and all badges, and nothing else has changed.\<close>

theorem signals_accumulate:
  assumes "is_list_empty (NotificationList n) (lists s)"
    and "\<not> bound_is_receiving (n_bound_tcb (notifications s n)) s"
  shows "signal_all n bs s =
    Inr ((), upd_nfn n (\<lambda>u. u\<lparr>n_word := fold (\<lambda>b w. w OR b) bs (n_word u)\<rparr>) s)"
  using assms by (simp add: signal_all_pending nobody_listens_def)

theorem signals_accumulate_witness:
  "\<exists>s'. signal_all 0 [1, 2, 8]
      (idle_machine\<lparr>lists := (\<lambda>n. \<lparr>l_next = Some n, l_prev = Some n\<rparr>)\<rparr>) = Inr ((), s') \<and> n_word (notifications s' 0) = 11"
proof -
  let ?s = "idle_machine\<lparr>lists := (\<lambda>n. \<lparr>l_next = Some n, l_prev = Some n\<rparr>)\<rparr>"
  have "is_list_empty (NotificationList 0) (lists ?s)" "\<not> bound_is_receiving (n_bound_tcb (notifications ?s 0)) ?s"
    by (simp_all add: is_list_empty_def bound_is_receiving_def idle_machine_def zero_notification_def)
  from signals_accumulate [OF this, of "[1, 2, 8]"] show ?thesis
    by (simp add: idle_machine_def zero_notification_def)
qed

text \<open>C37: A signal wakes the first thread that waits on the notification: the thread gets the accumulated word
  together with the new badge, the word is cleared, the thread leaves the queue and runs next, and no
  other thread changes.\<close>

theorem signal_wakes_waiter:
  assumes "waiting s (NotificationList n) (t # q)" "current_tcb s \<noteq> Some t" "t_ipc_buffer (tcbs s t) = Some tb"
  shows "\<exists>s'. notification_signal n b s = Inr ((), s') \<and> waiting s' (NotificationList n) q \<and>
    n_word (notifications s' n) = 0 \<and>
    ipc_buffers s' tb IPC_SENDER_BADGE = n_word (notifications s n) OR b \<and>
    t_state (tcbs s' t) = TASK_STATE_RUNNABLE \<and> f_rax (t_saved_state (tcbs s' t)) = msg_ok 0 \<and>
    return_to_tcb s' = Some t \<and> (\<forall>u. u \<noteq> t \<longrightarrow> tcbs s' u = tcbs s u)"
  using signal_waiting [OF assms] by fastforce

theorem signal_wakes_waiter_witness:
  "\<exists>s'. notification_signal the_notification 4
      (ipc_example (NotificationList the_notification) TASK_STATE_RECEIVING) = Inr ((), s') \<and>
    ipc_buffers s' buffer_b IPC_SENDER_BADGE = 4 \<and> return_to_tcb s' = Some thread_b"
  using signal_wakes_waiter [OF example_waiting(2) [of the_notification TASK_STATE_RECEIVING], of buffer_b 4]
  by (fastforce simp: zero_notification_def)

text \<open>Receiving on a notification whose word is already set loses the word: the call succeeds and the
  word is cleared, but it is stored nowhere; the receiver's buffer is unchanged and the result carries
  no message words.\<close>

theorem pending_word_lost:
  assumes "cap_type (slot_cap (ctes s) c) = CAP_NOTIFICATION"
    and "n_bound_tcb (notifications s (cap_ptr (slot_cap (ctes s) c))) = None"
    and "n_word (notifications s (cap_ptr (slot_cap (ctes s) c))) \<noteq> 0"
  shows "invoke_notification_recv c s = Inr (msg_ok 0,
    upd_nfn (cap_ptr (slot_cap (ctes s) c)) (\<lambda>n. n\<lparr>n_word := 0\<rparr>) s)"
  using assms by (simp add: invoke_notification_recv_def kern_simps Let_def)

theorem pending_word_lost_witness:
  "\<exists>s'. invoke_notification_recv (Slot 32)
      ((ipc_example RunQueue TASK_STATE_RUNNABLE)\<lparr>notifications := (\<lambda>_. zero_notification\<lparr>n_word := 12\<rparr>)\<rparr>) = Inr (msg_ok 0, s') \<and>
    n_word (notifications s' the_notification) = 0 \<and> ipc_buffers s' buffer_a IPC_SENDER_BADGE = 604"
proof -
  let ?s = "(ipc_example RunQueue TASK_STATE_RUNNABLE)\<lparr>notifications := (\<lambda>_. zero_notification\<lparr>n_word := 12\<rparr>)\<rparr>"
  have "slot_cap (ctes ?s) (Slot 32) = notification_cap" by simp
  then show ?thesis using pending_word_lost [of ?s "Slot 32"] by (simp add: zero_notification_def)
qed

end
