(* ===== verification/Untyped_Properties.thy ===== *)
theory Untyped_Properties
  imports Untyped Example_State
begin

text \<open>
  The effect of \<open>untyped_retype\<close> on the capabilities of the system, where in the untyped memory the objects
  lie, and two requests for which the bookkeeping of used memory fails.
\<close>

section \<open>One object\<close>

lemma init_object_ret:
  "\<exists>h. init_object ty p s = Inr ((), s\<lparr>lists := h\<rparr>)"
proof -
  have "\<exists>h. with_lists (init_list n) s = Inr ((), s\<lparr>lists := h\<rparr>)" for n
    by (simp add: with_lists_def init_list_def write_next_def write_prev_def kern_simps) blast
  then show ?thesis
    unfolding init_object_def init_endpoint_def init_notification_def init_tcb_def
    by (auto simp: kret_def intro: exI [of _ "lists s"])
qed

lemma insert_keeps_caps: "slot_cap (insert_cte_after new after h) c = slot_cap h c"
  by (simp add: insert_cte_after_def Let_def split: option.splits)

text \<open>The capability that is created for an object at \<open>p\<close>.\<close>

definition created_at :: "word_t \<Rightarrow> word_t \<Rightarrow> addr \<Rightarrow> cap_t \<Rightarrow> bool" where
  "created_at ty size_bits p c \<longleftrightarrow> cap_type c = take_bit 5 ty \<and> cap_ptr c = p \<and> cap_rights c = CAP_RIGHTS_ALL \<and>
     cap_badge c = 0 \<and> cap_size_bits c = take_bit 6 size_bits \<and> cap_is_original c"

lemma created_cap_at:
  assumes "cap_set_ptr p (created_cap ty size_bits c) = Inr c'"
  shows "created_at ty size_bits p c'"
  using cap_set_ptr_frame [OF assms] by (simp add: created_at_def created_cap_def)

lemma create_object_ret:
  assumes "hhdm s \<noteq> 0" "p = (mem + i * sz) OR hhdm s" "is_safe_cap_ptr p" "dst = slot_plus dst0 i"
  shows "\<exists>s'. create_object u ty size_bits sz dst0 mem i s = Inr ((), s') \<and> hhdm s' = hhdm s \<and>
    created_at ty size_bits p (slot_cap (ctes s') dst) \<and>
    (\<forall>c. c \<noteq> dst \<and> \<not> in_range p sz (slot_object c) \<longrightarrow> slot_cap (ctes s') c = slot_cap (ctes s) c)"
proof -
  obtain h where h: "init_object ty p (clear_memory p sz s) = Inr ((), (clear_memory p sz s)\<lparr>lists := h\<rparr>)"
    using init_object_ret by blast
  let ?c = "created_cap ty size_bits (slot_cap (ctes (clear_memory p sz s)) dst)"
  obtain c' where c': "cap_set_ptr p ?c = Inr c'" using cap_set_ptr_total assms(3) by blast
  have "create_object u ty size_bits sz dst0 mem i s = Inr ((), (clear_memory p sz s)\<lparr>lists := h,
      ctes := insert_cte_after dst u (set_cap dst c' (set_cap dst ?c (ctes (clear_memory p sz s))))\<rparr>)"
    unfolding create_object_def Let_def using assms(1) h c'
    by (simp add: kern_simps direct_map_of_def assms(2,4) [symmetric] set_cap_def)
  then show ?thesis using created_cap_at [OF c']
    by (auto simp: insert_keeps_caps set_cap_def clear_memory_def)
qed

section \<open>All objects\<close>

abbreviation object_at :: "kstate \<Rightarrow> addr \<Rightarrow> word_t \<Rightarrow> nat \<Rightarrow> addr" where
  "object_at s mem sz i \<equiv> (mem + of_nat i * sz) OR hhdm s"

abbreviation dest_slot :: "slot \<Rightarrow> nat \<Rightarrow> slot" where
  "dest_slot dst0 i \<equiv> slot_plus dst0 (of_nat i)"

text \<open>Addresses that a capability can hold, and destination slots that are distinct and not inside the new objects.\<close>

definition placeable :: "kstate \<Rightarrow> addr \<Rightarrow> word_t \<Rightarrow> slot \<Rightarrow> nat \<Rightarrow> bool" where
  "placeable s mem sz dst0 n \<longleftrightarrow> (\<forall>i<n. is_safe_cap_ptr (object_at s mem sz i)) \<and>
     (\<forall>i<n. \<forall>j<n. \<not> in_range (object_at s mem sz j) sz (slot_object (dest_slot dst0 i)) \<and>
        (dest_slot dst0 i = dest_slot dst0 j \<longrightarrow> i = j))"

lemma create_loop:
  assumes "hhdm s \<noteq> 0" "placeable s mem sz dst0 (i0 + n)"
  shows "\<exists>s'. kfor i0 n (\<lambda>i. create_object u ty size_bits sz dst0 mem (of_nat i)) s = Inr ((), s') \<and> hhdm s' = hhdm s \<and>
    (\<forall>i. i0 \<le> i \<and> i < i0 + n \<longrightarrow> created_at ty size_bits (object_at s mem sz i) (slot_cap (ctes s') (dest_slot dst0 i))) \<and>
    (\<forall>c. (\<forall>i. i0 \<le> i \<and> i < i0 + n \<longrightarrow> c \<noteq> dest_slot dst0 i \<and> \<not> in_range (object_at s mem sz i) sz (slot_object c)) \<longrightarrow>
       slot_cap (ctes s') c = slot_cap (ctes s) c)"
  using assms
proof (induction n arbitrary: i0 s)
  case 0
  then show ?case by (auto simp: kret_def)
next
  case (Suc n)
  have safe: "is_safe_cap_ptr (object_at s mem sz i0)" using Suc.prems(2) by (simp add: placeable_def)
  obtain t where t: "create_object u ty size_bits sz dst0 mem (of_nat i0) s = Inr ((), t)" "hhdm t = hhdm s"
    "created_at ty size_bits (object_at s mem sz i0) (slot_cap (ctes t) (dest_slot dst0 i0))"
    "\<forall>c. c \<noteq> dest_slot dst0 i0 \<and> \<not> in_range (object_at s mem sz i0) sz (slot_object c) \<longrightarrow> slot_cap (ctes t) c = slot_cap (ctes s) c"
    using create_object_ret [OF Suc.prems(1) refl safe refl] by blast
  have "hhdm t \<noteq> 0" "placeable t mem sz dst0 (Suc i0 + n)" using Suc.prems t(2) by (simp_all add: placeable_def)
  from Suc.IH [OF this] obtain s' where s': "kfor (Suc i0) n (\<lambda>i. create_object u ty size_bits sz dst0 mem (of_nat i)) t = Inr ((), s')"
    "hhdm s' = hhdm s"
    "\<And>i. Suc i0 \<le> i \<and> i < Suc i0 + n \<Longrightarrow> created_at ty size_bits (object_at s mem sz i) (slot_cap (ctes s') (dest_slot dst0 i))"
    "\<And>c. (\<forall>i. Suc i0 \<le> i \<and> i < Suc i0 + n \<longrightarrow> c \<noteq> dest_slot dst0 i \<and> \<not> in_range (object_at s mem sz i) sz (slot_object c)) \<Longrightarrow>
       slot_cap (ctes s') c = slot_cap (ctes t) c"
    unfolding t(2) by blast
  have "dest_slot dst0 i0 \<noteq> dest_slot dst0 i \<and> \<not> in_range (object_at s mem sz i) sz (slot_object (dest_slot dst0 i0))"
    if "Suc i0 \<le> i \<and> i < Suc i0 + n" for i
  proof -
    have "i0 < i0 + Suc n" "i < i0 + Suc n" "i0 \<noteq> i" using that by auto
    then show ?thesis using Suc.prems(2) unfolding placeable_def by blast
  qed
  then have first: "created_at ty size_bits (object_at s mem sz i0) (slot_cap (ctes s') (dest_slot dst0 i0))"
    using s'(4) t(3) by simp
  have "created_at ty size_bits (object_at s mem sz i) (slot_cap (ctes s') (dest_slot dst0 i))" if "i0 \<le> i" "i < i0 + Suc n" for i
    using first s'(3) [of i] that by (cases "i = i0") auto
  moreover have "slot_cap (ctes s') c = slot_cap (ctes s) c"
    if "\<forall>i. i0 \<le> i \<and> i < i0 + Suc n \<longrightarrow> c \<noteq> dest_slot dst0 i \<and> \<not> in_range (object_at s mem sz i) sz (slot_object c)" for c
    using s'(4) [of c] t(4) [rule_format, of c] that by simp
  ultimately show ?case using t(1) s'(1,2) by (intro exI [of _ s']) (simp add: kern_simps)
qed

section \<open>The whole request\<close>

text \<open>
  The places that a request names: the offset of the first object in the untyped memory, the capability
  node in which the new capabilities go, and its first slot for them.
\<close>

abbreviation retype_offset :: "kstate \<Rightarrow> slot \<Rightarrow> word_t \<Rightarrow> word_t" where
  "retype_offset s slot sz \<equiv> ALIGN_UP (cap_badge (slot_cap (ctes s) slot)) sz"

abbreviation retype_base :: "kstate \<Rightarrow> slot \<Rightarrow> word_t \<Rightarrow> addr" where
  "retype_base s slot sz \<equiv> cap_ptr (slot_cap (ctes s) slot) + retype_offset s slot sz"

abbreviation retype_node :: "kstate \<Rightarrow> slot \<Rightarrow> word_t \<Rightarrow> slot" where
  "retype_node s root node_index \<equiv> cte_at (cap_ptr (slot_cap (ctes s) root)) node_index"

abbreviation retype_dest :: "kstate \<Rightarrow> slot \<Rightarrow> word_t \<Rightarrow> word_t \<Rightarrow> slot" where
  "retype_dest s root node_index node_offset \<equiv>
     cte_at (cap_ptr (slot_cap (ctes s) (retype_node s root node_index))) node_offset"

text \<open>
  A request that passes the lookups: the destination exists and has room for the slots, the addresses can be
  stored, and neither the untyped slot nor a destination slot lies inside the new objects.
\<close>

definition retype_ready :: "kstate \<Rightarrow> slot \<Rightarrow> word_t \<Rightarrow> slot \<Rightarrow> word_t \<Rightarrow> word_t \<Rightarrow> word_t \<Rightarrow> bool" where
  "retype_ready s slot sz root node_index node_offset num \<longleftrightarrow> hhdm s \<noteq> 0 \<and>
     cap_type (slot_cap (ctes s) root) = CAP_CNODE \<and> node_index < cap_size (slot_cap (ctes s) root) \<and>
     cap_type (slot_cap (ctes s) (retype_node s root node_index)) = CAP_CNODE \<and>
     node_offset + num \<le> cap_size (slot_cap (ctes s) (retype_node s root node_index)) \<and>
     node_offset < cap_size (slot_cap (ctes s) (retype_node s root node_index)) \<and>
     placeable s (retype_base s slot sz) sz (retype_dest s root node_index node_offset) (unat num) \<and>
     (\<forall>i < unat num. slot \<noteq> dest_slot (retype_dest s root node_index node_offset) i \<and>
        \<not> in_range (object_at s (retype_base s slot sz) sz i) sz (slot_object slot))"

definition retyped :: "kstate \<Rightarrow> kstate \<Rightarrow> slot \<Rightarrow> word_t \<Rightarrow> word_t \<Rightarrow> word_t \<Rightarrow> slot \<Rightarrow> word_t \<Rightarrow> word_t \<Rightarrow> word_t \<Rightarrow> bool" where
  "retyped s s' slot ty size_bits sz root node_index node_offset num \<longleftrightarrow>
     slot_cap (ctes s') slot = cap_set_badge (retype_offset s slot sz + sz * num) (slot_cap (ctes s) slot) \<and>
     (\<forall>i < unat num. created_at ty size_bits (object_at s (retype_base s slot sz) sz i)
        (slot_cap (ctes s') (dest_slot (retype_dest s root node_index node_offset) i))) \<and>
     (\<forall>c. c \<noteq> slot \<and> (\<forall>i < unat num. c \<noteq> dest_slot (retype_dest s root node_index node_offset) i \<and>
          \<not> in_range (object_at s (retype_base s slot sz) sz i) sz (slot_object c)) \<longrightarrow>
        slot_cap (ctes s') c = slot_cap (ctes s) c)"

lemma retype_succeeds:
  assumes "object_size ty size_bits = Inr sz" "retype_ready s slot sz root node_index node_offset num"
    and "sz * num \<le> BIT (cap_size_bits (slot_cap (ctes s) slot)) - retype_offset s slot sz"
  shows "\<exists>s'. untyped_retype slot ty size_bits root node_index 64 node_offset num s = Inr (msg_ok 0, s') \<and>
    retyped s s' slot ty size_bits sz root node_index node_offset num"
proof -
  note r = assms(2) [unfolded retype_ready_def]
  let ?d = "retype_dest s root node_index node_offset" let ?m = "retype_base s slot sz"
  have fits: "\<not> BIT (cap_size_bits (slot_cap (ctes s) slot)) - retype_offset s slot sz < sz * num"
    "\<not> cap_size (slot_cap (ctes s) (retype_node s root node_index)) < node_offset + num"
    using assms(3) r by (simp_all add: linorder_not_less)
  have "hhdm s \<noteq> 0" "placeable s ?m sz ?d (0 + unat num)" using r by auto
  from create_loop [OF this, of slot ty size_bits]
  obtain t where t: "kfor 0 (unat num) (\<lambda>i. create_object slot ty size_bits sz ?d ?m (of_nat i)) s = Inr ((), t)"
    "\<And>i. i < unat num \<Longrightarrow> created_at ty size_bits (object_at s ?m sz i) (slot_cap (ctes t) (dest_slot ?d i))"
    "\<And>c. (\<forall>i < unat num. c \<noteq> dest_slot ?d i \<and> \<not> in_range (object_at s ?m sz i) sz (slot_object c)) \<Longrightarrow>
       slot_cap (ctes t) c = slot_cap (ctes s) c" by auto
  have slot: "slot_cap (ctes t) slot = slot_cap (ctes s) slot" using t(3) r by blast
  let ?s' = "t\<lparr>ctes := set_cap slot (cap_set_badge (retype_offset s slot sz + sz * num) (slot_cap (ctes t) slot)) (ctes t)\<rparr>"
  have u: "ucast (64 :: u8) = (64 :: word_t)" by simp
  have create: "create_objects slot ty size_bits ?d num ?m s = Inr ((), t)"
    using t(1) assms(1) by (simp add: create_objects_def kern_simps)
  have "untyped_retype slot ty size_bits root node_index 64 node_offset num s = Inr (msg_ok 0, ?s')"
    unfolding untyped_retype_def Let_def u
    using r assms(1) create fits by (simp add: kern_simps lookup_found cte_for_def)
  moreover have "retyped s ?s' slot ty size_bits sz root node_index node_offset num"
    unfolding retyped_def using t(2,3) slot r by (auto simp: set_cap_def)
  ultimately show ?thesis by blast
qed

section \<open>Sizes and alignment\<close>

lemma object_size_power:
  assumes "object_size ty size_bits = Inr sz" "ty \<noteq> CAP_NULL"
  shows "\<exists>k < 64. sz = push_bit k 1"
proof -
  have "\<exists>k < 64. push_bit n 1 = (push_bit k 1 :: word_t)" if "n < 64" for n using that by blast
  then show ?thesis
    using assms unfolding object_size_def checked_BIT_def BIT_def by (auto split: if_splits simp del: push_bit_of_1)
qed

lemma align_up_bounds:
  fixes x p :: nat
  assumes "0 < p"
  shows "x \<le> (x + p - 1) div p * p" "(x + p - 1) div p * p < x + p" "p dvd n \<Longrightarrow> x \<le> n \<Longrightarrow> (x + p - 1) div p * p \<le> n"
proof -
  have eq: "(x + p - 1) div p * p + (x + p - 1) mod p = x + p - 1" by simp
  have lt: "(x + p - 1) mod p < p" using assms by simp
  show "x \<le> (x + p - 1) div p * p" using eq lt by linarith
  show low: "(x + p - 1) div p * p < x + p" using eq lt assms by linarith
  assume "p dvd n" "x \<le> n"
  then obtain m where m: "n = p * m" by blast
  have "(x + p - 1) div p * p < p * Suc m" using low \<open>x \<le> n\<close> m by simp
  then have "p * ((x + p - 1) div p) < p * Suc m" by (simp add: mult.commute)
  then have "(x + p - 1) div p < Suc m" using mult_less_cancel1 [of p] by blast
  then show "(x + p - 1) div p * p \<le> n" using m by (simp add: mult.commute)
qed

section \<open>Properties\<close>

lemma retype_too_big:
  assumes "object_size ty size_bits = Inr sz" "has_buffer s b"
    and "BIT (cap_size_bits (slot_cap (ctes s) slot)) - retype_offset s slot sz < sz * num"
  shows "untyped_retype slot ty size_bits root node_index d node_offset num s =
    Inr (msg_err NOT_ENOUGH_MEMORY 1, upd_ipc b 0 (BIT (cap_size_bits (slot_cap (ctes s) slot)) - retype_offset s slot sz) s)"
  using assms by (simp add: untyped_retype_def Let_def kern_simps msg_error_ret [OF assms(2)])

lemma unat_retype_offset:
  assumes "object_size ty size_bits = Inr sz" "ty \<noteq> CAP_NULL"
    and "unat x \<le> 2 ^ n" "unat sz \<le> 2 ^ n" "n < 64"
  shows "unat x \<le> unat (ALIGN_UP x sz)" "unat (ALIGN_UP x sz) \<le> 2 ^ n"
proof -
  obtain k where k: "k < 64" "sz = push_bit k 1" using object_size_power [OF assms(1,2)] by blast
  then have sz: "unat sz = 2 ^ k" by (simp add: unat_push_bit_1 del: push_bit_of_1)
  have "(2 :: nat) ^ n \<le> 2 ^ 63" using assms(5) power_increasing [of n 63 "2 :: nat"] by simp
  moreover have "(2 :: nat) ^ 64 = 2 * 2 ^ 63" "(2 :: nat) ^ k \<le> 2 ^ n" using assms(4) sz by simp_all
  ultimately have "unat x + 2 ^ k \<le> 2 ^ 64" using assms(3) by linarith
  then have eq: "unat (ALIGN_UP x sz) = (unat x + 2 ^ k - 1) div 2 ^ k * 2 ^ k"
    using k(1) by (intro unat_ALIGN_UP [OF k(2)])
  have "(2 :: nat) ^ k dvd 2 ^ n" using assms(4) sz by (simp add: le_imp_power_dvd power_le_imp_le_exp)
  then show "unat x \<le> unat (ALIGN_UP x sz)" "unat (ALIGN_UP x sz) \<le> 2 ^ n"
    using align_up_bounds(1) [of "2 ^ k" "unat x"] align_up_bounds(3) [where p = "2 ^ k" and x = "unat x" and n = "2 ^ n"] assms(3) eq by auto
qed


text \<open>
  An untyped capability for the region of \<open>2 ^ bits\<close> bytes at physical address \<open>0x100000\<close> with watermark \<open>used\<close>,
  and a node in the second slot of the node in slot 32.
\<close>

definition node_cap :: "addr \<Rightarrow> cap_t" where
  "node_cap p = cap_set_ptr_bits (drop_bit 4 p) (cap_set_size_bits 4 (cap_set_type CAP_CNODE zero_cap))"

definition region_cap :: "word_t \<Rightarrow> word_t \<Rightarrow> cap_t" where
  "region_cap bits used = cap_set_ptr_bits (drop_bit 4 0x100000)
     (cap_set_badge used (cap_set_size_bits bits (cap_set_type CAP_UNTYPED zero_cap)))"

definition retype_example :: "word_t \<Rightarrow> word_t \<Rightarrow> kstate" where
  "retype_example bits used = idle_machine\<lparr>
     ctes := (\<lambda>_. zero_cte)(
       Slot 0 := zero_cte\<lparr>cte_cap := region_cap bits used\<rparr>,
       Slot 32 := zero_cte\<lparr>cte_cap := node_cap 0xFFFF800000700000\<rparr>,
       Slot 0xFFFF800000700020 := zero_cte\<lparr>cte_cap := node_cap 0xFFFF800000710000\<rparr>),
     tcbs := (\<lambda>_. zero_tcb)(thread_a := zero_tcb\<lparr>t_ipc_buffer := Some buffer_a\<rparr>), current_tcb := Some thread_a\<rparr>"

lemma example_node [simp]:
  "cap_ptr (node_cap 0xFFFF800000700000) = 0xFFFF800000700000" "cap_ptr (node_cap 0xFFFF800000710000) = 0xFFFF800000710000"
  "cap_type (node_cap p) = CAP_CNODE" "cap_size (node_cap p) = 16"
  "cap_ptr (region_cap bits used) = 0x100000" "cap_badge (region_cap bits used) = used"
  "cap_size_bits (region_cap bits used) = take_bit 6 bits"
  using cap_ptr_set_ptr_bits [of "0x100000" "cap_set_badge used (cap_set_size_bits bits (cap_set_type CAP_UNTYPED zero_cap))"]
    cap_ptr_set_ptr_bits [of "0xFFFF800000700000" "cap_set_size_bits 4 (cap_set_type CAP_CNODE zero_cap)"]
    cap_ptr_set_ptr_bits [of "0xFFFF800000710000" "cap_set_size_bits 4 (cap_set_type CAP_CNODE zero_cap)"]
  by (simp_all add: node_cap_def region_cap_def is_safe_cap_ptr_def drop_bit_eq_div cap_size_def BIT_def)

lemma all_less_two: "(\<forall>i < (2 :: nat). P i) \<longleftrightarrow> P 0 \<and> P 1"
  by (auto simp: less_2_cases_iff)

lemma retype_example_fields [simp]:
  "slot_cap (ctes (retype_example bits used)) (Slot 0) = region_cap bits used"
  "slot_cap (ctes (retype_example bits used)) (Slot 32) = node_cap 0xFFFF800000700000"
  "slot_cap (ctes (retype_example bits used)) (Slot 0xFFFF800000700020) = node_cap 0xFFFF800000710000"
  "hhdm (retype_example bits used) = 0xFFFF800000000000" "has_buffer (retype_example bits used) buffer_a"
  by (simp_all add: retype_example_def idle_machine_def has_buffer_def)

lemma retype_example_ready:
  "retype_ready (retype_example 16 0x101) (Slot 0) 16 (Slot 32) 1 2 2"
  by (simp add: retype_ready_def placeable_def all_less_two cte_at_def ALIGN_UP_def ALIGN_DOWN_def is_safe_cap_ptr_def
      in_range_def drop_bit_eq_div)


text \<open>The bookkeeping fails for an object larger than its region. If the region is in use, however little, but smaller than
  the object, the aligned watermark lies past its end, the available size underflows, and the request succeeds: the new
  object starts beyond the end of the region that the capability stands for.\<close>
theorem oversized_object_escapes:
  assumes "object_size ty size_bits = Inr sz" "ty \<noteq> CAP_NULL"
    and "retype_ready s slot sz root node_index node_offset 1"
    and "bits = unat (cap_size_bits (slot_cap (ctes s) slot))" "used = unat (cap_badge (slot_cap (ctes s) slot))"
    and "0 < used" "used \<le> 2 ^ bits" "2 ^ bits < unat sz" "unat sz < 2 ^ 63"
  shows "\<exists>s'. untyped_retype slot ty size_bits root node_index 64 node_offset 1 s = Inr (msg_ok 0, s') \<and>
    retyped s s' slot ty size_bits sz root node_index node_offset 1 \<and>
    2 ^ bits < unat (retype_offset s slot sz)"
proof -
  let ?u = "slot_cap (ctes s) slot"
  obtain k where k: "k < 64" "sz = push_bit k 1" using object_size_power [OF assms(1,2)] by blast
  then have sz: "unat sz = 2 ^ k" by (simp add: unat_push_bit_1 del: push_bit_of_1)
  have "(2 :: nat) ^ 64 = 2 * 2 ^ 63" by simp
  then have "used + unat sz \<le> 2 ^ 64" using assms(7,8,9) by linarith
  then have "unat (retype_offset s slot sz) = (used + 2 ^ k - 1) div 2 ^ k * 2 ^ k"
    unfolding assms(5) sz by (rule unat_ALIGN_UP [OF k(2,1)])
  also have "(used + 2 ^ k - 1) div 2 ^ k = 1"
  proof -
    have "used < 2 ^ k" using assms(7,8) unfolding sz by linarith
    then show ?thesis using assms(6) by (intro div_nat_eqI) simp_all
  qed
  finally have off: "retype_offset s slot sz = sz" using sz by (simp add: word_unat_eq_iff)
  have B: "unat (BIT (cap_size_bits ?u)) = 2 ^ bits" using unat_BIT unat_cap_size_bits assms(4) by simp
  have "BIT (cap_size_bits ?u) < sz" using B assms(8) by (simp add: word_less_nat_alt)
  have "unat (BIT (cap_size_bits ?u) - sz) = 2 ^ 64 + 2 ^ bits - unat sz"
    using B assms(8) by (simp add: unat_sub_if')
  then have "sz * 1 \<le> BIT (cap_size_bits ?u) - retype_offset s slot sz"
    using assms(9) off by (simp add: word_le_nat_alt)
  from retype_succeeds [OF assms(1,3) this] show ?thesis using off assms(8) by auto
qed

theorem oversized_object_escapes_witness:
  "\<exists>s'. untyped_retype (Slot 0) CAP_UNTYPED 13 (Slot 32) 1 64 2 1 (retype_example 12 16) = Inr (msg_ok 0, s') \<and>
     created_at CAP_UNTYPED 13 0xFFFF800000102000 (slot_cap (ctes s') (Slot 0xFFFF800000710040))"
proof -
  have sz: "object_size CAP_UNTYPED 13 = Inr 0x2000" by (simp add: object_size_def checked_BIT_def BIT_def)
  have ready: "retype_ready (retype_example 12 16) (Slot 0) 0x2000 (Slot 32) 1 2 1"
    by (simp add: retype_ready_def placeable_def cte_at_def ALIGN_UP_def ALIGN_DOWN_def is_safe_cap_ptr_def
        in_range_def drop_bit_eq_div)
  have p: "12 = unat (cap_size_bits (slot_cap (ctes (retype_example 12 16)) (Slot 0)))"
    "16 = unat (cap_badge (slot_cap (ctes (retype_example 12 16)) (Slot 0)))" by simp_all
  have escape: "\<exists>s'. untyped_retype (Slot 0) CAP_UNTYPED 13 (Slot 32) 1 64 2 1 (retype_example 12 16) = Inr (msg_ok 0, s') \<and>
      retyped (retype_example 12 16) s' (Slot 0) CAP_UNTYPED 13 0x2000 (Slot 32) 1 2 1 \<and>
      2 ^ 12 < unat (retype_offset (retype_example 12 16) (Slot 0) 0x2000)"
    by (rule oversized_object_escapes [OF sz _ ready p]) simp_all
  obtain s' where s': "untyped_retype (Slot 0) CAP_UNTYPED 13 (Slot 32) 1 64 2 1 (retype_example 12 16) = Inr (msg_ok 0, s')"
    "retyped (retype_example 12 16) s' (Slot 0) CAP_UNTYPED 13 0x2000 (Slot 32) 1 2 1"
    using escape by blast
  have "created_at CAP_UNTYPED 13 (object_at (retype_example 12 16) (retype_base (retype_example 12 16) (Slot 0) 0x2000) 0x2000 0)
      (slot_cap (ctes s') (dest_slot (retype_dest (retype_example 12 16) (Slot 32) 1 2) 0))"
    using s'(2) unfolding retyped_def by simp
  moreover have "ALIGN_UP 16 0x2000 = 0x2000" by (simp add: ALIGN_UP_def ALIGN_DOWN_def)
  ultimately have "created_at CAP_UNTYPED 13 0xFFFF800000102000 (slot_cap (ctes s') (Slot 0xFFFF800000710040))"
    by (simp add: cte_at_def)
  then show ?thesis using s'(1) by blast
qed

text \<open>A request for objects of the null type, which is accepted from any caller and creates nothing when the number of objects is
  zero, sets the watermark of the untyped capability back to zero: the next request hands out memory that is in use.\<close>
theorem null_retype_resets_watermark:
  assumes "retype_ready s slot 0 root node_index node_offset 0"
  shows "\<exists>s'. untyped_retype slot CAP_NULL size_bits root node_index 64 node_offset 0 s = Inr (msg_ok 0, s') \<and>
    cap_badge (slot_cap (ctes s') slot) = 0 \<and> (\<forall>c. c \<noteq> slot \<longrightarrow> slot_cap (ctes s') c = slot_cap (ctes s) c)"
proof -
  have "ALIGN_UP x 0 = 0" for x by (simp add: ALIGN_UP_def ALIGN_DOWN_def)
  then show ?thesis
    using retype_succeeds [OF _ assms, of CAP_NULL size_bits] by (auto simp: retyped_def object_size_def)
qed

theorem null_retype_resets_watermark_witness:
  "\<exists>s'. untyped_retype (Slot 0) CAP_NULL 0 (Slot 32) 1 64 2 0 (retype_example 16 0x4000) = Inr (msg_ok 0, s') \<and>
     cap_badge (slot_cap (ctes s') (Slot 0)) = 0"
proof -
  have "retype_ready (retype_example 16 0x4000) (Slot 0) 0 (Slot 32) 1 2 0"
    by (simp add: retype_ready_def placeable_def cte_at_def)
  from null_retype_resets_watermark [OF this] show ?thesis by blast
qed

end
