(* ===== verification/Paging_Properties.thy ===== *)
theory Paging_Properties
  imports Paging Example_State
begin

text \<open>
  The walk through the four levels as a function of the state, the mapping methods on all their
  branches, and the effect of a mapping on the translation of addresses.
\<close>

section \<open>The walk as a function\<close>

definition table_of :: "kstate \<Rightarrow> word_t \<Rightarrow> addr" where
  "table_of s pte = PTE_ADDR pte OR hhdm s"

definition pml4e_of :: "kstate \<Rightarrow> word_t \<Rightarrow> addr \<Rightarrow> addr" where
  "pml4e_of s root a = pte_at (table_of s root) (table_index 39 a)"

definition pdpte_of :: "kstate \<Rightarrow> word_t \<Rightarrow> addr \<Rightarrow> addr" where
  "pdpte_of s root a = pte_at (table_of s (ptes s (pml4e_of s root a))) (table_index 30 a)"

definition pde_of :: "kstate \<Rightarrow> word_t \<Rightarrow> addr \<Rightarrow> addr" where
  "pde_of s root a = pte_at (table_of s (ptes s (pdpte_of s root a))) (table_index 21 a)"

definition pte_of :: "kstate \<Rightarrow> word_t \<Rightarrow> addr \<Rightarrow> addr" where
  "pte_of s root a = pte_at (table_of s (ptes s (pde_of s root a))) (table_index 12 a)"

abbreviation present :: "kstate \<Rightarrow> addr \<Rightarrow> bool" where
  "present s p \<equiv> ptes s p AND PTE_PRESENT \<noteq> 0"

lemma direct_map_of_eq: "hhdm s \<noteq> 0 \<Longrightarrow> direct_map_of a s = Inr (a OR hhdm s, s)"
  by (simp add: direct_map_of_def kern_simps)

lemma physical_of_ret: "hhdm s \<noteq> 0 \<Longrightarrow> physical_of a s = Inr (a - hhdm s, s)"
  by (simp add: physical_of_def kern_simps direct_map_of_eq)

lemma PTE_eq: "hhdm s \<noteq> 0 \<Longrightarrow> PTE e s = Inr (table_of s e, s)"
  by (simp add: PTE_def table_of_def direct_map_of_eq)

lemma walk_eq:
  assumes "hhdm s \<noteq> 0"
  shows "get_pml4e root a s = Inr (pml4e_of s root a, s)" "get_pdpte root a s = Inr (pdpte_of s root a, s)"
    "get_pde root a s = Inr (pde_of s root a, s)" "get_pte root a s = Inr (pte_of s root a, s)"
  using assms
  by (simp_all add: get_pml4e_def get_pdpte_def get_pde_def get_pte_def pml4e_of_def pdpte_of_def pde_of_def
      pte_of_def kern_simps PTE_eq)

lemma resolve_eq:
  assumes "hhdm s \<noteq> 0"
  shows "resolve_vm_mapping root a s =
    Inr (if present s (pml4e_of s root a) \<and> present s (pdpte_of s root a) \<and> present s (pde_of s root a) \<and>
            present s (pte_of s root a)
         then PTE_ADDR (ptes s (pte_of s root a)) OR (a AND 0xFFF) else 0, s)"
  using assms
  by (simp add: resolve_vm_mapping_def pml4e_of_def pdpte_of_def pde_of_def pte_of_def kern_simps PTE_eq)

lemma require_present_eq:
  assumes "get s = Inr (p, s)" "current_tcb s = Some t" "t_ipc_buffer (tcbs s t) = Some b"
  shows "require_present get level rest s =
    (if present s p then rest s else Inr (msg_err FAILED_LOOKUP 1, upd_ipc b 0 level s))"
  using assms
  by (simp add: require_present_def kern_simps table_missing_def msg_failed_lookup_def set_mr_def this_ipc_buffer_def)

lemma install_eq:
  assumes "get s = Inr (p, s)"
  shows "install get v s = (if present s p then Inr (msg_delete_first, s) else Inr (msg_ok 0, s\<lparr>ptes := (ptes s)(p := v)\<rparr>))"
  using assms by (simp add: install_def kern_simps already_mapped_def write_pte_def)

text \<open>The value that a mapping writes.\<close>

definition page_entry :: "kstate \<Rightarrow> slot \<Rightarrow> word_t \<Rightarrow> word_t" where
  "page_entry s cte attr = (cap_ptr (slot_cap (ctes s) cte) - hhdm s) OR PTE_PRESENT OR PTE_USER OR attr"

lemma page_map_eq:
  assumes "hhdm s \<noteq> 0" "current_tcb s = Some t" "t_ipc_buffer (tcbs s t) = Some b"
    and root: "root = cap_ptr (slot_cap (ctes s) vspace)"
  shows "x86_64_page_map cte vspace a attr s =
    (if \<not> present s (pml4e_of s root a) then Inr (msg_err FAILED_LOOKUP 1, upd_ipc b 0 3 s)
     else if \<not> present s (pdpte_of s root a) then Inr (msg_err FAILED_LOOKUP 1, upd_ipc b 0 2 s)
     else if \<not> present s (pde_of s root a) then Inr (msg_err FAILED_LOOKUP 1, upd_ipc b 0 1 s)
     else if present s (pte_of s root a) then Inr (msg_delete_first, s)
     else Inr (msg_ok 0, s\<lparr>ptes := (ptes s)(pte_of s root a := page_entry s cte attr)\<rparr>))"
proof -
  note h = assms(1)
  note req = require_present_eq [of "get_pml4e root a" s, OF walk_eq(1) [OF h] assms(2,3)]
    require_present_eq [of "get_pdpte root a" s, OF walk_eq(2) [OF h] assms(2,3)]
    require_present_eq [of "get_pde root a" s, OF walk_eq(3) [OF h] assms(2,3)]
    install_eq [of "get_pte root a" s, OF walk_eq(4) [OF h]]
  show ?thesis
    unfolding x86_64_page_map_def by (simp add: kern_simps physical_of_ret h root [symmetric] req page_entry_def)
qed

section \<open>Writing one entry\<close>

definition walk_entries :: "kstate \<Rightarrow> word_t \<Rightarrow> addr \<Rightarrow> addr list" where
  "walk_entries s root a = [pml4e_of s root a, pdpte_of s root a, pde_of s root a, pte_of s root a]"

lemma walk_unchanged:
  assumes "p \<notin> {pml4e_of s root a, pdpte_of s root a, pde_of s root a}"
  shows "pml4e_of (s\<lparr>ptes := (ptes s)(p := v)\<rparr>) root a = pml4e_of s root a"
    "pdpte_of (s\<lparr>ptes := (ptes s)(p := v)\<rparr>) root a = pdpte_of s root a"
    "pde_of (s\<lparr>ptes := (ptes s)(p := v)\<rparr>) root a = pde_of s root a"
    "pte_of (s\<lparr>ptes := (ptes s)(p := v)\<rparr>) root a = pte_of s root a"
proof -
  show p4: "pml4e_of (s\<lparr>ptes := (ptes s)(p := v)\<rparr>) root a = pml4e_of s root a"
    by (simp add: pml4e_of_def table_of_def)
  show p3: "pdpte_of (s\<lparr>ptes := (ptes s)(p := v)\<rparr>) root a = pdpte_of s root a"
    using assms by (auto simp: pdpte_of_def p4 table_of_def)
  show p2: "pde_of (s\<lparr>ptes := (ptes s)(p := v)\<rparr>) root a = pde_of s root a"
    using assms by (auto simp: pde_of_def p3 table_of_def)
  show "pte_of (s\<lparr>ptes := (ptes s)(p := v)\<rparr>) root a = pte_of s root a"
    using assms by (auto simp: pte_of_def p2 table_of_def)
qed

lemma PTE_ADDR_entry: "PTE_ADDR (x OR PTE_PRESENT OR PTE_USER OR attr) = PTE_ADDR x OR PTE_ADDR attr"
  unfolding PTE_ADDR_def bit.conj_disj_distrib2 by simp

lemma entry_present: "(x OR PTE_PRESENT OR y) AND PTE_PRESENT \<noteq> (0 :: word_t)"
  by (simp add: and_one_eq mod_2_eq_odd even_or_iff)

section \<open>The copy of the kernel's entries\<close>

lemma pte_at_inj:
  assumes "i < 512" "j < 512" "pte_at p (of_nat i) = pte_at p (of_nat j)"
  shows "i = j"
proof -
  have "(of_nat (8 * i) :: word_t) = of_nat (8 * j)" using assms(3) by (simp add: pte_at_def)
  then have "take_bit 64 (8 * i) = take_bit 64 (8 * j)" by (simp only: word_of_nat_eq_iff) simp
  moreover have "8 * i < 2 ^ 64" "8 * j < 2 ^ 64" using assms(1,2) by auto
  ultimately have "8 * i = 8 * j" by (simp only: take_bit_nat_eq_self)
  then show ?thesis by simp
qed

lemma copy_loop:
  assumes "\<And>i j. i0 \<le> i \<Longrightarrow> i < j \<Longrightarrow> j < i0 + n \<Longrightarrow> src j \<noteq> dst i"
    and "\<And>i j. i0 \<le> i \<Longrightarrow> i < j \<Longrightarrow> j < i0 + n \<Longrightarrow> dst i \<noteq> dst j"
  shows "\<exists>g. kfor i0 n (\<lambda>i. kbind (read_pte (src i)) (write_pte (dst i))) s = Inr ((), s\<lparr>ptes := g\<rparr>) \<and>
    (\<forall>i. i0 \<le> i \<and> i < i0 + n \<longrightarrow> g (dst i) = ptes s (src i)) \<and>
    (\<forall>p. (\<forall>i. i0 \<le> i \<and> i < i0 + n \<longrightarrow> p \<noteq> dst i) \<longrightarrow> g p = ptes s p)"
  using assms
proof (induction n arbitrary: i0 s)
  case 0
  then show ?case by (intro exI [of _ "ptes s"]) (auto simp: kret_def)
next
  case (Suc n)
  let ?s = "s\<lparr>ptes := (ptes s)(dst i0 := ptes s (src i0))\<rparr>"
  have first: "kfor i0 (Suc n) (\<lambda>i. kbind (read_pte (src i)) (write_pte (dst i))) s =
      kfor (Suc i0) n (\<lambda>i. kbind (read_pte (src i)) (write_pte (dst i))) ?s"
    by (simp add: kern_simps write_pte_def)
  obtain g where g: "kfor (Suc i0) n (\<lambda>i. kbind (read_pte (src i)) (write_pte (dst i))) ?s = Inr ((), ?s\<lparr>ptes := g\<rparr>)"
    "\<And>i. Suc i0 \<le> i \<and> i < Suc i0 + n \<Longrightarrow> g (dst i) = ptes ?s (src i)"
    "\<And>p. (\<forall>i. Suc i0 \<le> i \<and> i < Suc i0 + n \<longrightarrow> p \<noteq> dst i) \<Longrightarrow> g p = ptes ?s p"
    using Suc.IH [of "Suc i0" ?s] Suc.prems by fastforce
  have 1: "g (dst i) = ptes s (src i)" if "i0 \<le> i" "i < i0 + Suc n" for i
  proof (cases "i = i0")
    case True
    have "\<forall>j. Suc i0 \<le> j \<and> j < Suc i0 + n \<longrightarrow> dst i0 \<noteq> dst j" using Suc.prems(2) [of i0] by auto
    from g(3) [OF this] show ?thesis using True by simp
  next
    case False
    then have "src i \<noteq> dst i0" using Suc.prems(1) [of i0 i] that by auto
    then show ?thesis using g(2) [of i] False that by simp
  qed
  have 2: "g p = ptes s p" if "\<forall>i. i0 \<le> i \<and> i < i0 + Suc n \<longrightarrow> p \<noteq> dst i" for p
    using g(3) [of p] that by auto
  show ?case using first g(1) 1 2 by (intro exI [of _ g]) auto
qed

definition copy_entries :: "addr \<Rightarrow> addr \<Rightarrow> (kstate, unit) kern" where
  "copy_entries c4 p4 = kfor 256 256 (\<lambda>i. kbind (read_pte (pte_at c4 (of_nat i))) (write_pte (pte_at p4 (of_nat i))))"

lemma copy_entries_eq:
  assumes "\<And>i j. 256 \<le> i \<Longrightarrow> i < j \<Longrightarrow> j < 512 \<Longrightarrow> pte_at c4 (of_nat j) \<noteq> pte_at p4 (of_nat i)"
  obtains g where "copy_entries c4 p4 s = Inr ((), s\<lparr>ptes := g\<rparr>)"
    "\<And>i. 256 \<le> i \<Longrightarrow> i < 512 \<Longrightarrow> g (pte_at p4 (of_nat i)) = ptes s (pte_at c4 (of_nat i))"
    "\<And>p. (\<And>i. 256 \<le> i \<Longrightarrow> i < 512 \<Longrightarrow> p \<noteq> pte_at p4 (of_nat i)) \<Longrightarrow> g p = ptes s p"
proof -
  have 1: "\<And>i j. 256 \<le> i \<Longrightarrow> i < j \<Longrightarrow> j < 256 + 256 \<Longrightarrow> pte_at c4 (of_nat j) \<noteq> pte_at p4 (of_nat i)" using assms by simp
  have 2: "pte_at p4 (of_nat i) \<noteq> pte_at p4 (of_nat j)" if "256 \<le> i" "i < j" "j < 256 + 256" for i j
    using pte_at_inj [of i j p4] that by auto
  obtain g where "copy_entries c4 p4 s = Inr ((), s\<lparr>ptes := g\<rparr>)"
    "\<forall>i. 256 \<le> i \<and> i < 256 + 256 \<longrightarrow> g (pte_at p4 (of_nat i)) = ptes s (pte_at c4 (of_nat i))"
    "\<forall>p. (\<forall>i. 256 \<le> i \<and> i < 256 + 256 \<longrightarrow> p \<noteq> pte_at p4 (of_nat i)) \<longrightarrow> g p = ptes s p"
    using copy_loop [of 256 256 "\<lambda>i. pte_at c4 (of_nat i)" "\<lambda>i. pte_at p4 (of_nat i)" s, OF 1 2]
    unfolding copy_entries_def by blast
  then show ?thesis by (intro that [of g]) auto
qed

lemma pdpt_map_eq:
  assumes h: "hhdm s \<noteq> 0"
    and p4: "p4 = pml4e_of s (cap_ptr (slot_cap (ctes s) vspace)) (vaddr AND NOT (mask 39))"
    and cur: "c4 = pml4e_of s (cr3 s) 0"
    and copy: "copy_entries c4 p4 s = Inr ((), s\<lparr>ptes := g\<rparr>)"
  shows "x86_64_pdpt_map cte vspace vaddr attr s =
    (if g p4 AND PTE_PRESENT \<noteq> 0 then Inr (msg_delete_first, s\<lparr>ptes := g\<rparr>)
     else Inr (msg_ok 0, s\<lparr>ptes := g(p4 := (cap_ptr (slot_cap (ctes s) cte) - hhdm s) OR PTE_PRESENT OR PTE_WRITE OR PTE_USER)\<rparr>))"
proof -
  let ?v = "(cap_ptr (slot_cap (ctes s) cte) - hhdm s) OR PTE_PRESENT OR PTE_WRITE OR PTE_USER"
  have "install (kret p4) ?v (s\<lparr>ptes := g\<rparr>) = (if present (s\<lparr>ptes := g\<rparr>) p4 then Inr (msg_delete_first, s\<lparr>ptes := g\<rparr>)
      else Inr (msg_ok 0, (s\<lparr>ptes := g\<rparr>)\<lparr>ptes := (ptes (s\<lparr>ptes := g\<rparr>))(p4 := ?v)\<rparr>))"
    by (rule install_eq) (simp add: kret_def)
  then show ?thesis
    unfolding x86_64_pdpt_map_def Let_def copy_entries_def [symmetric]
    by (simp add: kern_simps physical_of_ret h walk_eq(1) [OF h] get_vm_root_def p4 [symmetric] cur [symmetric] copy)
qed

section \<open>Properties\<close>

definition mapping_example :: kstate where
  "mapping_example = idle_machine\<lparr>
     ctes := (\<lambda>_. zero_cte)(
       Slot 0 := zero_cte\<lparr>cte_cap := cap_set_ptr_bits (drop_bit 4 0x1000) (cap_set_type CAP_X86_64_PML4 zero_cap)\<rparr>,
       Slot 32 := zero_cte\<lparr>cte_cap := cap_set_ptr_bits (drop_bit 4 0xFFFF800000007000) (cap_set_type CAP_X86_64_PAGE zero_cap)\<rparr>),
     tcbs := (\<lambda>_. zero_tcb)(thread_a := zero_tcb\<lparr>t_ipc_buffer := Some buffer_a\<rparr>),
     ptes := (\<lambda>_. 0)(0xFFFF800000001000 := 0x2007, 0xFFFF800000002000 := 0x3007, 0xFFFF800000003000 := 0x4007),
     current_tcb := Some thread_a\<rparr>"

lemma mapping_example_ptrs:
  "cap_ptr (slot_cap (ctes mapping_example) (Slot 0)) = 0x1000"
  "cap_ptr (slot_cap (ctes mapping_example) (Slot 32)) = 0xFFFF800000007000"
  using cap_ptr_set_ptr_bits [of "0x1000" "cap_set_type CAP_X86_64_PML4 zero_cap"]
    cap_ptr_set_ptr_bits [of "0xFFFF800000007000" "cap_set_type CAP_X86_64_PAGE zero_cap"]
  by (simp_all add: mapping_example_def idle_machine_def is_safe_cap_ptr_def drop_bit_eq_div)

lemma mapping_example_fields [simp]:
  "hhdm mapping_example = 0xFFFF800000000000" "current_tcb mapping_example = Some thread_a"
  "t_ipc_buffer (tcbs mapping_example thread_a) = Some buffer_a" "cr3 mapping_example = 0x1000"
  by (simp_all add: mapping_example_def idle_machine_def)

lemma mapping_example_walk:
  "pml4e_of mapping_example 0x1000 0x5123 = 0xFFFF800000001000"
  "pdpte_of mapping_example 0x1000 0x5123 = 0xFFFF800000002000"
  "pde_of mapping_example 0x1000 0x5123 = 0xFFFF800000003000"
  "pte_of mapping_example 0x1000 0x5123 = 0xFFFF800000004028"
  by (simp_all add: pml4e_of_def pdpte_of_def pde_of_def pte_of_def table_of_def PTE_ADDR_def pte_at_def
      table_index_def) (simp_all add: mapping_example_def table_index_def drop_bit_eq_div)



lemma page_aligned_mod:
  assumes "take_bit 12 (t :: word_t) = 0"
  shows "unat t mod 4096 = 0"
proof -
  have "take_bit 12 (unat t) = 0" using assms by (metis unsigned_0 unsigned_take_bit_eq)
  then show ?thesis by (simp add: take_bit_eq_mod)
qed

lemma page_of:
  assumes "take_bit 12 t = 0" "d < 4096"
  shows "unat (t + of_nat d :: word_t) div 4096 = unat t div 4096"
proof -
  note q = page_aligned_mod [OF assms(1)]
  moreover have "unat t < 4096 * 2 ^ 52" using unsigned_less [of t] by simp
  ultimately have le: "unat t + d < 2 ^ 64" using assms(2) by (auto elim!: dvdE simp: mod_eq_0_iff_dvd)
  have "unat (of_nat d :: word_t) = d" using assms(2) by (simp add: unat_of_nat take_bit_nat_eq_self)
  then have "unat (t + of_nat d) = unat t + d" using le by (simp add: unat_word_ariths)
  then show ?thesis using q assms(2) by (simp add: mod_eq_0_iff_dvd div_plus_div_distrib_dvd_left)
qed

lemma pages_disjoint:
  assumes "take_bit 12 t = 0" "take_bit 12 u = 0" "t \<noteq> u" "i < 512" "j < 512"
  shows "pte_at t (of_nat i) \<noteq> pte_at u (of_nat j)"
proof
  assume eq: "pte_at t (of_nat i) = pte_at u (of_nat j)"
  have "unat (t + of_nat (8 * i)) div 4096 = unat (u + of_nat (8 * j)) div 4096" using eq by (simp add: pte_at_def)
  then have "unat t div 4096 = unat u div 4096" using page_of [OF assms(1), of "8 * i"] page_of [OF assms(2), of "8 * j"] assms(4,5) by simp
  then have "unat t = unat u" using page_aligned_mod [OF assms(1)] page_aligned_mod [OF assms(2)] by (metis mod_div_mult_eq)
  then show False using assms(3) by (simp add: word_unat_eq_iff)
qed

lemma next_page_aligned:
  assumes "take_bit 12 (t :: word_t) = 0"
  shows "take_bit 12 (t + 4096) = 0"
proof -
  have "take_bit 12 (uint t) = 0" using assms by (metis unsigned_0 unsigned_take_bit_eq)
  then have "uint t mod 4096 = 0" by (simp add: take_bit_eq_mod)
  then have "uint (t + 4096) mod 4096 = 0" by (simp add: uint_word_ariths mod_mod_cancel)
  then have "uint (take_bit 12 (t + 4096)) = 0" unfolding unsigned_take_bit_eq by (simp add: take_bit_eq_mod)
  then show ?thesis by (simp add: word_uint_eq_iff)
qed

lemma table_aligned: "take_bit 12 (hhdm s) = 0 \<Longrightarrow> take_bit 12 (table_of s e) = 0"
  by (simp add: table_of_def PTE_ADDR_def take_bit_or take_bit_and)

text \<open>C38: Installing the first table of an address space that is built for the lowest 512 GiB shares the kernel half: all
  256 upper entries of the current top table appear in the new one, and, its entry aside, its lower half is kept.\<close>
theorem pdpt_map_shares_kernel:
  assumes "hhdm s \<noteq> 0" "take_bit 12 (hhdm s) = 0"
    and "root = cap_ptr (slot_cap (ctes s) vspace)" "table_index 39 (vaddr AND NOT (mask 39)) = 0"
    and "256 \<le> i" "i < 512" "0 < j" "j < 256"
  shows "\<exists>tag s'. x86_64_pdpt_map cte vspace vaddr attr s = Inr (tag, s') \<and>
    ptes s' (pte_at (table_of s root) (of_nat i)) = ptes s (pte_at (table_of s (cr3 s)) (of_nat i)) \<and>
    ptes s' (pte_at (table_of s root) (of_nat j)) = ptes s (pte_at (table_of s root) (of_nat j))"
proof -
  let ?p4 = "table_of s root" let ?c4 = "table_of s (cr3 s)"
  have p4: "?p4 = pml4e_of s (cap_ptr (slot_cap (ctes s) vspace)) (vaddr AND NOT (mask 39))"
    using assms(3,4) by (simp add: pml4e_of_def pte_at_def)
  have c4: "?c4 = pml4e_of s (cr3 s) 0" by (simp add: pml4e_of_def table_index_def pte_at_def)
  have sep: "pte_at ?c4 (of_nat n) \<noteq> pte_at ?p4 (of_nat m)" if "256 \<le> m" "m < n" "n < 512" for m n
  proof (cases "?c4 = ?p4")
    case True
    then show ?thesis using pte_at_inj [of n m ?p4] that by auto
  next
    case False
    then show ?thesis using that by (intro pages_disjoint table_aligned assms(2)) auto
  qed
  obtain g where g: "copy_entries ?c4 ?p4 s = Inr ((), s\<lparr>ptes := g\<rparr>)"
    "\<And>i. 256 \<le> i \<Longrightarrow> i < 512 \<Longrightarrow> g (pte_at ?p4 (of_nat i)) = ptes s (pte_at ?c4 (of_nat i))"
    "\<And>p. (\<And>i. 256 \<le> i \<Longrightarrow> i < 512 \<Longrightarrow> p \<noteq> pte_at ?p4 (of_nat i)) \<Longrightarrow> g p = ptes s p"
    using copy_entries_eq [OF sep] by blast
  have "g (pte_at ?p4 (of_nat j)) = ptes s (pte_at ?p4 (of_nat j))"
    by (rule g(3)) (use pte_at_inj [of j _ ?p4] assms(8) in auto)
  moreover have "pte_at ?p4 (of_nat n) \<noteq> ?p4" if "0 < n" "n < 512" for n
    using pte_at_inj [of n 0 ?p4] that by (auto simp: pte_at_def)
  ultimately show ?thesis
    using assms(5-8) g(2) [of i] by (auto simp: pdpt_map_eq [OF assms(1) p4 c4 g(1)])
qed

theorem pdpt_map_shares_kernel_witness:
  "\<exists>tag s'. x86_64_pdpt_map (Slot 32) (Slot 0) 0x5000 0 (mapping_example\<lparr>cr3 := 0x9000\<rparr>) = Inr (tag, s') \<and>
    ptes s' 0xFFFF800000001800 = ptes (mapping_example\<lparr>cr3 := 0x9000\<rparr>) 0xFFFF800000009800"
  using pdpt_map_shares_kernel [of "mapping_example\<lparr>cr3 := 0x9000\<rparr>" "0x1000" "Slot 0" "0x5000" 256 1 "Slot 32" 0]
  by (auto simp: mapping_example_ptrs table_of_def PTE_ADDR_def pte_at_def table_index_def drop_bit_eq_div mask_eq_exp_minus_1)

text \<open>For any other user address the entries are copied relative to the entry of the address instead of the start of the
  table: the copy runs past the end of the 4096-byte table, and the first word after it receives a kernel entry.\<close>
theorem pdpt_map_spills:
  assumes "hhdm s \<noteq> 0" "take_bit 12 (hhdm s) = 0"
    and "root = cap_ptr (slot_cap (ctes s) vspace)" "table_index 39 (vaddr AND NOT (mask 39)) = of_nat k" "0 < k" "k < 256"
    and "table_of s (cr3 s) \<notin> {table_of s root, table_of s root + 4096}"
  shows "\<exists>tag s'. x86_64_pdpt_map cte vspace vaddr attr s = Inr (tag, s') \<and>
    ptes s' (table_of s root + 4096) = ptes s (pte_at (table_of s (cr3 s)) (of_nat (512 - k)))"
proof -
  let ?t = "table_of s root" let ?p4 = "pte_at ?t (of_nat k)" let ?c4 = "table_of s (cr3 s)"
  have p4: "?p4 = pml4e_of s (cap_ptr (slot_cap (ctes s) vspace)) (vaddr AND NOT (mask 39))"
    using assms(3,4) by (simp add: pml4e_of_def)
  have c4: "?c4 = pml4e_of s (cr3 s) 0" by (simp add: pml4e_of_def table_index_def pte_at_def)
  have al: "take_bit 12 ?t = 0" "take_bit 12 ?c4 = 0" "take_bit 12 (?t + 4096) = 0"
    using table_aligned [OF assms(2)] by (simp_all add: next_page_aligned)
  have at: "pte_at ?p4 (of_nat m) = (if k + m < 512 then pte_at ?t (of_nat (k + m)) else pte_at (?t + 4096) (of_nat (k + m - 512)))" for m
    by (auto simp: pte_at_def algebra_simps of_nat_diff)
  have sep: "pte_at ?c4 (of_nat n) \<noteq> pte_at ?p4 (of_nat m)" if "256 \<le> m" "m < n" "n < 512" for m n
  proof -
    have "k + m - 512 < 512" using that assms(6) by arith
    then show ?thesis
      using pages_disjoint [OF al(2,1), of n "k + m"] pages_disjoint [OF al(2,3), of n "k + m - 512"] that assms(7)
      unfolding at by (auto simp del: of_nat_add)
  qed
  obtain g where g: "copy_entries ?c4 ?p4 s = Inr ((), s\<lparr>ptes := g\<rparr>)"
    "\<And>i. 256 \<le> i \<Longrightarrow> i < 512 \<Longrightarrow> g (pte_at ?p4 (of_nat i)) = ptes s (pte_at ?c4 (of_nat i))"
    "\<And>p. (\<And>i. 256 \<le> i \<Longrightarrow> i < 512 \<Longrightarrow> p \<noteq> pte_at ?p4 (of_nat i)) \<Longrightarrow> g p = ptes s p"
    using copy_entries_eq [OF sep] by blast
  have last: "pte_at ?p4 (of_nat (512 - k)) = ?t + 4096" unfolding at using assms(6) by (simp add: pte_at_def)
  moreover have "?p4 \<noteq> ?t + 4096"
    using pte_at_inj [of k 0 ?p4] pages_disjoint [OF al(1) al(3), of k 0] assms(5,6) by (auto simp: pte_at_def)
  ultimately show ?thesis
    using assms(5,6) g(2) [of "512 - k"] by (auto simp: pdpt_map_eq [OF assms(1) p4 c4 g(1)])
qed

theorem pdpt_map_spills_witness:
  "\<exists>tag s'. x86_64_pdpt_map (Slot 32) (Slot 0) 0x8000000000 0 (mapping_example\<lparr>cr3 := 0x9000\<rparr>) = Inr (tag, s') \<and>
    ptes s' 0xFFFF800000002000 = ptes (mapping_example\<lparr>cr3 := 0x9000\<rparr>) 0xFFFF800000009FF8"
  using pdpt_map_spills [of "mapping_example\<lparr>cr3 := 0x9000\<rparr>" "0x1000" "Slot 0" "0x8000000000" 1 "Slot 32" 0]
  by (auto simp: mapping_example_ptrs table_of_def PTE_ADDR_def pte_at_def table_index_def drop_bit_eq_div mask_eq_exp_minus_1)

end
