(* ===== verification/Device_Properties.thy ===== *)
theory Device_Properties
  imports Io_Port Irq Example_State
begin

text \<open>
  Properties of the device interfaces: the accesses that an I/O port capability allows, and the
  delivery, masking and acknowledgement of interrupts.
\<close>

section \<open>I/O ports\<close>

fun event_port :: "io_event \<Rightarrow> u16" where
  "event_port (PortIn _ p) = p"
| "event_port (PortOut _ p _) = p"

fun event_width :: "io_event \<Rightarrow> nat" where
  "event_width (PortIn w _) = (case w of IO8 \<Rightarrow> 1 | IO16 \<Rightarrow> 2 | IO32 \<Rightarrow> 4)"
| "event_width (PortOut w _ _) = (case w of IO8 \<Rightarrow> 1 | IO16 \<Rightarrow> 2 | IO32 \<Rightarrow> 4)"

abbreviation first_port_of :: "kstate \<Rightarrow> slot \<Rightarrow> nat" where
  "first_port_of s c \<equiv> unat (cap_x86_64_io_port_first_port (slot_cap (ctes s) c))"

abbreviation last_port_of :: "kstate \<Rightarrow> slot \<Rightarrow> nat" where
  "last_port_of s c \<equiv> unat (cap_x86_64_io_port_last_port (slot_cap (ctes s) c))"

definition io_methods :: "slot \<Rightarrow> word_t \<Rightarrow> word_t \<Rightarrow> (kstate, message_tag_t) kern set" where
  "io_methods c port v =
     {x86_64_io_port_in8 c port, x86_64_io_port_in16 c port, x86_64_io_port_in32 c port,
      x86_64_io_port_out8 c port v, x86_64_io_port_out16 c port v, x86_64_io_port_out32 c port v}"

lemma unat_u16: "unat (ucast (w :: u16) :: word_t) = unat w" "unat (w :: u16) < 65536"
proof -
  show "unat w < 65536" using unsigned_less [of w, where 'a = nat] by simp
  then show "unat (ucast w :: word_t) = unat w" by (simp add: unsigned_ucast_eq take_bit_nat_eq_self)
qed

lemma range_check_cond:
  assumes "port \<noteq> - 1"
  shows "(port < ucast (lo :: u16) \<or> port + 1 > ucast (hi :: u16) + (1 :: word_t)) \<longleftrightarrow>
    \<not> (unat lo \<le> unat port \<and> unat port \<le> unat hi)"
proof -
  have "1 + port \<noteq> 0" using assms by (simp add: add_eq_0_iff)
  then have "unat (port + 1) = unat port + 1" using unatSuc [of port] by (simp add: add.commute)
  moreover have "unat (ucast hi + 1 :: word_t) = unat hi + 1"
    using unat_u16 [of hi] by (simp add: unat_word_ariths)
  ultimately show ?thesis by (auto simp: word_less_nat_alt unat_u16)
qed

lemma range_check_ret:
  assumes "has_buffer s b" "port \<noteq> - 1"
  shows "x86_64_io_port_range_check c port 1 s =
    (if first_port_of s c \<le> unat port \<and> unat port \<le> last_port_of s c then Inr (msg_ok 0, s)
     else Inr (msg_err RANGE_ERROR 2, upd_ipc b 1 (of_nat (last_port_of s c)) (upd_ipc b 0 (of_nat (first_port_of s c)) s)))"
  unfolding x86_64_io_port_range_check_def Let_def
  by (simp add: kern_simps range_check_cond assms(2) msg_error_ret [OF assms(1)] unsigned_ucast_eq)

lemmas io_method_defs =
  x86_64_io_port_in8_def x86_64_io_port_in16_def x86_64_io_port_in32_def
  x86_64_io_port_out8_def x86_64_io_port_out16_def x86_64_io_port_out32_def
  read_port_b_def read_port_w_def read_port_l_def write_port_b_def write_port_w_def write_port_l_def

text \<open>Each method is the range check followed by one access.\<close>

lemma io_method_shape:
  assumes "m \<in> io_methods c port v" "has_buffer s b" "x86_64_io_port_range_check c port 1 s = Inr (tag, t)"
    and "message_label tag = NO_ERROR \<Longrightarrow> t = s"
  shows "if message_label tag \<noteq> NO_ERROR then m s = Inr (tag, t)
    else \<exists>n ev s'. m s = Inr (msg_ok n, s') \<and> io_log s' = io_log s @ [ev] \<and> event_port ev = ucast port"
proof -
  have "has_buffer (s\<lparr>io_log := l\<rparr>) b" for l using assms(2) by (simp add: has_buffer_def)
  then show ?thesis using assms
    by (auto simp: io_methods_def io_method_defs kern_simps set_mr_ret [where b = b] upd_ipc_def)
qed


definition port_example :: kstate where
  "port_example = idle_machine\<lparr>ctes := (\<lambda>_. zero_cte)(Slot 0 := zero_cte\<lparr>cte_cap := new_x86_64_io_port_cap 0x60 0x64\<rparr>),
     tcbs := (\<lambda>_. zero_tcb)(thread_a := zero_tcb\<lparr>t_ipc_buffer := Some buffer_a\<rparr>), current_tcb := Some thread_a\<rparr>"

lemma port_example_fields [simp]:
  "has_buffer port_example buffer_a" "io_log port_example = []"
  "cap_x86_64_io_port_first_port (slot_cap (ctes port_example) (Slot 0)) = 0x60"
  "cap_x86_64_io_port_last_port (slot_cap (ctes port_example) (Slot 0)) = 0x64"
  by (simp_all add: port_example_def has_buffer_def idle_machine_def new_x86_64_io_port_cap_def
      cap_x86_64_io_port_first_port_def cap_x86_64_io_port_last_port_def)


text \<open>The range check does not confine the accesses of a capability: a 32-bit access at the last port of the range
  reaches the three ports after it, and the greatest 64-bit word as port number passes the check of every
  capability, because the sum with the width wraps to zero, and accesses port 65535.\<close>
theorem io_access_escapes:
  assumes "has_buffer s b" "first_port_of s c \<le> last_port_of s c"
  shows "(\<exists>tag s' ev. x86_64_io_port_in32 c (of_nat (last_port_of s c)) s = Inr (tag, s') \<and> io_log s' = io_log s @ [ev] \<and>
      unat (event_port ev) + event_width ev > last_port_of s c + 1) \<and>
    (\<exists>tag s' ev. x86_64_io_port_in8 c (- 1) s = Inr (tag, s') \<and> io_log s' = io_log s @ [ev] \<and> event_port ev = 0xFFFF)"
proof
  let ?p = "of_nat (last_port_of s c) :: word_t"
  have p: "unat ?p = last_port_of s c" by (simp add: unat_u16)
  then have "?p \<noteq> - 1" using unat_u16(2) [of "cap_x86_64_io_port_last_port (slot_cap (ctes s) c)"]
    by (auto simp: unsigned_minus_1_eq_mask mask_eq_exp_minus_1)
  then have "x86_64_io_port_range_check c ?p 1 s = Inr (msg_ok 0, s)"
    using range_check_ret [OF assms(1)] assms(2) p by simp
  moreover have "has_buffer (s\<lparr>io_log := l\<rparr>) b" for l using assms(1) by (simp add: has_buffer_def)
  moreover have "(ucast ?p :: u16) = cap_x86_64_io_port_last_port (slot_cap (ctes s) c)"
    by (rule bit_word_eqI) (simp add: bit_simps)
  ultimately show "\<exists>tag s' ev. x86_64_io_port_in32 c ?p s = Inr (tag, s') \<and> io_log s' = io_log s @ [ev] \<and>
      unat (event_port ev) + event_width ev > last_port_of s c + 1"
    by (simp add: io_method_defs kern_simps set_mr_ret [where b = b] upd_ipc_def)
next
  have "(ucast (- 1 :: word_t) :: u16) = - 1" by (rule bit_word_eqI) (simp add: bit_simps)
  then have m: "(ucast (- 1 :: word_t) :: u16) = 0xFFFF" by simp
  have "x86_64_io_port_range_check c (- 1) 1 s = Inr (msg_ok 0, s)"
    unfolding x86_64_io_port_range_check_def Let_def by (simp add: kern_simps)
  moreover have "has_buffer (s\<lparr>io_log := l\<rparr>) b" for l using assms(1) by (simp add: has_buffer_def)
  ultimately show "\<exists>tag s' ev. x86_64_io_port_in8 c (- 1) s = Inr (tag, s') \<and> io_log s' = io_log s @ [ev] \<and> event_port ev = 0xFFFF"
    by (simp add: io_method_defs kern_simps set_mr_ret [where b = b] upd_ipc_def m)
qed

theorem io_access_escapes_witness:
  "\<exists>tag s' ev. x86_64_io_port_in8 (Slot 0) (- 1) port_example = Inr (tag, s') \<and> io_log s' = [ev] \<and> event_port ev = 0xFFFF"
  using io_access_escapes [of port_example buffer_a "Slot 0"] by simp

section \<open>The I/O APIC\<close>

definition relocation_entry :: "kstate \<Rightarrow> u32 \<Rightarrow> ioapic_relocation_entry" where
  "relocation_entry s irq = entry_of (ioapic_regs s (0x10 + irq * 2)) (ioapic_regs s (0x10 + irq * 2 + 1))"

definition set_entry :: "u32 \<Rightarrow> ioapic_relocation_entry \<Rightarrow> kstate \<Rightarrow> kstate" where
  "set_entry irq e s = s\<lparr>ioapic_regs := (ioapic_regs s)(0x10 + irq * 2 := entry_low e, 0x10 + irq * 2 + 1 := entry_high e)\<rparr>"

lemma entry_halves: "entry_of (entry_low e) (entry_high e) = e" "entry_low (entry_of l h) = l" "entry_high (entry_of l h) = h"
  by (rule bit_word_eqI; auto simp: entry_of_def entry_low_def entry_high_def bit_simps dest: bit_imp_le_length)+

lemma line_registers:
  assumes "irq < (24 :: u32)"
  shows "0x10 + irq * 2 < 0x40" "0x10 + irq * 2 + 1 < 0x40"
proof -
  have "unat irq < 24" using assms by (simp add: word_less_nat_alt)
  then show "0x10 + irq * 2 < 0x40" "0x10 + irq * 2 + 1 < 0x40" by (simp_all add: word_less_nat_alt unat_word_ariths)
qed

lemma entry_ops:
  assumes "hhdm s \<noteq> 0" "irq < 24"
  shows "read_relocation_entry irq s = Inr (relocation_entry s irq, s)"
    "write_relocation_entry irq e s = Inr ((), set_entry irq e s)"
    "mask_irq irq s = Inr ((), set_entry irq (entry_set_mask True (relocation_entry s irq)) s)"
    "unmask_irq irq s = Inr ((), set_entry irq (entry_set_mask False (relocation_entry s irq)) s)"
  using assms line_registers [OF assms(2)]
  by (simp_all add: read_relocation_entry_def write_relocation_entry_def read_register_def write_register_def
      mask_irq_def unmask_irq_def relocation_entry_def set_entry_def direct_map_of_def kern_simps Let_def)

lemma line_inj:
  assumes "irq < (24 :: u32)" "irq' < 24" "irq \<noteq> irq'"
  shows "0x10 + irq' * 2 \<noteq> 0x10 + irq * 2" "0x10 + irq' * 2 \<noteq> 0x10 + irq * 2 + 1"
    "0x10 + irq' * 2 + 1 \<noteq> 0x10 + irq * 2" "0x10 + irq' * 2 + 1 \<noteq> 0x10 + irq * 2 + 1"
proof -
  have "unat irq < 24" "unat irq' < 24" "unat irq \<noteq> unat irq'" using assms by (auto simp: word_less_nat_alt word_unat_eq_iff)
  then show "0x10 + irq' * 2 \<noteq> 0x10 + irq * 2" "0x10 + irq' * 2 \<noteq> 0x10 + irq * 2 + 1"
    "0x10 + irq' * 2 + 1 \<noteq> 0x10 + irq * 2" "0x10 + irq' * 2 + 1 \<noteq> 0x10 + irq * 2 + 1"
    by (auto simp: word_unat_eq_iff unat_word_ariths)
qed

lemma relocation_entry_set:
  assumes "irq < 24" "irq' < 24"
  shows "relocation_entry (set_entry irq e s) irq' = (if irq' = irq then e else relocation_entry s irq')"
  using line_inj [OF assms] by (auto simp: relocation_entry_def set_entry_def entry_halves)

lemma entry_mask_bit: "bit (entry_set_mask b e) n \<longleftrightarrow> (if n = 16 then b else bit e n)"
  by (auto simp: entry_set_mask_def dest: bit64)

lemma entry_mask_iff: "entry_mask e \<longleftrightarrow> bit e 16"
proof -
  have "get_field 16 1 e = of_bool (bit e 16)" by (rule bit_word_eqI) (auto simp: bit_simps)
  then show ?thesis by (simp add: entry_mask_def)
qed

lemma entry_mask_unmask: "entry_set_mask False (entry_set_mask True e) = entry_set_mask False e"
  by (simp add: entry_set_mask_def)

lemma entry_unmasked: "\<not> entry_mask e \<Longrightarrow> entry_set_mask False e = e"
  by (rule bit_word_eqI) (auto simp: entry_mask_bit entry_mask_iff)

lemma set_entry_fields [simp]:
  "irq_handlers (set_entry i e s) = irq_handlers s" "irq_handlers_base (set_entry i e s) = irq_handlers_base s"
  "hhdm (set_entry i e s) = hhdm s" "notifications (set_entry i e s) = notifications s" "lists (set_entry i e s) = lists s"
  "tcbs (set_entry i e s) = tcbs s" "ctes (set_entry i e s) = ctes s"
  by (simp_all add: set_entry_def)

lemma upd_irq_fields [simp]:
  "ioapic_regs (upd_irq p f s) = ioapic_regs s" "irq_handlers_base (upd_irq p f s) = irq_handlers_base s"
  "hhdm (upd_irq p f s) = hhdm s" "notifications (upd_irq p f s) = notifications s" "lists (upd_irq p f s) = lists s"
  "tcbs (upd_irq p f s) = tcbs s" "ctes (upd_irq p f s) = ctes s"
  "irq_handlers (upd_irq p f s) = (irq_handlers s)(p := f (irq_handlers s p))"
  by (simp_all add: upd_irq_def)

lemma relocation_entry_frame [simp]:
  "relocation_entry (upd_irq p f s) = relocation_entry s" "relocation_entry (upd_nfn n g s) = relocation_entry s"
  by (simp_all add: relocation_entry_def fun_eq_iff)

lemma irq_handlers_base_upd_nfn [simp]: "irq_handlers_base (upd_nfn n f s) = irq_handlers_base s"
  by (simp add: upd_nfn_def)

lemma ucast_line:
  assumes "irq < (16 :: word_t)"
  shows "(ucast irq :: u32) < 24"
proof -
  have "unat irq < 16" using assms by (simp add: word_less_nat_alt)
  then show ?thesis by (simp add: word_less_nat_alt unsigned_ucast_eq take_bit_nat_eq_self)
qed

text \<open>C16: The life of an interrupt for which nobody waits yet: the first one masks its line and adds the badge of the handler to
  the notification; further ones on the line before the acknowledgement change nothing; the acknowledgement
  restores the redirection entry exactly, and no other line's entry changes at any point.\<close>
theorem interrupt_life_cycle:
  assumes "irq < 16" "hhdm s \<noteq> 0" "p = irq_handler_at irq s" "irq_handlers s p = d"
    and "h_n d = Some n" "\<not> h_in_service d" "h_irq d = irq" "\<not> entry_mask (relocation_entry s (ucast irq))"
    and "is_list_empty (NotificationList n) (lists s)" "\<not> bound_is_receiving (n_bound_tcb (notifications s n)) s"
    and "cap_ptr (slot_cap (ctes s) c) = p"
  shows "\<exists>s1 s2. handle_irq irq s = Inr ((), s1) \<and>
    n_word (notifications s1 n) = n_word (notifications s n) OR h_badge d \<and> entry_mask (relocation_entry s1 (ucast irq)) \<and>
    (\<forall>i<24. i \<noteq> ucast irq \<longrightarrow> relocation_entry s1 i = relocation_entry s i) \<and>
    handle_irq irq s1 = Inr ((), s1) \<and>
    irq_handler_ack c s1 = Inr (msg_ok 0, s2) \<and> \<not> h_in_service (irq_handlers s2 p) \<and>
    (\<forall>i<24. relocation_entry s2 i = relocation_entry s i)"
proof -
  let ?i = "ucast irq :: u32"
  let ?m = "upd_irq p (\<lambda>d. d\<lparr>h_in_service := True\<rparr>) (set_entry ?i (entry_set_mask True (relocation_entry s ?i)) s)"
  let ?s1 = "upd_nfn n (\<lambda>u. u\<lparr>n_word := n_word u OR h_badge d\<rparr>) ?m"
  note i = ucast_line [OF assms(1)]
  have at: "irq_handler_at irq ?s1 = p" using assms(3) by (simp add: irq_handler_at_def)
  have sig: "notification_signal n (h_badge d) ?m = Inr ((), ?s1)"
    using assms(9,10) bound_is_receiving_cong [of ?m s] by (intro signal_pending(1)) (simp add: nobody_listens_def)
  have e1: "relocation_entry ?s1 j = (if j = ?i then entry_set_mask True (relocation_entry s ?i) else relocation_entry s j)"
    if "j < 24" for j using i that by (simp add: relocation_entry_set)
  have "handle_irq irq s = Inr ((), ?s1)"
    unfolding handle_irq_def using assms(1-7) sig by (simp add: kern_simps entry_ops [OF assms(2) i])
  moreover have "handle_irq irq ?s1 = Inr ((), ?s1)"
    unfolding handle_irq_def using assms(1,4,5) at by (simp add: kern_simps)
  moreover obtain s2 where s2: "irq_handler_ack c ?s1 = Inr (msg_ok 0, s2)"
      "s2 = upd_irq p (\<lambda>d. d\<lparr>h_in_service := False\<rparr>) (set_entry ?i (entry_set_mask False (relocation_entry ?s1 ?i)) ?s1)"
    using assms(2,4,7,11) entry_ops(4) [of ?s1 ?i] i by (simp add: irq_handler_ack_def kern_simps)
  moreover have "relocation_entry s2 j = relocation_entry s j" if "j < 24" for j
    using i that s2(2) e1 assms(8) by (auto simp: relocation_entry_set entry_mask_unmask entry_unmasked)
  ultimately show ?thesis using e1 i by (intro exI [of _ ?s1] exI [of _ s2]) (simp add: entry_mask_iff entry_mask_bit)
qed

definition irq_example :: kstate where
  "irq_example = idle_machine\<lparr>
     ctes := (\<lambda>_. zero_cte)(
       Slot 0 := zero_cte\<lparr>cte_cap := cap_set_ptr_bits (drop_bit 4 0xFFFFFFFF80200000) (cap_set_type CAP_IRQ_HANDLER zero_cap)\<rparr>,
       Slot 32 := zero_cte\<lparr>cte_cap := cap_set_ptr_bits (drop_bit 4 0xFFFF800000700000)
          (cap_set_size_bits 4 (cap_set_type CAP_CNODE zero_cap))\<rparr>),
     lists := (\<lambda>n. \<lparr>l_next = Some n, l_prev = Some n\<rparr>),
     irq_handlers := (\<lambda>_. \<lparr>h_irq = 0, h_in_service = False, h_n = Some 0xFFFF800000800000, h_badge = 8\<rparr>)\<rparr>"

lemma irq_example_ptrs:
  "cap_ptr (slot_cap (ctes irq_example) (Slot 0)) = 0xFFFFFFFF80200000"
  "cap_ptr (slot_cap (ctes irq_example) (Slot 32)) = 0xFFFF800000700000"
  "cap_type (slot_cap (ctes irq_example) (Slot 32)) = CAP_CNODE"
  "cap_size (slot_cap (ctes irq_example) (Slot 32)) = 16"
  using cap_ptr_set_ptr_bits [of "0xFFFFFFFF80200000" "cap_set_type CAP_IRQ_HANDLER zero_cap"]
    cap_ptr_set_ptr_bits [of "0xFFFF800000700000" "cap_set_size_bits 4 (cap_set_type CAP_CNODE zero_cap)"]
  by (simp_all add: irq_example_def is_safe_cap_ptr_def drop_bit_eq_div cap_size_def BIT_def)

lemma irq_example_fields [simp]:
  "hhdm irq_example = 0xFFFF800000000000" "irq_handlers_base irq_example = 0xFFFFFFFF80200000"
  "irq_handlers irq_example p = \<lparr>h_irq = 0, h_in_service = False, h_n = Some 0xFFFF800000800000, h_badge = 8\<rparr>"
  "irq_handlers_issued irq_example = 0" "is_list_empty h (lists irq_example)" "notifications irq_example n = zero_notification"
  "ioapic_regs irq_example r = 0"
  by (simp_all add: irq_example_def idle_machine_def is_list_empty_def)

theorem interrupt_life_cycle_witness:
  "\<exists>s1 s2. handle_irq 0 irq_example = Inr ((), s1) \<and> n_word (notifications s1 0xFFFF800000800000) = 8 \<and>
     handle_irq 0 s1 = Inr ((), s1) \<and> irq_handler_ack (Slot 0) s1 = Inr (msg_ok 0, s2)"
proof -
  have "\<not> entry_mask (relocation_entry irq_example (ucast (0 :: word_t)))"
    by (simp add: entry_mask_iff relocation_entry_def entry_of_def)
  moreover have "irq_handler_at 0 irq_example = 0xFFFFFFFF80200000" by (simp add: irq_handler_at_def)
  moreover have "\<not> bound_is_receiving (n_bound_tcb (notifications irq_example 0xFFFF800000800000)) irq_example"
    by (simp add: bound_is_receiving_def zero_notification_def)
  ultimately show ?thesis
    using interrupt_life_cycle [of 0 irq_example "0xFFFFFFFF80200000" _ "0xFFFF800000800000" "Slot 0"] irq_example_ptrs(1)
    by (fastforce simp: zero_notification_def)
qed

section \<open>Issue of interrupt handlers\<close>

lemma irq_control_get_eq:
  assumes "cap_type (slot_cap (ctes s) root) = CAP_CNODE" "index < cap_size (slot_cap (ctes s) root)"
    and "c = cte_at (cap_ptr (slot_cap (ctes s) root)) index" "has_buffer s b" "p = irq_handler_at irq s"
  shows "irq_control_get obj irq root index 64 s =
    (if cap_type (slot_cap (ctes s) c) \<noteq> CAP_NULL then Inr (msg_delete_first, s)
     else if irq \<ge> 16 \<or> push_bit (unat irq) 1 AND irq_handlers_issued s \<noteq> 0
       then Inr (msg_err INVALID_ARGUMENT 1, upd_ipc b 0 0 s)
     else case cap_set_ptr p (new_irq_handler_cap irq) of Inl e \<Rightarrow> Inl e
       | Inr cap \<Rightarrow> Inr (msg_ok 0, upd_irq p (\<lambda>d. d\<lparr>h_irq := irq\<rparr>)
           (s\<lparr>irq_handlers_issued := irq_handlers_issued s OR push_bit (unat irq) 1, ctes := set_cap c cap (ctes s)\<rparr>)))"
proof -
  have u: "ucast (64 :: u8) = (64 :: word_t)" by simp
  show ?thesis
    unfolding irq_control_get_def u TRY_out_found [OF assms(1,2)] assms(3) [symmetric] assms(5)
    by (cases "cap_set_ptr (irq_handler_at irq s) (new_irq_handler_cap irq)")
      (auto simp: kern_simps msg_error_ret [OF assms(4)] irq_handler_at_def set_cap_def)
qed

lemma issued_bit: "(push_bit n 1 AND w \<noteq> (0 :: word_t)) \<longleftrightarrow> bit w n"
proof -
  have "push_bit n 1 AND w = (if bit w n then push_bit n 1 else 0)"
    by (rule bit_word_eqI) (auto simp: bit_simps)
  then show ?thesis using bit64 [of w n] by (auto simp: push_bit_eq_0_iff)
qed


definition issue_example :: kstate where
  "issue_example = irq_example\<lparr>tcbs := (\<lambda>_. zero_tcb)(thread_a := zero_tcb\<lparr>t_ipc_buffer := Some buffer_a\<rparr>), current_tcb := Some thread_a\<rparr>"

lemma issue_example_fields [simp]:
  "ctes issue_example = ctes irq_example" "has_buffer issue_example buffer_a" "irq_handlers_base issue_example = 0xFFFFFFFF80200000"
  "irq_handlers_issued issue_example = 0" "cap_type (slot_cap (ctes irq_example) (Slot 0xFFFF800000700060)) = 0"
  by (simp_all add: issue_example_def has_buffer_def) (simp_all add: irq_example_def zero_cte_def)


lemma adjacent_unsafe: "\<not> (is_safe_cap_ptr p \<and> is_safe_cap_ptr (p + 24))"
proof
  assume "is_safe_cap_ptr p \<and> is_safe_cap_ptr (p + 24)"
  then have z: "p AND 0xF = 0" "(p + 24) AND 0xF = 0" by (auto simp: is_safe_cap_ptr_def split: if_splits)
  have mod: "uint w mod 16 = 0" if "w AND 0xF = 0" for w :: word_t
  proof -
    have "take_bit 4 w = 0" using that take_bit_eq_mask [of 4 w] by (simp add: mask_eq_exp_minus_1)
    then have "take_bit 4 (uint w) = 0" by (metis unsigned_0 unsigned_take_bit_eq)
    then show ?thesis by (simp add: take_bit_eq_mod)
  qed
  have "uint (p + 24) mod 16 = (uint p + 24) mod 16" by (simp add: uint_word_ariths mod_mod_cancel)
  also have "\<dots> = (uint p mod 16 + 24) mod 16" by (simp add: mod_add_left_eq)
  finally show False using mod [OF z(1)] mod [OF z(2)] by simp
qed

text \<open>Of two adjacent interrupt lines at least one can never be issued: handlers are 24 bytes apart and a capability stores
  only 16-byte aligned addresses, so the request for one of the two fails an assertion, which stops the kernel.\<close>
theorem adjacent_lines_panic:
  assumes "cap_type (slot_cap (ctes s) root) = CAP_CNODE" "index < cap_size (slot_cap (ctes s) root)"
    and "cap_type (slot_cap (ctes s) (cte_at (cap_ptr (slot_cap (ctes s) root)) index)) = CAP_NULL" "has_buffer s b"
    and "irq < 15" "\<not> bit (irq_handlers_issued s) (unat irq)" "\<not> bit (irq_handlers_issued s) (unat (irq + 1))"
  shows "irq_control_get obj irq root index 64 s = Inl AssertFailed \<or>
    irq_control_get obj (irq + 1) root index 64 s = Inl AssertFailed"
proof -
  have lt: "\<not> 16 \<le> irq" "\<not> 16 \<le> irq + 1"
    using assms(5) by (simp_all add: word_le_nat_alt word_less_nat_alt unat_word_ariths)
  have at: "irq_handler_at (irq + 1) s = irq_handler_at irq s + 24" by (simp add: irq_handler_at_def algebra_simps)
  have panic: "irq_control_get obj i root index 64 s = Inl AssertFailed"
    if "\<not> 16 \<le> i" "\<not> bit (irq_handlers_issued s) (unat i)" "\<not> is_safe_cap_ptr (irq_handler_at i s)" for i
    using irq_control_get_eq [OF assms(1,2) refl assms(4) refl, of obj i] assms(3) that
    by (simp add: issued_bit cap_set_ptr_def set_bits_pointer_def del: push_bit_of_1)
  show ?thesis using adjacent_unsafe [of "irq_handler_at irq s"] panic [OF lt(1) assms(6)] panic [OF lt(2) assms(7)] at by auto
qed

theorem adjacent_lines_panic_witness:
  "irq_control_get (Slot 0) 0 (Slot 32) 3 64 issue_example = Inl AssertFailed \<or>
   irq_control_get (Slot 0) 1 (Slot 32) 3 64 issue_example = Inl AssertFailed"
  using adjacent_lines_panic [of issue_example "Slot 32" 3 buffer_a 0 "Slot 0"]
  by (auto simp: irq_example_ptrs cte_at_def)

end
