(* ===== verification/Spin_Lock.thy ===== *)
theory Spin_Lock
  imports Ipc
begin

text \<open>
  The ticket lock and the reader-writer lock (\<open>lib/spin_lock.c\<close>) under concurrency: \<open>n\<close> processors that
  interleave the atomic operations of \<open>spin_lock\<close>, \<open>spin_unlock\<close>, \<open>read_lock\<close>, \<open>read_unlock\<close>, \<open>write_lock\<close>
  and \<open>write_unlock\<close> in any order. The counters are 32-bit and wrap. The atomic operations take effect
  in one order, as the acquire and release orders of the source provide for the data that the locks protect.
\<close>

section \<open>The ticket lock\<close>

text \<open>What a processor is doing: outside, waiting with the ticket in its local variable \<open>back\<close>, or holding the lock.\<close>

datatype phase = Out | Spinning u32 | Holding

record lock_sys =
  sys_lock :: spin_lock_t
  sys_phase :: "nat \<Rightarrow> phase"

definition lock_init :: lock_sys where
  "lock_init = \<lparr>sys_lock = \<lparr>lk_front = 0, lk_back = 0\<rparr>, sys_phase = (\<lambda>_. Out)\<rparr>"

text \<open>One atomic operation of processor \<open>c\<close>: line 9, line 11 with either outcome, and line 18 of the source.\<close>

inductive lock_step :: "nat \<Rightarrow> lock_sys \<Rightarrow> lock_sys \<Rightarrow> bool" for n where
  take_ticket: "c < n \<Longrightarrow> sys_phase s c = Out \<Longrightarrow>
     lock_step n s \<lparr>sys_lock = (sys_lock s)\<lparr>lk_back := lk_back (sys_lock s) + 1\<rparr>,
                    sys_phase = (sys_phase s)(c := Spinning (lk_back (sys_lock s)))\<rparr>"
| spin: "c < n \<Longrightarrow> sys_phase s c = Spinning b \<Longrightarrow> lk_front (sys_lock s) \<noteq> b \<Longrightarrow> lock_step n s s"
| enter: "c < n \<Longrightarrow> sys_phase s c = Spinning b \<Longrightarrow> lk_front (sys_lock s) = b \<Longrightarrow>
     lock_step n s (s\<lparr>sys_phase := (sys_phase s)(c := Holding)\<rparr>)"
| leave: "c < n \<Longrightarrow> sys_phase s c = Holding \<Longrightarrow>
     lock_step n s \<lparr>sys_lock = release (sys_lock s), sys_phase = (sys_phase s)(c := Out)\<rparr>"

section \<open>The queue of tickets\<close>

text \<open>
  The processors inside, in the order of their tickets: the first may hold the lock or not have seen
  yet that its ticket is served, the others wait.
\<close>

definition ticket_queue :: "nat \<Rightarrow> lock_sys \<Rightarrow> nat list \<Rightarrow> bool" where
  "ticket_queue n s q \<longleftrightarrow> distinct q \<and> set q \<subseteq> {..<n} \<and>
     lk_back (sys_lock s) = lk_front (sys_lock s) + of_nat (length q) \<and>
     (\<forall>c. c \<notin> set q \<longrightarrow> sys_phase s c = Out) \<and>
     (\<forall>i < length q. sys_phase s (q ! i) = Spinning (lk_front (sys_lock s) + of_nat i) \<or> i = 0 \<and> sys_phase s (q ! i) = Holding)"

lemma ticket_queue_length: "ticket_queue n s q \<Longrightarrow> length q \<le> n"
  unfolding ticket_queue_def by (metis card_lessThan card_mono distinct_card finite_lessThan)

lemma ticket_queue_init: "ticket_queue n lock_init []"
  by (simp add: ticket_queue_def lock_init_def)

lemma ticket_queue_member:
  assumes "ticket_queue n s q" "sys_phase s c \<noteq> Out"
  obtains i where "i < length q" "c = q ! i"
  using assms by (metis in_set_conv_nth ticket_queue_def)

lemma served_is_first:
  assumes "ticket_queue n s q" "n < 2 ^ 32" "sys_phase s c = Spinning (lk_front (sys_lock s)) \<or> sys_phase s c = Holding"
  shows "\<exists>q'. q = c # q'"
proof -
  obtain i where i: "i < length q" "c = q ! i" using ticket_queue_member [OF assms(1), of c] assms(3) by (metis phase.distinct(1,3))
  have "i < 2 ^ 32" using i(1) ticket_queue_length [OF assms(1)] assms(2) by linarith
  then have "unat (of_nat i :: u32) = i" by (simp add: unat_of_nat take_bit_nat_eq_self)
  then have "(of_nat i :: u32) = 0 \<Longrightarrow> i = 0" by auto
  moreover have "sys_phase s (q ! i) = Spinning (lk_front (sys_lock s) + of_nat i) \<or> i = 0"
    using i(1) assms(1) unfolding ticket_queue_def by blast
  ultimately have "i = 0" using i(2) assms(3) by auto
  then show ?thesis using i by (cases q) auto
qed

lemma ticket_queue_take:
  assumes "ticket_queue n s q" "c < n" "sys_phase s c = Out"
  shows "ticket_queue n \<lparr>sys_lock = (sys_lock s)\<lparr>lk_back := lk_back (sys_lock s) + 1\<rparr>,
                    sys_phase = (sys_phase s)(c := Spinning (lk_back (sys_lock s)))\<rparr> (q @ [c])"
proof -
  have "c \<notin> set q"
    using assms(1,3) unfolding ticket_queue_def in_set_conv_nth by fastforce
  then show ?thesis
    using assms(1,2) unfolding ticket_queue_def by (auto simp: nth_append less_Suc_eq)
qed

lemma ticket_queue_enter:
  assumes "ticket_queue n s (c # q)"
  shows "ticket_queue n (s\<lparr>sys_phase := (sys_phase s)(c := Holding)\<rparr>) (c # q)"
  using assms unfolding ticket_queue_def by (auto simp: nth_Cons split: nat.splits)

lemma ticket_queue_leave:
  assumes "ticket_queue n s (c # q)"
  shows "ticket_queue n \<lparr>sys_lock = release (sys_lock s), sys_phase = (sys_phase s)(c := Out)\<rparr> q"
proof -
  have "sys_phase s (q ! i) = Spinning (lk_front (sys_lock s) + 1 + of_nat i)" if "i < length q" for i
  proof -
    have "\<forall>j < length (c # q). sys_phase s ((c # q) ! j) = Spinning (lk_front (sys_lock s) + of_nat j) \<or>
        j = 0 \<and> sys_phase s ((c # q) ! j) = Holding" using assms unfolding ticket_queue_def by blast
    from this [rule_format, of "Suc i"] show ?thesis using that by (simp add: add.assoc)
  qed
  then show ?thesis using assms unfolding ticket_queue_def by (auto simp: release_def)
qed

lemma lock_step_queue:
  assumes "lock_step n s s'" "ticket_queue n s q" "n < 2 ^ 32"
  shows "\<exists>q'. ticket_queue n s' q'"
  using assms
proof (cases rule: lock_step.cases)
  case (take_ticket c)
  then show ?thesis using ticket_queue_take [OF assms(2)] by blast
next
  case (enter c b)
  then obtain q' where "q = c # q'" using served_is_first [OF assms(2,3)] by blast
  then show ?thesis using ticket_queue_enter enter assms(2) by blast
next
  case (leave c)
  then obtain q' where "q = c # q'" using served_is_first [OF assms(2,3)] by blast
  then show ?thesis using ticket_queue_leave leave assms(2) by blast
qed auto

lemma reachable_queue:
  assumes "rtranclp (lock_step n) lock_init s" "n < 2 ^ 32"
  shows "\<exists>q. ticket_queue n s q"
  using assms(1) by (induction rule: rtranclp_induct) (use ticket_queue_init lock_step_queue [OF _ _ assms(2)] in blast)+

lemma holding_unique:
  assumes "ticket_queue n s q" "n < 2 ^ 32" "sys_phase s c = Holding" "sys_phase s d = Holding"
  shows "c = d"
  using served_is_first [OF assms(1,2)] assms(3,4) by blast

lemma first_is_served:
  assumes "ticket_queue n s (c # q)"
  shows "c < n" "sys_phase s c = Holding \<or> sys_phase s c = Spinning (lk_front (sys_lock s))"
  using assms unfolding ticket_queue_def by fastforce+

text \<open>C11: The ticket lock is exclusive, free of deadlock and first come first served: in every state that fewer than 2^32
  processors can reach from the initial lock, in any interleaving and however often the tickets wrap around, at
  most one processor holds the lock, and if some processor is inside, then the one that took its ticket first holds
  the lock or is the only one whose next read of the front counter lets it enter.\<close>
theorem ticket_lock_correct:
  assumes "rtranclp (lock_step n) lock_init s" "n < 2 ^ 32"
  shows "\<exists>q. ticket_queue n s q \<and> (\<forall>c d. sys_phase s c = Holding \<and> sys_phase s d = Holding \<longrightarrow> c = d) \<and>
    (q \<noteq> [] \<longrightarrow> sys_phase s (hd q) = Holding \<or>
       lock_step n s (s\<lparr>sys_phase := (sys_phase s)(hd q := Holding)\<rparr>) \<and>
       (\<forall>c b. sys_phase s c = Spinning b \<and> lk_front (sys_lock s) = b \<longrightarrow> c = hd q))"
proof -
  obtain q where q: "ticket_queue n s q" using reachable_queue [OF assms] by blast
  have "sys_phase s (hd q) = Holding \<or> lock_step n s (s\<lparr>sys_phase := (sys_phase s)(hd q := Holding)\<rparr>)" if ne: "q \<noteq> []"
  proof -
    obtain c q' where cq: "q = c # q'" using ne by (cases q) auto
    then show ?thesis using first_is_served [of n s c q'] q lock_step.enter [of c n s "lk_front (sys_lock s)"] by auto
  qed
  moreover have "c = hd q" if "sys_phase s c = Spinning (lk_front (sys_lock s))" for c
    using served_is_first [OF q assms(2)] that by fastforce
  ultimately show ?thesis using q holding_unique [OF q assms(2)] by (intro exI [of _ q]) auto
qed

theorem ticket_lock_correct_witness:
  "\<exists>s. rtranclp (lock_step 2) lock_init s \<and> sys_phase s 0 = Holding \<and> sys_phase s 1 = Spinning 1 \<and>
     (\<forall>c d. sys_phase s c = Holding \<and> sys_phase s d = Holding \<longrightarrow> c = d)"
proof -
  let ?s1 = "\<lparr>sys_lock = \<lparr>lk_front = 0, lk_back = 1\<rparr>, sys_phase = (\<lambda>_. Out)(0 := Spinning 0)\<rparr>"
  let ?s2 = "\<lparr>sys_lock = \<lparr>lk_front = 0, lk_back = 1\<rparr>, sys_phase = (\<lambda>_. Out)(0 := Holding)\<rparr>"
  let ?s3 = "\<lparr>sys_lock = \<lparr>lk_front = 0, lk_back = 2\<rparr>, sys_phase = (\<lambda>_. Out)(0 := Holding, 1 := Spinning 1)\<rparr>"
  have st: "lock_step 2 lock_init ?s1" "lock_step 2 ?s1 ?s2" "lock_step 2 ?s2 ?s3"
    using lock_step.take_ticket [of 0 2 lock_init] lock_step.enter [of 0 2 ?s1 0] lock_step.take_ticket [of 1 2 ?s2]
    by (simp_all add: lock_init_def)
  have r: "rtranclp (lock_step 2) lock_init ?s3"
    by (rule rtranclp.rtrancl_into_rtrancl [OF rtranclp.rtrancl_into_rtrancl [OF r_into_rtranclp [of "lock_step 2", OF st(1)] st(2)] st(3)])
  show ?thesis using ticket_lock_correct [OF r] r by (intro exI [of _ ?s3]) auto
qed

text \<open>The lock of the single-processor model is the concurrent lock with nobody else inside.\<close>

lemma acquire_alone:
  assumes "acquire l = Inr l'" "0 < n"
  shows "rtranclp (lock_step n) \<lparr>sys_lock = l, sys_phase = (\<lambda>_. Out)\<rparr> \<lparr>sys_lock = l', sys_phase = (\<lambda>_. Out)(0 := Holding)\<rparr>"
proof -
  let ?s = "\<lparr>sys_lock = l, sys_phase = (\<lambda>_. Out)\<rparr>"
  let ?s1 = "\<lparr>sys_lock = l\<lparr>lk_back := lk_back l + 1\<rparr>, sys_phase = (\<lambda>_. Out)(0 := Spinning (lk_back l))\<rparr>"
  have l: "lk_front l = lk_back l" "l' = l\<lparr>lk_back := lk_back l + 1\<rparr>"
    using assms(1) by (auto simp: acquire_def Let_def split: if_splits)
  have 1: "lock_step n ?s ?s1" using lock_step.take_ticket [of 0 n ?s] assms(2) by simp
  have 2: "lock_step n ?s1 \<lparr>sys_lock = l', sys_phase = (\<lambda>_. Out)(0 := Holding)\<rparr>"
    using lock_step.enter [of 0 n ?s1 "lk_back l"] l assms(2) by simp
  show ?thesis by (rule rtranclp.rtrancl_into_rtrancl [OF r_into_rtranclp [of "lock_step n", OF 1] 2])
qed

section \<open>The reader-writer lock\<close>

text \<open>
  Where a processor is in the functions of the reader-writer lock: waiting for the gate, holding the gate
  as a reader before and after counting itself, reading, waiting for the gate as a writer, holding the
  gate and waiting for the readers to leave, writing.
\<close>

datatype rw_phase =
    RwOut | ReadSpin u32 | ReadGate | ReadCounted | Reading | WriteSpin u32 | WriteWait | Writing

record rw_sys =
  rw_gate :: spin_lock_t
  rw_readers :: u32
  rw_phases :: "nat \<Rightarrow> rw_phase"

definition rw_init :: rw_sys where
  "rw_init = \<lparr>rw_gate = \<lparr>lk_front = 0, lk_back = 0\<rparr>, rw_readers = 0, rw_phases = (\<lambda>_. RwOut)\<rparr>"

abbreviation next_ticket :: "spin_lock_t \<Rightarrow> spin_lock_t" where
  "next_ticket l \<equiv> l\<lparr>lk_back := lk_back l + 1\<rparr>"

inductive rw_step :: "nat \<Rightarrow> rw_sys \<Rightarrow> rw_sys \<Rightarrow> bool" for n where
  read_ticket: "c < n \<Longrightarrow> rw_phases s c = RwOut \<Longrightarrow> rw_step n s
     (s\<lparr>rw_gate := next_ticket (rw_gate s), rw_phases := (rw_phases s)(c := ReadSpin (lk_back (rw_gate s)))\<rparr>)"
| read_spin: "c < n \<Longrightarrow> rw_phases s c = ReadSpin b \<Longrightarrow> lk_front (rw_gate s) \<noteq> b \<Longrightarrow> rw_step n s s"
| read_enter: "c < n \<Longrightarrow> rw_phases s c = ReadSpin b \<Longrightarrow> lk_front (rw_gate s) = b \<Longrightarrow>
     rw_step n s (s\<lparr>rw_phases := (rw_phases s)(c := ReadGate)\<rparr>)"
| read_count: "c < n \<Longrightarrow> rw_phases s c = ReadGate \<Longrightarrow>
     rw_step n s (s\<lparr>rw_readers := rw_readers s + 1, rw_phases := (rw_phases s)(c := ReadCounted)\<rparr>)"
| read_open: "c < n \<Longrightarrow> rw_phases s c = ReadCounted \<Longrightarrow>
     rw_step n s (s\<lparr>rw_gate := release (rw_gate s), rw_phases := (rw_phases s)(c := Reading)\<rparr>)"
| read_leave: "c < n \<Longrightarrow> rw_phases s c = Reading \<Longrightarrow>
     rw_step n s (s\<lparr>rw_readers := rw_readers s - 1, rw_phases := (rw_phases s)(c := RwOut)\<rparr>)"
| write_ticket: "c < n \<Longrightarrow> rw_phases s c = RwOut \<Longrightarrow> rw_step n s
     (s\<lparr>rw_gate := next_ticket (rw_gate s), rw_phases := (rw_phases s)(c := WriteSpin (lk_back (rw_gate s)))\<rparr>)"
| write_spin: "c < n \<Longrightarrow> rw_phases s c = WriteSpin b \<Longrightarrow> lk_front (rw_gate s) \<noteq> b \<Longrightarrow> rw_step n s s"
| write_enter: "c < n \<Longrightarrow> rw_phases s c = WriteSpin b \<Longrightarrow> lk_front (rw_gate s) = b \<Longrightarrow>
     rw_step n s (s\<lparr>rw_phases := (rw_phases s)(c := WriteWait)\<rparr>)"
| write_wait: "c < n \<Longrightarrow> rw_phases s c = WriteWait \<Longrightarrow> rw_readers s \<noteq> 0 \<Longrightarrow> rw_step n s s"
| write_begin: "c < n \<Longrightarrow> rw_phases s c = WriteWait \<Longrightarrow> rw_readers s = 0 \<Longrightarrow>
     rw_step n s (s\<lparr>rw_phases := (rw_phases s)(c := Writing)\<rparr>)"
| write_leave: "c < n \<Longrightarrow> rw_phases s c = Writing \<Longrightarrow>
     rw_step n s (s\<lparr>rw_gate := release (rw_gate s), rw_phases := (rw_phases s)(c := RwOut)\<rparr>)"

text \<open>The gate is a ticket lock: what a processor does with the gate.\<close>

fun gate_phase :: "rw_phase \<Rightarrow> phase" where
  "gate_phase RwOut = Out"
| "gate_phase (ReadSpin b) = Spinning b"
| "gate_phase ReadGate = Holding"
| "gate_phase ReadCounted = Holding"
| "gate_phase Reading = Out"
| "gate_phase (WriteSpin b) = Spinning b"
| "gate_phase WriteWait = Holding"
| "gate_phase Writing = Holding"

definition gate_of :: "rw_sys \<Rightarrow> lock_sys" where
  "gate_of s = \<lparr>sys_lock = rw_gate s, sys_phase = gate_phase \<circ> rw_phases s\<rparr>"

text \<open>A system whose steps are steps of another one or invisible there.\<close>

locale simulation =
  fixes cstep :: "'c \<Rightarrow> 'c \<Rightarrow> bool" and astep :: "'a \<Rightarrow> 'a \<Rightarrow> bool" and abs :: "'c \<Rightarrow> 'a"
  assumes simulates: "cstep s s' \<Longrightarrow> abs s' = abs s \<or> astep (abs s) (abs s')"
begin

lemma reachable_abs: "rtranclp cstep s s' \<Longrightarrow> rtranclp astep (abs s) (abs s')"
proof (induction rule: rtranclp_induct)
  case (step t u)
  then show ?case using simulates [of t u] rtranclp.rtrancl_into_rtrancl [of astep "abs s" "abs t" "abs u"] by auto
qed simp

lemma invariant_abs:
  assumes "rtranclp cstep s0 s" "\<And>a. rtranclp astep (abs s0) a \<Longrightarrow> P a"
  shows "P (abs s)"
  using assms reachable_abs by blast

end

lemma gate_of_upd:
  "gate_of (s\<lparr>rw_gate := g, rw_phases := (rw_phases s)(c := p)\<rparr>) =
     \<lparr>sys_lock = g, sys_phase = (sys_phase (gate_of s))(c := gate_phase p)\<rparr>"
  "gate_of (s\<lparr>rw_readers := r, rw_phases := (rw_phases s)(c := p)\<rparr>) =
     (gate_of s)\<lparr>sys_phase := (sys_phase (gate_of s))(c := gate_phase p)\<rparr>"
  "gate_of (s\<lparr>rw_phases := (rw_phases s)(c := p)\<rparr>) = (gate_of s)\<lparr>sys_phase := (sys_phase (gate_of s))(c := gate_phase p)\<rparr>"
  by (simp_all add: gate_of_def fun_eq_iff)

lemma gate_of_fields [simp]: "sys_lock (gate_of s) = rw_gate s" "sys_phase (gate_of s) c = gate_phase (rw_phases s c)"
  by (simp_all add: gate_of_def)

lemma gate_of_same: "gate_phase p = gate_phase (rw_phases s c) \<Longrightarrow>
    (gate_of s)\<lparr>sys_phase := (sys_phase (gate_of s))(c := gate_phase p)\<rparr> = gate_of s"
  by (auto simp: gate_of_def fun_eq_iff)

interpretation gate: simulation "rw_step n" "lock_step n" gate_of for n
proof unfold_locales
  fix s s' assume "rw_step n s s'"
  then show "gate_of s' = gate_of s \<or> lock_step n (gate_of s) (gate_of s')"
  proof cases
    case (read_ticket c)
    then show ?thesis using lock_step.take_ticket [of c n "gate_of s"] by (simp add: gate_of_upd)
  next
    case (read_enter c b)
    then show ?thesis using lock_step.enter [of c n "gate_of s" b] by (simp add: gate_of_upd)
  next
    case (read_open c)
    then show ?thesis using lock_step.leave [of c n "gate_of s"] by (simp add: gate_of_upd)
  next
    case (write_ticket c)
    then show ?thesis using lock_step.take_ticket [of c n "gate_of s"] by (simp add: gate_of_upd)
  next
    case (write_enter c b)
    then show ?thesis using lock_step.enter [of c n "gate_of s" b] by (simp add: gate_of_upd)
  next
    case (write_leave c)
    then show ?thesis using lock_step.leave [of c n "gate_of s"] by (simp add: gate_of_upd)
  next
    case (read_count c)
    then show ?thesis using gate_of_same [of ReadCounted s c] by (simp add: gate_of_upd)
  next
    case (read_leave c)
    then show ?thesis using gate_of_same [of RwOut s c] by (simp add: gate_of_upd)
  next
    case (write_begin c)
    then show ?thesis using gate_of_same [of Writing s c] by (simp add: gate_of_upd)
  qed auto
qed

text \<open>The readers that the counter counts.\<close>

definition counted :: "rw_sys \<Rightarrow> nat set" where
  "counted s = {c. rw_phases s c = ReadCounted \<or> rw_phases s c = Reading}"

definition rw_inv :: "nat \<Rightarrow> rw_sys \<Rightarrow> bool" where
  "rw_inv n s \<longleftrightarrow> counted s \<subseteq> {..<n} \<and> rw_readers s = of_nat (card (counted s)) \<and>
     (\<forall>c. rw_phases s c = Writing \<longrightarrow> counted s = {})"

lemma counted_upd:
  "counted (s\<lparr>rw_gate := g, rw_phases := (rw_phases s)(c := p)\<rparr>) =
     (if p = ReadCounted \<or> p = Reading then insert c (counted s) else counted s - {c})"
  "counted (s\<lparr>rw_readers := r, rw_phases := (rw_phases s)(c := p)\<rparr>) =
     (if p = ReadCounted \<or> p = Reading then insert c (counted s) else counted s - {c})"
  "counted (s\<lparr>rw_phases := (rw_phases s)(c := p)\<rparr>) =
     (if p = ReadCounted \<or> p = Reading then insert c (counted s) else counted s - {c})"
  by (auto simp: counted_def)

lemma rw_inv_step:
  assumes "rw_step n s s'" "rw_inv n s" "n < 2 ^ 32" "ticket_queue n (gate_of s) q"
  shows "rw_inv n s'"
proof -
  have fin: "finite (counted s)" "card (counted s) < 2 ^ 32"
    using assms(2,3) finite_subset [of "counted s" "{..<n}"] card_mono [of "{..<n}" "counted s"] by (auto simp: rw_inv_def)
  have alone: "d = c" if "gate_phase (rw_phases s c) = Holding" "rw_phases s d = Writing" for c d
    using holding_unique [OF assms(4,3), of d c] that by simp
  note inv = assms(2) [unfolded rw_inv_def]
  from assms(1) show ?thesis
  proof cases
    case (read_count c)
    then have "c \<notin> counted s" by (simp add: counted_def)
    moreover have "rw_phases s d \<noteq> Writing" for d using alone [of c d] read_count by auto
    ultimately show ?thesis using inv fin read_count by (auto simp: rw_inv_def counted_upd add.commute)
  next
    case (read_leave c)
    then have c: "c \<in> counted s" by (simp add: counted_def)
    then have "card (counted s) = Suc (card (counted s - {c}))" using fin(1) by (rule card.remove [rotated])
    then show ?thesis using inv read_leave by (auto simp: rw_inv_def counted_upd)
  next
    case (read_open c)
    then have "insert c (counted s) = counted s" by (auto simp: counted_def)
    then show ?thesis using inv read_open by (auto simp: rw_inv_def counted_upd)
  next
    case (write_begin c)
    then have "unat (of_nat (card (counted s)) :: u32) = 0" using inv by simp
    then have "card (counted s) = 0" using fin(2) by (simp add: unat_of_nat take_bit_nat_eq_self)
    then have "counted s = {}" using fin(1) by simp
    then show ?thesis using inv write_begin by (auto simp: rw_inv_def counted_upd)
  next
    case (write_leave c)
    then show ?thesis using inv by (auto simp: rw_inv_def counted_upd)
  next
    case (read_ticket c)
    then have "c \<notin> counted s" by (simp add: counted_def)
    then show ?thesis using inv read_ticket by (auto simp: rw_inv_def counted_upd)
  next
    case (write_ticket c)
    then have "c \<notin> counted s" by (simp add: counted_def)
    then show ?thesis using inv write_ticket by (auto simp: rw_inv_def counted_upd)
  next
    case (read_enter c b)
    then have "c \<notin> counted s" by (simp add: counted_def)
    then show ?thesis using inv read_enter by (auto simp: rw_inv_def counted_upd)
  next
    case (write_enter c b)
    then have "c \<notin> counted s" by (simp add: counted_def)
    then show ?thesis using inv write_enter by (auto simp: rw_inv_def counted_upd)
  qed (use assms(2) in auto)
qed

lemma gate_of_init: "gate_of rw_init = lock_init"
  by (simp add: gate_of_def rw_init_def lock_init_def comp_def)

lemma rw_reachable_queue:
  assumes "rtranclp (rw_step n) rw_init s" "n < 2 ^ 32"
  shows "\<exists>q. ticket_queue n (gate_of s) q"
  using gate.invariant_abs [OF assms(1), of "\<lambda>a. \<exists>q. ticket_queue n a q"] reachable_queue assms(2) by (simp add: gate_of_init)

lemma rw_reachable_inv:
  assumes "rtranclp (rw_step n) rw_init s" "n < 2 ^ 32"
  shows "rw_inv n s"
  using assms(1)
proof (induction rule: rtranclp_induct)
  case base
  then show ?case by (simp add: rw_inv_def counted_def rw_init_def)
next
  case (step t u)
  then show ?case using rw_inv_step rw_reachable_queue assms(2) by blast
qed

text \<open>C39: The reader-writer lock: in every state that fewer than 2^32 processors can reach, in any interleaving, a processor that
  writes excludes every other writer and every reader, and the counter is the number of processors
  that are counted as readers.\<close>
theorem rw_lock_exclusive:
  assumes "rtranclp (rw_step n) rw_init s" "n < 2 ^ 32"
  shows "(\<forall>c d. rw_phases s c = Writing \<and> d \<noteq> c \<longrightarrow> rw_phases s d \<notin> {Writing, Reading}) \<and>
    rw_readers s = of_nat (card (counted s))"
proof -
  obtain q where q: "ticket_queue n (gate_of s) q" using rw_reachable_queue [OF assms] by blast
  have "d = c" if "rw_phases s c = Writing" "rw_phases s d = Writing" for c d
    using holding_unique [OF q assms(2), of d c] that by simp
  then show ?thesis using rw_reachable_inv [OF assms] by (auto simp: rw_inv_def counted_def)
qed

theorem rw_lock_exclusive_witness:
  "\<exists>s. rtranclp (rw_step 2) rw_init s \<and> rw_phases s 0 = Writing \<and> rw_phases s 1 \<notin> {Writing, Reading}"
proof -
  let ?g = "\<lparr>lk_front = 0, lk_back = 1\<rparr>"
  let ?s1 = "\<lparr>rw_gate = ?g, rw_readers = 0, rw_phases = (\<lambda>_. RwOut)(0 := WriteSpin 0)\<rparr>"
  let ?s2 = "\<lparr>rw_gate = ?g, rw_readers = 0, rw_phases = (\<lambda>_. RwOut)(0 := WriteWait)\<rparr>"
  let ?s3 = "\<lparr>rw_gate = ?g, rw_readers = 0, rw_phases = (\<lambda>_. RwOut)(0 := Writing)\<rparr>"
  have st: "rw_step 2 rw_init ?s1" "rw_step 2 ?s1 ?s2" "rw_step 2 ?s2 ?s3"
    using rw_step.write_ticket [of 0 2 rw_init] rw_step.write_enter [of 0 2 ?s1 0] rw_step.write_begin [of 0 2 ?s2]
    by (simp_all add: rw_init_def)
  have r: "rtranclp (rw_step 2) rw_init ?s3"
    by (rule rtranclp.rtrancl_into_rtrancl [OF rtranclp.rtrancl_into_rtrancl [OF r_into_rtranclp [of "rw_step 2", OF st(1)] st(2)] st(3)])
  show ?thesis using rw_lock_exclusive [OF r] r by (intro exI [of _ ?s3]) auto
qed

end
