(* ===== verification/User_Stubs.thy ===== *)
theory User_Stubs
  imports Dispatch Example_State Syscall
begin

text \<open>
  The method stubs of user programs (\<open>include/sys/user_method_stubs.h\<close>, with the message register and
  capability register accessors of \<open>lib/lib.h\<close>): each writes its arguments into the thread's own IPC
  buffer, builds a message tag and makes a \<open>SYS_CALL\<close>. The theory relates them to the kernel's dispatch: a
  stub's message reaches the method of the same name with the same arguments.
\<close>

section \<open>Message registers in a user program\<close>

definition user_set_mr :: "nat \<Rightarrow> word_t \<Rightarrow> ipc_buffer \<Rightarrow> ipc_buffer" where
  "user_set_mr i v b = b(i := v)"

definition user_set_cap :: "nat \<Rightarrow> word_t \<Rightarrow> ipc_buffer \<Rightarrow> ipc_buffer" where
  "user_set_cap i v b = b(IPC_CAPS_OR_BADGES + i := v)"

text \<open>A stub up to its system call: the buffer as it leaves it, and the tag that it passes.\<close>

type_synonym stub = "ipc_buffer \<Rightarrow> ipc_buffer \<times> message_tag_t"

section \<open>The stubs\<close>

definition stub_cnode_copy :: "word_t \<Rightarrow> u8 \<Rightarrow> cptr_t \<Rightarrow> word_t \<Rightarrow> u8 \<Rightarrow> word_t \<Rightarrow> stub" where
  "stub_cnode_copy dest_index dest_depth src_root src_index src_depth rights b =
     (user_set_cap 0 src_root (user_set_mr 4 rights (user_set_mr 3 (ucast src_depth) (user_set_mr 2 src_index (user_set_mr 1 (ucast dest_depth) (user_set_mr 0 dest_index b))))),
      new_message_tag METHOD_CNODE_COPY 0 1 5)"

definition stub_cnode_delete :: "word_t \<Rightarrow> u8 \<Rightarrow> stub" where
  "stub_cnode_delete index depth b =
     (user_set_mr 1 (ucast depth) (user_set_mr 0 index b),
      new_message_tag METHOD_CNODE_DELETE 0 0 2)"

definition stub_cnode_mint :: "word_t \<Rightarrow> u8 \<Rightarrow> cptr_t \<Rightarrow> word_t \<Rightarrow> u8 \<Rightarrow> word_t \<Rightarrow> word_t \<Rightarrow> stub" where
  "stub_cnode_mint dest_index dest_depth src_root src_index src_depth rights badge b =
     (user_set_cap 0 src_root (user_set_mr 5 badge (user_set_mr 4 rights (user_set_mr 3 (ucast src_depth) (user_set_mr 2 src_index (user_set_mr 1 (ucast dest_depth) (user_set_mr 0 dest_index b)))))),
      new_message_tag METHOD_CNODE_MINT 0 1 6)"

definition stub_cnode_revoke :: "word_t \<Rightarrow> u8 \<Rightarrow> stub" where
  "stub_cnode_revoke index depth b =
     (user_set_mr 1 (ucast depth) (user_set_mr 0 index b),
      new_message_tag METHOD_CNODE_REVOKE 0 0 2)"

definition stub_cnode_debug_print :: "stub" where
  "stub_cnode_debug_print b =
     (b,
      new_message_tag METHOD_CNODE_DEBUG_PRINT 0 0 0)"

definition stub_cnode_debug_get :: "word_t \<Rightarrow> u8 \<Rightarrow> stub" where
  "stub_cnode_debug_get index depth b =
     (user_set_mr 1 (ucast depth) (user_set_mr 0 index b),
      new_message_tag METHOD_CNODE_DEBUG_GET 0 0 2)"

definition stub_tcb_configure :: "word_t \<Rightarrow> cptr_t \<Rightarrow> cptr_t \<Rightarrow> word_t \<Rightarrow> cptr_t \<Rightarrow> stub" where
  "stub_tcb_configure fault_ep cspace_root vspace_root buffer buffer_frame b =
     (user_set_cap 2 buffer_frame (user_set_cap 1 vspace_root (user_set_cap 0 cspace_root (user_set_mr 1 buffer (user_set_mr 0 fault_ep b)))),
      new_message_tag METHOD_TCB_CONFIGURE 0 3 2)"

definition stub_tcb_read_registers :: "bool \<Rightarrow> word_t \<Rightarrow> word_t \<Rightarrow> word_t \<Rightarrow> stub" where
  "stub_tcb_read_registers suspend_source arch_flags count regs b =
     (user_set_mr 3 regs (user_set_mr 2 count (user_set_mr 1 arch_flags (user_set_mr 0 (of_bool suspend_source) b))),
      new_message_tag METHOD_TCB_READ_REGISTERS 0 0 4)"

definition stub_tcb_resume :: "stub" where
  "stub_tcb_resume b =
     (b,
      new_message_tag METHOD_TCB_RESUME 0 0 0)"

definition stub_tcb_bind_notification :: "cptr_t \<Rightarrow> stub" where
  "stub_tcb_bind_notification notification b =
     (user_set_cap 0 notification b,
      new_message_tag METHOD_TCB_BIND_NOTIFICATION 0 1 0)"

definition stub_tcb_set_tls_base :: "word_t \<Rightarrow> stub" where
  "stub_tcb_set_tls_base tls_base b =
     (user_set_mr 0 tls_base b,
      new_message_tag METHOD_TCB_SET_TLS_BASE 0 0 1)"

definition stub_tcb_suspend :: "stub" where
  "stub_tcb_suspend b =
     (b,
      new_message_tag METHOD_TCB_SUSPEND 0 0 0)"

definition stub_tcb_write_registers :: "bool \<Rightarrow> word_t \<Rightarrow> word_t \<Rightarrow> word_t \<Rightarrow> stub" where
  "stub_tcb_write_registers resume_target arch_flags count regs b =
     (user_set_mr 3 regs (user_set_mr 2 count (user_set_mr 1 arch_flags (user_set_mr 0 (of_bool resume_target) b))),
      new_message_tag METHOD_TCB_WRITE_REGISTERS 0 0 4)"

definition stub_tcb_set_debug :: "word_t \<Rightarrow> stub" where
  "stub_tcb_set_debug flags b =
     (user_set_mr 0 flags b,
      new_message_tag METHOD_TCB_SET_DEBUG 0 0 1)"

definition stub_tcb_set_name :: "word_t \<Rightarrow> word_t \<Rightarrow> stub" where
  "stub_tcb_set_name name len b =
     (user_set_mr 1 len (user_set_mr 0 name b),
      new_message_tag METHOD_TCB_SET_NAME 0 0 2)"

definition stub_untyped_retype :: "word_t \<Rightarrow> word_t \<Rightarrow> cptr_t \<Rightarrow> word_t \<Rightarrow> u8 \<Rightarrow> word_t \<Rightarrow> word_t \<Rightarrow> stub" where
  "stub_untyped_retype type size_bits root node_index node_depth node_offset num_objects b =
     (user_set_cap 0 root (user_set_mr 5 num_objects (user_set_mr 4 node_offset (user_set_mr 3 (ucast node_depth) (user_set_mr 2 node_index (user_set_mr 1 size_bits (user_set_mr 0 type b)))))),
      new_message_tag METHOD_UNTYPED_RETYPE 0 1 6)"

definition stub_x86_64_io_port_in8 :: "word_t \<Rightarrow> stub" where
  "stub_x86_64_io_port_in8 port b =
     (user_set_mr 0 port b,
      new_message_tag METHOD_X86_64_IO_PORT_IN8 0 0 1)"

definition stub_x86_64_io_port_in16 :: "word_t \<Rightarrow> stub" where
  "stub_x86_64_io_port_in16 port b =
     (user_set_mr 0 port b,
      new_message_tag METHOD_X86_64_IO_PORT_IN16 0 0 1)"

definition stub_x86_64_io_port_in32 :: "word_t \<Rightarrow> stub" where
  "stub_x86_64_io_port_in32 port b =
     (user_set_mr 0 port b,
      new_message_tag METHOD_X86_64_IO_PORT_IN32 0 0 1)"

definition stub_x86_64_io_port_out8 :: "word_t \<Rightarrow> word_t \<Rightarrow> stub" where
  "stub_x86_64_io_port_out8 port value b =
     (user_set_mr 1 value (user_set_mr 0 port b),
      new_message_tag METHOD_X86_64_IO_PORT_OUT8 0 0 2)"

definition stub_x86_64_io_port_out16 :: "word_t \<Rightarrow> word_t \<Rightarrow> stub" where
  "stub_x86_64_io_port_out16 port value b =
     (user_set_mr 1 value (user_set_mr 0 port b),
      new_message_tag METHOD_X86_64_IO_PORT_OUT16 0 0 2)"

definition stub_x86_64_io_port_out32 :: "word_t \<Rightarrow> word_t \<Rightarrow> stub" where
  "stub_x86_64_io_port_out32 port value b =
     (user_set_mr 1 value (user_set_mr 0 port b),
      new_message_tag METHOD_X86_64_IO_PORT_OUT32 0 0 2)"

definition stub_x86_64_io_port_control_issue :: "word_t \<Rightarrow> word_t \<Rightarrow> cptr_t \<Rightarrow> word_t \<Rightarrow> u8 \<Rightarrow> stub" where
  "stub_x86_64_io_port_control_issue first_port last_port root index depth b =
     (user_set_cap 0 root (user_set_mr 3 (ucast depth) (user_set_mr 2 index (user_set_mr 1 last_port (user_set_mr 0 first_port b)))),
      new_message_tag METHOD_X86_64_IO_PORT_CONTROL_ISSUE 0 1 4)"

definition stub_x86_64_pdpt_map :: "cptr_t \<Rightarrow> word_t \<Rightarrow> word_t \<Rightarrow> stub" where
  "stub_x86_64_pdpt_map vspace vaddr attr b =
     (user_set_cap 0 vspace (user_set_mr 1 attr (user_set_mr 0 vaddr b)),
      new_message_tag METHOD_X86_64_PDPT_MAP 0 1 2)"

definition stub_x86_64_pd_map :: "cptr_t \<Rightarrow> word_t \<Rightarrow> word_t \<Rightarrow> stub" where
  "stub_x86_64_pd_map vspace vaddr attr b =
     (user_set_cap 0 vspace (user_set_mr 1 attr (user_set_mr 0 vaddr b)),
      new_message_tag METHOD_X86_64_PD_MAP 0 1 2)"

definition stub_x86_64_pt_map :: "cptr_t \<Rightarrow> word_t \<Rightarrow> word_t \<Rightarrow> stub" where
  "stub_x86_64_pt_map vspace vaddr attr b =
     (user_set_cap 0 vspace (user_set_mr 1 attr (user_set_mr 0 vaddr b)),
      new_message_tag METHOD_X86_64_PT_MAP 0 1 2)"

definition stub_x86_64_page_map :: "cptr_t \<Rightarrow> word_t \<Rightarrow> word_t \<Rightarrow> stub" where
  "stub_x86_64_page_map vspace vaddr attr b =
     (user_set_cap 0 vspace (user_set_mr 1 attr (user_set_mr 0 vaddr b)),
      new_message_tag METHOD_X86_64_PAGE_MAP 0 1 2)"

definition stub_x86_64_huge_page_map :: "cptr_t \<Rightarrow> word_t \<Rightarrow> word_t \<Rightarrow> stub" where
  "stub_x86_64_huge_page_map vspace vaddr attr b =
     (user_set_cap 0 vspace (user_set_mr 1 attr (user_set_mr 0 vaddr b)),
      new_message_tag METHOD_X86_64_HUGE_PAGE_MAP 0 1 2)"

definition stub_irq_control_get :: "word_t \<Rightarrow> cptr_t \<Rightarrow> word_t \<Rightarrow> u8 \<Rightarrow> stub" where
  "stub_irq_control_get irq root index depth b =
     (user_set_cap 0 root (user_set_mr 2 (ucast depth) (user_set_mr 1 index (user_set_mr 0 irq b))),
      new_message_tag METHOD_IRQ_CONTROL_GET 0 1 3)"

definition stub_irq_handler_ack :: "stub" where
  "stub_irq_handler_ack b =
     (b,
      new_message_tag METHOD_IRQ_HANDLER_ACK 0 0 0)"

definition stub_irq_handler_clear :: "stub" where
  "stub_irq_handler_clear b =
     (b,
      new_message_tag METHOD_IRQ_HANDLER_CLEAR 0 0 0)"

definition stub_irq_handler_set_notification :: "cptr_t \<Rightarrow> stub" where
  "stub_irq_handler_set_notification notification b =
     (user_set_cap 0 notification b,
      new_message_tag METHOD_IRQ_HANDLER_SET_NOTIFICATION 0 1 0)"

section \<open>Calls\<close>

text \<open>The calls that a program can make, with the arguments in the order of the stubs.\<close>

datatype method_call =
    Cnode_Copy word_t u8 cptr_t word_t u8 word_t
  | Cnode_Delete word_t u8
  | Cnode_Mint word_t u8 cptr_t word_t u8 word_t word_t
  | Cnode_Revoke word_t u8
  | Cnode_Debug_Print
  | Cnode_Debug_Get word_t u8
  | Tcb_Configure word_t cptr_t cptr_t word_t cptr_t
  | Tcb_Read_Registers bool word_t word_t word_t
  | Tcb_Resume
  | Tcb_Bind_Notification cptr_t
  | Tcb_Set_Tls_Base word_t
  | Tcb_Suspend
  | Tcb_Write_Registers bool word_t word_t word_t
  | Tcb_Set_Debug word_t
  | Tcb_Set_Name word_t word_t
  | Untyped_Retype word_t word_t cptr_t word_t u8 word_t word_t
  | X86_64_Io_Port_In8 word_t
  | X86_64_Io_Port_In16 word_t
  | X86_64_Io_Port_In32 word_t
  | X86_64_Io_Port_Out8 word_t word_t
  | X86_64_Io_Port_Out16 word_t word_t
  | X86_64_Io_Port_Out32 word_t word_t
  | X86_64_Io_Port_Control_Issue word_t word_t cptr_t word_t u8
  | X86_64_Pdpt_Map cptr_t word_t word_t
  | X86_64_Pd_Map cptr_t word_t word_t
  | X86_64_Pt_Map cptr_t word_t word_t
  | X86_64_Page_Map cptr_t word_t word_t
  | X86_64_Huge_Page_Map cptr_t word_t word_t
  | Irq_Control_Get word_t cptr_t word_t u8
  | Irq_Handler_Ack
  | Irq_Handler_Clear
  | Irq_Handler_Set_Notification cptr_t

fun stub_of :: "method_call \<Rightarrow> stub" where
  "stub_of (Cnode_Copy dest_index dest_depth src_root src_index src_depth rights) = stub_cnode_copy dest_index dest_depth src_root src_index src_depth rights"
| "stub_of (Cnode_Delete index depth) = stub_cnode_delete index depth"
| "stub_of (Cnode_Mint dest_index dest_depth src_root src_index src_depth rights badge) = stub_cnode_mint dest_index dest_depth src_root src_index src_depth rights badge"
| "stub_of (Cnode_Revoke index depth) = stub_cnode_revoke index depth"
| "stub_of Cnode_Debug_Print = stub_cnode_debug_print"
| "stub_of (Cnode_Debug_Get index depth) = stub_cnode_debug_get index depth"
| "stub_of (Tcb_Configure fault_ep cspace_root vspace_root buffer buffer_frame) = stub_tcb_configure fault_ep cspace_root vspace_root buffer buffer_frame"
| "stub_of (Tcb_Read_Registers suspend_source arch_flags count regs) = stub_tcb_read_registers suspend_source arch_flags count regs"
| "stub_of Tcb_Resume = stub_tcb_resume"
| "stub_of (Tcb_Bind_Notification notification) = stub_tcb_bind_notification notification"
| "stub_of (Tcb_Set_Tls_Base tls_base) = stub_tcb_set_tls_base tls_base"
| "stub_of Tcb_Suspend = stub_tcb_suspend"
| "stub_of (Tcb_Write_Registers resume_target arch_flags count regs) = stub_tcb_write_registers resume_target arch_flags count regs"
| "stub_of (Tcb_Set_Debug flags) = stub_tcb_set_debug flags"
| "stub_of (Tcb_Set_Name name len) = stub_tcb_set_name name len"
| "stub_of (Untyped_Retype type size_bits root node_index node_depth node_offset num_objects) = stub_untyped_retype type size_bits root node_index node_depth node_offset num_objects"
| "stub_of (X86_64_Io_Port_In8 port) = stub_x86_64_io_port_in8 port"
| "stub_of (X86_64_Io_Port_In16 port) = stub_x86_64_io_port_in16 port"
| "stub_of (X86_64_Io_Port_In32 port) = stub_x86_64_io_port_in32 port"
| "stub_of (X86_64_Io_Port_Out8 port value) = stub_x86_64_io_port_out8 port value"
| "stub_of (X86_64_Io_Port_Out16 port value) = stub_x86_64_io_port_out16 port value"
| "stub_of (X86_64_Io_Port_Out32 port value) = stub_x86_64_io_port_out32 port value"
| "stub_of (X86_64_Io_Port_Control_Issue first_port last_port root index depth) = stub_x86_64_io_port_control_issue first_port last_port root index depth"
| "stub_of (X86_64_Pdpt_Map vspace vaddr attr) = stub_x86_64_pdpt_map vspace vaddr attr"
| "stub_of (X86_64_Pd_Map vspace vaddr attr) = stub_x86_64_pd_map vspace vaddr attr"
| "stub_of (X86_64_Pt_Map vspace vaddr attr) = stub_x86_64_pt_map vspace vaddr attr"
| "stub_of (X86_64_Page_Map vspace vaddr attr) = stub_x86_64_page_map vspace vaddr attr"
| "stub_of (X86_64_Huge_Page_Map vspace vaddr attr) = stub_x86_64_huge_page_map vspace vaddr attr"
| "stub_of (Irq_Control_Get irq root index depth) = stub_irq_control_get irq root index depth"
| "stub_of Irq_Handler_Ack = stub_irq_handler_ack"
| "stub_of Irq_Handler_Clear = stub_irq_handler_clear"
| "stub_of (Irq_Handler_Set_Notification notification) = stub_irq_handler_set_notification notification"

text \<open>
  What a call means in the kernel: the invoked capability must have the type of the method, the capability
  arguments are looked up in order in the caller's capability space, and the method runs with the arguments.
\<close>

definition lookup_argument :: "cptr_t \<Rightarrow> (slot \<Rightarrow> (kstate, message_tag_t) kern) \<Rightarrow> (kstate, message_tag_t) kern" where
  "lookup_argument c rest = TRY_out (lookup_cap_slot_this_tcb c) rest"

fun kernel_call :: "method_call \<Rightarrow> slot \<Rightarrow> (kstate, message_tag_t) kern" where
  "kernel_call (Cnode_Copy dest_index dest_depth src_root src_index src_depth rights) slot = require_type slot CAP_CNODE (lookup_argument src_root (\<lambda>src_root. cnode_copy slot dest_index dest_depth src_root src_index src_depth rights))"
| "kernel_call (Cnode_Delete index depth) slot = require_type slot CAP_CNODE (cnode_delete slot index depth)"
| "kernel_call (Cnode_Mint dest_index dest_depth src_root src_index src_depth rights badge) slot = require_type slot CAP_CNODE (lookup_argument src_root (\<lambda>src_root. cnode_mint slot dest_index dest_depth src_root src_index src_depth rights badge))"
| "kernel_call (Cnode_Revoke index depth) slot = require_type slot CAP_CNODE (cnode_revoke slot index depth)"
| "kernel_call Cnode_Debug_Print slot = require_type slot CAP_CNODE (kbind (cnode_debug_print slot) (\<lambda>(out, tag). kret tag))"
| "kernel_call (Cnode_Debug_Get index depth) slot = require_type slot CAP_CNODE (cnode_debug_get slot index depth)"
| "kernel_call (Tcb_Configure fault_ep cspace_root vspace_root buffer buffer_frame) slot = require_type slot CAP_TCB (lookup_argument cspace_root (\<lambda>cspace_root. lookup_argument vspace_root (\<lambda>vspace_root. lookup_argument buffer_frame (\<lambda>buffer_frame. tcb_configure slot fault_ep cspace_root vspace_root buffer buffer_frame))))"
| "kernel_call (Tcb_Read_Registers suspend_source arch_flags count regs) slot = require_type slot CAP_TCB (tcb_read_registers slot suspend_source arch_flags count regs)"
| "kernel_call Tcb_Resume slot = require_type slot CAP_TCB (tcb_resume slot)"
| "kernel_call (Tcb_Bind_Notification notification) slot = require_type slot CAP_TCB (lookup_argument notification (\<lambda>notification. tcb_bind_notification slot notification))"
| "kernel_call (Tcb_Set_Tls_Base tls_base) slot = require_type slot CAP_TCB (tcb_set_tls_base slot tls_base)"
| "kernel_call Tcb_Suspend slot = require_type slot CAP_TCB (tcb_suspend slot)"
| "kernel_call (Tcb_Write_Registers resume_target arch_flags count regs) slot = require_type slot CAP_TCB (tcb_write_registers slot resume_target arch_flags count regs)"
| "kernel_call (Tcb_Set_Debug flags) slot = require_type slot CAP_TCB (tcb_set_debug slot flags)"
| "kernel_call (Tcb_Set_Name name len) slot = require_type slot CAP_TCB (tcb_set_name slot name len)"
| "kernel_call (Untyped_Retype type size_bits root node_index node_depth node_offset num_objects) slot = require_type slot CAP_UNTYPED (lookup_argument root (\<lambda>root. untyped_retype slot type size_bits root node_index node_depth node_offset num_objects))"
| "kernel_call (X86_64_Io_Port_In8 port) slot = require_type slot CAP_X86_64_IO_PORT (x86_64_io_port_in8 slot port)"
| "kernel_call (X86_64_Io_Port_In16 port) slot = require_type slot CAP_X86_64_IO_PORT (x86_64_io_port_in16 slot port)"
| "kernel_call (X86_64_Io_Port_In32 port) slot = require_type slot CAP_X86_64_IO_PORT (x86_64_io_port_in32 slot port)"
| "kernel_call (X86_64_Io_Port_Out8 port value) slot = require_type slot CAP_X86_64_IO_PORT (x86_64_io_port_out8 slot port value)"
| "kernel_call (X86_64_Io_Port_Out16 port value) slot = require_type slot CAP_X86_64_IO_PORT (x86_64_io_port_out16 slot port value)"
| "kernel_call (X86_64_Io_Port_Out32 port value) slot = require_type slot CAP_X86_64_IO_PORT (x86_64_io_port_out32 slot port value)"
| "kernel_call (X86_64_Io_Port_Control_Issue first_port last_port root index depth) slot = require_type slot CAP_X86_64_IO_PORT_CONTROL (lookup_argument root (\<lambda>root. x86_64_io_port_control_issue slot (ucast first_port) (ucast last_port) root index (ucast depth)))"
| "kernel_call (X86_64_Pdpt_Map vspace vaddr attr) slot = require_type slot CAP_X86_64_PDPT (lookup_argument vspace (\<lambda>vspace. x86_64_pdpt_map slot vspace vaddr attr))"
| "kernel_call (X86_64_Pd_Map vspace vaddr attr) slot = require_type slot CAP_X86_64_PD (lookup_argument vspace (\<lambda>vspace. x86_64_pd_map slot vspace vaddr attr))"
| "kernel_call (X86_64_Pt_Map vspace vaddr attr) slot = require_type slot CAP_X86_64_PT (lookup_argument vspace (\<lambda>vspace. x86_64_pt_map slot vspace vaddr attr))"
| "kernel_call (X86_64_Page_Map vspace vaddr attr) slot = require_type slot CAP_X86_64_PAGE (lookup_argument vspace (\<lambda>vspace. x86_64_page_map slot vspace vaddr attr))"
| "kernel_call (X86_64_Huge_Page_Map vspace vaddr attr) slot = require_type slot CAP_X86_64_HUGE_PAGE (lookup_argument vspace (\<lambda>vspace. x86_64_huge_page_map slot vspace vaddr attr))"
| "kernel_call (Irq_Control_Get irq root index depth) slot = require_type slot CAP_IRQ_CONTROL (lookup_argument root (\<lambda>root. irq_control_get slot irq root index depth))"
| "kernel_call Irq_Handler_Ack slot = require_type slot CAP_IRQ_HANDLER (irq_handler_ack slot)"
| "kernel_call Irq_Handler_Clear slot = require_type slot CAP_IRQ_HANDLER (irq_handler_clear slot)"
| "kernel_call (Irq_Handler_Set_Notification notification) slot = require_type slot CAP_IRQ_HANDLER (lookup_argument notification (\<lambda>notification. irq_handler_set_notification slot notification))"

lemmas stub_defs =
  stub_cnode_copy_def
  stub_cnode_delete_def
  stub_cnode_mint_def
  stub_cnode_revoke_def
  stub_cnode_debug_print_def
  stub_cnode_debug_get_def
  stub_tcb_configure_def
  stub_tcb_read_registers_def
  stub_tcb_resume_def
  stub_tcb_bind_notification_def
  stub_tcb_set_tls_base_def
  stub_tcb_suspend_def
  stub_tcb_write_registers_def
  stub_tcb_set_debug_def
  stub_tcb_set_name_def
  stub_untyped_retype_def
  stub_x86_64_io_port_in8_def
  stub_x86_64_io_port_in16_def
  stub_x86_64_io_port_in32_def
  stub_x86_64_io_port_out8_def
  stub_x86_64_io_port_out16_def
  stub_x86_64_io_port_out32_def
  stub_x86_64_io_port_control_issue_def
  stub_x86_64_pdpt_map_def
  stub_x86_64_pd_map_def
  stub_x86_64_pt_map_def
  stub_x86_64_page_map_def
  stub_x86_64_huge_page_map_def
  stub_irq_control_get_def
  stub_irq_handler_ack_def
  stub_irq_handler_clear_def
  stub_irq_handler_set_notification_def
  user_set_mr_def user_set_cap_def

lemmas dispatch_defs =
  dispatch_cnode_copy_def
  dispatch_cnode_delete_def
  dispatch_cnode_mint_def
  dispatch_cnode_revoke_def
  dispatch_cnode_debug_print_def
  dispatch_cnode_debug_get_def
  dispatch_tcb_configure_def
  dispatch_tcb_read_registers_def
  dispatch_tcb_resume_def
  dispatch_tcb_bind_notification_def
  dispatch_tcb_set_tls_base_def
  dispatch_tcb_suspend_def
  dispatch_tcb_write_registers_def
  dispatch_tcb_set_debug_def
  dispatch_tcb_set_name_def
  dispatch_untyped_retype_def
  dispatch_x86_64_io_port_in8_def
  dispatch_x86_64_io_port_in16_def
  dispatch_x86_64_io_port_in32_def
  dispatch_x86_64_io_port_out8_def
  dispatch_x86_64_io_port_out16_def
  dispatch_x86_64_io_port_out32_def
  dispatch_x86_64_io_port_control_issue_def
  dispatch_x86_64_pdpt_map_def
  dispatch_x86_64_pd_map_def
  dispatch_x86_64_pt_map_def
  dispatch_x86_64_page_map_def
  dispatch_x86_64_huge_page_map_def
  dispatch_irq_control_get_def
  dispatch_irq_handler_ack_def
  dispatch_irq_handler_clear_def
  dispatch_irq_handler_set_notification_def

section \<open>Reading the arguments back\<close>

lemma kbind_get_mr: "has_buffer s b \<Longrightarrow> kbind (get_mr i) f s = f (ipc_buffers s b i) s"
  by (simp add: kbind_def get_mr_ret)

lemma cap_argument_eq:
  assumes "has_buffer s b"
  shows "cap_argument i f s = lookup_argument (ipc_buffers s b (IPC_CAPS_OR_BADGES + i)) f s"
  using assms by (auto simp: has_buffer_def cap_argument_def lookup_argument_def kern_simps get_cap_def this_ipc_buffer_def)

lemma require_type_eq:
  "require_type slot ty rest s = (if cap_type (slot_cap (ctes s) slot) \<noteq> ty then Inr (msg_illegal_operation, s) else rest s)"
  by (simp add: require_type_def kern_simps)

text \<open>A lookup that succeeds leaves the state alone, so that later arguments are read from the same buffer.\<close>

lemma lookup_argument_cong:
  assumes "\<And>x. f x s = g x s"
  shows "lookup_argument c f s = lookup_argument c g s"
proof -
  have "t = s \<or> out = None" if "lookup_cap_slot_this_tcb c s = Inr ((tag, out), t)" for tag out t
    using that by (auto simp: lookup_cap_slot_this_tcb_def lookup_cap_slot_def lookup_cap_slot_raw_def this_tcb_def kern_simps
        split: if_splits option.splits sum.splits prod.splits)
  then show ?thesis using assms
    by (fastforce simp: lookup_argument_def kern_simps split: sum.splits prod.splits option.splits)
qed

lemma byte_round_trip [simp]: "ucast (ucast (x :: u8) :: word_t) = x"
  by (rule bit_word_eqI) (auto simp: bit_simps)

lemma tcb_configure_arguments:
  assumes "has_buffer s b"
  shows "cap_argument 0 (\<lambda>c. cap_argument (Suc 0) (\<lambda>v. cap_argument 2 (m c v))) s =
    lookup_argument (ipc_buffers s b IPC_CAPS_OR_BADGES) (\<lambda>c.
    lookup_argument (ipc_buffers s b (Suc IPC_CAPS_OR_BADGES)) (\<lambda>v.
    lookup_argument (ipc_buffers s b (IPC_CAPS_OR_BADGES + 2)) (m c v))) s"
proof -
  have "cap_argument (Suc 0) (\<lambda>v. cap_argument 2 (m c v)) s = lookup_argument (ipc_buffers s b (Suc IPC_CAPS_OR_BADGES)) (\<lambda>v.
      lookup_argument (ipc_buffers s b (IPC_CAPS_OR_BADGES + 2)) (m c v)) s" for c
  proof -
    have "cap_argument (Suc 0) (\<lambda>v. cap_argument 2 (m c v)) s =
        lookup_argument (ipc_buffers s b (Suc IPC_CAPS_OR_BADGES)) (\<lambda>v. cap_argument 2 (m c v)) s"
      by (simp add: cap_argument_eq [OF assms])
    also have "\<dots> = lookup_argument (ipc_buffers s b (Suc IPC_CAPS_OR_BADGES)) (\<lambda>v.
        lookup_argument (ipc_buffers s b (IPC_CAPS_OR_BADGES + 2)) (m c v)) s"
      by (rule lookup_argument_cong) (rule cap_argument_eq [OF assms])
    finally show ?thesis .
  qed
  then have "lookup_argument (ipc_buffers s b (IPC_CAPS_OR_BADGES + 0)) (\<lambda>c. cap_argument (Suc 0) (\<lambda>v. cap_argument 2 (m c v))) s =
      lookup_argument (ipc_buffers s b (IPC_CAPS_OR_BADGES + 0)) (\<lambda>c. lookup_argument (ipc_buffers s b (Suc IPC_CAPS_OR_BADGES)) (\<lambda>v.
      lookup_argument (ipc_buffers s b (IPC_CAPS_OR_BADGES + 2)) (m c v))) s"
    by (rule lookup_argument_cong)
  then show ?thesis by (simp add: cap_argument_eq [OF assms])
qed

text \<open>Every stub, dispatched.\<close>

lemma stub_dispatch:
  assumes "has_buffer s b" "ipc_buffers s b = fst (stub_of m old)"
  shows "dispatch_method slot (snd (stub_of m old)) s = kernel_call m slot s"
proof (cases "m")
  case (Tcb_Configure x1 x2 x3 x4 x5)
  then show ?thesis using assms(2)
    by (simp add: dispatch_method_def dispatch_tcb_configure_def stub_tcb_configure_def user_set_mr_def user_set_cap_def
        require_length_def require_caps_def require_type_eq kbind_get_mr [OF assms(1)] tcb_configure_arguments [OF assms(1)])
next
  case (Tcb_Read_Registers x1 x2 x3 x4)
  then show ?thesis using assms(2)
    by (cases x1) (simp_all add: dispatch_method_def dispatch_tcb_read_registers_def stub_tcb_read_registers_def user_set_mr_def
        require_length_def require_type_eq kbind_get_mr [OF assms(1)])
next
  case (Tcb_Write_Registers x1 x2 x3 x4)
  then show ?thesis using assms(2)
    by (cases x1) (simp_all add: dispatch_method_def dispatch_tcb_write_registers_def stub_tcb_write_registers_def user_set_mr_def
        require_length_def require_type_eq kbind_get_mr [OF assms(1)])
qed (use assms(2) in \<open>simp_all add: dispatch_method_def dispatch_defs stub_defs require_length_def require_caps_def
  require_type_eq kbind_get_mr [OF assms(1)] cap_argument_eq [OF assms(1)]\<close>)

section \<open>Properties\<close>

text \<open>C29: Marshalling round trip for all 32 methods: if the buffer of the current thread is what a stub has written, then the
  dispatch of the stub's tag on any invoked slot is the call itself: the type check, the lookup of the stub's capability
  arguments in the caller's space, and the method of the same name with exactly the stub's arguments.\<close>
theorem stub_reaches_method:
  assumes "has_buffer s b" "ipc_buffers s b = fst (stub_of m old)"
  shows "dispatch_method slot (snd (stub_of m old)) s = kernel_call m slot s"
  by (rule stub_dispatch [OF assms])

theorem stub_reaches_method_witness:
  "let s = (ipc_example RunQueue TASK_STATE_RUNNABLE)\<lparr>ipc_buffers := (\<lambda>_. fst (stub_of (Cnode_Mint 3 64 5 4 64 7 9) (\<lambda>_. 0)))\<rparr>
   in dispatch_method (Slot 0) (snd (stub_of (Cnode_Mint 3 64 5 4 64 7 9) (\<lambda>_. 0))) s =
        kernel_call (Cnode_Mint 3 64 5 4 64 7 9) (Slot 0) s"
proof -
  let ?s = "(ipc_example RunQueue TASK_STATE_RUNNABLE)\<lparr>ipc_buffers := (\<lambda>_. fst (stub_of (Cnode_Mint 3 64 5 4 64 7 9) (\<lambda>_. 0)))\<rparr>"
  have "has_buffer ?s buffer_a" by (simp add: has_buffer_def ipc_example_def)
  from stub_reaches_method [OF this, of "Cnode_Mint 3 64 5 4 64 7 9" "\<lambda>_. 0"] show ?thesis by (simp add: Let_def)
qed

end
