(* ===== verification/Dispatch_Properties.thy ===== *)
theory Dispatch_Properties
  imports User_Stubs
begin

text \<open>
  How the dispatch treats malformed invocations: the interface of the methods (\<open>interface.yml\<close>, from
  which the dispatch and the stubs are generated) as a table, and the proof that an invocation which
  does not have the shape of its method is refused before any of it takes effect.
\<close>

section \<open>The interface\<close>

text \<open>
  For each method of \<open>interface.yml\<close> the type of the invoked capability, the number of parameters that
  are message words, and the number of parameters of type \<open>cptr_t\<close>, which are passed as capabilities.
\<close>

definition method_shape :: "word_t \<Rightarrow> (word_t \<times> word_t \<times> word_t) option" where
  "method_shape label =
    (
     if label = METHOD_CNODE_COPY then Some (CAP_CNODE, 5, 1) else
     if label = METHOD_CNODE_DELETE then Some (CAP_CNODE, 2, 0) else
     if label = METHOD_CNODE_MINT then Some (CAP_CNODE, 6, 1) else
     if label = METHOD_CNODE_REVOKE then Some (CAP_CNODE, 2, 0) else
     if label = METHOD_CNODE_DEBUG_PRINT then Some (CAP_CNODE, 0, 0) else
     if label = METHOD_CNODE_DEBUG_GET then Some (CAP_CNODE, 2, 0) else
     if label = METHOD_TCB_CONFIGURE then Some (CAP_TCB, 2, 3) else
     if label = METHOD_TCB_READ_REGISTERS then Some (CAP_TCB, 4, 0) else
     if label = METHOD_TCB_RESUME then Some (CAP_TCB, 0, 0) else
     if label = METHOD_TCB_BIND_NOTIFICATION then Some (CAP_TCB, 0, 1) else
     if label = METHOD_TCB_SET_TLS_BASE then Some (CAP_TCB, 1, 0) else
     if label = METHOD_TCB_SUSPEND then Some (CAP_TCB, 0, 0) else
     if label = METHOD_TCB_WRITE_REGISTERS then Some (CAP_TCB, 4, 0) else
     if label = METHOD_TCB_SET_DEBUG then Some (CAP_TCB, 1, 0) else
     if label = METHOD_TCB_SET_NAME then Some (CAP_TCB, 2, 0) else
     if label = METHOD_UNTYPED_RETYPE then Some (CAP_UNTYPED, 6, 1) else
     if label = METHOD_X86_64_IO_PORT_IN8 then Some (CAP_X86_64_IO_PORT, 1, 0) else
     if label = METHOD_X86_64_IO_PORT_IN16 then Some (CAP_X86_64_IO_PORT, 1, 0) else
     if label = METHOD_X86_64_IO_PORT_IN32 then Some (CAP_X86_64_IO_PORT, 1, 0) else
     if label = METHOD_X86_64_IO_PORT_OUT8 then Some (CAP_X86_64_IO_PORT, 2, 0) else
     if label = METHOD_X86_64_IO_PORT_OUT16 then Some (CAP_X86_64_IO_PORT, 2, 0) else
     if label = METHOD_X86_64_IO_PORT_OUT32 then Some (CAP_X86_64_IO_PORT, 2, 0) else
     if label = METHOD_X86_64_IO_PORT_CONTROL_ISSUE then Some (CAP_X86_64_IO_PORT_CONTROL, 4, 1) else
     if label = METHOD_X86_64_PDPT_MAP then Some (CAP_X86_64_PDPT, 2, 1) else
     if label = METHOD_X86_64_PD_MAP then Some (CAP_X86_64_PD, 2, 1) else
     if label = METHOD_X86_64_PT_MAP then Some (CAP_X86_64_PT, 2, 1) else
     if label = METHOD_X86_64_PAGE_MAP then Some (CAP_X86_64_PAGE, 2, 1) else
     if label = METHOD_X86_64_HUGE_PAGE_MAP then Some (CAP_X86_64_HUGE_PAGE, 2, 1) else
     if label = METHOD_IRQ_CONTROL_GET then Some (CAP_IRQ_CONTROL, 3, 1) else
     if label = METHOD_IRQ_HANDLER_ACK then Some (CAP_IRQ_HANDLER, 0, 0) else
     if label = METHOD_IRQ_HANDLER_CLEAR then Some (CAP_IRQ_HANDLER, 0, 0) else
     if label = METHOD_IRQ_HANDLER_SET_NOTIFICATION then Some (CAP_IRQ_HANDLER, 0, 1) else
     None)"

text \<open>
  What a malformed invocation gets: a wrong type an error without words; too few words or
  capabilities an error with the numbers, in the caller's own message registers.
\<close>

definition rejects_malformed ::
    "kstate \<Rightarrow> addr \<Rightarrow> slot \<Rightarrow> message_tag_t \<Rightarrow> (word_t \<times> word_t \<times> word_t) \<Rightarrow> fault + (message_tag_t \<times> kstate) \<Rightarrow> bool" where
  "rejects_malformed s b slot info shape r \<longleftrightarrow> (case shape of (ty, words, caps) \<Rightarrow>
     (cap_type (slot_cap (ctes s) slot) \<noteq> ty \<longrightarrow> r = Inr (msg_illegal_operation, s)) \<and>
     (cap_type (slot_cap (ctes s) slot) = ty \<and> message_length info < words \<longrightarrow>
        r = Inr (msg_err TRUNCATED_MESSAGE 2, upd_ipc b 1 words (upd_ipc b 0 (message_length info) s))) \<and>
     (cap_type (slot_cap (ctes s) slot) = ty \<and> \<not> message_length info < words \<and> message_extra_caps info < caps \<longrightarrow>
        r = Inr (msg_err TRUNCATED_MESSAGE 2, upd_ipc b 1 caps (upd_ipc b 0 (message_extra_caps info) s))))"

lemma checks_applied:
  "require_type slot ty rest s = (if cap_type (slot_cap (ctes s) slot) \<noteq> ty then Inr (msg_illegal_operation, s) else rest s)"
  "require_length info n rest s = (if message_length info < n then msg_truncated_message (message_length info) n s else rest s)"
  "require_caps info n rest s = (if message_extra_caps info < n then msg_truncated_message (message_extra_caps info) n s else rest s)"
  by (simp_all add: require_type_def require_length_def require_caps_def kern_simps)

lemma cases_reject:
  assumes "has_buffer s b"
  shows
  "rejects_malformed s b slot info (CAP_CNODE, 5, 1) (dispatch_cnode_copy slot info s)"
  "rejects_malformed s b slot info (CAP_CNODE, 2, 0) (dispatch_cnode_delete slot info s)"
  "rejects_malformed s b slot info (CAP_CNODE, 6, 1) (dispatch_cnode_mint slot info s)"
  "rejects_malformed s b slot info (CAP_CNODE, 2, 0) (dispatch_cnode_revoke slot info s)"
  "rejects_malformed s b slot info (CAP_CNODE, 0, 0) (dispatch_cnode_debug_print slot info s)"
  "rejects_malformed s b slot info (CAP_CNODE, 2, 0) (dispatch_cnode_debug_get slot info s)"
  "rejects_malformed s b slot info (CAP_TCB, 2, 3) (dispatch_tcb_configure slot info s)"
  "rejects_malformed s b slot info (CAP_TCB, 4, 0) (dispatch_tcb_read_registers slot info s)"
  "rejects_malformed s b slot info (CAP_TCB, 0, 0) (dispatch_tcb_resume slot info s)"
  "rejects_malformed s b slot info (CAP_TCB, 0, 1) (dispatch_tcb_bind_notification slot info s)"
  "rejects_malformed s b slot info (CAP_TCB, 1, 0) (dispatch_tcb_set_tls_base slot info s)"
  "rejects_malformed s b slot info (CAP_TCB, 0, 0) (dispatch_tcb_suspend slot info s)"
  "rejects_malformed s b slot info (CAP_TCB, 4, 0) (dispatch_tcb_write_registers slot info s)"
  "rejects_malformed s b slot info (CAP_TCB, 1, 0) (dispatch_tcb_set_debug slot info s)"
  "rejects_malformed s b slot info (CAP_TCB, 2, 0) (dispatch_tcb_set_name slot info s)"
  "rejects_malformed s b slot info (CAP_UNTYPED, 6, 1) (dispatch_untyped_retype slot info s)"
  "rejects_malformed s b slot info (CAP_X86_64_IO_PORT, 1, 0) (dispatch_x86_64_io_port_in8 slot info s)"
  "rejects_malformed s b slot info (CAP_X86_64_IO_PORT, 1, 0) (dispatch_x86_64_io_port_in16 slot info s)"
  "rejects_malformed s b slot info (CAP_X86_64_IO_PORT, 1, 0) (dispatch_x86_64_io_port_in32 slot info s)"
  "rejects_malformed s b slot info (CAP_X86_64_IO_PORT, 2, 0) (dispatch_x86_64_io_port_out8 slot info s)"
  "rejects_malformed s b slot info (CAP_X86_64_IO_PORT, 2, 0) (dispatch_x86_64_io_port_out16 slot info s)"
  "rejects_malformed s b slot info (CAP_X86_64_IO_PORT, 2, 0) (dispatch_x86_64_io_port_out32 slot info s)"
  "rejects_malformed s b slot info (CAP_X86_64_IO_PORT_CONTROL, 4, 1) (dispatch_x86_64_io_port_control_issue slot info s)"
  "rejects_malformed s b slot info (CAP_X86_64_PDPT, 2, 1) (dispatch_x86_64_pdpt_map slot info s)"
  "rejects_malformed s b slot info (CAP_X86_64_PD, 2, 1) (dispatch_x86_64_pd_map slot info s)"
  "rejects_malformed s b slot info (CAP_X86_64_PT, 2, 1) (dispatch_x86_64_pt_map slot info s)"
  "rejects_malformed s b slot info (CAP_X86_64_PAGE, 2, 1) (dispatch_x86_64_page_map slot info s)"
  "rejects_malformed s b slot info (CAP_X86_64_HUGE_PAGE, 2, 1) (dispatch_x86_64_huge_page_map slot info s)"
  "rejects_malformed s b slot info (CAP_IRQ_CONTROL, 3, 1) (dispatch_irq_control_get slot info s)"
  "rejects_malformed s b slot info (CAP_IRQ_HANDLER, 0, 0) (dispatch_irq_handler_ack slot info s)"
  "rejects_malformed s b slot info (CAP_IRQ_HANDLER, 0, 0) (dispatch_irq_handler_clear slot info s)"
  "rejects_malformed s b slot info (CAP_IRQ_HANDLER, 0, 1) (dispatch_irq_handler_set_notification slot info s)"
  by (simp_all add: rejects_malformed_def dispatch_defs kbind_get_mr [OF assms] checks_applied msg_error_ret [OF assms])

lemma dispatch_shape:
  assumes "has_buffer s b" and "method_shape (message_label info) = Some shape"
  shows "rejects_malformed s b slot info shape (dispatch_method slot info s)"
  using assms(2) unfolding method_shape_def
  by (auto simp: dispatch_method_def Let_def cases_reject [OF assms(1)] split: if_split_asm)

lemma dispatch_unknown:
  "method_shape (message_label info) = None \<Longrightarrow> dispatch_method slot info s = Inr (msg_illegal_operation, s)"
  unfolding method_shape_def by (simp add: dispatch_method_def Let_def kern_simps split: if_split_asm)

text \<open>C27: A malformed invocation is refused before any method runs: an unknown label or a capability of the
wrong type gives an error and leaves the state as it was; too few message words or capabilities for
the method of the label give an error that says so and change only the first two message registers
of the caller. This holds for all methods of the interface.\<close>

theorem malformed_invocation_refused:
  assumes "has_buffer s b"
  shows "case method_shape (message_label info) of
      None \<Rightarrow> dispatch_method slot info s = Inr (msg_illegal_operation, s)
    | Some (ty, words, caps) \<Rightarrow>
        if cap_type (slot_cap (ctes s) slot) \<noteq> ty
        then dispatch_method slot info s = Inr (msg_illegal_operation, s)
        else if message_length info < words
        then dispatch_method slot info s =
          Inr (msg_err TRUNCATED_MESSAGE 2, upd_ipc b 1 words (upd_ipc b 0 (message_length info) s))
        else if message_extra_caps info < caps
        then dispatch_method slot info s =
          Inr (msg_err TRUNCATED_MESSAGE 2, upd_ipc b 1 caps (upd_ipc b 0 (message_extra_caps info) s))
        else True"
  using dispatch_unknown [of info slot s] dispatch_shape [OF assms, of info _ slot]
  by (auto simp: rejects_malformed_def split: option.split)

text \<open>A mint with three words instead of six.\<close>

theorem malformed_invocation_refused_witness:
  "let s = (ipc_example RunQueue TASK_STATE_RUNNABLE)\<lparr>ctes := (\<lambda>_. zero_cte\<lparr>cte_cap := cap_set_type CAP_CNODE zero_cap\<rparr>)\<rparr>
   in dispatch_method (Slot 0) (new_message_tag METHOD_CNODE_MINT 0 1 3) s =
        Inr (msg_err TRUNCATED_MESSAGE 2, upd_ipc buffer_a 1 6 (upd_ipc buffer_a 0 3 s))"
proof -
  let ?s = "(ipc_example RunQueue TASK_STATE_RUNNABLE)\<lparr>ctes := (\<lambda>_. zero_cte\<lparr>cte_cap := cap_set_type CAP_CNODE zero_cap\<rparr>)\<rparr>"
  have "has_buffer ?s buffer_a" by (simp add: has_buffer_def ipc_example_def)
  from malformed_invocation_refused [OF this, where slot = "Slot 0" and info = "new_message_tag METHOD_CNODE_MINT 0 1 3"]
  show ?thesis by (simp add: method_shape_def)
qed

end
