(* ===== verification/C_String.thy ===== *)
theory C_String
  imports Prelude
begin

text \<open>
  The string and number routines that the kernel and the programs share (\<open>lib/string.c\<close>,
  \<open>include/ctype.h\<close>, \<open>lib/num.c\<close>). Routines that copy inside one memory work on a function from
  addresses to bytes, where source and destination may overlap. Routines that only read take an
  array object as seen from a pointer into it: the list of bytes from the pointer to the end of the
  object. Reading past the end of the object is undefined. \<open>char\<close> is signed, so a byte takes part
  in arithmetic as its signed value.
\<close>

section \<open>Results of functions without state\<close>

definition ebind :: "fault + 'a \<Rightarrow> ('a \<Rightarrow> fault + 'b) \<Rightarrow> fault + 'b" where
  "ebind r f = (case r of Inl e \<Rightarrow> Inl e | Inr x \<Rightarrow> f x)"

lemma ebind_simps [simp]: "ebind (Inl e) f = Inl e" "ebind (Inr x) f = f x"
  by (simp_all add: ebind_def)

lemma ebind_Inr: "ebind r f = Inr y \<longleftrightarrow> (\<exists>x. r = Inr x \<and> f x = Inr y)"
  by (cases r) simp_all

lemma ebind_cong [fundef_cong]: "r = r' \<Longrightarrow> (\<And>x. r' = Inr x \<Longrightarrow> f x = f' x) \<Longrightarrow> ebind r f = ebind r' f'"
  by (cases r') simp_all

section \<open>Character classes\<close>

definition isdigit :: "int \<Rightarrow> bool" where
  "isdigit c \<longleftrightarrow> 0x30 \<le> c \<and> c \<le> 0x39"

definition islower :: "int \<Rightarrow> bool" where
  "islower c \<longleftrightarrow> 0x61 \<le> c \<and> c \<le> 0x7A"

definition isupper :: "int \<Rightarrow> bool" where
  "isupper c \<longleftrightarrow> 0x41 \<le> c \<and> c \<le> 0x5A"

definition isalpha :: "int \<Rightarrow> bool" where
  "isalpha c \<longleftrightarrow> islower c \<or> isupper c"

definition isalnum :: "int \<Rightarrow> bool" where
  "isalnum c \<longleftrightarrow> isalpha c \<or> isdigit c"

definition isprint :: "int \<Rightarrow> bool" where
  "isprint c \<longleftrightarrow> 0x20 \<le> c \<and> c \<le> 0x7E"

definition isspace :: "int \<Rightarrow> bool" where
  "isspace c \<longleftrightarrow> c = 0x20 \<or> c = 9 \<or> c = 10 \<or> c = 13 \<or> c = 12 \<or> c = 11"

definition isxdigit :: "int \<Rightarrow> bool" where
  "isxdigit c \<longleftrightarrow> isdigit c \<or> (0x61 \<le> c \<and> c \<le> 0x66) \<or> (0x41 \<le> c \<and> c \<le> 0x46)"

section \<open>Blocks of memory\<close>

type_synonym memory = "addr \<Rightarrow> u8"

fun fill :: "addr \<Rightarrow> u8 \<Rightarrow> nat \<Rightarrow> memory \<Rightarrow> memory" where
  "fill p c 0 m = m"
| "fill p c (Suc n) m = fill (p + 1) c n (m(p := c))"

definition memset :: "addr \<Rightarrow> u32 \<Rightarrow> word_t \<Rightarrow> memory \<Rightarrow> memory" where
  "memset s c n m = fill s (ucast c) (unat n) m"

fun copy_up :: "addr \<Rightarrow> addr \<Rightarrow> nat \<Rightarrow> memory \<Rightarrow> memory" where
  "copy_up d s 0 m = m"
| "copy_up d s (Suc n) m = copy_up (d + 1) (s + 1) n (m(d := m s))"

definition memcpy :: "addr \<Rightarrow> addr \<Rightarrow> word_t \<Rightarrow> memory \<Rightarrow> memory" where
  "memcpy dest src n m = copy_up dest src (unat n) m"

text \<open>The loop of \<open>memmove\<close> that starts behind the last byte.\<close>

fun copy_down :: "addr \<Rightarrow> addr \<Rightarrow> nat \<Rightarrow> memory \<Rightarrow> memory" where
  "copy_down d s 0 m = m"
| "copy_down d s (Suc n) m = copy_down (d - 1) (s - 1) n (m(d - 1 := m (s - 1)))"

definition memmove :: "addr \<Rightarrow> addr \<Rightarrow> word_t \<Rightarrow> memory \<Rightarrow> memory" where
  "memmove dest src n m =
     (if dest < src then copy_up dest src (unat n) m
      else copy_down (dest + n) (src + n) (unat n) m)"

section \<open>Strings\<close>

text \<open>\<open>memcmp\<close> compares two objects.\<close>

fun memcmp_from :: "u8 list \<Rightarrow> u8 list \<Rightarrow> nat \<Rightarrow> fault + int" where
  "memcmp_from p q 0 = Inr 0"
| "memcmp_from (x # p) (y # q) (Suc n) = (if x \<noteq> y then Inr (uint x - uint y) else memcmp_from p q n)"
| "memcmp_from _ _ (Suc n) = Inl Undefined"

definition memcmp :: "u8 list \<Rightarrow> u8 list \<Rightarrow> word_t \<Rightarrow> fault + int" where
  "memcmp s1 s2 n = memcmp_from s1 s2 (unat n)"

fun strlen_from :: "word_t \<Rightarrow> u8 list \<Rightarrow> fault + word_t" where
  "strlen_from len [] = Inl Undefined"
| "strlen_from len (c # s) = (if c \<noteq> 0 then strlen_from (len + 1) s else Inr len)"

definition strlen :: "u8 list \<Rightarrow> fault + word_t" where
  "strlen s = strlen_from 0 s"

text \<open>\<open>strchr\<close> returns the rest of the object from the character on; \<open>c\<close> is never zero here.\<close>

fun strchr :: "u8 list \<Rightarrow> int \<Rightarrow> fault + u8 list option" where
  "strchr [] c = Inl Undefined"
| "strchr (x # s) c = (if x = 0 then Inr None else if sint x = c then Inr (Some (x # s)) else strchr s c)"

text \<open>\<open>strcpy\<close> into the object \<open>dest\<close>; the result is the new content of that object.\<close>

fun strcpy :: "u8 list \<Rightarrow> u8 list \<Rightarrow> fault + u8 list" where
  "strcpy (d # dest) (c # src) =
     (if c \<noteq> 0 then ebind (strcpy dest src) (\<lambda>rest. Inr (c # rest)) else Inr (c # dest))"
| "strcpy _ _ = Inl Undefined"

fun strcmp :: "u8 list \<Rightarrow> u8 list \<Rightarrow> fault + int" where
  "strcmp (x # s1) (y # s2) = (if x \<noteq> 0 \<and> x = y then strcmp s1 s2 else Inr (uint x - uint y))"
| "strcmp _ _ = Inl Undefined"

section \<open>Numbers\<close>

abbreviation (input) LONG_MAX :: int where "LONG_MAX \<equiv> 2 ^ 63 - 1"

fun skip_space :: "u8 list \<Rightarrow> fault + u8 list" where
  "skip_space [] = Inl Undefined"
| "skip_space (c # s) = (if isspace (sint c) then skip_space s else Inr (c # s))"

fun strtol_sign :: "u8 list \<Rightarrow> fault + (int \<times> u8 list)" where
  "strtol_sign [] = Inl Undefined"
| "strtol_sign (c # s) = (if sint c = 0x2D then Inr (- 1, s) else if sint c = 0x2B then Inr (1, s) else Inr (1, c # s))"

text \<open>\<open>(*(nptr + 1) | 32) == 'x'\<close>\<close>

fun hex_prefix :: "u8 list \<Rightarrow> fault + bool" where
  "hex_prefix [] = Inl Undefined"
| "hex_prefix (c # s) =
     (if sint c = 0x30 then (case s of [] \<Rightarrow> Inl Undefined | x # _ \<Rightarrow> Inr (sint x OR 32 = 0x78)) else Inr False)"

definition strtol_base :: "int \<Rightarrow> u8 list \<Rightarrow> fault + (int \<times> u8 list)" where
  "strtol_base base nptr =
     (if base = 0 then
        (case nptr of [] \<Rightarrow> Inl Undefined
         | c # _ \<Rightarrow>
           if sint c = 0x30 then
             ebind (hex_prefix nptr) (\<lambda>x. if x then Inr (16, drop 2 nptr) else Inr (8, nptr))
           else Inr (10, nptr))
      else if base = 16 then
        ebind (hex_prefix nptr) (\<lambda>x. if x then Inr (base, drop 2 nptr) else Inr (base, nptr))
      else Inr (base, nptr))"

definition digit_value :: "int \<Rightarrow> int option" where
  "digit_value c =
     (if 0x30 \<le> c \<and> c \<le> 0x39 then Some (c - 0x30)
      else if 0x41 \<le> c \<and> c \<le> 0x5A then Some (c - 0x41 + 10)
      else if 0x61 \<le> c \<and> c \<le> 0x7A then Some (c - 0x61 + 10)
      else None)"

text \<open>The accumulation overflows \<open>long\<close> for a number that does not fit, which is undefined.\<close>

fun strtol_digits :: "int \<Rightarrow> int \<Rightarrow> u8 list \<Rightarrow> fault + (int \<times> u8 list)" where
  "strtol_digits base result [] = Inl Undefined"
| "strtol_digits base result (c # s) =
     (case digit_value (sint c) of
        None \<Rightarrow> Inr (result, c # s)
      | Some digit \<Rightarrow>
          if digit \<ge> base then Inr (result, c # s)
          else if result * base + digit \<le> LONG_MAX then strtol_digits base (result * base + digit) s
          else Inl Undefined)"

text \<open>The value and the object from \<open>*endptr\<close> on.\<close>

definition strtol :: "u8 list \<Rightarrow> int \<Rightarrow> fault + (int \<times> u8 list)" where
  "strtol nptr base =
     ebind (skip_space nptr) (\<lambda>s1.
     ebind (strtol_sign s1) (\<lambda>(sign, s2).
     ebind (strtol_base base s2) (\<lambda>(b, s3).
     ebind (strtol_digits b 0 s3) (\<lambda>(result, rest).
       Inr (result * sign, rest)))))"

section \<open>Copying\<close>

lemma of_nat_addr_inj:
  "i < 2 ^ 64 \<Longrightarrow> j < 2 ^ 64 \<Longrightarrow> (of_nat i :: addr) = of_nat j \<longleftrightarrow> i = j"
  by (simp add: word_of_nat_eq_iff take_bit_nat_eq_self)

lemma addr_offset_neq:
  assumes "i < n" and "n < 2 ^ 64"
  shows "p \<noteq> p + 1 + (of_nat i :: addr)"
  using of_nat_addr_inj [of 0 "Suc i"] assms by (simp add: add.assoc)

text \<open>
  A block written from \<open>p\<close> on: the rest of the memory keeps its content and byte \<open>i\<close> of the block
  is \<open>f i\<close>. The block has at most as many bytes as there are addresses.
\<close>

definition block_written :: "addr \<Rightarrow> nat \<Rightarrow> (nat \<Rightarrow> u8) \<Rightarrow> memory \<Rightarrow> memory \<Rightarrow> bool" where
  "block_written p n f m m' \<longleftrightarrow>
     (\<forall>i<n. m' (p + of_nat i) = f i) \<and> (\<forall>a. (\<forall>i<n. a \<noteq> p + of_nat i) \<longrightarrow> m' a = m a)"

lemma block_written_empty [simp]: "block_written p 0 f m m"
  by (simp add: block_written_def)

lemma block_written_first:
  assumes "n < 2 ^ 64" and "block_written (p + 1) n (\<lambda>i. f (Suc i)) (m(p := f 0)) m'"
  shows "block_written p (Suc n) f m m'"
proof -
  have in_rest: "m' (p + 1 + of_nat i) = f (Suc i)" if "i < n" for i
    using assms(2) that by (simp add: block_written_def)
  have rest: "m' a = (m(p := f 0)) a" if "\<forall>i<n. a \<noteq> p + 1 + of_nat i" for a
    using assms(2) that by (simp add: block_written_def)
  have "m' (p + of_nat i) = f i" if "i < Suc n" for i
    using in_rest rest [of p] addr_offset_neq [OF _ assms(1)] that by (cases i) (auto simp: add.assoc)
  moreover have "m' a = m a" if a: "\<forall>i<Suc n. a \<noteq> p + of_nat i" for a
  proof -
    have "a \<noteq> p" using a by (auto dest: spec [of _ 0])
    moreover have "a \<noteq> p + 1 + of_nat i" if "i < n" for i
      using a that by (auto simp: add.assoc dest: spec [of _ "Suc i"])
    ultimately show ?thesis using rest [of a] by simp
  qed
  ultimately show ?thesis by (simp add: block_written_def)
qed

lemma block_written_last:
  assumes "n < 2 ^ 64" and "block_written p n f (m(p + of_nat n := f n)) m'"
  shows "block_written p (Suc n) f m m'"
proof -
  let ?e = "p + of_nat n"
  have in_rest: "m' (p + of_nat i) = f i" if "i < n" for i
    using assms(2) that by (simp add: block_written_def)
  have rest: "m' a = (m(?e := f n)) a" if "\<forall>i<n. a \<noteq> p + of_nat i" for a
    using assms(2) that by (simp add: block_written_def)
  have "m' ?e = f n"
    using rest [of ?e] of_nat_addr_inj assms(1) by force
  then have "m' (p + of_nat i) = f i" if "i < Suc n" for i
    using in_rest that by (cases "i = n") auto
  moreover have "m' a = m a" if "\<forall>i<Suc n. a \<noteq> p + of_nat i" for a
    using rest [of a] that by auto
  ultimately show ?thesis by (simp add: block_written_def)
qed

lemma fill_block: "n \<le> 2 ^ 64 \<Longrightarrow> block_written p n (\<lambda>_. c) m (fill p c n m)"
  by (induction n arbitrary: p m) (auto intro!: block_written_first)

lemma copy_up_block:
  assumes "n \<le> 2 ^ 64" and "\<And>i j. i < j \<Longrightarrow> j < n \<Longrightarrow> d + of_nat i \<noteq> s + of_nat j"
  shows "block_written d n (\<lambda>i. m (s + of_nat i)) m (copy_up d s n m)"
  using assms
proof (induction n arbitrary: d s m)
  case 0
  then show ?case by simp
next
  case (Suc n)
  let ?m = "m(d := m s)"
  have src: "?m (s + 1 + of_nat i) = m (s + of_nat (Suc i))" if "i < n" for i
    using Suc.prems(2) [of 0 "Suc i"] that by (auto simp: add.assoc)
  have "block_written (d + 1) n (\<lambda>i. ?m (s + 1 + of_nat i)) ?m (copy_up (d + 1) (s + 1) n ?m)"
  proof (rule Suc.IH)
    show "d + 1 + of_nat i \<noteq> s + 1 + of_nat j" if "i < j" "j < n" for i j
      using Suc.prems(2) [of "Suc i" "Suc j"] that by (simp add: add.assoc)
  qed (use Suc.prems in simp)
  then have "block_written (d + 1) n (\<lambda>i. m (s + of_nat (Suc i))) ?m (copy_up (d + 1) (s + 1) n ?m)"
    using src by (simp add: block_written_def)
  then show ?case
    using Suc.prems(1) by (auto intro!: block_written_first)
qed

lemma copy_down_block:
  assumes "n \<le> 2 ^ 64" and "\<And>i j. i < j \<Longrightarrow> j < n \<Longrightarrow> d + of_nat j \<noteq> s + of_nat i"
  shows "block_written d n (\<lambda>i. m (s + of_nat i)) m (copy_down (d + of_nat n) (s + of_nat n) n m)"
  using assms
proof (induction n arbitrary: m)
  case 0
  then show ?case by simp
next
  case (Suc n)
  let ?m = "m(d + of_nat n := m (s + of_nat n))"
  have "block_written d n (\<lambda>i. ?m (s + of_nat i)) ?m (copy_down (d + of_nat n) (s + of_nat n) n ?m)"
    using Suc.prems by (intro Suc.IH) simp_all
  moreover have "?m (s + of_nat i) = m (s + of_nat i)" if "i < n" for i
    using Suc.prems(2) [of i n] that by auto
  ultimately have "block_written d n (\<lambda>i. m (s + of_nat i)) ?m (copy_down (d + of_nat n) (s + of_nat n) n ?m)"
    by (simp add: block_written_def)
  then show ?case
    using Suc.prems(1) by (auto intro!: block_written_last simp: add.commute [of 1] add.assoc [symmetric])
qed

lemma copy_numeral:
  "copy_up d s (numeral k) m = copy_up (d + 1) (s + 1) (pred_numeral k) (m(d := m s))"
  "copy_down d s (numeral k) m = copy_down (d - 1) (s - 1) (pred_numeral k) (m(d - 1 := m (s - 1)))"
  by (simp_all add: numeral_eq_Suc)

text \<open>Blocks that do not wrap around the address space, in terms of their start addresses.\<close>

lemma unat_addr_offset:
  "unat p + n \<le> 2 ^ 64 \<Longrightarrow> i < n \<Longrightarrow> unat (p + of_nat i :: addr) = unat p + i"
  by (simp add: unat_word_ariths unat_of_nat)

text \<open>C35: memmove copies the block as it was before the call, whether or not source and
destination overlap, and changes no other byte: for all blocks that do not run past the end of the
address space.\<close>

theorem memmove_moves_block:
  assumes "unat d + unat n \<le> 2 ^ 64" and "unat s + unat n \<le> 2 ^ 64"
  shows "block_written d (unat n) (\<lambda>i. m (s + of_nat i)) m (memmove d s n m)"
proof (cases "d < s")
  case True
  have "d + of_nat i \<noteq> s + of_nat j" if "i < j" "j < unat n" for i j
    using unat_addr_offset [OF assms(1), of i] unat_addr_offset [OF assms(2), of j] that True
    by (auto simp: word_less_nat_alt)
  then show ?thesis
    using True assms by (auto simp: memmove_def intro!: copy_up_block)
next
  case False
  have "d + of_nat j \<noteq> s + of_nat i" if "i < j" "j < unat n" for i j
    using unat_addr_offset [OF assms(1), of j] unat_addr_offset [OF assms(2), of i] that False
    by (auto simp: word_less_nat_alt)
  then show ?thesis
    using False assms copy_down_block [of "unat n" d s m] by (auto simp: memmove_def)
qed

text \<open>Copying five bytes two bytes upwards: the blocks overlap, byte 4 of the source arrives.\<close>

theorem memmove_moves_block_witness:
  "block_written 0x1002 (unat (5 :: word_t)) (\<lambda>i. ucast (0x1000 + of_nat i :: addr)) ucast (memmove 0x1002 0x1000 5 ucast)
   \<and> memmove 0x1002 0x1000 5 ucast 0x1006 = 4 \<and> copy_up 0x1002 0x1000 5 ucast 0x1006 = 0"
proof (intro conjI)
  show "block_written 0x1002 (unat (5 :: word_t)) (\<lambda>i. ucast (0x1000 + of_nat i :: addr)) ucast
      (memmove 0x1002 0x1000 5 ucast)"
    by (rule memmove_moves_block) simp_all
qed (simp_all add: memmove_def copy_numeral)

lemma memcpy_block:
  assumes "unat d + unat n \<le> unat s \<or> unat s + unat n \<le> unat d"
    and "unat d + unat n \<le> 2 ^ 64" and "unat s + unat n \<le> 2 ^ 64"
  shows "block_written d (unat n) (\<lambda>i. m (s + of_nat i)) m (memcpy d s n m)"
  unfolding memcpy_def
proof (rule copy_up_block)
  show "d + of_nat i \<noteq> s + of_nat j" if "i < j" "j < unat n" for i j
    using unat_addr_offset [OF assms(2), of i] unat_addr_offset [OF assms(3), of j] that assms(1)
    by (auto simp: word_less_nat_alt)
qed (use assms in simp)

lemma memset_block: "block_written s (unat n) (\<lambda>_. ucast c) m (memset s c n m)"
  proof -
  have "unat n < 2 ^ LENGTH(64)" by (rule unsigned_less)
  then show ?thesis by (simp add: memset_def fill_block)
qed

section \<open>Strings in their objects\<close>

text \<open>\<open>xs\<close> followed by a zero byte and whatever else the object holds.\<close>

definition c_string :: "u8 list \<Rightarrow> u8 list \<Rightarrow> u8 list" where
  "c_string xs rest = xs @ 0 # rest"

lemma strlen_from_string: "0 \<notin> set xs \<Longrightarrow> strlen_from n (c_string xs rest) = Inr (n + of_nat (length xs))"
  by (induction xs arbitrary: n) (auto simp: c_string_def)

lemma strlen_string: "0 \<notin> set xs \<Longrightarrow> strlen (c_string xs rest) = Inr (of_nat (length xs))"
  by (simp add: strlen_def strlen_from_string)

lemma strchr_string:
  "0 \<notin> set xs \<Longrightarrow> \<forall>x\<in>set xs. sint x \<noteq> c \<Longrightarrow> strchr (c_string xs rest) c = Inr None"
  by (induction xs) (auto simp: c_string_def)

lemma strchr_found:
  "0 \<notin> set xs \<Longrightarrow> \<forall>x\<in>set xs. sint x \<noteq> c \<Longrightarrow> sint y = c \<Longrightarrow> y \<noteq> 0 \<Longrightarrow>
     strchr (xs @ y # rest) c = Inr (Some (y # rest))"
  by (induction xs) auto

lemma strcpy_string:
  "0 \<notin> set xs \<Longrightarrow> length xs < length dest \<Longrightarrow>
     strcpy dest (c_string xs rest) = Inr (c_string xs (drop (Suc (length xs)) dest))"
proof (induction xs arbitrary: dest)
  case Nil
  then show ?case by (cases dest) (auto simp: c_string_def)
next
  case (Cons x xs)
  then show ?case by (cases dest) (auto simp: c_string_def)
qed

lemma uint_eq [simp]: "uint x = uint y \<longleftrightarrow> x = (y :: 'a :: len word)"
  by (metis word_of_int_uint)

lemma strcmp_strings:
  assumes "0 \<notin> set xs" and "0 \<notin> set ys"
  shows "\<exists>d. strcmp (c_string xs r) (c_string ys r') = Inr d \<and> (d = 0 \<longleftrightarrow> xs = ys)"
  using assms
proof (induction xs arbitrary: ys)
  case Nil
  then show ?case by (cases ys) (auto simp: c_string_def uint_0_iff)
next
  case (Cons x xs)
  then show ?case by (cases ys) (auto simp: c_string_def uint_0_iff)
qed

lemma memcmp_equal:
  assumes "n \<le> length xs" and "n \<le> length ys"
  shows "\<exists>d. memcmp_from xs ys n = Inr d \<and> (d = 0 \<longleftrightarrow> take n xs = take n ys)"
  using assms
proof (induction n arbitrary: xs ys)
  case 0
  then show ?case by simp
next
  case (Suc n)
  then show ?case by (cases xs; cases ys) auto
qed

end
