(* ===== verification/C_Print.thy ===== *)
theory C_Print
  imports C_String
begin

text \<open>
  Formatted output (\<open>lib/print.c\<close>). A call hands bytes to the stream's \<open>write\<close> function, which is
  the system's and whose result the code ignores: the model collects the bytes handed over. The
  arguments behind \<open>...\<close> are a list of values with their C type; fetching one with another type, or
  one that is not there, is undefined. The format string is the object from its pointer on, so a
  format that ends inside a directive runs past its end. \<open>panic\<close> is an empty macro in this file.
\<close>

section \<open>Data\<close>

datatype num_base = BASE_10 | BASE_16 | BASE_16_CAPS | BASE_8 | BASE_2 | BASE_PTR

record format_spec =
  fs_base :: num_base
  fs_alternate_form :: bool
  fs_print_plus :: bool
  fs_leave_space :: bool
  fs_left_justify :: bool
  fs_padding_char :: u8
  fs_int_width :: u8
  fs_padding_width :: u16
  fs_precision :: u16

record number =
  num_value :: word_t
  num_negative :: bool

datatype va_value = VInt u32 | VLong word_t | VStr "u8 list option" | VIntPtr addr

text \<open>Bytes written so far by this call, and everything handed to the stream.\<close>

type_synonym writing = "word_t \<times> u8 list"

definition WRITE :: "word_t \<Rightarrow> u8 list \<Rightarrow> word_t \<Rightarrow> writing \<Rightarrow> writing" where
  "WRITE n data sz st = (case st of (written, out) \<Rightarrow>
     if written < n
     then let can_write = min sz (n - written) in (written + can_write, out @ take (unat can_write) data)
     else (written, out))"

text \<open>A call \<open>written += f (..., n - written)\<close>.\<close>

definition add_written :: "(word_t \<Rightarrow> u8 list \<Rightarrow> writing) \<Rightarrow> word_t \<Rightarrow> writing \<Rightarrow> writing" where
  "add_written f n st = (case st of (written, out) \<Rightarrow>
     case f (n - written) out of (k, out') \<Rightarrow> (written + k, out'))"

section \<open>Padding, signs and prefixes\<close>

fun pad_loop :: "u8 \<Rightarrow> nat \<Rightarrow> word_t \<Rightarrow> writing \<Rightarrow> writing" where
  "pad_loop c 0 n st = st"
| "pad_loop c (Suc k) n st = pad_loop c k n (WRITE n [c] 1 st)"

definition format_pad :: "format_spec \<Rightarrow> int \<Rightarrow> word_t \<Rightarrow> u8 list \<Rightarrow> writing" where
  "format_pad spec pad_len n out = pad_loop (fs_padding_char spec) (nat pad_len) n (0, out)"

definition format_number_sign :: "format_spec \<Rightarrow> number \<Rightarrow> word_t \<Rightarrow> u8 list \<Rightarrow> writing" where
  "format_number_sign spec number n out =
     (if num_negative number then WRITE n [0x2D] 1 (0, out)
      else if fs_print_plus spec then WRITE n [0x2B] 1 (0, out)
      else if fs_leave_space spec then WRITE n [0x20] 1 (0, out)
      else (0, out))"

definition format_number_alternate_form :: "format_spec \<Rightarrow> word_t \<Rightarrow> u8 list \<Rightarrow> writing" where
  "format_number_alternate_form spec n out =
     (if fs_alternate_form spec
      then (case fs_base spec of
              BASE_2 \<Rightarrow> WRITE n [0x30, 0x62] 2 (0, out)
            | BASE_8 \<Rightarrow> WRITE n [0x30] 1 (0, out)
            | BASE_10 \<Rightarrow> (0, out)
            | BASE_16_CAPS \<Rightarrow> WRITE n [0x30, 0x58] 2 (0, out)
            | BASE_16 \<Rightarrow> WRITE n [0x30, 0x78] 2 (0, out)
            | BASE_PTR \<Rightarrow> WRITE n [0x30, 0x78] 2 (0, out))
      else (0, out))"

section \<open>Fetching and laying out a number\<close>

definition va_int :: "va_value list \<Rightarrow> fault + (u32 \<times> va_value list)" where
  "va_int args = (case args of VInt v # rest \<Rightarrow> Inr (v, rest) | _ \<Rightarrow> Inl Undefined)"

definition va_long :: "va_value list \<Rightarrow> fault + (word_t \<times> va_value list)" where
  "va_long args = (case args of VLong v # rest \<Rightarrow> Inr (v, rest) | _ \<Rightarrow> Inl Undefined)"

text \<open>The value of a signed argument; its negation overflows for the least value.\<close>

definition signed_number :: "int \<Rightarrow> fault + number" where
  "signed_number v =
     (if v < 0 then (if - v \<le> LONG_MAX then Inr \<lparr>num_value = word_of_int (- v), num_negative = True\<rparr>
                     else Inl Undefined)
      else Inr \<lparr>num_value = word_of_int v, num_negative = False\<rparr>)"

definition get_number :: "format_spec \<Rightarrow> bool \<Rightarrow> va_value list \<Rightarrow> fault + (number \<times> va_value list)" where
  "get_number spec is_signed args =
     (let w = sint (fs_int_width spec) in
      if is_signed \<or> w < 0 then
        (if - 2 \<le> w \<and> w \<le> 0
         then ebind (va_int args) (\<lambda>(v, rest). ebind (signed_number (sint v)) (\<lambda>m. Inr (m, rest)))
         else if w = 1 \<or> w = 2
         then ebind (va_long args) (\<lambda>(v, rest). ebind (signed_number (sint v)) (\<lambda>m. Inr (m, rest)))
         else Inr (\<lparr>num_value = 0, num_negative = False\<rparr>, args))
      else if w = 0
      then ebind (va_int args) (\<lambda>(v, rest). Inr (\<lparr>num_value = ucast v, num_negative = False\<rparr>, rest))
      else if w = 1 \<or> w = 2
      then ebind (va_long args) (\<lambda>(v, rest). Inr (\<lparr>num_value = v, num_negative = False\<rparr>, rest))
      else Inr (\<lparr>num_value = 0, num_negative = False\<rparr>, args))"

definition lower_hex_charset :: "u8 list" where
  "lower_hex_charset = [0x30, 0x31, 0x32, 0x33, 0x34, 0x35, 0x36, 0x37, 0x38, 0x39,
     0x61, 0x62, 0x63, 0x64, 0x65, 0x66]"

definition upper_hex_charset :: "u8 list" where
  "upper_hex_charset = [0x30, 0x31, 0x32, 0x33, 0x34, 0x35, 0x36, 0x37, 0x38, 0x39,
     0x41, 0x42, 0x43, 0x44, 0x45, 0x46]"

abbreviation (input) NUM_MAX_DIGITS :: nat where "NUM_MAX_DIGITS \<equiv> 64"
abbreviation (input) NUM_BUF_SIZE :: nat where "NUM_BUF_SIZE \<equiv> 65"

text \<open>\<open>"(nullptr)"\<close> with its terminator.\<close>

definition nullptr_text :: "u8 list" where
  "nullptr_text = [0x28, 0x6E, 0x75, 0x6C, 0x6C, 0x70, 0x74, 0x72, 0x29]"

definition base_charset :: "num_base \<Rightarrow> u8 list" where
  "base_charset b = (case b of BASE_16_CAPS \<Rightarrow> upper_hex_charset | BASE_PTR \<Rightarrow> upper_hex_charset
     | _ \<Rightarrow> lower_hex_charset)"

definition base_divisor :: "num_base \<Rightarrow> word_t" where
  "base_divisor b = (case b of BASE_10 \<Rightarrow> 10 | BASE_16_CAPS \<Rightarrow> 16 | BASE_PTR \<Rightarrow> 16 | BASE_16 \<Rightarrow> 16
     | BASE_8 \<Rightarrow> 8 | BASE_2 \<Rightarrow> 2)"

text \<open>The digit loop, with \<open>k = NUM_MAX_DIGITS - digit\<close>; it returns the object from \<open>buffer + k\<close> on.\<close>

fun layout_digits :: "u8 list \<Rightarrow> word_t \<Rightarrow> nat \<Rightarrow> word_t \<Rightarrow> u8 list \<Rightarrow> u8 list" where
  "layout_digits charset divisor 0 acc buffer = buffer"
| "layout_digits charset divisor (Suc k) acc buffer =
     (if acc > 0
      then layout_digits charset divisor k (acc div divisor) (buffer[k := charset ! unat (acc mod divisor)])
      else drop (Suc k) buffer)"

definition format_layout_int :: "format_spec \<Rightarrow> number \<Rightarrow> u8 list \<Rightarrow> fault + u8 list" where
  "format_layout_int spec number buffer =
     (let acc = num_value number in
      if acc = 0 \<and> fs_base spec = BASE_PTR then strcpy buffer (c_string nullptr_text [])
      else if acc = 0 then Inr (buffer[0 := 0x30])
      else Inr (layout_digits (base_charset (fs_base spec)) (base_divisor (fs_base spec)) NUM_MAX_DIGITS acc buffer))"

section \<open>Formatting a number and a string\<close>

definition null_pointer :: "format_spec \<Rightarrow> number \<Rightarrow> bool" where
  "null_pointer spec number \<longleftrightarrow> num_value number = 0 \<and> fs_base spec = BASE_PTR"

definition number_pad_len :: "format_spec \<Rightarrow> number \<Rightarrow> word_t \<Rightarrow> int" where
  "number_pad_len spec number digits_len =
     (let p0 = sint (fs_padding_width spec) - sint (ucast digits_len :: u32);
          p1 = (if num_negative number \<or> fs_print_plus spec \<or> fs_leave_space spec then p0 - 1 else p0)
      in if fs_alternate_form spec \<and> \<not> null_pointer spec number
         then (case fs_base spec of BASE_2 \<Rightarrow> p1 - 2 | BASE_8 \<Rightarrow> p1 - 1 | BASE_10 \<Rightarrow> p1
               | BASE_16_CAPS \<Rightarrow> p1 - 2 | BASE_16 \<Rightarrow> p1 - 2 | BASE_PTR \<Rightarrow> p1 - 2)
         else p1)"

definition write_sign_and_prefix :: "format_spec \<Rightarrow> number \<Rightarrow> word_t \<Rightarrow> writing \<Rightarrow> writing" where
  "write_sign_and_prefix spec number n st =
     add_written (format_number_alternate_form spec) n (add_written (format_number_sign spec number) n st)"

definition format_number :: "format_spec \<Rightarrow> number \<Rightarrow> word_t \<Rightarrow> u8 list \<Rightarrow> fault + writing" where
  "format_number spec number n out =
     ebind (format_layout_int spec number (replicate NUM_BUF_SIZE 0)) (\<lambda>digits.
     ebind (strlen digits) (\<lambda>digits_len.
     let pad_len = number_pad_len spec number digits_len;
         null = null_pointer spec number;
         st = (0, out)
     in Inr (if fs_padding_width spec \<noteq> 0 \<and> fs_left_justify spec
             then add_written (format_pad spec pad_len) n
                    (WRITE n digits digits_len
                      (if \<not> null then write_sign_and_prefix spec number n st else st))
             else if fs_padding_width spec \<noteq> 0
             then let st1 = (if fs_padding_char spec = 0x30 \<and> \<not> null
                             then write_sign_and_prefix spec number n st else st);
                      st2 = add_written (format_pad spec pad_len) n st1;
                      st3 = (if fs_padding_char spec \<noteq> 0x30 \<and> \<not> null
                             then write_sign_and_prefix spec number n st2 else st2)
                  in WRITE n digits digits_len st3
             else WRITE n digits digits_len
                    (if \<not> null then write_sign_and_prefix spec number n st else st))))"

text \<open>\<open>"(null)"\<close>.\<close>

definition null_text :: "u8 list" where
  "null_text = [0x28, 0x6E, 0x75, 0x6C, 0x6C, 0x29]"

definition format_string :: "format_spec \<Rightarrow> u8 list option \<Rightarrow> word_t \<Rightarrow> u8 list \<Rightarrow> fault + writing" where
  "format_string spec s n out =
     (let str = (case s of None \<Rightarrow> c_string null_text [] | Some x \<Rightarrow> x) in
      ebind (strlen str) (\<lambda>len0.
      let len = (if sint (fs_precision spec) \<ge> 0 then min len0 (scast (fs_precision spec)) else len0);
          pad_len = (if sint (fs_padding_width spec) > sint (ucast len :: u32)
                     then sint (fs_padding_width spec) - sint (ucast len :: u32) else 0);
          st = (0, out)
      in Inr (if fs_padding_width spec \<noteq> 0 \<and> \<not> fs_left_justify spec
              then WRITE n str len (add_written (format_pad spec pad_len) n st)
              else if fs_padding_width spec \<noteq> 0
              then add_written (format_pad spec pad_len) n (WRITE n str len st)
              else WRITE n str len st)))"

section \<open>The format string\<close>

text \<open>
  The state of one call: bytes written and handed over, the arguments left, the values stored
  through \<open>%n\<close> pointers, and what the nested \<open>printf\<close> of the default case prints on the standard
  stream (kept apart from the output of the call, whose stream may be another one).
\<close>

record printf_state =
  p_writing :: writing
  p_args :: "va_value list"
  p_stores :: "(addr \<times> u32) list"
  p_messages :: "u8 list"

definition initial_spec :: format_spec where
  "initial_spec = \<lparr>fs_base = BASE_10, fs_alternate_form = False, fs_print_plus = False, fs_leave_space = False,
     fs_left_justify = False, fs_padding_char = 0x20, fs_int_width = 0, fs_padding_width = 0, fs_precision = - 1\<rparr>"

definition put :: "word_t \<Rightarrow> u8 list \<Rightarrow> word_t \<Rightarrow> printf_state \<Rightarrow> printf_state" where
  "put n data sz st = st\<lparr>p_writing := WRITE n data sz (p_writing st)\<rparr>"

text \<open>A call \<open>written += f (f, &spec, x, n - written)\<close> of a function that may be undefined.\<close>

definition add_result :: "(word_t \<Rightarrow> u8 list \<Rightarrow> fault + writing) \<Rightarrow> word_t \<Rightarrow> printf_state \<Rightarrow> fault + printf_state" where
  "add_result f n st = (case p_writing st of (written, out) \<Rightarrow>
     ebind (f (n - written) out) (\<lambda>(k, out'). Inr (st\<lparr>p_writing := (written + k, out')\<rparr>)))"

definition print_number :: "word_t \<Rightarrow> format_spec \<Rightarrow> bool \<Rightarrow> printf_state \<Rightarrow> fault + printf_state" where
  "print_number n spec is_signed st =
     ebind (get_number spec is_signed (p_args st)) (\<lambda>(number, rest).
       add_result (format_number spec number) n (st\<lparr>p_args := rest\<rparr>))"

text \<open>\<open>"invalid format specifier: "\<close>\<close>

definition invalid_text :: "u8 list" where
  "invalid_text = [0x69, 0x6E, 0x76, 0x61, 0x6C, 0x69, 0x64, 0x20, 0x66, 0x6F, 0x72, 0x6D, 0x61, 0x74, 0x20,
     0x73, 0x70, 0x65, 0x63, 0x69, 0x66, 0x69, 0x65, 0x72, 0x3A, 0x20]"

text \<open>The conversion that ends a directive.\<close>

definition conversion :: "word_t \<Rightarrow> format_spec \<Rightarrow> int \<Rightarrow> u8 \<Rightarrow> printf_state \<Rightarrow> fault + printf_state" where
  "conversion n spec c ch st =
     (if c = 0 \<or> c = 0x25 then Inr (put n [0x25] 1 st)
      else if c = 0x6E then
        (case p_args st of VIntPtr a # rest \<Rightarrow>
           Inr (st\<lparr>p_args := rest, p_stores := p_stores st @ [(a, ucast (fst (p_writing st)))]\<rparr>)
         | _ \<Rightarrow> Inl Undefined)
      else if c = 0x63 then
        ebind (va_int (p_args st)) (\<lambda>(v, rest). Inr (put n [ucast v] 1 (st\<lparr>p_args := rest\<rparr>)))
      else if c = 0x73 then
        (case p_args st of VStr s # rest \<Rightarrow> add_result (format_string spec s) n (st\<lparr>p_args := rest\<rparr>)
         | _ \<Rightarrow> Inl Undefined)
      else if c = 0x64 \<or> c = 0x69 then print_number n spec True st
      else if c = 0x75 then print_number n spec False st
      else if c = 0x78 then print_number n (spec\<lparr>fs_base := BASE_16\<rparr>) False st
      else if c = 0x58 then print_number n (spec\<lparr>fs_base := BASE_16_CAPS\<rparr>) False st
      else if c = 0x6F then print_number n (spec\<lparr>fs_base := BASE_8\<rparr>) False st
      else if c = 0x62 then print_number n (spec\<lparr>fs_base := BASE_2\<rparr>) False st
      else if c = 0x70 then
        print_number n (spec\<lparr>fs_base := BASE_PTR, fs_alternate_form := True, fs_int_width := 2\<rparr>) False st
      else Inr (st\<lparr>p_messages := p_messages st @ invalid_text @ [ch, 0x0A, 0]\<rparr>))"

definition zero_digit :: "format_spec \<Rightarrow> format_spec" where
  "zero_digit spec =
     (if sint (fs_precision spec) \<ge> 0 then spec\<lparr>fs_precision := fs_precision spec * 10\<rparr>
      else if fs_padding_width spec \<noteq> 0 then spec\<lparr>fs_padding_width := fs_padding_width spec * 10\<rparr>
      else spec\<lparr>fs_padding_char := 0x30\<rparr>)"

definition nonzero_digit :: "int \<Rightarrow> format_spec \<Rightarrow> format_spec" where
  "nonzero_digit c spec =
     (if sint (fs_precision spec) \<ge> 0
      then spec\<lparr>fs_precision := fs_precision spec * 10 + word_of_int (c - 0x30)\<rparr>
      else spec\<lparr>fs_padding_width := fs_padding_width spec * 10 + word_of_int (c - 0x30)\<rparr>)"

definition star :: "u32 \<Rightarrow> format_spec \<Rightarrow> format_spec" where
  "star v spec =
     (if sint (fs_precision spec) \<ge> 0 then spec\<lparr>fs_precision := ucast v\<rparr>
      else let w = ucast v in
        (if sint w < 0
         then spec\<lparr>fs_left_justify := True, fs_padding_char := 0x20, fs_padding_width := - w\<rparr>
         else spec\<lparr>fs_padding_char := 0x20, fs_padding_width := w\<rparr>))"

text \<open>The characters of a directive that only change the specification.\<close>

definition modifier :: "int \<Rightarrow> format_spec \<Rightarrow> format_spec option" where
  "modifier c spec =
     (if c = 0x2D then Some (spec\<lparr>fs_left_justify := True\<rparr>)
      else if c = 0x2B then Some (spec\<lparr>fs_print_plus := True\<rparr>)
      else if c = 0x20 then Some (spec\<lparr>fs_leave_space := True\<rparr>)
      else if c = 0x23 then Some (spec\<lparr>fs_alternate_form := True\<rparr>)
      else if c = 0x30 then Some (zero_digit spec)
      else if 0x31 \<le> c \<and> c \<le> 0x39 then Some (nonzero_digit c spec)
      else if c = 0x2E then Some (spec\<lparr>fs_precision := 0\<rparr>)
      else if c = 0x6C then Some (spec\<lparr>fs_int_width := fs_int_width spec + 1\<rparr>)
      else if c = 0x68 then Some (spec\<lparr>fs_int_width := fs_int_width spec - 1\<rparr>)
      else if c = 0x6A \<or> c = 0x7A \<or> c = 0x74 then Some (spec\<lparr>fs_int_width := 2\<rparr>)
      else None)"

text \<open>
  \<open>consume_next\<close>: one character after another of a directive, from the object behind the percent
  sign. The result is the state and the object behind the conversion (\<open>fmt++\<close>).
\<close>

fun consume_next :: "word_t \<Rightarrow> format_spec \<Rightarrow> u8 list \<Rightarrow> printf_state \<Rightarrow> fault + (printf_state \<times> u8 list)" where
  "consume_next n spec [] st = Inl Undefined"
| "consume_next n spec (ch # fmt) st =
     (case modifier (sint ch) spec of
        Some spec' \<Rightarrow> consume_next n spec' fmt st
      | None \<Rightarrow>
          if sint ch = 0x2A then
            (case va_int (p_args st) of Inl e \<Rightarrow> Inl e
             | Inr (v, rest) \<Rightarrow> consume_next n (star v spec) fmt (st\<lparr>p_args := rest\<rparr>))
          else ebind (conversion n spec (sint ch) ch st) (\<lambda>st'. Inr (st', fmt)))"

lemma strchr_suffix: "strchr s c = Inr (Some p) \<Longrightarrow> \<exists>xs. s = xs @ p \<and> p \<noteq> []"
  by (induction s c rule: strchr.induct) (auto split: if_splits intro: exI [of _ "_ # _"])

lemma consume_shortens: "consume_next n spec fmt st = Inr (st', fmt') \<Longrightarrow> length fmt' < length fmt"
proof (induction n spec fmt st rule: consume_next.induct)
  case (2 n spec ch fmt st)
  show ?case
  proof (cases "modifier (sint ch) spec")
    case (Some spec')
    then show ?thesis using 2 by fastforce
  next
    case None
    then show ?thesis
      using 2 by (cases "sint ch = 0x2A") (fastforce simp: ebind_Inr split: sum.splits prod.splits)+
  qed
qed simp

text \<open>The loop \<open>while (*fmt != 0)\<close>.\<close>

function format_loop :: "word_t \<Rightarrow> u8 list \<Rightarrow> printf_state \<Rightarrow> fault + printf_state" where
  "format_loop n fmt st =
     (case fmt of [] \<Rightarrow> Inl Undefined
      | c # _ \<Rightarrow>
        if c = 0 then Inr st
        else case strchr fmt 0x25 of
            Inl e \<Rightarrow> Inl e
          | Inr None \<Rightarrow> ebind (strlen fmt) (\<lambda>len. Inr (put n fmt len st))
          | Inr (Some p) \<Rightarrow>
              (case consume_next n initial_spec (tl p) (put n fmt (of_nat (length fmt - length p)) st) of
                 Inl e \<Rightarrow> Inl e
               | Inr (st', fmt') \<Rightarrow> format_loop n fmt' st'))"
  by pat_completeness auto
termination
proof (relation "measure (\<lambda>(n, fmt, st). length fmt)", goal_cases)
  case 1
  show ?case by simp
next
  case (2 n fmt st c r po p res st' fmt')
  have "consume_next n initial_spec (tl p) (put n fmt (of_nat (length fmt - length p)) st) = Inr (st', fmt')"
    using 2 by simp
  then have "length fmt' < length (tl p)" by (rule consume_shortens)
  moreover have "strchr fmt 0x25 = Inr (Some p)" using 2 by simp
  then have "length p \<le> length fmt" using strchr_suffix by fastforce
  ultimately show ?case by simp
qed

declare format_loop.simps [simp del]

definition vfnprintf :: "word_t \<Rightarrow> u8 list \<Rightarrow> va_value list \<Rightarrow> u8 list \<Rightarrow> fault + (u32 \<times> printf_state)" where
  "vfnprintf n format args out =
     ebind (format_loop (n - 1) format
              \<lparr>p_writing = (0, out), p_args = args, p_stores = [], p_messages = []\<rparr>) (\<lambda>st.
       case p_writing st of (written, out') \<Rightarrow>
         Inr (ucast written, st\<lparr>p_writing := (written, out' @ [0])\<rparr>))"

text \<open>\<open>printf\<close> and its relatives pass \<open>INT_MAX\<close> as the limit.\<close>

abbreviation (input) INT_MAX :: word_t where "INT_MAX \<equiv> 0x7FFFFFFF"

definition vfprintf :: "u8 list \<Rightarrow> va_value list \<Rightarrow> u8 list \<Rightarrow> fault + (u32 \<times> printf_state)" where
  "vfprintf fmt args out = vfnprintf INT_MAX fmt args out"

definition fnprintf :: "word_t \<Rightarrow> u8 list \<Rightarrow> va_value list \<Rightarrow> u8 list \<Rightarrow> fault + (u32 \<times> printf_state)" where
  "fnprintf n fmt args out = vfnprintf n fmt args out"

definition fprintf :: "u8 list \<Rightarrow> va_value list \<Rightarrow> u8 list \<Rightarrow> fault + (u32 \<times> printf_state)" where
  "fprintf fmt args out = vfprintf fmt args out"

definition vprintf :: "u8 list \<Rightarrow> va_value list \<Rightarrow> u8 list \<Rightarrow> fault + (u32 \<times> printf_state)" where
  "vprintf format args out = vfprintf format args out"

definition printf :: "u8 list \<Rightarrow> va_value list \<Rightarrow> u8 list \<Rightarrow> fault + (u32 \<times> printf_state)" where
  "printf format args out = vfprintf format args out"

definition print_str :: "u8 list \<Rightarrow> u8 list \<Rightarrow> fault + u8 list" where
  "print_str str out = ebind (strlen str) (\<lambda>len. Inr (out @ take (unat len) str))"

definition puts :: "u8 list \<Rightarrow> u8 list \<Rightarrow> fault + u8 list" where
  "puts str out = ebind (strlen str) (\<lambda>len. Inr (out @ take (unat len) str @ [0x0A]))"

text \<open>The first byte in memory of the \<open>int\<close> argument, which is its low byte.\<close>

definition putchar :: "u32 \<Rightarrow> u8 list \<Rightarrow> u8 list" where
  "putchar c out = out @ [ucast c]"

end
