(* ===== verification/Print_Properties.thy ===== *)
theory Print_Properties
  imports C_Print
begin

text \<open>
  What formatted output promises: each formatter hands over a text that does not depend on the
  limit, cut to the limit; a call with limit \<open>n\<close> hands over at most \<open>n\<close> bytes; a number that is
  printed and read back with \<open>strtol\<close> is the number.
\<close>

section \<open>Output cut to a limit\<close>

text \<open>The text \<open>bs\<close>, cut to \<open>n\<close> bytes, has been handed over behind \<open>out\<close>.\<close>

definition printed :: "word_t \<Rightarrow> u8 list \<Rightarrow> u8 list \<Rightarrow> writing \<Rightarrow> bool" where
  "printed n bs out st \<longleftrightarrow> st = (of_nat (min (unat n) (length bs)), out @ take (unat n) bs)"

definition emits :: "(word_t \<Rightarrow> u8 list \<Rightarrow> writing) \<Rightarrow> u8 list \<Rightarrow> bool" where
  "emits f bs \<longleftrightarrow> (\<forall>n out. printed n bs out (f n out))"

lemma emitsI: "(\<And>n out. printed n bs out (f n out)) \<Longrightarrow> emits f bs"
  by (simp add: emits_def)

lemma printed_nil [simp]: "printed n [] out (0, out)"
  by (simp add: printed_def)

lemma unat_min_limit [simp]: "unat (of_nat (min (unat n) k) :: word_t) = min (unat (n :: word_t)) k"
proof -
  have "unat n < 2 ^ 64" using unsigned_less [of n, where ?'a = nat] by simp
  then show ?thesis by (simp add: unat_of_nat take_bit_nat_eq_self)
qed

lemma printed_full: "unat n \<le> length bs \<Longrightarrow> printed n bs out st \<longleftrightarrow> st = (n, out @ take (unat n) bs)"
  by (simp add: printed_def)

lemma printed_partial:
  "length bs < unat n \<Longrightarrow> printed n bs out st \<longleftrightarrow> st = (of_nat (length bs), out @ bs)"
  by (simp add: printed_def)

lemma unat_length_partial [simp]:
  assumes "length bs < unat (n :: word_t)"
  shows "unat (of_nat (length bs) :: word_t) = length bs"
  using unat_min_limit [of n "length bs"] assms by simp

lemma unat_rest: "k < unat (n :: word_t) \<Longrightarrow> unat (of_nat k :: word_t) = k \<Longrightarrow> unat (n - of_nat k) = unat n - k"
proof -
  assume "k < unat (n :: word_t)" and k: "unat (of_nat k :: word_t) = k"
  then have "(of_nat k :: word_t) \<le> n" by (metis less_imp_le word_le_nat_alt)
  from unat_sub [OF this] k show ?thesis by metis
qed

lemma of_nat_add_word: "of_nat k + (w :: word_t) = of_nat (k + unat w)"
  by simp

lemma ucast_min_limit:
  "(ucast (of_nat (min (unat n) k) :: word_t) :: u32) = of_nat (min (unat (n :: word_t)) k)"
  by (metis of_nat_unat unat_min_limit)

lemma printed_WRITE:
  assumes "printed n bs out st" and "unat sz \<le> length data"
  shows "printed n (bs @ take (unat sz) data) out (WRITE n data sz st)"
proof (cases "length bs < unat n")
  case True
  let ?w = "of_nat (length bs) :: word_t"
  have rest: "unat (n - ?w) = unat n - length bs" using True by (simp add: unat_rest)
  have can: "unat (min sz (n - ?w)) = min (unat sz) (unat n - length bs)"
    using rest by (simp add: min_def word_le_nat_alt)
  have "?w < n" using True by (simp add: word_less_nat_alt)
  then have "WRITE n data sz st = (?w + min sz (n - ?w), out @ bs @ take (unat (min sz (n - ?w))) data)"
    using assms True by (simp add: printed_partial WRITE_def Let_def)
  also have "?w + min sz (n - ?w) = of_nat (length bs + min (unat sz) (unat n - length bs))"
    by (simp only: of_nat_add_word can)
  also have "length bs + min (unat sz) (unat n - length bs) = min (unat n) (length (bs @ take (unat sz) data))"
    using True assms(2) by auto
  finally show ?thesis
    using True by (simp add: printed_def can min.commute)
next
  case False
  then show ?thesis using assms by (simp add: printed_full WRITE_def)
qed

lemma printed_add:
  assumes "printed n bs out st" and "emits f cs"
  shows "printed n (bs @ cs) out (add_written f n st)"
proof (cases "length bs < unat n")
  case True
  let ?w = "of_nat (length bs) :: word_t"
  have rest: "unat (n - ?w) = unat n - length bs" using True by (simp add: unat_rest)
  have f: "f (n - ?w) (out @ bs) =
      (of_nat (min (unat n - length bs) (length cs)), (out @ bs) @ take (unat n - length bs) cs)"
    using assms(2) rest by (simp add: emits_def printed_def)
  have "?w + of_nat (min (unat n - length bs) (length cs)) = of_nat (min (unat n) (length (bs @ cs)))"
  proof -
    have "length bs + min (unat n - length bs) (length cs) = min (unat n) (length (bs @ cs))"
      using True by simp
    then show ?thesis by (simp flip: of_nat_add del: of_nat_min)
  qed
  then show ?thesis
    using assms(1) True f by (simp add: printed_partial add_written_def) (simp add: printed_def)
next
  case False
  have "f 0 o' = (0, o')" for o'
    using assms(2) by (simp add: emits_def printed_def)
  then show ?thesis using assms(1) False by (simp add: printed_full add_written_def)
qed

section \<open>What the formatters emit\<close>

definition pad_text :: "format_spec \<Rightarrow> int \<Rightarrow> u8 list" where
  "pad_text spec pad_len = replicate (nat pad_len) (fs_padding_char spec)"

definition sign_text :: "format_spec \<Rightarrow> number \<Rightarrow> u8 list" where
  "sign_text spec number = (if num_negative number then [0x2D] else if fs_print_plus spec then [0x2B]
     else if fs_leave_space spec then [0x20] else [])"

definition prefix_text :: "format_spec \<Rightarrow> u8 list" where
  "prefix_text spec =
     (if fs_alternate_form spec
      then (case fs_base spec of BASE_2 \<Rightarrow> [0x30, 0x62] | BASE_8 \<Rightarrow> [0x30] | BASE_10 \<Rightarrow> []
            | BASE_16_CAPS \<Rightarrow> [0x30, 0x58] | BASE_16 \<Rightarrow> [0x30, 0x78] | BASE_PTR \<Rightarrow> [0x30, 0x78])
      else [])"

lemma pad_loop_printed:
  "printed n bs out st \<Longrightarrow> printed n (bs @ replicate k c) out (pad_loop c k n st)"
proof (induction k arbitrary: bs st)
  case (Suc k)
  have "printed n (bs @ [c]) out (WRITE n [c] 1 st)"
    using printed_WRITE [OF Suc.prems, of 1 "[c]"] by simp
  from Suc.IH [OF this] show ?case by simp
qed simp

lemma emits_pad: "emits (format_pad spec k) (pad_text spec k)"
  using pad_loop_printed [OF printed_nil] by (simp add: emits_def format_pad_def pad_text_def)

lemma emits_WRITE:
  "unat sz = length data \<Longrightarrow> printed n data out (WRITE n data sz (0, out))"
  using printed_WRITE [OF printed_nil, of sz data n] by simp

lemma emits_sign: "emits (format_number_sign spec number) (sign_text spec number)"
  by (simp add: emits_def format_number_sign_def sign_text_def emits_WRITE)

lemma emits_prefix: "emits (format_number_alternate_form spec) (prefix_text spec)"
  by (simp add: emits_def format_number_alternate_form_def prefix_text_def emits_WRITE split: num_base.split)

lemma printed_sign_prefix:
  "printed n bs out st \<Longrightarrow>
     printed n (bs @ sign_text spec number @ prefix_text spec) out (write_sign_and_prefix spec number n st)"
  using printed_add [OF printed_add [OF _ emits_sign] emits_prefix] by (simp add: write_sign_and_prefix_def)

section \<open>Digits\<close>

fun digits_of :: "u8 list \<Rightarrow> nat \<Rightarrow> nat \<Rightarrow> u8 list" where
  "digits_of cs b v = (if v = 0 \<or> b < 2 then [] else digits_of cs b (v div b) @ [cs ! (v mod b)])"

declare digits_of.simps [simp del]

lemma digits_of_zero [simp]: "digits_of cs b 0 = []"
  by (simp add: digits_of.simps)

lemma digits_of_step: "0 < v \<Longrightarrow> 2 \<le> b \<Longrightarrow> digits_of cs b v = digits_of cs b (v div b) @ [cs ! (v mod b)]"
  by (subst digits_of.simps) simp

lemma digits_of_nonempty: "0 < v \<Longrightarrow> 2 \<le> b \<Longrightarrow> digits_of cs b v \<noteq> []"
  by (simp add: digits_of_step)

lemma set_digits_of: "b \<le> length cs \<Longrightarrow> set (digits_of cs b v) \<subseteq> set cs"
proof (induction cs b v rule: digits_of.induct)
  case (1 cs b v)
  show ?case
  proof (cases "v = 0 \<or> b < 2")
    case True
    then show ?thesis by (subst digits_of.simps) simp
  next
    case False
    then have "v mod b < length cs" using 1(2) by (meson less_le_trans mod_less_divisor not_less zero_less_numeral order.strict_trans1 leI)
    then show ?thesis using 1 False by (simp add: digits_of_step)
  qed
qed

lemma length_digits_of: "2 \<le> b \<Longrightarrow> v < b ^ k \<Longrightarrow> length (digits_of cs b v) \<le> k"
proof (induction k arbitrary: v)
  case (Suc k)
  then show ?case
    by (cases "v = 0") (auto simp: digits_of_step less_mult_imp_div_less mult.commute)
qed simp

lemma layout_digits_text:
  assumes "2 \<le> unat d" and "unat acc < unat d ^ k" and "length pre = k"
  shows "layout_digits cs d k acc (pre @ suf) = digits_of cs (unat d) (unat acc) @ suf"
  using assms(2,3)
proof (induction k arbitrary: acc pre suf)
  case 0
  then show ?case by simp
next
  case (Suc k)
  show ?case
  proof (cases "acc = 0")
    case True
    then show ?thesis using Suc.prems by simp
  next
    case False
    obtain pre' x where pre: "pre = pre' @ [x]" "length pre' = k"
      using Suc.prems(2) by (cases pre rule: rev_cases) auto
    have less: "unat (acc div d) < unat d ^ k"
      using Suc.prems(1) by (simp add: unat_div less_mult_imp_div_less mult.commute)
    have pos: "0 < unat acc" using False by (simp add: unat_gt_0)
    show ?thesis
      using Suc.IH [OF less pre(2)] False pre assms(1) pos
      by (simp add: list_update_append digits_of_step word_gt_0 unat_div unat_mod)
  qed
qed

text \<open>The digits of a number in the base of a specification.\<close>

definition layout_text :: "format_spec \<Rightarrow> number \<Rightarrow> u8 list" where
  "layout_text spec number =
     (if num_value number = 0 then (if fs_base spec = BASE_PTR then nullptr_text else [0x30])
      else digits_of (base_charset (fs_base spec)) (unat (base_divisor (fs_base spec))) (unat (num_value number)))"

lemma base_divisor_range: "2 \<le> unat (base_divisor b)" "unat (base_divisor b) \<le> length (base_charset b)"
  by (simp_all add: base_divisor_def base_charset_def lower_hex_charset_def upper_hex_charset_def split: num_base.split)

lemma charset_nonzero: "0 \<notin> set (base_charset b)"
  by (simp add: base_charset_def lower_hex_charset_def upper_hex_charset_def split: num_base.split)

lemma layout_text_nonzero: "0 \<notin> set (layout_text spec number)"
  using set_digits_of [OF base_divisor_range(2)] charset_nonzero
  by (auto simp: layout_text_def nullptr_text_def)

lemma value_below_power: "unat (num_value number) < unat (base_divisor b) ^ 64"
proof -
  have "unat (num_value number) < 2 ^ 64" using unsigned_less [of "num_value number", where ?'a = nat] by simp
  also have "(2 :: nat) ^ 64 \<le> unat (base_divisor b) ^ 64" by (rule power_mono) (simp_all add: base_divisor_range)
  finally show ?thesis .
qed

lemma layout_text_length: "length (layout_text spec number) \<le> 64"
proof (cases "num_value number = 0")
  case True
  then show ?thesis by (simp add: layout_text_def nullptr_text_def)
next
  case False
  show ?thesis
    unfolding layout_text_def if_not_P [OF False]
    by (rule length_digits_of [OF base_divisor_range(1) value_below_power])
qed

lemma nullptr_copied:
  "strcpy (replicate NUM_BUF_SIZE 0) (c_string nullptr_text []) = Inr (c_string nullptr_text (replicate 55 0))"
  by (subst strcpy_string) (simp_all add: nullptr_text_def)

lemma format_layout_int_text:
  "\<exists>rest. format_layout_int spec number (replicate NUM_BUF_SIZE 0) = Inr (c_string (layout_text spec number) rest)"
proof (cases "num_value number = 0")
  case True
  have "(replicate NUM_BUF_SIZE 0)[0 := 0x30] = c_string [0x30 :: u8] (replicate 63 0)"
    by (simp add: c_string_def flip: replicate_Suc) (simp add: numeral_eq_Suc)
  then show ?thesis
    using True by (auto simp: format_layout_int_def layout_text_def nullptr_copied)
next
  case False
  have split: "replicate NUM_BUF_SIZE 0 = replicate 64 0 @ [0 :: u8]"
    using replicate_add [of 64 1 "0 :: u8"] by simp
  show ?thesis
    using False layout_digits_text [OF base_divisor_range(1) value_below_power, of "replicate 64 0"]
    by (intro exI [of _ "[]"]) (simp add: format_layout_int_def layout_text_def c_string_def split)
qed

section \<open>The text of a number\<close>

definition number_text :: "format_spec \<Rightarrow> number \<Rightarrow> u8 list" where
  "number_text spec number =
     (let digits = layout_text spec number;
          pad = pad_text spec (number_pad_len spec number (of_nat (length digits)));
          lead = (if null_pointer spec number then [] else sign_text spec number @ prefix_text spec)
      in if fs_padding_width spec = 0 then lead @ digits
         else if fs_left_justify spec then lead @ digits @ pad
         else if fs_padding_char spec = 0x30 then lead @ pad @ digits
         else pad @ lead @ digits)"

lemma number_text_printed:
  assumes "strlen D = Inr len" and "len = of_nat (length (layout_text spec number))"
    and "take (length (layout_text spec number)) D = layout_text spec number"
    and "length (layout_text spec number) \<le> length D"
    and "format_layout_int spec number (replicate NUM_BUF_SIZE 0) = Inr D"
  shows "\<exists>st. format_number spec number n out = Inr st \<and> printed n (number_text spec number) out st"
proof -
  have len: "unat len = length (layout_text spec number)"
    using layout_text_length [of spec number] assms(2) by (simp add: unat_of_nat)
  have W: "printed n (bs @ layout_text spec number) out (WRITE n D len st)" if "printed n bs out st" for bs st
    using printed_WRITE [OF that, of len D] assms len by simp
  have P: "printed n (bs @ pad_text spec k) out (add_written (format_pad spec k) n st)"
    if "printed n bs out st" for bs st k
    using that emits_pad by (rule printed_add)
  have L: "printed n (sign_text spec number @ prefix_text spec) out (write_sign_and_prefix spec number n (0, out))"
    using printed_sign_prefix [OF printed_nil] by simp
  have LP: "printed n (pad_text spec k @ sign_text spec number @ prefix_text spec) out
      (write_sign_and_prefix spec number n (add_written (format_pad spec k) n (0, out)))" for k
    using printed_sign_prefix [OF P [OF printed_nil]] by simp
  show ?thesis
    using W [OF printed_nil] W [OF L] W [OF P [OF L]] W [OF P [OF printed_nil]] W [OF LP]
      P [OF W [OF printed_nil]] P [OF W [OF L]]
    by (simp add: format_number_def number_text_def assms(1,5) Let_def flip: assms(2))
qed

text \<open>
  The formatter of numbers against its reference: whatever the limit, it hands over the text of the
  number, cut to the limit, and does not fault.
\<close>

lemma format_number_text:
  "\<exists>st. format_number spec number n out = Inr st \<and> printed n (number_text spec number) out st"
proof -
  obtain rest where D: "format_layout_int spec number (replicate NUM_BUF_SIZE 0) = Inr (c_string (layout_text spec number) rest)"
    using format_layout_int_text by blast
  show ?thesis
    by (rule number_text_printed [OF strlen_string [OF layout_text_nonzero] refl _ _ D])
      (simp_all add: c_string_def)
qed

section \<open>Reading a number\<close>

text \<open>A byte that \<open>strtol\<close> takes as a digit in a base, and the value of a list of them.\<close>

definition is_digit_of :: "int \<Rightarrow> u8 \<Rightarrow> bool" where
  "is_digit_of base c \<longleftrightarrow> (\<exists>d. digit_value (sint c) = Some d \<and> d < base)"

definition value_from :: "int \<Rightarrow> int \<Rightarrow> u8 list \<Rightarrow> int" where
  "value_from base r xs = foldl (\<lambda>r c. r * base + the (digit_value (sint c))) r xs"

lemma value_from_simps [simp]:
  "value_from base r [] = r"
  "value_from base r (c # xs) = value_from base (r * base + the (digit_value (sint c))) xs"
  "value_from base r (xs @ [c]) = value_from base r xs * base + the (digit_value (sint c))"
  by (simp_all add: value_from_def)

lemma digit_value_nonneg: "digit_value c = Some d \<Longrightarrow> 0 \<le> d"
  by (auto simp: digit_value_def split: if_splits)

lemma value_from_grows:
  assumes "1 \<le> base" and "\<forall>c\<in>set xs. is_digit_of base c" and "0 \<le> r"
  shows "r \<le> value_from base r xs"
  using assms(2,3)
proof (induction xs arbitrary: r)
  case (Cons c xs)
  then obtain d where d: "digit_value (sint c) = Some d" by (auto simp: is_digit_of_def)
  have "r * 1 \<le> r * base" using Cons.prems(2) assms(1) by (intro mult_left_mono) simp_all
  then have r: "r \<le> r * base + d" using digit_value_nonneg [OF d] by simp
  have "r * base + d \<le> value_from base (r * base + d) xs"
    using Cons.prems r by (intro Cons.IH) simp_all
  then show ?case using r d by simp
qed simp

lemma strtol_digits_value:
  assumes "1 \<le> base" and "\<forall>c\<in>set xs. is_digit_of base c" and "0 \<le> r"
    and "value_from base r xs \<le> LONG_MAX" and "digit_value (sint stop) = None"
  shows "strtol_digits base r (xs @ stop # rest) = Inr (value_from base r xs, stop # rest)"
  using assms(2-4)
proof (induction xs arbitrary: r)
  case Nil
  then show ?case using assms(5) by simp
next
  case (Cons c xs)
  then obtain d where d: "digit_value (sint c) = Some d" "d < base" by (auto simp: is_digit_of_def)
  have pos: "0 \<le> r * base + d" using Cons.prems(2) assms(1) digit_value_nonneg [OF d(1)] by simp
  have "r * base + d \<le> LONG_MAX"
    using value_from_grows [OF assms(1) _ pos, of xs] Cons.prems d by auto
  moreover have "strtol_digits base (r * base + d) (xs @ stop # rest) = Inr (value_from base (r * base + d) xs, stop # rest)"
    using Cons.prems d pos by (intro Cons.IH) simp_all
  ultimately show ?case using d by simp
qed

lemma or_32_cases:
  assumes "(i :: int) OR 32 = 0x78"
  shows "i = 0x58 \<or> i = 0x78"
proof (cases "bit i 5")
  case True
  then have "set_bit 5 i = i" by (intro bit_eqI) (auto simp: bit_simps)
  then show ?thesis using assms by (simp add: set_bit_eq_or)
next
  case False
  then have "unset_bit 5 (set_bit 5 i) = i" by (intro bit_eqI) (auto simp: bit_simps)
  moreover have "set_bit 5 i = i OR 32" by (simp add: set_bit_eq_or)
  ultimately show ?thesis using assms by (simp add: unset_bit_eq_and_not)
qed

lemma not_hex_prefix:
  assumes "is_digit_of base c" and "base \<le> 33" and "is_digit_of base x \<or> digit_value (sint x) = None"
  shows "hex_prefix (c # x # s) = Inr False"
proof -
  have "sint x OR 32 \<noteq> 0x78"
    using or_32_cases [of "sint x"] assms(2,3) by (auto simp: is_digit_of_def digit_value_def)
  then show ?thesis by simp
qed

lemma skip_space_spaces:
  "\<forall>c\<in>set sp. isspace (sint c) \<Longrightarrow> \<not> isspace (sint c) \<Longrightarrow> skip_space (sp @ c # s) = Inr (c # s)"
  by (induction sp) auto

definition number_base :: "num_base \<Rightarrow> int" where
  "number_base b = (case b of BASE_10 \<Rightarrow> 10 | BASE_16_CAPS \<Rightarrow> 16 | BASE_PTR \<Rightarrow> 16 | BASE_16 \<Rightarrow> 16
     | BASE_8 \<Rightarrow> 8 | BASE_2 \<Rightarrow> 2)"

text \<open>
  The shape that \<open>strtol\<close> reads: blanks, a sign, for base 16 possibly a prefix, digits, and a byte
  that is not a letter or a digit.
\<close>

lemma strtol_reads:
  assumes sp: "\<forall>c\<in>set sp. isspace (sint c)"
    and sg: "sg = [] \<or> sg = [0x2B] \<or> sg = [0x2D :: u8]"
    and pf: "pf = [] \<or> base = 16 \<and> pf \<in> {[0x30, 0x58], [0x30, 0x78 :: u8]}"
    and ds: "\<forall>c\<in>set ds. is_digit_of base c" "ds \<noteq> []"
    and base: "base \<in> {2, 8, 10, 16}" and stop: "digit_value (sint stop) = None"
    and val: "value_from base 0 ds \<le> LONG_MAX"
  shows "strtol (sp @ sg @ pf @ ds @ stop # rest) base =
    Inr (value_from base 0 ds * (if sg = [0x2D] then - 1 else 1), stop # rest)"
proof -
  obtain d ds' where dd: "ds = d # ds'" using ds(2) by (cases ds) auto
  obtain y t where y: "ds' @ stop # rest = y # t" "is_digit_of base y \<or> digit_value (sint y) = None"
    using ds dd stop by (cases ds') auto
  have digit: "is_digit_of base d" using ds dd by simp
  obtain c s where c: "pf @ ds @ stop # rest = c # s" "is_digit_of base c"
  proof (cases "pf = []")
    case True
    then show thesis using that [of d "ds' @ stop # rest"] dd digit by simp
  next
    case False
    then have "is_digit_of base 0x30" using pf by (auto simp: is_digit_of_def digit_value_def)
    then show thesis using False pf that by auto
  qed
  have first: "\<not> isspace (sint c)" "sint c \<noteq> 0x2D" "sint c \<noteq> 0x2B"
    using c(2) by (auto simp: is_digit_of_def digit_value_def isspace_def split: if_splits)
  have skip: "skip_space (sp @ sg @ c # s) = Inr (sg @ c # s)"
    using sg skip_space_spaces [OF sp, of c s] skip_space_spaces [OF sp] first
    by (auto simp: isspace_def)
  have sign: "strtol_sign (sg @ c # s) = Inr (if sg = [0x2D] then - 1 else 1, c # s)"
    using sg first by auto
  have prefix: "strtol_base base (c # s) = Inr (base, ds @ stop # rest)"
  proof (cases "pf = []")
    case True
    then have "c # s = d # y # t" using c dd y by simp
    moreover have "hex_prefix (d # y # t) = Inr False" using not_hex_prefix [OF digit _ y(2)] base by auto
    moreover have "d # y # t = ds @ stop # rest" using dd y by simp
    ultimately show ?thesis using base by (auto simp: strtol_base_def simp del: hex_prefix.simps)
  next
    case False
    then show ?thesis using pf c(1) [symmetric] by (auto simp: strtol_base_def)
  qed
  have "strtol_digits base 0 (ds @ stop # rest) = Inr (value_from base 0 ds, stop # rest)"
    using strtol_digits_value [of base ds 0 stop rest] base ds(1) val stop by auto
  then show ?thesis using skip sign prefix by (simp add: strtol_def c(1))
qed

section \<open>Printing and reading back\<close>

lemma charset_digit_values:
  "map (\<lambda>c. digit_value (sint c)) lower_hex_charset = map (Some \<circ> int) [0..<16]"
  "map (\<lambda>c. digit_value (sint c)) upper_hex_charset = map (Some \<circ> int) [0..<16]"
  by (simp_all add: lower_hex_charset_def upper_hex_charset_def digit_value_def upt_rec)

lemma charset_digit: "d < 16 \<Longrightarrow> digit_value (sint (base_charset b ! d)) = Some (int d)"
proof -
  assume d: "d < 16"
  have len: "length lower_hex_charset = 16" "length upper_hex_charset = 16"
    by (simp_all add: lower_hex_charset_def upper_hex_charset_def)
  have "digit_value (sint (lower_hex_charset ! d)) = Some (int d)"
    "digit_value (sint (upper_hex_charset ! d)) = Some (int d)"
    using arg_cong [OF charset_digit_values(1), of "\<lambda>xs. xs ! d"]
      arg_cong [OF charset_digit_values(2), of "\<lambda>xs. xs ! d"] d
    by (simp_all add: len)
  then show ?thesis by (simp add: base_charset_def split: num_base.split)
qed

lemma digits_of_read:
  assumes "2 \<le> b" and "b \<le> 16"
  shows "(\<forall>c\<in>set (digits_of (base_charset nb) b v). is_digit_of (int b) c)
    \<and> value_from (int b) 0 (digits_of (base_charset nb) b v) = int v"
proof (induction v rule: less_induct)
  case (less v)
  show ?case
  proof (cases "v = 0")
    case True
    then show ?thesis by simp
  next
    case False
    then have step: "digits_of (base_charset nb) b v = digits_of (base_charset nb) b (v div b) @ [base_charset nb ! (v mod b)]"
      using assms by (simp add: digits_of_step)
    have "v mod b < b" using assms by simp
    then have digit: "digit_value (sint (base_charset nb ! (v mod b))) = Some (int (v mod b))"
      using assms \<open>v mod b < b\<close> by (intro charset_digit) linarith
    have "v div b < v" using False assms by simp
    from less.IH [OF this] have IH: "\<forall>c\<in>set (digits_of (base_charset nb) b (v div b)). is_digit_of (int b) c"
      "value_from (int b) 0 (digits_of (base_charset nb) b (v div b)) = int (v div b)" by simp_all
    have "int (v div b) * int b + int (v mod b) = int v"
      by (simp flip: of_nat_mult of_nat_add)
    then show ?thesis
      using IH digit \<open>v mod b < b\<close> by (auto simp: step is_digit_of_def)
  qed
qed

lemma number_base_divisor: "number_base b = int (unat (base_divisor b))"
  by (simp add: number_base_def base_divisor_def split: num_base.split)

lemma value_from_zeros:
  "value_from base 0 (replicate k 0x30 @ xs) = value_from base 0 xs"
  by (induction k) (simp_all add: digit_value_def)

lemma zero_is_digit: "1 \<le> base \<Longrightarrow> is_digit_of base 0x30"
  by (simp add: is_digit_of_def digit_value_def)

lemma layout_text_read:
  assumes "fs_base spec \<noteq> BASE_PTR"
  shows "(\<forall>c\<in>set (layout_text spec number). is_digit_of (number_base (fs_base spec)) c)
    \<and> value_from (number_base (fs_base spec)) 0 (layout_text spec number) = int (unat (num_value number))
    \<and> layout_text spec number \<noteq> []"
proof (cases "num_value number = 0")
  case True
  then show ?thesis
    using assms zero_is_digit [of "number_base (fs_base spec)"]
    by (simp add: layout_text_def number_base_def digit_value_def split: num_base.split)
next
  case False
  have "unat (base_divisor b) \<le> 16" for b by (simp add: base_divisor_def split: num_base.split)
  then show ?thesis
    using False digits_of_read [OF base_divisor_range(1)] digits_of_nonempty [OF _ base_divisor_range(1)]
    by (simp add: layout_text_def number_base_divisor unat_gt_0)
qed

definition readable_spec :: "format_spec \<Rightarrow> bool" where
  "readable_spec spec \<longleftrightarrow> fs_base spec \<noteq> BASE_PTR \<and> (fs_alternate_form spec \<longrightarrow> fs_base spec \<noteq> BASE_2)
     \<and> \<not> (fs_left_justify spec \<and> fs_padding_width spec \<noteq> 0)
     \<and> (fs_padding_char spec = 0x20 \<or> fs_padding_char spec = 0x30)"

lemma number_text_shape:
  assumes "readable_spec spec"
  shows "\<exists>k z. number_text spec number =
      replicate k 0x20 @ sign_text spec number @ prefix_text spec @ replicate z 0x30 @ layout_text spec number"
    (is "\<exists>k z. ?shape k z")
proof -
  have null: "\<not> null_pointer spec number" using assms by (simp add: readable_spec_def null_pointer_def)
  let ?p = "nat (number_pad_len spec number (of_nat (length (layout_text spec number))))"
  consider (none) "fs_padding_width spec = 0"
    | (zeros) "fs_padding_width spec \<noteq> 0" "\<not> fs_left_justify spec" "fs_padding_char spec = 0x30"
    | (blanks) "fs_padding_width spec \<noteq> 0" "\<not> fs_left_justify spec" "fs_padding_char spec = 0x20"
    using assms by (auto simp: readable_spec_def)
  then show ?thesis
  proof cases
    case none
    then have "?shape 0 0" by (simp add: number_text_def null Let_def)
    then show ?thesis by blast
  next
    case zeros
    then have "?shape 0 ?p" by (simp add: number_text_def null pad_text_def Let_def)
    then show ?thesis by blast
  next
    case blanks
    then have "?shape ?p 0" by (simp add: number_text_def null pad_text_def Let_def)
    then show ?thesis by blast
  qed
qed

text \<open>
  The value that \<open>strtol\<close> returns for the text of a number, in front of a byte that ends it.
\<close>

lemma number_text_read:
  assumes spec: "readable_spec spec" and fits: "unat (num_value number) < 2 ^ 63"
    and stop: "digit_value (sint stop) = None"
  shows "strtol (number_text spec number @ stop # rest) (number_base (fs_base spec)) =
    Inr ((if num_negative number then - 1 else 1) * int (unat (num_value number)), stop # rest)"
proof -
  let ?base = "number_base (fs_base spec)"
  let ?digits = "layout_text spec number"
  obtain k z where shape: "number_text spec number =
      replicate k 0x20 @ sign_text spec number @ prefix_text spec @ replicate z 0x30 @ ?digits"
    using number_text_shape [OF spec] by blast
  define sp where "sp = replicate k 0x20 @ (if sign_text spec number = [0x20] then [0x20 :: u8] else [])"
  define sg where "sg = (if sign_text spec number = [0x20] then [] else sign_text spec number)"
  define pf where "pf = (if fs_base spec = BASE_8 then [] else prefix_text spec)"
  define y where "y = (if fs_base spec = BASE_8 \<and> fs_alternate_form spec then Suc z else z)"
  have fits_int: "uint (num_value number) \<le> LONG_MAX" 
  proof -
    have "int (unat (num_value number)) < int (2 ^ 63)" using fits by (simp only: of_nat_less_iff)
    then show ?thesis by simp
  qed
  have prefix: "prefix_text spec @ replicate z 0x30 = pf @ replicate y 0x30"
    using spec by (auto simp: pf_def y_def prefix_text_def split: num_base.split)
  have "number_text spec number = sp @ sg @ pf @ replicate y 0x30 @ ?digits"
    unfolding shape using prefix by (simp add: sp_def sg_def)
  moreover have "value_from ?base 0 (replicate y 0x30 @ ?digits) = int (unat (num_value number))"
    using layout_text_read [of spec number] spec by (simp add: value_from_zeros readable_spec_def)
  moreover have "strtol (sp @ sg @ pf @ (replicate y 0x30 @ ?digits) @ stop # rest) ?base =
      Inr (value_from ?base 0 (replicate y 0x30 @ ?digits) * (if sg = [0x2D] then - 1 else 1), stop # rest)"
  proof (rule strtol_reads)
    show "\<forall>c\<in>set sp. isspace (sint c)" by (auto simp: sp_def isspace_def)
    show "sg = [] \<or> sg = [0x2B] \<or> sg = [0x2D]" by (auto simp: sg_def sign_text_def)
    show "pf = [] \<or> ?base = 16 \<and> pf \<in> {[0x30, 0x58], [0x30, 0x78]}"
      using spec by (auto simp: pf_def prefix_text_def readable_spec_def number_base_def split: num_base.split)
    show "?base \<in> {2, 8, 10, 16}" by (simp add: number_base_def split: num_base.split)
    then show "\<forall>c\<in>set (replicate y 0x30 @ ?digits). is_digit_of ?base c"
      using layout_text_read [of spec number] spec zero_is_digit [of ?base] by (auto simp: readable_spec_def)
    show "replicate y 0x30 @ ?digits \<noteq> []"
      using layout_text_read [of spec number] spec by (simp add: readable_spec_def)
    show "value_from ?base 0 (replicate y 0x30 @ ?digits) \<le> LONG_MAX"
      using layout_text_read [of spec number] spec fits_int by (simp add: value_from_zeros readable_spec_def)
  qed (rule stop)
  moreover have "sg = [0x2D] \<longleftrightarrow> num_negative number" by (simp add: sg_def sign_text_def)
  ultimately show ?thesis by simp
qed

lemma signed_number_value:
  assumes "signed_number v = Inr number" and "v \<le> LONG_MAX"
  shows "(if num_negative number then - 1 else 1) * int (unat (num_value number)) = v"
    "unat (num_value number) < 2 ^ 63"
proof -
  have small: "uint (word_of_int k :: word_t) = k" if "0 \<le> k" "k \<le> LONG_MAX" for k
    using that by (simp add: uint_word_of_int)
  show "(if num_negative number then - 1 else 1) * int (unat (num_value number)) = v"
    using assms small [of v] small [of "- v"] by (auto simp: signed_number_def split: if_splits)
  have "uint (num_value number) < 2 ^ 63"
    using assms small [of v] small [of "- v"] by (auto simp: signed_number_def split: if_splits)
  then show "unat (num_value number) < 2 ^ 63"
    by (metis of_nat_less_iff of_nat_numeral of_nat_power uint_nat)
qed

lemma printed_complete: "printed n bs out (w, t) \<Longrightarrow> w < n \<Longrightarrow> t = out @ bs"
  by (cases "unat n \<le> length bs") (auto simp: printed_full printed_def)



section \<open>A call cut to its limit\<close>

text \<open>
  Runs of one call with all limits side by side: \<open>S n\<close> is the state of the run with limit \<open>n\<close>. The
  states agree when there is one text that each of them has handed over up to its limit.
\<close>

definition agree :: "u8 list \<Rightarrow> (word_t \<Rightarrow> printf_state) \<Rightarrow> bool" where
  "agree out S \<longleftrightarrow> (\<exists>bs args msgs. \<forall>n. printed n bs out (p_writing (S n)) \<and> p_args (S n) = args
     \<and> p_messages (S n) = msgs)"

definition uniform :: "u8 list \<Rightarrow> (word_t \<Rightarrow> fault + printf_state) \<Rightarrow> bool" where
  "uniform out R \<longleftrightarrow> (\<exists>e. \<forall>n. R n = Inl e) \<or> (\<exists>S. (\<forall>n. R n = Inr (S n)) \<and> agree out S)"

definition uniform_text :: "(word_t \<Rightarrow> u8 list \<Rightarrow> fault + writing) \<Rightarrow> bool" where
  "uniform_text F \<longleftrightarrow> (\<exists>e. \<forall>n out. F n out = Inl e)
     \<or> (\<exists>bs. \<forall>n out. \<exists>st. F n out = Inr st \<and> printed n bs out st)"

lemma uniform_Inl [intro]: "uniform out (\<lambda>n. Inl e)"
  by (auto simp: uniform_def)

lemma uniform_Inr [intro]: "agree out S \<Longrightarrow> uniform out (\<lambda>n. Inr (S n))"
  by (auto simp: uniform_def)

lemma agree_put:
  assumes "agree out S" and "unat sz \<le> length data"
  shows "agree out (\<lambda>n. put n data sz (S n))"
proof -
  obtain bs args msgs where agr: "\<And>n. printed n bs out (p_writing (S n))"
    "\<And>n. p_args (S n) = args" "\<And>n. p_messages (S n) = msgs"
    using assms(1) unfolding agree_def by blast
  show ?thesis
    using printed_WRITE [OF agr(1) assms(2)] agr(2,3) unfolding agree_def put_def
    by (intro exI [of _ "bs @ take (unat sz) data"] exI [of _ args] exI [of _ msgs]) simp
qed

lemma agree_args: "agree out S \<Longrightarrow> agree out (\<lambda>n. S n\<lparr>p_args := args\<rparr>)"
  unfolding agree_def by fastforce

lemma agree_stores: "agree out S \<Longrightarrow> agree out (\<lambda>n. S n\<lparr>p_args := args, p_stores := f n\<rparr>)"
  unfolding agree_def by fastforce

lemma agree_messages: "agree out S \<Longrightarrow> agree out (\<lambda>n. S n\<lparr>p_messages := p_messages (S n) @ m\<rparr>)"
  unfolding agree_def by fastforce

lemma add_result_uniform:
  assumes F: "uniform_text F" and S: "agree out S"
  shows "uniform out (\<lambda>n. add_result F n (S n))"
proof -
  obtain bs args msgs where agr: "\<And>n. printed n bs out (p_writing (S n))"
    "\<And>n. p_args (S n) = args" "\<And>n. p_messages (S n) = msgs"
    using S unfolding agree_def by blast
  show ?thesis
  proof (cases "\<exists>e. \<forall>n out. F n out = Inl e")
    case True
    then obtain e where "add_result F n (S n) = Inl e" for n
      unfolding add_result_def by (auto split: prod.splits)
    then show ?thesis by auto
  next
    case False
    then obtain cs where cs: "\<And>n out. \<exists>st. F n out = Inr st \<and> printed n cs out st"
      using F unfolding uniform_text_def by blast
    define f where "f n o' = projr (F n o')" for n o'
    have f: "F n o' = Inr (f n o')" "printed n cs o' (f n o')" for n o'
      using cs [of n o'] by (auto simp: f_def)
    then have em: "emits f cs" by (simp add: emits_def)
    have eq: "add_result F n (S n) = Inr (S n\<lparr>p_writing := add_written f n (p_writing (S n))\<rparr>)" for n
      by (simp add: add_result_def add_written_def f(1) split: prod.splits)
    have "printed n (bs @ cs) out (add_written f n (p_writing (S n)))" for n
      using agr(1) em by (rule printed_add)
    then have "agree out (\<lambda>n. S n\<lparr>p_writing := add_written f n (p_writing (S n))\<rparr>)"
      using agr(2,3) unfolding agree_def
      by (intro exI [of _ "bs @ cs"] exI [of _ args] exI [of _ msgs]) simp
    then show ?thesis unfolding eq by (rule uniform_Inr)
  qed
qed

lemma format_number_uniform: "uniform_text (format_number spec number)"
  using format_number_text unfolding uniform_text_def by blast

lemma strlen_from_bound:
  "strlen_from m s = Inr len \<Longrightarrow> \<exists>k\<le>length s. len = m + of_nat k"
proof (induction m s rule: strlen_from.induct)
  case (2 m c s)
  show ?case
  proof (cases "c = 0")
    case True
    then show ?thesis using 2(2) by (intro exI [of _ 0]) simp
  next
    case False
    then obtain k where "k \<le> length s" "len = m + 1 + of_nat k" using 2 by auto
    then show ?thesis by (intro exI [of _ "Suc k"]) simp
  qed
qed simp

lemma strlen_bound:
  assumes "strlen s = Inr len"
  shows "unat len \<le> length s"
proof -
  obtain k where "k \<le> length s" "len = of_nat k"
    using strlen_from_bound [OF assms [unfolded strlen_def]] by auto
  moreover have "unat (of_nat k :: word_t) \<le> k" by (simp add: unat_of_nat take_bit_nat_less_eq_self)
  ultimately show ?thesis by simp
qed

lemma format_string_uniform: "uniform_text (format_string spec s)"
proof -
  define str where "str = (case s of None \<Rightarrow> c_string null_text [] | Some x \<Rightarrow> x)"
  show ?thesis
  proof (cases "strlen str")
    case (Inl e)
    then show ?thesis by (auto simp: uniform_text_def format_string_def str_def)
  next
    case (Inr len0)
    define len where "len = (if sint (fs_precision spec) \<ge> 0 then min len0 (scast (fs_precision spec)) else len0)"
    define pad where "pad = pad_text spec (if sint (fs_padding_width spec) > sint (ucast len :: u32)
        then sint (fs_padding_width spec) - sint (ucast len :: u32) else 0)"
    have "unat len \<le> unat len0" by (simp add: len_def min_def word_le_nat_alt)
    then have W: "printed n (bs @ take (unat len) str) out (WRITE n str len st)" if "printed n bs out st" for n bs out st
      using that strlen_bound [OF Inr] by (intro printed_WRITE) auto
    have P: "printed n (bs @ pad_text spec k) out (add_written (format_pad spec k) n st)"
      if "printed n bs out st" for n bs out st k
      using that emits_pad by (rule printed_add)
    let ?text = "if fs_padding_width spec \<noteq> 0 \<and> \<not> fs_left_justify spec then pad @ take (unat len) str
      else if fs_padding_width spec \<noteq> 0 then take (unat len) str @ pad else take (unat len) str"
    have "\<exists>st. format_string spec s n out = Inr st \<and> printed n ?text out st" for n out
      using W [OF printed_nil] W [OF P [OF printed_nil]] P [OF W [OF printed_nil]] Inr
      by (simp add: format_string_def Let_def flip: str_def len_def) (simp add: pad_def)
    then show ?thesis unfolding uniform_text_def by blast
  qed
qed

lemma print_number_uniform:
  assumes "agree out S"
  shows "uniform out (\<lambda>n. print_number n spec is_signed (S n))"
proof -
  obtain args where args: "\<And>n. p_args (S n) = args" using assms unfolding agree_def by blast
  show ?thesis
  proof (cases "get_number spec is_signed args")
    case (Inl e)
    then show ?thesis by (simp add: print_number_def args uniform_Inl)
  next
    case (Inr p)
    then show ?thesis
      using add_result_uniform [OF format_number_uniform agree_args [OF assms]]
      by (cases p) (simp add: print_number_def args)
  qed
qed

lemma conversion_uniform:
  assumes "agree out S"
  shows "uniform out (\<lambda>n. conversion n spec c ch (S n))"
proof -
  obtain args where args: "\<And>n. p_args (S n) = args" using assms unfolding agree_def by blast
  note number = print_number_uniform [OF assms]
  consider (percent) "c = 0 \<or> c = 0x25" | (store) "c = 0x6E" | (char) "c = 0x63" | (str) "c = 0x73"
    | (number) "c \<in> {0x64, 0x69, 0x75, 0x78, 0x58, 0x6F, 0x62, 0x70}"
    | (other) "c \<notin> {0, 0x25, 0x6E, 0x63, 0x73, 0x64, 0x69, 0x75, 0x78, 0x58, 0x6F, 0x62, 0x70}"
    by blast
  then show ?thesis
  proof cases
    case percent
    then show ?thesis
      using agree_put [OF assms, of 1 "[0x25]"] unfolding conversion_def if_P [OF percent] by auto
  next
    case store
    then show ?thesis
      by (cases args; cases "hd args")
        (auto simp: conversion_def args uniform_Inl intro!: uniform_Inr agree_stores [OF assms])
  next
    case char
    then show ?thesis
      using uniform_Inr [OF agree_put [OF agree_args [OF assms], of 1 "[_]"]]
      by (auto simp: conversion_def args va_int_def uniform_Inl split: list.split va_value.split)
  next
    case str
    then show ?thesis
      by (cases args; cases "hd args")
        (auto simp: conversion_def args uniform_Inl intro!: add_result_uniform format_string_uniform agree_args [OF assms])
  next
    case number
    then show ?thesis using print_number_uniform [OF assms] by (elim insertE emptyE) (simp_all add: conversion_def)
  next
    case other
    then show ?thesis
      using uniform_Inr [OF agree_messages [OF assms]] by (simp add: conversion_def)
  qed
qed

definition uniform_rest :: "u8 list \<Rightarrow> (word_t \<Rightarrow> fault + (printf_state \<times> u8 list)) \<Rightarrow> bool" where
  "uniform_rest out R \<longleftrightarrow> (\<exists>e. \<forall>n. R n = Inl e) \<or> (\<exists>S fmt. (\<forall>n. R n = Inr (S n, fmt)) \<and> agree out S)"

lemma consume_uniform:
  assumes "agree out S"
  shows "uniform_rest out (\<lambda>n. consume_next n spec fmt (S n))"
  using assms
proof (induction fmt arbitrary: spec S)
  case Nil
  then show ?case by (simp add: uniform_rest_def)
next
  case (Cons ch fmt)
  obtain args where args: "\<And>n. p_args (S n) = args" using Cons.prems unfolding agree_def by blast
  show ?case
  proof (cases "modifier (sint ch) spec")
    case (Some spec')
    then show ?thesis using Cons by simp
  next
    case None
    note no_modifier = None
    show ?thesis
    proof (cases "sint ch = 0x2A")
      case True
      then show ?thesis
        using None Cons.IH [OF agree_args [OF Cons.prems]]
        by (cases "va_int args") (auto simp: args uniform_rest_def)
    next
      case False
      show ?thesis
        using conversion_uniform [OF Cons.prems, of spec "sint ch" ch] None False
        by (auto simp: uniform_def uniform_rest_def)
    qed
  qed
qed

lemma format_loop_uniform:
  assumes "agree out S"
  shows "uniform out (\<lambda>n. format_loop n fmt (S n))"
  using assms
proof (induction "length fmt" arbitrary: fmt S rule: less_induct)
  case less
  show ?case
  proof (cases fmt)
    case Nil
    then show ?thesis by (simp add: format_loop.simps uniform_Inl)
  next
    case (Cons c r)
    show ?thesis
    proof (cases "c = 0")
      case True
      then show ?thesis using Cons less.prems by (simp add: format_loop.simps uniform_Inr)
    next
      case False
      have loop: "format_loop n fmt st = (case strchr fmt 0x25 of
            Inl e \<Rightarrow> Inl e
          | Inr None \<Rightarrow> ebind (strlen fmt) (\<lambda>len. Inr (put n fmt len st))
          | Inr (Some p) \<Rightarrow>
              (case consume_next n initial_spec (tl p) (put n fmt (of_nat (length fmt - length p)) st) of
                 Inl e \<Rightarrow> Inl e
               | Inr (st', fmt') \<Rightarrow> format_loop n fmt' st'))" for n st
        using Cons False by (subst format_loop.simps) (simp del: strchr.simps)
      show ?thesis
      proof (cases "strchr fmt 0x25")
        case (Inl e)
        then show ?thesis by (simp add: loop uniform_Inl)
      next
        case (Inr po)
        show ?thesis
        proof (cases po)
          case None
          then show ?thesis
            using Inr agree_put [OF less.prems strlen_bound]
            by (cases "strlen fmt") (simp_all add: loop uniform_Inl uniform_Inr)
        next
          case (Some p)
          let ?len = "of_nat (length fmt - length p) :: word_t"
          have "unat ?len \<le> length fmt"
            by (rule order_trans [of _ "length fmt - length p"]) (simp_all add: unat_of_nat take_bit_nat_less_eq_self)
          note put = agree_put [OF less.prems this]
          have eq: "format_loop n fmt (S n) =
              (case consume_next n initial_spec (tl p) (put n fmt ?len (S n)) of Inl e \<Rightarrow> Inl e
               | Inr (st', fmt') \<Rightarrow> format_loop n fmt' st')" for n
            using Inr Some by (simp add: loop)
          consider (fault) e where "\<And>n. consume_next n initial_spec (tl p) (put n fmt ?len (S n)) = Inl e"
            | (ok) S' fmt' where "\<And>n. consume_next n initial_spec (tl p) (put n fmt ?len (S n)) = Inr (S' n, fmt')"
                "agree out S'"
            using consume_uniform [OF put, of initial_spec "tl p"] unfolding uniform_rest_def by blast
          then show ?thesis
          proof cases
            case fault
            then show ?thesis by (simp add: eq uniform_Inl)
          next
            case ok
            have "length fmt' < length (tl p)" using ok(1) by (rule consume_shortens)
            moreover have "length p \<le> length fmt" using strchr_suffix [of fmt "0x25" p] Inr Some by auto
            ultimately have "length fmt' < length fmt" by simp
            from less.hyps [OF this ok(2)] show ?thesis by (simp add: eq ok(1))
          qed
        qed
      qed
    qed
  qed
qed

text \<open>C34: The limit of a formatted-output call only cuts its output: whether the call faults does not
depend on the limit, and if it does not fault there is one text such that the call with any limit
n > 0 hands over the first n - 1 bytes of it and a terminator, so at most n bytes, and returns how
many bytes of the text it handed over. (The limit 0 wraps around to the greatest one.)\<close>

theorem vfnprintf_cuts_to_limit:
  "(\<exists>e. \<forall>n. vfnprintf n format args out = Inl e) \<or>
   (\<exists>bs. \<forall>n. \<exists>st. vfnprintf n format args out = Inr (of_nat (min (unat (n - 1)) (length bs)), st)
      \<and> snd (p_writing st) = out @ take (unat (n - 1)) bs @ [0])"
proof -
  let ?S = "\<lambda>n :: word_t. \<lparr>p_writing = (0, out), p_args = args, p_stores = [], p_messages = []\<rparr>"
  have "agree out ?S" unfolding agree_def by (intro exI [of _ "[]"] exI [of _ args] exI [of _ "[]"]) simp
  from format_loop_uniform [OF this, of format] show ?thesis
    unfolding uniform_def
  proof (elim disjE exE conjE)
    fix e assume "\<forall>n. format_loop n format (?S n) = Inl e"
    then show ?thesis by (simp add: vfnprintf_def)
  next
    fix S assume S: "\<forall>n. format_loop n format (?S n) = Inr (S n)" and "agree out S"
    then obtain bs where bs: "\<And>n. printed n bs out (p_writing (S n))" unfolding agree_def by blast
    have "\<exists>st. vfnprintf n format args out = Inr (of_nat (min (unat (n - 1)) (length bs)), st)
      \<and> snd (p_writing st) = out @ take (unat (n - 1)) bs @ [0]" for n
      using S bs [of "n - 1"] by (simp add: vfnprintf_def printed_def ucast_min_limit)
    then show ?thesis by blast
  qed
qed

text \<open>A limit of zero is no limit, and a format that ends in a percent sign is read past its end.\<close>

lemma limit_zero_unlimited: "\<exists>st. vfnprintf 0 [0x61, 0x62, 0] [] [] = Inr (2, st) \<and> snd (p_writing st) = [0x61, 0x62, 0]"
  by (simp add: vfnprintf_def format_loop.simps strlen_def put_def WRITE_def word_gt_0 min_absorb1 [OF word_n1_ge])

lemma trailing_percent_runs_off: "vfnprintf n [0x25, 0] args out = Inl Undefined"
  by (simp add: vfnprintf_def format_loop.simps modifier_def conversion_def)

text \<open>\<open>h\<close> makes the conversion take the argument as signed: \<open>%hx\<close> of -1 is \<open>-1\<close>.\<close>

lemma short_hex_signed:
  "get_number (initial_spec\<lparr>fs_base := BASE_16, fs_int_width := - 1\<rparr>) False [VInt (- 1)] =
     Inr (\<lparr>num_value = 1, num_negative = True\<rparr>, [])"
  by (simp add: get_number_def va_int_def signed_number_def)

end
