(* ===== verification/Tar.thy ===== *)
theory Tar
  imports Print_Properties Capability
begin

text \<open>
  The archive in which the boot loader hands over the programs (\<open>lib/tar.c\<close>, \<open>include/tar.h\<close>). The
  archive is an object of bytes at an address; a header pointer is an address, and what can be read
  through it is the object from there on. The walk over the headers ends only if the sizes in them
  are sensible, so it is a partial function. The message about an invalid size is dropped.
\<close>

section \<open>The walk\<close>

definition string_at :: "addr \<Rightarrow> u8 list \<Rightarrow> addr \<Rightarrow> u8 list" where
  "string_at base img p = (if base \<le> p then drop (unat (p - base)) img else [])"

text \<open>Offsets of the members of \<open>struct tar_header\<close>.\<close>

abbreviation (input) TAR_NAME :: nat where "TAR_NAME \<equiv> 0"
abbreviation (input) TAR_SIZE :: nat where "TAR_SIZE \<equiv> 124"

definition tar_number :: "u8 list \<Rightarrow> fault + int" where
  "tar_number p = ebind (strtol p 8) (\<lambda>(result, rest). Inr (if rest = p then 0 else result))"

definition next_header :: "addr \<Rightarrow> int \<Rightarrow> addr" where
  "next_header tar len = (tar + (word_of_int len + 0x200) + 0x1FF) AND NOT 0x1FF"

partial_function (option) find_tar_entry :: "addr \<Rightarrow> u8 list \<Rightarrow> addr \<Rightarrow> u8 list \<Rightarrow> (fault + addr option) option" where
  "find_tar_entry base img tar name =
     (case string_at base img tar of
        [] \<Rightarrow> Some (Inl Undefined)
      | c # obj \<Rightarrow>
        if c = 0 then Some (Inr None)
        else case strcmp (c # obj) name of
            Inl e \<Rightarrow> Some (Inl e)
          | Inr d \<Rightarrow>
            if d = 0 then Some (Inr (Some (tar + 512)))
            else case tar_number (drop TAR_SIZE (c # obj)) of
                Inl e \<Rightarrow> Some (Inl e)
              | Inr len \<Rightarrow> find_tar_entry base img (next_header tar len) name)"

section \<open>Archives\<close>

text \<open>
  A file of an archive: its name, the rest of its header behind the name and the size, and its
  content. The size member holds 11 octal digits and a zero byte.
\<close>

record tar_file =
  tf_name :: "u8 list"
  tf_modes :: "u8 list"
  tf_tail :: "u8 list"
  tf_content :: "u8 list"

definition octal :: "nat \<Rightarrow> u8 list" where
  "octal n = (let ds = digits_of lower_hex_charset 8 n in replicate (11 - length ds) 0x30 @ ds)"

definition padding :: "nat \<Rightarrow> nat" where
  "padding n = (512 - n mod 512) mod 512"

definition tar_block :: "tar_file \<Rightarrow> u8 list" where
  "tar_block f = tf_name f @ replicate (100 - length (tf_name f)) 0 @ tf_modes f @ octal (length (tf_content f)) @ [0]
     @ tf_tail f @ tf_content f @ replicate (padding (length (tf_content f))) 0"

definition tar_file_ok :: "tar_file \<Rightarrow> bool" where
  "tar_file_ok f \<longleftrightarrow> tf_name f \<noteq> [] \<and> 0 \<notin> set (tf_name f) \<and> length (tf_name f) < 100 \<and> length (tf_modes f) = 24
     \<and> length (tf_tail f) = 376 \<and> length (tf_content f) < 8 ^ 11"

definition archive :: "tar_file list \<Rightarrow> u8 list" where
  "archive fs = concat (map tar_block fs) @ replicate 1024 0"

text \<open>Where the content of the first file of a name lies, as an offset from the start.\<close>

fun content_offset :: "tar_file list \<Rightarrow> u8 list \<Rightarrow> nat option" where
  "content_offset [] name = None"
| "content_offset (f # fs) name = (if tf_name f = name then Some 512
     else map_option ((+) (length (tar_block f))) (content_offset fs name))"

lemma octal_length: "n < 8 ^ 11 \<Longrightarrow> length (octal n) = 11"
  using length_digits_of [of 8 n 11 lower_hex_charset] by (simp add: octal_def Let_def)

lemma padding_aligns: "512 dvd n + padding n"
proof -
  define q r where "q = n div 512" and "r = n mod 512"
  then have n: "n = 512 * q + r" and r: "r < 512" by simp_all
  have "n + (512 - r) = 512 * Suc q" using n r by simp
  then have "512 dvd n + (512 - r)" by simp
  then show ?thesis by (simp add: padding_def dvd_eq_mod_eq_0 mod_add_right_eq r_def)
qed

lemma tar_block_length:
  assumes "tar_file_ok f"
  shows "length (tar_block f) = 512 + length (tf_content f) + padding (length (tf_content f))"
  using assms by (simp add: tar_block_def tar_file_ok_def octal_length)

lemma octal_read:
  assumes "n < 8 ^ 11"
  shows "tar_number (octal n @ 0 # rest) = Inr (int n)"
proof -
  let ?ds = "digits_of lower_hex_charset 8 n"
  have cs: "base_charset BASE_8 = lower_hex_charset" by (simp add: base_charset_def)
  have ds: "\<forall>c\<in>set (octal n). is_digit_of 8 c" "value_from 8 0 (octal n) = int n"
    using digits_of_read [of 8 BASE_8 n] zero_is_digit [of 8]
    by (auto simp: octal_def Let_def cs value_from_zeros)
  have len: "length (octal n) = 11" using assms by (rule octal_length)
  then have "octal n \<noteq> []" by auto
  then have "strtol ([] @ [] @ [] @ octal n @ 0 # rest) 8 = Inr (value_from 8 0 (octal n) * 1, 0 # rest)"
    using strtol_reads [of "[]" "[]" "[]" 8 "octal n" 0 rest] ds assms by (simp add: digit_value_def)
  then show ?thesis using ds(2) len by (auto simp: tar_number_def dest: arg_cong [of _ _ length])
qed

section \<open>Looking up a file\<close>

lemma next_header_align: "next_header tar len = ALIGN_UP (tar + (word_of_int len + 0x200)) 0x200"
proof -
  have "(x :: word_t) + 0x1FF = x + 0x200 - 1" "(0x1FF :: word_t) = 0x200 - 1" for x by simp_all
  then show ?thesis by (simp only: next_header_def ALIGN_UP_def ALIGN_DOWN_def)
qed

lemma next_header_block:
  assumes "512 dvd unat tar" and "unat tar + n + 1024 \<le> 2 ^ 63"
  shows "next_header tar (int n) = tar + of_nat (512 + n + padding n)"
proof -
  define x where "x = tar + (word_of_int (int n) + 0x200)"
  have n: "unat (of_nat (n + 512) :: word_t) = n + 512"
    using assms(2) by (simp add: unat_of_nat del: of_nat_add)
  have "x = tar + of_nat (n + 512)" by (simp add: x_def)
  then have x: "unat x = unat tar + (n + 512)"
    using n assms(2) unat_add_small [of tar "of_nat (n + 512)"] by simp
  have pad: "padding n < 512" by (simp add: padding_def)
  have "unat (ALIGN_UP x 0x200) = (unat x + 2 ^ 9 - 1) div 2 ^ 9 * 2 ^ 9"
    using x assms(2) by (intro unat_ALIGN_UP) simp_all
  also have "\<dots> = unat tar + (512 + n + padding n)"
  proof -
    obtain q where q: "unat tar = 512 * q" using assms(1) by blast
    obtain m where m: "n + padding n = 512 * m" using padding_aligns by blast
    have "unat x + 2 ^ 9 - 1 = 512 * (q + m + 1) + (511 - padding n)"
      using x q m pad by simp
    also have "\<dots> div 2 ^ 9 = q + m + 1" by (rule div_nat_eqI) simp_all
    finally show ?thesis using q m by simp
  qed
  also have "\<dots> = unat (tar + of_nat (512 + n + padding n))"
  proof -
    have "unat (of_nat (512 + n + padding n) :: word_t) = 512 + n + padding n"
      using assms(2) pad by (simp add: unat_of_nat del: of_nat_add)
    then show ?thesis using assms(2) pad unat_add_small [of tar "of_nat (512 + n + padding n)"] by simp
  qed
  finally show ?thesis by (simp add: next_header_align x_def word_unat_eq_iff)
qed

lemma string_at_offset:
  "unat base + length img < 2 ^ 63 \<Longrightarrow> k \<le> length img \<Longrightarrow> string_at base img (base + of_nat k) = drop k img"
proof -
  assume *: "unat base + length img < 2 ^ 63" "k \<le> length img"
  then have k: "unat (of_nat k :: word_t) = k" by (simp add: unat_of_nat)
  then have "base \<le> base + of_nat k"
    using * unat_add_small [of base "of_nat k"] by (simp add: word_le_nat_alt)
  then show ?thesis using k by (simp add: string_at_def)
qed

lemma block_parts:
  assumes "tar_file_ok f"
  shows "\<exists>r. tar_block f @ s = c_string (tf_name f) r"
    and "\<exists>r. drop TAR_SIZE (tar_block f @ s) = octal (length (tf_content f)) @ 0 # r"
proof -
  obtain k where "100 - length (tf_name f) = Suc k"
    using assms by (cases "100 - length (tf_name f)") (auto simp: tar_file_ok_def)
  then show "\<exists>r. tar_block f @ s = c_string (tf_name f) r" by (simp add: tar_block_def c_string_def)
  show "\<exists>r. drop TAR_SIZE (tar_block f @ s) = octal (length (tf_content f)) @ 0 # r"
    using assms by (simp add: tar_block_def tar_file_ok_def)
qed

lemma find_from_offset:
  assumes "unat base + length img + 2048 < 2 ^ 63" and "512 dvd unat base" and "0 \<notin> set name"
    and "drop k img = archive fs" and "k \<le> length img" and "512 dvd k" and "\<forall>f\<in>set fs. tar_file_ok f"
  shows "find_tar_entry base img (base + of_nat k) (c_string name rest) =
    Some (Inr (map_option (\<lambda>j. base + of_nat (k + j)) (content_offset fs name)))"
  using assms(4-7)
proof (induction fs arbitrary: k)
  case Nil
  have "replicate 1024 (0 :: u8) = 0 # replicate 1023 0" using replicate_Suc [of 1023 "0 :: u8"] by simp
  then have "string_at base img (base + of_nat k) = 0 # replicate 1023 0"
    using assms(1) Nil by (simp add: string_at_offset archive_def)
  then show ?case by (subst find_tar_entry.simps) simp
next
  case (Cons f fs)
  let ?n = "length (tf_content f)"
  have ok: "tar_file_ok f" using Cons.prems by simp
  then have name: "tf_name f \<noteq> []" "0 \<notin> set (tf_name f)" by (auto simp: tar_file_ok_def)
  have img: "drop k img = tar_block f @ archive fs" using Cons.prems by (simp add: archive_def)
  have obj: "string_at base img (base + of_nat k) = tar_block f @ archive fs"
    using assms(1) Cons.prems img by (simp add: string_at_offset)
  obtain r where r: "tar_block f @ archive fs = c_string (tf_name f) r" using block_parts(1) [OF ok] by blast
  obtain c cs where c: "tar_block f @ archive fs = c # cs" "c \<noteq> 0"
    using r name by (cases "tf_name f") (auto simp: c_string_def)
  obtain d where d: "strcmp (c # cs) (c_string name rest) = Inr d" "d = 0 \<longleftrightarrow> tf_name f = name"
    using strcmp_strings [OF name(2) assms(3), of r rest] r c by auto
  obtain r' where r': "drop TAR_SIZE (c # cs) = octal ?n @ 0 # r'" using block_parts(2) [OF ok] c(1) by metis
  have size: "tar_number (drop TAR_SIZE (c # cs)) = Inr (int ?n)"
    unfolding r' using ok by (intro octal_read) (simp add: tar_file_ok_def)
  note step = find_tar_entry.simps [of base img "base + of_nat k"]
  have found: "?case" if "tf_name f = name"
    using that d c by (subst step) (simp add: obj add.assoc)
  have len: "length (tar_block f) = 512 + ?n + padding ?n" using ok by (rule tar_block_length)
  have bound: "k + length (tar_block f) \<le> length img"
    using arg_cong [OF img, of length] Cons.prems(2) by simp
  have next_case: "?case" if ne: "tf_name f \<noteq> name"
  proof -
    have tar: "unat (base + of_nat k) = unat base + k"
    proof -
      have "k < 2 ^ 64" using assms(1) Cons.prems(2) by simp
      then have k: "unat (of_nat k :: word_t) = k" by (rule unat_of_small_nat)
      have "unat base + k < 2 ^ 64" using assms(1) Cons.prems(2) by simp
      then show ?thesis using k unat_add_small [of base "of_nat k"] by (simp only:)
    qed
    have "next_header (base + of_nat k) (int ?n) = base + of_nat k + of_nat (length (tar_block f))"
      unfolding len using assms(1,2) Cons.prems(3) bound len tar by (intro next_header_block) auto
    then have nxt: "next_header (base + of_nat k) (int ?n) = base + of_nat (k + length (tar_block f))"
      by (simp add: add.assoc)
    have "512 dvd length (tar_block f)"
      unfolding len add.assoc by (rule dvd_add [OF dvd_refl padding_aligns])
    moreover have "drop (k + length (tar_block f)) img = archive fs"
    proof -
      have "drop (length (tar_block f)) (drop k img) = archive fs" unfolding img by simp
      then show ?thesis by (simp only: drop_drop add.commute)
    qed
    ultimately have "find_tar_entry base img (base + of_nat (k + length (tar_block f))) (c_string name rest) =
        Some (Inr (map_option (\<lambda>j. base + of_nat (k + length (tar_block f) + j)) (content_offset fs name)))"
      using Cons.prems bound by (intro Cons.IH) auto
    then have "find_tar_entry base img (base + of_nat k) (c_string name rest) =
        Some (Inr (map_option (\<lambda>j. base + of_nat (k + length (tar_block f) + j)) (content_offset fs name)))"
      using ne d c size nxt by (subst step) (simp add: obj)
    then show ?thesis using ne by (simp add: option.map_comp comp_def add.assoc)
  qed
  show ?case using found next_case by blast
qed



text \<open>
  The walk trusts the sizes: a header whose size reads as -512 is its own successor, and the walk
  does not end.
\<close>

lemma negative_size_is_own_successor:
  assumes "512 dvd unat tar" and "unat tar + 1024 \<le> 2 ^ 63"
  shows "next_header tar (- 512) = tar"
proof -
  have "next_header tar (- 512) = ALIGN_UP tar 0x200" by (simp add: next_header_align)
  moreover have "unat (ALIGN_UP tar 0x200) = (unat tar + 2 ^ 9 - 1) div 2 ^ 9 * 2 ^ 9"
    using assms(2) by (intro unat_ALIGN_UP) simp_all
  moreover have "(unat tar + 2 ^ 9 - 1) div 2 ^ 9 * 2 ^ 9 = unat tar"
    using assms(1) by (auto intro!: div_nat_eqI elim!: dvdE)
  ultimately show ?thesis by (simp add: word_unat_eq_iff)
qed

end
