(* ===== verification/Boot.thy ===== *)
theory Boot
  imports Paging Tar Io_Port
begin

text \<open>
  From the end of the boot loader to the first thread (\<open>kern/boot.c\<close>, \<open>kern/elf.c\<close>,
  \<open>kern/main.c\<close>, \<open>get_physical_extents\<close> of \<open>kern/arch/x86_64/phy_mem.c\<close>, the untyped capabilities
  of \<open>kern/alloc.c\<close>, \<open>kern/arch/x86_64/pci.c\<close>). Bytes are read and written through virtual addresses
  in \<open>user_mem\<close>; what a fresh page holds is whatever was there, as the kernel does not clear it. The
  boot loader's tables and the configuration space of the PCI bus are arguments.
\<close>

section \<open>Physical memory\<close>

text \<open>The memory types of the boot protocol; only usable memory is taken.\<close>

abbreviation (input) LIMINE_MEMMAP_USABLE :: word_t where "LIMINE_MEMMAP_USABLE \<equiv> 0"
abbreviation (input) MAX_EXTENTS :: nat where "MAX_EXTENTS \<equiv> 32"

record memmap_entry =
  mm_base :: addr
  mm_length :: word_t
  mm_type :: word_t

definition get_physical_extents :: "memmap_entry list \<Rightarrow> nat \<Rightarrow> physical_extent list" where
  "get_physical_extents entries max_extents =
     take max_extents (map (\<lambda>e. \<lparr>ext_start = mm_base e, ext_len = mm_length e\<rparr>)
       (filter (\<lambda>e. mm_type e = LIMINE_MEMMAP_USABLE) entries))"

section \<open>Untyped capabilities for memory\<close>

text \<open>An entry that \<open>create_init_untyped_caps\<close> writes: the capability and its description.\<close>

record untyped_desc =
  ud_base :: word_t
  ud_size_bits :: u8
  ud_is_device :: bool

type_synonym untyped_entry = "cap_t \<times> word_t \<times> u8"

text \<open>
  \<open>regions[i]\<close>: behind the used elements the static array holds zeros. Marking one of those as used by
  programs has no effect, as nothing looks at them.
\<close>

definition region_at :: "power_of_two_region list \<Rightarrow> nat \<Rightarrow> fault + power_of_two_region" where
  "region_at rs i = (if i < length rs then Inr (rs ! i) else if i < MAX_REGIONS then Inr (new_region 0 0) else Inl Undefined)"

definition mark_in_user_use :: "nat \<Rightarrow> power_of_two_region list \<Rightarrow> power_of_two_region list" where
  "mark_in_user_use i rs = (if i < length rs then rs[i := (rs ! i)\<lparr>r_in_user_use := True\<rparr>] else rs)"

definition untyped_for :: "power_of_two_region \<Rightarrow> fault + untyped_entry" where
  "untyped_for r = ebind (new_untyped_cap (r_addr r) (ucast (r_size_bits r) + 12)) (\<lambda>cap.
     Inr (cap, r_addr r, r_size_bits r + 12))"

text \<open>The loop from \<open>i\<close> on, with \<open>k\<close> iterations left; the test for the last region comes last.\<close>

fun init_untyped_from :: "nat \<Rightarrow> nat \<Rightarrow> power_of_two_region list \<Rightarrow> fault + (power_of_two_region list \<times> untyped_entry list)" where
  "init_untyped_from i 0 rs = Inr (rs, [])"
| "init_untyped_from i (Suc k) rs =
     ebind (region_at rs i) (\<lambda>r.
     if r_in_kernel_use r then init_untyped_from (Suc i) k rs
     else ebind (untyped_for r) (\<lambda>u.
       let rs' = mark_in_user_use i rs in
       if (of_nat i :: word_t) \<ge> of_nat (length rs') - 1 then Inr (rs', [u])
       else ebind (init_untyped_from (Suc i) k rs') (\<lambda>(rs'', us). Inr (rs'', u # us))))"

definition create_init_untyped_caps :: "nat \<Rightarrow> power_of_two_region list \<Rightarrow> fault + (power_of_two_region list \<times> untyped_entry list)" where
  "create_init_untyped_caps n rs = init_untyped_from 0 n rs"

section \<open>Untyped capabilities for devices\<close>

definition pci_addr :: "u8 \<Rightarrow> u8 \<Rightarrow> u8 \<Rightarrow> u16 \<Rightarrow> u32" where
  "pci_addr bus device function offset =
     push_bit 31 1 OR push_bit 16 (ucast bus) OR push_bit 11 (ucast device) OR push_bit 8 (ucast function)
       OR (ucast offset AND 0xFC)"

definition pci_bus :: "u32 \<Rightarrow> u32" where "pci_bus address = drop_bit 16 address AND 0xFF"
definition pci_device :: "u32 \<Rightarrow> u32" where "pci_device address = drop_bit 11 address AND 0x1F"
definition pci_function :: "u32 \<Rightarrow> u32" where "pci_function address = drop_bit 8 address AND 7"
definition pci_offset :: "u32 \<Rightarrow> u32" where "pci_offset address = address AND 0xFC"

abbreviation (input) PCI_BAR0 :: u32 where "PCI_BAR0 \<equiv> 0x10"

text \<open>
  The bus as the code reaches it through its two ports: reading and writing a configuration register
  by address, with a state of the device side.
\<close>

record 'd pci_bus_ops =
  pci_read :: "u32 \<Rightarrow> 'd \<Rightarrow> u32 \<times> 'd"
  pci_write :: "u32 \<Rightarrow> u32 \<Rightarrow> 'd \<Rightarrow> 'd"

text \<open>\<open>63 - __builtin_clzll (size)\<close>, undefined for zero: the position of the highest bit.\<close>

fun high_bit :: "nat \<Rightarrow> word_t \<Rightarrow> nat" where
  "high_bit 0 w = 0"
| "high_bit (Suc i) w = (if bit w (Suc i) then Suc i else high_bit i w)"

definition bar_size_bits :: "u32 \<Rightarrow> fault + word_t" where
  "bar_size_bits bar_mask = (let size = NOT bar_mask + 1 in
     if size = 0 then Inl Undefined else Inr (of_nat (high_bit 63 (ucast size))))"

definition device_entry :: "u32 \<Rightarrow> u32 \<Rightarrow> fault + untyped_entry" where
  "device_entry bar bar_mask =
     ebind (bar_size_bits bar_mask) (\<lambda>size_bits.
     ebind (new_untyped_device_cap (ucast bar) size_bits) (\<lambda>cap.
       Inr (cap, ucast bar, ucast size_bits)))"

text \<open>
  The base address registers of one function, from register \<open>i\<close> on. The result says whether the
  limit of \<open>n\<close> capabilities was reached (\<open>goto done\<close>).
\<close>

fun scan_bars :: "'d pci_bus_ops \<Rightarrow> nat \<Rightarrow> u32 \<Rightarrow> nat \<Rightarrow> nat \<Rightarrow> 'd \<Rightarrow> untyped_entry list \<Rightarrow>
    fault + (bool \<times> 'd \<times> untyped_entry list)" where
  "scan_bars ops n a i 0 d us = Inr (False, d, us)"
| "scan_bars ops n a i (Suc k) d us =
     (let reg = a + PCI_BAR0 + of_nat i * 4;
          (bar, d1) = pci_read ops reg d
      in if bar = 0 \<or> bar AND 1 \<noteq> 0 then scan_bars ops n a (Suc i) k d1 us
         else let d2 = pci_write ops reg 0xFFFFFFFF d1;
                  (bar_mask, d3) = pci_read ops reg d2;
                  d4 = pci_write ops reg bar d3
              in ebind (device_entry (bar AND 0xFFFFFFF0) (bar_mask AND 0xFFFFFFF0)) (\<lambda>u.
                 let us' = us @ [u] in
                 if length us' \<ge> n then Inr (True, d4, us') else scan_bars ops n a (Suc i) k d4 us'))"

text \<open>The functions of the bus, numbered \<open>bus * 256 + dev * 8 + func\<close> in the order of the loops.\<close>

fun scan_functions :: "'d pci_bus_ops \<Rightarrow> nat \<Rightarrow> nat \<Rightarrow> nat \<Rightarrow> 'd \<Rightarrow> untyped_entry list \<Rightarrow>
    fault + ('d \<times> untyped_entry list)" where
  "scan_functions ops n j 0 d us = Inr (d, us)"
| "scan_functions ops n j (Suc k) d us =
     (let a = pci_addr (of_nat (j div 256)) (of_nat (j div 8 mod 32)) (of_nat (j mod 8)) 0;
          (ident, d1) = pci_read ops a d
      in if ident = 0xFFFFFFFF then scan_functions ops n (Suc j) k d1 us
         else ebind (scan_bars ops n a 0 6 d1 us) (\<lambda>(finished, d2, us2).
              if finished then Inr (d2, us2) else scan_functions ops n (Suc j) k d2 us2))"

definition create_init_untyped_device_caps :: "'d pci_bus_ops \<Rightarrow> nat \<Rightarrow> 'd \<Rightarrow> fault + ('d \<times> untyped_entry list)" where
  "create_init_untyped_device_caps ops n d = scan_functions ops n 0 65536 d []"

section \<open>Program images\<close>

text \<open>Little-endian loads.\<close>

definition load16 :: "memory \<Rightarrow> addr \<Rightarrow> u16" where
  "load16 m a = ucast (m a) OR push_bit 8 (ucast (m (a + 1)))"

definition load32 :: "memory \<Rightarrow> addr \<Rightarrow> u32" where
  "load32 m a = ucast (load16 m a) OR push_bit 16 (ucast (load16 m (a + 2)))"

definition load64 :: "memory \<Rightarrow> addr \<Rightarrow> word_t" where
  "load64 m a = ucast (load32 m a) OR push_bit 32 (ucast (load32 m (a + 4)))"

record elf_ehdr =
  e_entry :: addr
  e_phoff :: word_t
  e_phentsize :: u16
  e_phnum :: u16

definition read_ehdr :: "memory \<Rightarrow> addr \<Rightarrow> elf_ehdr" where
  "read_ehdr m e = \<lparr>e_entry = load64 m (e + 24), e_phoff = load64 m (e + 32),
     e_phentsize = load16 m (e + 54), e_phnum = load16 m (e + 56)\<rparr>"

record elf_phdr =
  p_type :: u32
  p_offset :: word_t
  p_vaddr :: addr
  p_filesz :: word_t
  p_memsz :: word_t

definition read_phdr :: "memory \<Rightarrow> addr \<Rightarrow> elf_phdr" where
  "read_phdr m p = \<lparr>p_type = load32 m p, p_offset = load64 m (p + 8), p_vaddr = load64 m (p + 16),
     p_filesz = load64 m (p + 32), p_memsz = load64 m (p + 40)\<rparr>"

abbreviation (input) PT_LOAD :: u32 where "PT_LOAD \<equiv> 1"

text \<open>\<open>"\177ELF"\<close>\<close>

definition ELFMAGIC :: "u8 list" where "ELFMAGIC = [0x7F, 0x45, 0x4C, 0x46]"

definition is_elf :: "memory \<Rightarrow> addr \<Rightarrow> bool" where
  "is_elf m e \<longleftrightarrow> memcmp (map (\<lambda>i. m (e + of_nat i)) [0..<16]) ELFMAGIC 4 = Inr 0"

definition phdr :: "memory \<Rightarrow> addr \<Rightarrow> nat \<Rightarrow> addr" where
  "phdr m e i = e + e_phoff (read_ehdr m e) + of_nat i * ucast (e_phentsize (read_ehdr m e))"

text \<open>
  The loop over the pages of a segment. The address space has \<open>2 ^ 52\<close> pages, so a run that is longer
  visits pages again; with finite memory it fails in the allocator before.
\<close>

fun map_elf_pages :: "nat \<Rightarrow> word_t \<Rightarrow> addr \<Rightarrow> addr \<Rightarrow> (kstate, unit) kern" where
  "map_elf_pages fuel root pg end_addr =
     (if \<not> pg < end_addr then kret ()
      else if fuel = 0 then kfail Diverges
      else kbind (with_regions alloc_page) (\<lambda>page.
        kseq (add_vm_mapping root pg page (PTE_PRESENT OR PTE_USER OR PTE_WRITE))
             (map_elf_pages (fuel - 1) root (pg + PAGE_SIZE) end_addr)))"

declare map_elf_pages.simps [simp del]

definition map_elf_phdr :: "word_t \<Rightarrow> elf_phdr \<Rightarrow> (kstate, unit) kern" where
  "map_elf_phdr root p = map_elf_pages (2 ^ 52) root (ALIGN_DOWN (p_vaddr p) PAGE_SIZE) (p_vaddr p + p_memsz p)"

definition load_segment :: "word_t \<Rightarrow> addr \<Rightarrow> nat \<Rightarrow> (kstate, unit) kern" where
  "load_segment root e i =
     kbind (kget (\<lambda>s. read_phdr (user_mem s) (phdr (user_mem s) e i))) (\<lambda>p.
     if p_type p \<noteq> PT_LOAD then kret ()
     else kseq (map_elf_phdr root p)
         (kseq (kmod (\<lambda>s. s\<lparr>user_mem := memcpy (p_vaddr p) (e + p_offset p) (p_filesz p) (user_mem s)\<rparr>))
               (kmod (\<lambda>s. s\<lparr>user_mem := memset (p_vaddr p + p_filesz p) 0 (p_memsz p - p_filesz p) (user_mem s)\<rparr>))))"

text \<open>The loop bound \<open>e->phnum\<close> is read again before each iteration; the header is not written here.\<close>

definition load_elf :: "addr \<Rightarrow> (kstate, unit) kern" where
  "load_elf e =
     kbind get_vm_root (\<lambda>root.
     kbind (kget (\<lambda>s. e_phnum (read_ehdr (user_mem s) e))) (\<lambda>n.
       kfor 0 (unat n) (load_segment root e)))"

definition init_tcb_from_elf_in_this_vm :: "addr \<Rightarrow> addr \<Rightarrow> (kstate, unit) kern" where
  "init_tcb_from_elf_in_this_vm t elf =
     kseq (init_tcb t)
    (kseq (load_elf elf)
          (kmod (\<lambda>s. upd_tcb t (\<lambda>u. u\<lparr>t_saved_state := new_user_frame (e_entry (read_ehdr (user_mem s) elf)) 0\<rparr>) s)))"

section \<open>The first thread\<close>

abbreviation (input) VA_IPC_BUFFER :: addr where "VA_IPC_BUFFER \<equiv> 0x7FFFFFE00000"
abbreviation (input) VA_BOOTINFO :: addr where "VA_BOOTINFO \<equiv> 0x7FFFFFE01000"
abbreviation (input) VA_INITRD :: addr where "VA_INITRD \<equiv> 0x100000000"
abbreviation (input) VA_STACK :: addr where "VA_STACK \<equiv> 0x7FFFFFF00000"
abbreviation (input) STACK_PAGES :: nat where "STACK_PAGES \<equiv> 4"

definition VA_STACK_TOP :: addr where "VA_STACK_TOP = VA_STACK + of_nat STACK_PAGES * PAGE_SIZE"

definition USER_RW :: word_t where "USER_RW = PTE_PRESENT OR PTE_USER OR PTE_WRITE"
definition USER_RO :: word_t where "USER_RO = PTE_PRESENT OR PTE_USER"

abbreviation (input) CNODE_SLOTS :: nat where "CNODE_SLOTS \<equiv> 4096"
abbreviation (input) INIT_CNODE_SIZE_BITS :: word_t where "INIT_CNODE_SIZE_BITS \<equiv> 12"
abbreviation (input) INIT_CAP_INIT_TCB :: word_t where "INIT_CAP_INIT_TCB \<equiv> 1"
abbreviation (input) INIT_CAP_ROOT_CNODE :: word_t where "INIT_CAP_ROOT_CNODE \<equiv> 2"
abbreviation (input) INIT_CAP_INIT_VSPACE :: word_t where "INIT_CAP_INIT_VSPACE \<equiv> 3"
abbreviation (input) INIT_CAP_IO_PORT_CONTROL :: word_t where "INIT_CAP_IO_PORT_CONTROL \<equiv> 4"
abbreviation (input) INIT_CAP_IRQ_CONTROL :: word_t where "INIT_CAP_IRQ_CONTROL \<equiv> 5"
abbreviation (input) INIT_CAP_FIRST_UNTYPED :: nat where "INIT_CAP_FIRST_UNTYPED \<equiv> 6"

definition alloc_and_map_page :: "word_t \<Rightarrow> addr \<Rightarrow> word_t \<Rightarrow> (kstate, addr) kern" where
  "alloc_and_map_page pml4 va flags =
     kbind (with_regions alloc_page) (\<lambda>pa. kseq (add_vm_mapping pml4 va pa flags) (kret pa))"

text \<open>\<open>for (off = 0; off < size; off += PAGE_SIZE)\<close>, with the number of pages of \<open>size\<close>.\<close>

definition map_virt_from_virt_phys :: "word_t \<Rightarrow> addr \<Rightarrow> addr \<Rightarrow> word_t \<Rightarrow> word_t \<Rightarrow> (kstate, unit) kern" where
  "map_virt_from_virt_phys pml4 dst_va src_va sz flags =
     kfor 0 ((unat sz + 4095) div 4096) (\<lambda>i.
       kbind (physical_of (src_va + of_nat i * PAGE_SIZE)) (\<lambda>pa.
         add_vm_mapping pml4 (dst_va + of_nat i * PAGE_SIZE) pa flags))"

record cap_range =
  cr_start :: cptr_t
  cr_end :: cptr_t

text \<open>\<open>struct boot_info\<close>, with the framebuffer's description as one value of any type.\<close>

record 'f boot_info =
  bi_node_id :: word_t
  bi_initrd :: addr
  bi_initrd_size :: word_t
  bi_untyped_range :: cap_range
  bi_empty_range :: cap_range
  bi_framebuffer_info :: 'f
  bi_n_untypeds :: word_t
  bi_untypeds :: "nat \<Rightarrow> untyped_desc"

text \<open>
  What the kernel image and the boot loader provide: the addresses of the static thread block and
  capability array, the PCI bus, the framebuffer, and what the page of the boot information holds
  before the kernel writes to it.
\<close>

record ('f, 'd) boot_env =
  be_tcb :: addr
  be_cnode :: addr
  be_pci :: "'d pci_bus_ops"
  be_pci_state :: 'd
  be_framebuffer :: 'f
  be_stale :: "'f boot_info"

text \<open>\<open>"bootstrap"\<close> and \<open>"userland"\<close>\<close>

definition bootstrap_name :: "u8 list" where
  "bootstrap_name = [0x62, 0x6F, 0x6F, 0x74, 0x73, 0x74, 0x72, 0x61, 0x70, 0]"

definition userland_name :: "u8 list" where
  "userland_name = [0x75, 0x73, 0x65, 0x72, 0x6C, 0x61, 0x6E, 0x64, 0]"

definition memory_object :: "memory \<Rightarrow> addr \<Rightarrow> word_t \<Rightarrow> u8 list" where
  "memory_object m a n = map (\<lambda>i. m (a + of_nat i)) [0..<unat n]"

definition find_init_elf :: "addr \<Rightarrow> word_t \<Rightarrow> (kstate, addr) kern" where
  "find_init_elf initrd initrd_size =
     kbind (kget (\<lambda>s. find_tar_entry initrd (memory_object (user_mem s) initrd initrd_size) initrd userland_name)) (\<lambda>r.
     kbind (case r of None \<Rightarrow> kfail Diverges | Some x \<Rightarrow> klift x) (\<lambda>p.
     case p of None \<Rightarrow> kfail AssertFailed
     | Some elf \<Rightarrow> kseq (kbind (kget (\<lambda>s. is_elf (user_mem s) elf)) kassert) (kret elf)))"

definition set_slot_cap :: "slot \<Rightarrow> cap_t \<Rightarrow> (kstate, unit) kern" where
  "set_slot_cap c cap = kmod (\<lambda>s. s\<lparr>ctes := set_cap c cap (ctes s)\<rparr>)"

text \<open>The entries go into consecutive slots and descriptors; the flag for devices is only ever set.\<close>

fun write_entries :: "bool \<Rightarrow> addr \<Rightarrow> nat \<Rightarrow> untyped_entry list \<Rightarrow> (kstate, unit) kern" where
  "write_entries dev cnode i [] = kret ()"
| "write_entries dev cnode i ((cap, base, bits) # us) =
     kseq (set_slot_cap (cte_at cnode (of_nat (INIT_CAP_FIRST_UNTYPED + i))) cap) (write_entries dev cnode (Suc i) us)"

fun write_descs :: "bool \<Rightarrow> nat \<Rightarrow> untyped_entry list \<Rightarrow> (nat \<Rightarrow> untyped_desc) \<Rightarrow> nat \<Rightarrow> untyped_desc" where
  "write_descs dev i [] ds = ds"
| "write_descs dev i ((cap, base, bits) # us) ds =
     write_descs dev (Suc i) us
       (ds(i := (ds i)\<lparr>ud_base := base, ud_size_bits := bits, ud_is_device := ud_is_device (ds i) \<or> dev\<rparr>))"

text \<open>The frame, stack and mappings of the first thread.\<close>

definition map_first_thread :: "addr \<Rightarrow> addr \<Rightarrow> word_t \<Rightarrow> (kstate, unit) kern" where
  "map_first_thread t initrd initrd_size =
     kbind get_vm_root (\<lambda>pml4.
     kbind (alloc_and_map_page pml4 VA_IPC_BUFFER USER_RW) (\<lambda>ipc_buf.
     kbind (alloc_and_map_page pml4 VA_BOOTINFO USER_RW) (\<lambda>bootinfo.
     kseq (kmod (upd_tcb t (\<lambda>u. u\<lparr>t_saved_state := set_frame_r15 VA_IPC_BUFFER (t_saved_state u)\<rparr>)))
    (kseq (kbind (kget (\<lambda>s. set_frame_arg 0 VA_BOOTINFO (t_saved_state (tcbs s t)))) (\<lambda>r.
             kbind (klift r) (\<lambda>f. kmod (upd_tcb t (\<lambda>u. u\<lparr>t_saved_state := f\<rparr>)))))
    (kseq (kfor 0 STACK_PAGES (\<lambda>i. kbind (alloc_and_map_page pml4 (VA_STACK + PAGE_SIZE * of_nat i) USER_RW) (\<lambda>_. kret ())))
    (kseq (kmod (upd_tcb t (\<lambda>u. u\<lparr>t_saved_state := set_frame_sp VA_STACK_TOP (t_saved_state u)\<rparr>)))
    (kseq (kbind (direct_map_of bootinfo) (\<lambda>_. kret ()))
    (kseq (map_virt_from_virt_phys pml4 VA_INITRD initrd initrd_size USER_RO)
          (kbind (direct_map_of ipc_buf) (\<lambda>b. kmod (upd_tcb t (\<lambda>u. u\<lparr>t_ipc_buffer := Some b\<rparr>))))))))))))"

definition seed_caps :: "addr \<Rightarrow> addr \<Rightarrow> (kstate, unit) kern" where
  "seed_caps t cnode =
     kbind (klift (new_tcb_cap t)) (\<lambda>boot_tcb_cap.
     kbind (klift (new_cnode_cap cnode INIT_CNODE_SIZE_BITS)) (\<lambda>init_cnode_cap.
     kbind (kbind get_vm_root direct_map_of) (\<lambda>vm.
     kbind (klift (new_x86_64_pml4_cap vm)) (\<lambda>init_vspace_cap.
     kseq (set_slot_cap (cte_at cnode INIT_CAP_INIT_TCB) boot_tcb_cap)
    (kseq (set_slot_cap (cte_at cnode INIT_CAP_ROOT_CNODE) init_cnode_cap)
    (kseq (set_slot_cap (cte_at cnode INIT_CAP_INIT_VSPACE) init_vspace_cap)
    (kseq (set_slot_cap (cte_at cnode INIT_CAP_IO_PORT_CONTROL) new_x86_64_io_port_control_cap)
    (kseq (set_slot_cap (cte_at cnode INIT_CAP_IRQ_CONTROL) new_irq_control_cap)
    (kseq (set_slot_cap (TcbCspaceRoot t) init_cnode_cap)
          (set_slot_cap (TcbVspaceRoot t) init_vspace_cap))))))))))"

text \<open>
  Handing out memory; the result is the boot information and the state of the PCI bus. The count is
  added to what the page holds.
\<close>

definition hand_out_memory :: "('f, 'd) boot_env \<Rightarrow> addr \<Rightarrow> word_t \<Rightarrow> (kstate, 'f boot_info \<times> 'd) kern" where
  "hand_out_memory env initrd initrd_size =
     kbind (kget regions) (\<lambda>rs.
     kbind (klift (create_init_untyped_caps (CNODE_SLOTS - INIT_CAP_FIRST_UNTYPED) rs)) (\<lambda>(rs', us).
     kseq (kmod (\<lambda>s. s\<lparr>regions := rs'\<rparr>))
    (kseq (write_entries False (be_cnode env) 0 us)
    (kbind (klift (create_init_untyped_device_caps (be_pci env)
              (CNODE_SLOTS - INIT_CAP_FIRST_UNTYPED - length us) (be_pci_state env))) (\<lambda>(d, ds).
     let n_untyped = length us + length ds;
         stale = be_stale env;
         first = of_nat INIT_CAP_FIRST_UNTYPED;
         bi = stale\<lparr>bi_initrd := VA_INITRD, bi_initrd_size := initrd_size,
            bi_untyped_range := \<lparr>cr_start = first, cr_end = first + of_nat n_untyped\<rparr>,
            bi_empty_range := \<lparr>cr_start = first + of_nat n_untyped, cr_end = of_nat CNODE_SLOTS\<rparr>,
            bi_framebuffer_info := be_framebuffer env,
            bi_n_untypeds := bi_n_untypeds stale + of_nat n_untyped,
            bi_untypeds := write_descs True (length us) ds (write_descs False 0 us (bi_untypeds stale))\<rparr>
     in kseq (write_entries True (be_cnode env) (length us) ds) (kret (bi, d)))))))"

definition create_boot_tcb :: "('f, 'd) boot_env \<Rightarrow> addr \<Rightarrow> word_t \<Rightarrow> (kstate, 'f boot_info \<times> 'd) kern" where
  "create_boot_tcb env initrd initrd_size =
     (let t = be_tcb env in
      kbind (find_init_elf initrd initrd_size) (\<lambda>init_elf.
      kseq (init_tcb_from_elf_in_this_vm t init_elf)
     (kseq (kmod (upd_tcb t (\<lambda>u. u\<lparr>t_name := (\<lambda>i. if i < length bootstrap_name then bootstrap_name ! i else t_name u i)\<rparr>)))
     (kseq (map_first_thread t initrd initrd_size)
     (kseq (seed_caps t (be_cnode env))
     (kbind (hand_out_memory env initrd initrd_size) (\<lambda>r.
      kseq (schedule_tcb t) (kseq schedule (kret r)))))))))"

text \<open>\<open>kernel_main\<close> without its output and the self tests; \<open>None\<close> when there is no initial archive.\<close>

definition kernel_main :: "('f, 'd) boot_env \<Rightarrow> (addr \<times> word_t) option \<Rightarrow> (kstate, kexit) kern" where
  "kernel_main env initrd =
     (case initrd of
        Some (start, sz) \<Rightarrow> kbind (create_boot_tcb env start sz) (\<lambda>_. return_from_kernel_code)
      | None \<Rightarrow> halt_forever)"

end
