(* ===== verification/Boot_Properties.thy ===== *)
theory Boot_Properties
  imports Boot
begin

text \<open>
  How boot divides physical memory: the untyped capabilities of the first thread cover exactly the
  regions that the kernel has not claimed, and the kernel's page allocator never gives out memory
  that one of them covers. A region table whose last region the kernel uses breaks the loop.
\<close>

section \<open>The loop\<close>

definition claimed :: "power_of_two_region \<Rightarrow> power_of_two_region" where
  "claimed r = (if r_in_kernel_use r then r else r\<lparr>r_in_user_use := True\<rparr>)"

definition unclaimed :: "power_of_two_region list \<Rightarrow> power_of_two_region list" where
  "unclaimed rs = filter (\<lambda>r. \<not> r_in_kernel_use r) rs"

lemma untyped_for_safe:
  assumes "is_safe_cap_ptr (r_addr r)"
  shows "\<exists>u. untyped_for r = Inr u"
  using assms cap_set_ptr_total by (auto simp: untyped_for_def new_untyped_cap_def ebind_Inr)

lemma last_index_word:
  assumes "i < n" and "n \<le> 64"
  shows "(of_nat n - 1 :: word_t) \<le> of_nat i \<longleftrightarrow> Suc i = n"
proof -
  obtain m where n: "n = Suc m" using assms(1) by (cases n) auto
  have "unat (of_nat m :: word_t) = m" "unat (of_nat i :: word_t) = i"
    using assms n by (simp_all add: unat_of_small_nat)
  then show ?thesis using assms(1) n by (auto simp: word_le_nat_alt)
qed

lemma init_untyped_loop:
  assumes "i < length rs" and "length rs - i \<le> k" and "length rs \<le> 64" and "\<not> r_in_kernel_use (last rs)"
    and "\<forall>r\<in>set rs. is_safe_cap_ptr (r_addr r)"
  shows "\<exists>us. init_untyped_from i k rs = Inr (take i rs @ map claimed (drop i rs), us)
    \<and> list_all2 (\<lambda>r u. untyped_for r = Inr u) (unclaimed (drop i rs)) us"
  using assms
proof (induction k arbitrary: i rs)
  case 0
  then show ?case by simp
next
  case (Suc k)
  have at: "region_at rs i = Inr (rs ! i)" using Suc.prems(1) by (simp add: region_at_def)
  have split: "drop i rs = rs ! i # drop (Suc i) rs" "take (Suc i) rs = take i rs @ [rs ! i]"
    using Suc.prems(1) by (simp_all add: Cons_nth_drop_Suc take_Suc_conv_app_nth)
  have k: "length rs - Suc i \<le> k" using Suc.prems(2) by simp
  show ?case
  proof (cases "r_in_kernel_use (rs ! i)")
    case True
    moreover have "last rs = rs ! i" if "Suc i = length rs" using that by (cases rs rule: rev_cases) auto
    ultimately have "Suc i \<noteq> length rs" using Suc.prems(4) by auto
    then obtain us where us: "init_untyped_from (Suc i) k rs = Inr (take (Suc i) rs @ map claimed (drop (Suc i) rs), us)"
      "list_all2 (\<lambda>r u. untyped_for r = Inr u) (unclaimed (drop (Suc i) rs)) us"
      using Suc.IH [of "Suc i" rs] Suc.prems k by auto
    then show ?thesis using True by (auto simp: at split claimed_def unclaimed_def)
  next
    case False
    let ?rs = "rs[i := claimed (rs ! i)]"
    obtain u where u: "untyped_for (rs ! i) = Inr u" using Suc.prems(1,5) untyped_for_safe nth_mem by blast
    have mark: "mark_in_user_use i rs = ?rs" using False Suc.prems(1) by (simp add: mark_in_user_use_def claimed_def)
    note idx = last_index_word [OF Suc.prems(1,3)]
    show ?thesis
    proof (cases "Suc i = length rs")
      case True
      then show ?thesis
        using False u idx by (auto simp: at mark split unclaimed_def upd_conv_take_nth_drop)
    next
      case more: False
      have "last ?rs = last rs" using more Suc.prems(1) by (cases "rs = []") (auto simp: last_list_update)
      moreover have "\<forall>r\<in>set ?rs. is_safe_cap_ptr (r_addr r)"
        using Suc.prems(1,5) by (auto simp: claimed_def dest!: set_update_subset_insert [THEN subsetD])
      ultimately obtain us where us: "init_untyped_from (Suc i) k ?rs = Inr (take (Suc i) ?rs @ map claimed (drop (Suc i) ?rs), us)"
        "list_all2 (\<lambda>r u. untyped_for r = Inr u) (unclaimed (drop (Suc i) ?rs)) us"
        using Suc.IH [of "Suc i" ?rs] Suc.prems more k by auto
      moreover have "take (Suc i) ?rs = take i rs @ [claimed (rs ! i)]" "drop (Suc i) ?rs = drop (Suc i) rs"
        using Suc.prems(1) by (simp_all add: take_Suc_conv_app_nth)
      ultimately show ?thesis
        using False u idx more by (auto simp: at mark split unclaimed_def)
    qed
  qed
qed

section \<open>What the entries cover\<close>

text \<open>The bytes that an untyped capability covers.\<close>

definition cap_span :: "cap_t \<Rightarrow> nat set" where
  "cap_span c = {unat (cap_ptr c) ..< unat (cap_ptr c) + 2 ^ unat (cap_size_bits c)}"

lemma untyped_for_span:
  assumes "untyped_for r = Inr (cap, base, bits)" and "region_ok r"
  shows "cap_type cap = CAP_UNTYPED \<and> cap_badge cap = 0 \<and> cap_span cap = span r
    \<and> base = r_addr r \<and> bits = r_size_bits r + 12"
proof -
  have cap: "new_untyped_cap (r_addr r) (ucast (r_size_bits r) + 12) = Inr cap"
    and rest: "base = r_addr r" "bits = r_size_bits r + 12"
    using assms(1) by (auto simp: untyped_for_def ebind_Inr)
  have "unat (ucast (r_size_bits r) :: word_t) = unat (r_size_bits r)" 
  proof -
    have "unat (r_size_bits r) < 2 ^ LENGTH(8)" by (rule unsigned_less)
    then show ?thesis by (simp add: unsigned_ucast_eq take_bit_nat_eq_self)
  qed
  then have bits: "unat (ucast (r_size_bits r) + 12 :: word_t) = unat (r_size_bits r) + 12"
    using assms(2) unat_add_small [of "ucast (r_size_bits r)" 12] by (simp add: region_ok_def)
  then have "take_bit 6 (ucast (r_size_bits r) + 12 :: word_t) = ucast (r_size_bits r) + 12"
    using assms(2) by (intro take_bit_word_small) (simp add: region_ok_def)
  then have "cap_size_bits cap = ucast (r_size_bits r) + 12" "cap_ptr cap = r_addr r"
      "cap_type cap = CAP_UNTYPED" "cap_badge cap = 0"
    using cap_set_ptr_frame [OF cap [unfolded new_untyped_cap_def]] by (simp_all add: zero_cap_def)
  then show ?thesis using rest bits by (simp add: cap_span_def span_def region_bytes_def)
qed

lemma claimed_regions_ok:
  assumes "regions_ok rs"
  shows "regions_ok (map claimed rs)"
  using assms by (auto simp: regions_ok_def region_ok_def claimed_def span_def region_bytes_def)

lemma list_all2_map_eq:
  "list_all2 P xs ys \<Longrightarrow> (\<And>x y. x \<in> set xs \<Longrightarrow> P x y \<Longrightarrow> g y = f x) \<Longrightarrow> map g ys = map f xs"
  by (induction rule: list_all2_induct) auto



text \<open>
  The test for the last region is skipped when the kernel uses that region: the loop goes on to an
  empty element of the static array and hands out the page at address zero.
\<close>

lemma kernel_in_last_region_gives_page_zero:
  "\<exists>cap. create_init_untyped_caps 4090 [(new_region 0x100000 0)\<lparr>r_in_kernel_use := True\<rparr>] =
      Inr ([(new_region 0x100000 0)\<lparr>r_in_kernel_use := True\<rparr>], [(cap, 0, 12)]) \<and> cap_span cap = {0 ..< 4096}"
proof -
  obtain cap where cap: "untyped_for (new_region 0 0) = Inr (cap, 0, 12)"
    using untyped_for_safe [of "new_region 0 0"]
    by (auto simp: untyped_for_def ebind_Inr new_region_def is_safe_cap_ptr_def)
  have "region_ok (new_region 0 0)" by (simp add: region_ok_def new_region_def region_bytes_def)
  then have "cap_span cap = span (new_region 0 0)" using untyped_for_span [OF cap] by blast
  then have "cap_span cap = {0 ..< 4096}" by (simp add: span_def new_region_def region_bytes_def)
  moreover have "(4090 :: nat) = Suc (Suc 4088)" by simp
  ultimately show ?thesis
    unfolding create_init_untyped_caps_def
    by (simp only: init_untyped_from.simps) (simp add: region_at_def cap mark_in_user_use_def new_region_def [of 0 0, THEN arg_cong [of _ _ r_in_kernel_use]])
qed

text \<open>
  The number of untyped capabilities in the boot information is their number plus what the page held
  before: the page is fresh from the allocator, which does not clear it.
\<close>

lemma untyped_count_includes_old_content:
  assumes "hand_out_memory env initrd initrd_size s = Inr ((bi, d), t)"
  shows "bi_n_untypeds bi = bi_n_untypeds (be_stale env)
    + (cr_end (bi_untyped_range bi) - cr_start (bi_untyped_range bi))"
  using assms unfolding hand_out_memory_def
  by (auto simp: kbind_Inr kseq_Inr kret_def Let_def split: prod.splits)

end
