(* ===== verification/C_Sort.thy ===== *)
theory C_Sort
  imports C_String Page_Alloc "HOL-Library.Multiset"
begin

text \<open>
  The sort of \<open>lib/sort.c\<close>, the comparison functions the program passes to it, and its correctness.
  Pointers into the array are indices of its elements; the loop that exchanges the bytes of two
  elements is the exchange of the elements. Comparing an element outside of the array, or a pointer
  that has left \<open>base_ptr .. base_end\<close>, is undefined. A recursive call on a part of the array is the
  call on the list of its elements. Whether the recursion ends depends on the comparison, so it is a
  partial function.
\<close>

section \<open>The sort\<close>

definition element :: "'a list \<Rightarrow> int \<Rightarrow> fault + 'a" where
  "element xs i = (if 0 \<le> i \<and> i < int (length xs) then Inr (xs ! nat i) else Inl Undefined)"

definition exchange :: "'a list \<Rightarrow> int \<Rightarrow> int \<Rightarrow> 'a list" where
  "exchange xs l r = xs[nat l := xs ! nat r, nat r := xs ! nat l]"

text \<open>\<open>while (compare (left, pivot) < 0) left += size\<close>\<close>

function scan_left :: "('a \<Rightarrow> 'a \<Rightarrow> int) \<Rightarrow> 'a list \<Rightarrow> int \<Rightarrow> int \<Rightarrow> fault + int" where
  "scan_left compare xs pivot left =
     ebind (element xs left) (\<lambda>x. ebind (element xs pivot) (\<lambda>y.
       if compare x y < 0 then scan_left compare xs pivot (left + 1) else Inr left))"
  by pat_completeness auto
termination
  by (relation "measure (\<lambda>(_, xs, _, left). nat (int (length xs) - left))")
    (auto simp: element_def split: if_splits)

text \<open>\<open>while (compare (right, pivot) > 0) right -= size\<close>\<close>

function scan_right :: "('a \<Rightarrow> 'a \<Rightarrow> int) \<Rightarrow> 'a list \<Rightarrow> int \<Rightarrow> int \<Rightarrow> fault + int" where
  "scan_right compare xs pivot right =
     ebind (element xs right) (\<lambda>x. ebind (element xs pivot) (\<lambda>y.
       if compare x y > 0 then scan_right compare xs pivot (right - 1) else Inr right))"
  by pat_completeness auto
termination
  by (relation "measure (\<lambda>(_, xs, _, right). nat (right + 1))")
    (auto simp: element_def split: if_splits)

declare scan_left.simps [simp del] scan_right.simps [simp del]

lemma scan_left_forward: "scan_left compare xs p l = Inr l' \<Longrightarrow> l \<le> l'"
proof (induction compare xs p l rule: scan_left.induct)
  case (1 compare xs p l)
  from 1(2) [unfolded scan_left.simps [of compare xs p l]] 1(1) show ?case
    by (force simp: ebind_Inr split: if_splits)
qed

lemma scan_right_backward: "scan_right compare xs p r = Inr r' \<Longrightarrow> r' \<le> r"
proof (induction compare xs p r rule: scan_right.induct)
  case (1 compare xs p r)
  from 1(2) [unfolded scan_right.simps [of compare xs p r]] 1(1) show ?case
    by (force simp: ebind_Inr split: if_splits)
qed

text \<open>The loop \<open>while (left <= right)\<close>, which keeps track of where the pivot moves.\<close>

function sort_partition :: "('a \<Rightarrow> 'a \<Rightarrow> int) \<Rightarrow> 'a list \<Rightarrow> int \<Rightarrow> int \<Rightarrow> int \<Rightarrow> fault + ('a list \<times> int \<times> int)" where
  "sort_partition compare xs pivot left right =
     (if left \<le> right then
        ebind (scan_left compare xs pivot left) (\<lambda>l.
        ebind (scan_right compare xs pivot right) (\<lambda>r.
          if l \<le> r
          then sort_partition compare (exchange xs l r)
                 (if l = pivot then r else if r = pivot then l else pivot) (l + 1) (r - 1)
          else sort_partition compare xs pivot l r))
      else Inr (xs, left, right))"
  by pat_completeness auto
termination
  by (relation "measure (\<lambda>(_, _, _, left, right). nat (right - left + 1))")
    (auto dest!: scan_left_forward scan_right_backward)

declare sort_partition.simps [simp del]

partial_function (option) qsort :: "('a \<Rightarrow> 'a \<Rightarrow> int) \<Rightarrow> 'a list \<Rightarrow> (fault + 'a list) option" where
  "qsort compare xs =
     (if length xs < 2 then Some (Inr xs)
      else case sort_partition compare xs (int (length xs div 2)) 0 (int (length xs) - 1) of
        Inl e \<Rightarrow> Some (Inl e)
      | Inr (ys, left, right) \<Rightarrow>
          if right < 0 \<or> left > int (length xs) then Some (Inl Undefined)
          else Option.bind (qsort compare (take (nat right + 1) ys)) (\<lambda>a.
            case a of Inl e \<Rightarrow> Some (Inl e)
            | Inr low \<Rightarrow>
              let zs = low @ drop (nat right + 1) ys in
              Option.bind (qsort compare (drop (nat left) zs)) (\<lambda>b.
                case b of Inl e \<Rightarrow> Some (Inl e)
                | Inr high \<Rightarrow> Some (Inr (take (nat left) zs @ high)))))"

section \<open>The comparison functions\<close>

record untyped_info =
  ui_size_bits :: u16
  ui_index :: u16
  ui_in_use :: bool

definition compare_untyped_info :: "untyped_info \<Rightarrow> untyped_info \<Rightarrow> int" where
  "compare_untyped_info ua ub = sint (ui_size_bits ub) - sint (ui_size_bits ua)"

definition power_of_two_region_compare :: "power_of_two_region \<Rightarrow> power_of_two_region \<Rightarrow> int" where
  "power_of_two_region_compare pa pb = uint (r_size_bits pb) - uint (r_size_bits pa)"

text \<open>The difference of two \<open>int\<close> values overflows for values far apart, which is undefined.\<close>

definition int_cmp :: "int \<Rightarrow> int \<Rightarrow> fault + int" where
  "int_cmp ia ib = (let d = ia - ib in if - (2 ^ 31) \<le> d \<and> d < 2 ^ 31 then Inr d else Inl Undefined)"

section \<open>Correctness\<close>

lemma element_in [simp]: "0 \<le> i \<Longrightarrow> i < int (length xs) \<Longrightarrow> element xs i = Inr (xs ! nat i)"
  by (simp add: element_def)

lemma exchange_length [simp]: "length (exchange xs l r) = length xs"
  by (simp add: exchange_def)

lemma exchange_mset [simp]:
  "0 \<le> l \<Longrightarrow> l < int (length xs) \<Longrightarrow> 0 \<le> r \<Longrightarrow> r < int (length xs) \<Longrightarrow> mset (exchange xs l r) = mset xs"
  unfolding exchange_def by (rule mset_swap) (simp_all add: nat_less_iff)

lemma exchange_nth:
  "0 \<le> l \<Longrightarrow> l < int (length xs) \<Longrightarrow> 0 \<le> r \<Longrightarrow> r < int (length xs) \<Longrightarrow> 0 \<le> i \<Longrightarrow> i < int (length xs) \<Longrightarrow>
     exchange xs l r ! nat i = (if i = l then xs ! nat r else if i = r then xs ! nat l else xs ! nat i)"
  by (auto simp: exchange_def nth_list_update nat_eq_iff nat_less_iff)

text \<open>
  What the sort relies on: the sign of a comparison is antisymmetric, and not being greater is
  transitive.
\<close>

locale comparator =
  fixes compare :: "'a \<Rightarrow> 'a \<Rightarrow> int"
  assumes compare_sign: "compare x y < 0 \<longleftrightarrow> compare y x > 0"
    and compare_trans: "compare x y \<le> 0 \<Longrightarrow> compare y z \<le> 0 \<Longrightarrow> compare x z \<le> 0"
begin

definition below :: "'a \<Rightarrow> 'a \<Rightarrow> bool" where
  "below x y \<longleftrightarrow> compare x y \<le> 0"

lemma below_swap: "below x y \<longleftrightarrow> compare y x \<ge> 0"
  using compare_sign [of y x] by (auto simp: below_def)

lemma below_refl [simp]: "below x x"
  using compare_sign [of x x] by (cases "compare x x" "0 :: int" rule: linorder_cases) (auto simp: below_def)

lemma below_trans: "below x y \<Longrightarrow> below y z \<Longrightarrow> below x z"
  using compare_trans by (simp add: below_def)

lemma scan_left_stops:
  assumes "0 \<le> l" and "l \<le> i" and "i < int (length xs)" and "below (xs ! nat p) (xs ! nat i)"
    and "0 \<le> p" and "p < int (length xs)"
  shows "\<exists>l'. scan_left compare xs p l = Inr l' \<and> l \<le> l' \<and> l' \<le> i \<and> below (xs ! nat p) (xs ! nat l')
    \<and> (\<forall>j. l \<le> j \<and> j < l' \<longrightarrow> below (xs ! nat j) (xs ! nat p))"
  using assms(1,2)
proof (induction "nat (i - l)" arbitrary: l)
  case 0
  then have "i = l" by simp
  then show ?case
    using assms 0 by (subst scan_left.simps) (auto simp: below_swap)
next
  case (Suc k)
  show ?case
  proof (cases "compare (xs ! nat l) (xs ! nat p) < 0")
    case True
    have "\<exists>l'. scan_left compare xs p (l + 1) = Inr l' \<and> l + 1 \<le> l' \<and> l' \<le> i \<and> below (xs ! nat p) (xs ! nat l')
      \<and> (\<forall>j. l + 1 \<le> j \<and> j < l' \<longrightarrow> below (xs ! nat j) (xs ! nat p))"
      using Suc by (intro Suc.hyps(1)) simp_all
    then obtain l' where l': "scan_left compare xs p (l + 1) = Inr l'" "l + 1 \<le> l'" "l' \<le> i"
      "below (xs ! nat p) (xs ! nat l')" "\<forall>j. l + 1 \<le> j \<and> j < l' \<longrightarrow> below (xs ! nat j) (xs ! nat p)"
      by blast
    have "scan_left compare xs p l = Inr l'"
      using True Suc.prems assms l'(1) by (subst scan_left.simps) simp
    moreover have "below (xs ! nat j) (xs ! nat p)" if "l \<le> j" "j < l'" for j
      using l'(5) True that by (cases "j = l") (auto simp: below_def)
    ultimately show ?thesis using l' by auto
  next
    case False
    then have "scan_left compare xs p l = Inr l"
      using Suc.prems assms by (subst scan_left.simps) simp
    then show ?thesis using False Suc.prems by (auto simp: below_swap)
  qed
qed

lemma scan_right_stops:
  assumes "r < int (length xs)" and "i \<le> r" and "0 \<le> i" and "below (xs ! nat i) (xs ! nat p)"
    and "0 \<le> p" and "p < int (length xs)"
  shows "\<exists>r'. scan_right compare xs p r = Inr r' \<and> r' \<le> r \<and> i \<le> r' \<and> below (xs ! nat r') (xs ! nat p)
    \<and> (\<forall>j. r' < j \<and> j \<le> r \<longrightarrow> below (xs ! nat p) (xs ! nat j))"
  using assms(1,2)
proof (induction "nat (r - i)" arbitrary: r)
  case 0
  then have "i = r" by simp
  then show ?case
    using assms 0 by (subst scan_right.simps) (auto simp: below_def)
next
  case (Suc k)
  show ?case
  proof (cases "compare (xs ! nat r) (xs ! nat p) > 0")
    case True
    have "\<exists>r'. scan_right compare xs p (r - 1) = Inr r' \<and> r' \<le> r - 1 \<and> i \<le> r' \<and> below (xs ! nat r') (xs ! nat p)
      \<and> (\<forall>j. r' < j \<and> j \<le> r - 1 \<longrightarrow> below (xs ! nat p) (xs ! nat j))"
      using Suc by (intro Suc.hyps(1)) simp_all
    then obtain r' where r': "scan_right compare xs p (r - 1) = Inr r'" "r' \<le> r - 1" "i \<le> r'"
      "below (xs ! nat r') (xs ! nat p)" "\<forall>j. r' < j \<and> j \<le> r - 1 \<longrightarrow> below (xs ! nat p) (xs ! nat j)"
      by blast
    have "scan_right compare xs p r = Inr r'"
      using True Suc.prems assms r'(1) by (subst scan_right.simps) simp
    moreover have "below (xs ! nat p) (xs ! nat j)" if "r' < j" "j \<le> r" for j
      using r'(5) True that by (cases "j = r") (auto simp: below_swap)
    ultimately show ?thesis using r' by auto
  next
    case False
    then have "scan_right compare xs p r = Inr r"
      using Suc.prems assms by (subst scan_right.simps) simp
    then show ?thesis using False Suc.prems by (auto simp: below_def)
  qed
qed

text \<open>Everything left of \<open>l\<close> is below the pivot's value and everything right of \<open>r\<close> above it.\<close>

definition parted :: "'a list \<Rightarrow> 'a \<Rightarrow> int \<Rightarrow> int \<Rightarrow> bool" where
  "parted xs v l r \<longleftrightarrow> (\<forall>j. 0 \<le> j \<and> j < l \<longrightarrow> below (xs ! nat j) v)
     \<and> (\<forall>j. r < j \<and> j < int (length xs) \<longrightarrow> below v (xs ! nat j))"

lemma exchange_step:
  assumes "parted xs v l r" and "0 \<le> l" and "r < int (length xs)" and "v = xs ! nat p"
    and l': "l \<le> l'" "below v (xs ! nat l')" "\<forall>j. l \<le> j \<and> j < l' \<longrightarrow> below (xs ! nat j) v"
    and r': "r' \<le> r" "below (xs ! nat r') v" "\<forall>j. r' < j \<and> j \<le> r \<longrightarrow> below v (xs ! nat j)"
    and p: "0 \<le> p" "p < int (length xs)" and le: "l' \<le> r'"
  shows "parted (exchange xs l' r') v (l' + 1) (r' - 1)"
    and "v = exchange xs l' r' ! nat (if l' = p then r' else if r' = p then l' else p)"
proof -
  have ex: "exchange xs l' r' ! nat j = (if j = l' then xs ! nat r' else if j = r' then xs ! nat l' else xs ! nat j)"
    if "0 \<le> j" "j < int (length xs)" for j
    using that assms by (intro exchange_nth) simp_all
  have "below (exchange xs l' r' ! nat j) v" if "0 \<le> j" "j < l' + 1" for j
    using that assms ex [of j] by (cases "j < l") (auto simp: parted_def)
  moreover have "below v (exchange xs l' r' ! nat j)" if "r' - 1 < j" "j < int (length xs)" for j
    using that assms ex [of j] by (cases "r < j") (auto simp: parted_def)
  ultimately show "parted (exchange xs l' r') v (l' + 1) (r' - 1)" by (simp add: parted_def)
  show "v = exchange xs l' r' ! nat (if l' = p then r' else if r' = p then l' else p)"
    using assms ex [of l'] ex [of r'] ex [of p] by auto
qed

text \<open>A finished partition.\<close>

definition partitioned :: "'a list \<Rightarrow> 'a \<Rightarrow> 'a list \<Rightarrow> int \<Rightarrow> int \<Rightarrow> bool" where
  "partitioned xs v ys l r \<longleftrightarrow> mset ys = mset xs \<and> parted ys v l r \<and> r < l
     \<and> 1 \<le> l \<and> l \<le> int (length xs) \<and> 0 \<le> r \<and> r \<le> int (length xs) - 2"

lemma partition_from:
  assumes "parted xs v l r" and "v = xs ! nat p" and "0 \<le> p" and "p < int (length xs)"
    and "1 \<le> l" and "l \<le> int (length xs)" and "0 \<le> r" and "r \<le> int (length xs) - 2"
  shows "\<exists>ys l' r'. sort_partition compare xs p l r = Inr (ys, l', r') \<and> partitioned xs v ys l' r'"
  using assms
proof (induction "nat (r - l + 1)" arbitrary: xs p l r rule: less_induct)
  case less
  note unfold = sort_partition.simps [of compare xs p]
  show ?case
  proof (cases "l \<le> r")
    case False
    then have "sort_partition compare xs p l r = Inr (xs, l, r)" by (simp add: unfold)
    then show ?thesis using False less.prems by (auto simp: partitioned_def)
  next
    case True
    have "below v (xs ! nat (r + 1))" "below (xs ! nat (l - 1)) v"
      using less.prems by (auto simp: parted_def)
    then obtain l' r' where l': "scan_left compare xs p l = Inr l'" "l \<le> l'" "l' \<le> r + 1" "below v (xs ! nat l')"
        "\<forall>j. l \<le> j \<and> j < l' \<longrightarrow> below (xs ! nat j) v"
      and r': "scan_right compare xs p r = Inr r'" "r' \<le> r" "l - 1 \<le> r'" "below (xs ! nat r') v"
        "\<forall>j. r' < j \<and> j \<le> r \<longrightarrow> below v (xs ! nat j)"
      using scan_left_stops [of l "r + 1" xs p] scan_right_stops [of r xs "l - 1" p] less.prems True
      by auto
    show ?thesis
    proof (cases "l' \<le> r'")
      case False
      have eq: "sort_partition compare xs p l r = Inr (xs, l', r')"
        using True False l'(1) r'(1) by (simp add: unfold)
      have "parted xs v l' r'"
        unfolding parted_def
      proof (intro conjI allI impI)
        show "below (xs ! nat j) v" if "0 \<le> j \<and> j < l'" for j
          using that less.prems(1) l'(5) by (cases "j < l") (auto simp: parted_def)
        show "below v (xs ! nat j)" if "r' < j \<and> j < int (length xs)" for j
          using that less.prems(1) r'(5) by (cases "r < j") (auto simp: parted_def)
      qed
      then show ?thesis using eq False l' r' less.prems by (auto simp: partitioned_def)
    next
      case swap: True
      let ?xs = "exchange xs l' r'"
      let ?p = "if l' = p then r' else if r' = p then l' else p"
      have range: "0 \<le> l'" "l' < int (length xs)" "0 \<le> r'" "r' < int (length xs)"
        using l' r' less.prems swap by auto
      have step: "parted ?xs v (l' + 1) (r' - 1)" "v = ?xs ! nat ?p"
        using exchange_step [of xs v l r p l' r'] less.prems l' r' swap by auto
      have "\<exists>ys l'' r''. sort_partition compare ?xs ?p (l' + 1) (r' - 1) = Inr (ys, l'', r'') \<and> partitioned ?xs v ys l'' r''"
        using l' r' less.prems swap range by (intro less.hyps [OF _ step(1) step(2)]) auto
      moreover have "sort_partition compare xs p l r = sort_partition compare ?xs ?p (l' + 1) (r' - 1)"
        using True swap l'(1) r'(1) by (simp add: unfold)
      ultimately show ?thesis using range by (auto simp: partitioned_def)
    qed
  qed
qed

end

context comparator
begin

lemma partition_whole:
  assumes "2 \<le> length xs"
  shows "\<exists>ys l r. sort_partition compare xs (int (length xs div 2)) 0 (int (length xs) - 1) = Inr (ys, l, r)
    \<and> partitioned xs (xs ! (length xs div 2)) ys l r"
proof -
  define p where "p = int (length xs div 2)"
  define v where "v = xs ! nat p"
  have p: "1 \<le> p" "p \<le> int (length xs) - 1" using assms by (auto simp: p_def)
  obtain l' where l': "scan_left compare xs p 0 = Inr l'" "0 \<le> l'" "l' \<le> p" "below v (xs ! nat l')"
      "\<forall>j. 0 \<le> j \<and> j < l' \<longrightarrow> below (xs ! nat j) v"
    using scan_left_stops [of 0 p xs p] p by (auto simp: v_def)
  obtain r' where r': "scan_right compare xs p (int (length xs) - 1) = Inr r'" "r' \<le> int (length xs) - 1"
      "p \<le> r'" "below (xs ! nat r') v" "\<forall>j. r' < j \<and> j \<le> int (length xs) - 1 \<longrightarrow> below v (xs ! nat j)"
    using scan_right_stops [of "int (length xs) - 1" xs p p] p by (auto simp: v_def)
  have le: "l' \<le> r'" using l'(3) r'(3) by simp
  let ?xs = "exchange xs l' r'"
  let ?p = "if l' = p then r' else if r' = p then l' else p"
  have range: "0 \<le> l'" "l' < int (length xs)" "0 \<le> r'" "r' < int (length xs)"
    using l' r' p by auto
  have "parted xs v 0 (int (length xs) - 1)" by (auto simp: parted_def)
  from exchange_step [OF this _ _ _ l'(2,4,5) r'(2,4,5) _ _ le] p
  have step: "parted ?xs v (l' + 1) (r' - 1)" "v = ?xs ! nat ?p" by (simp_all add: v_def)
  have "\<exists>ys l r. sort_partition compare ?xs ?p (l' + 1) (r' - 1) = Inr (ys, l, r) \<and> partitioned ?xs v ys l r"
    using l' r' p range by (intro partition_from [OF step]) auto
  moreover have "sort_partition compare xs p 0 (int (length xs) - 1) = sort_partition compare ?xs ?p (l' + 1) (r' - 1)"
    using assms p le l'(1) r'(1) by (subst sort_partition.simps) auto
  ultimately show ?thesis using range by (auto simp: partitioned_def p_def v_def)
qed

lemma sorted_pieces:
  assumes "sorted_wrt below low" and "sorted_wrt below high"
    and "\<forall>x\<in>set low. below x v" and "\<forall>x\<in>set mid. below x v \<and> below v x" and "\<forall>x\<in>set high. below v x"
  shows "sorted_wrt below (low @ mid @ high)"
proof -
  have "sorted_wrt below mid"
    using assms(4) by (induction mid) (auto intro: below_trans [of _ v])
  then show ?thesis
    using assms by (auto simp: sorted_wrt_append intro: below_trans [of _ v])
qed

theorem qsort_sorts:
  "\<exists>ys. qsort compare xs = Some (Inr ys) \<and> mset ys = mset xs \<and> sorted_wrt below ys"
proof (induction "length xs" arbitrary: xs rule: less_induct)
  case less
  show ?case
  proof (cases "length xs < 2")
    case True
    then have "sorted_wrt below xs" by (cases xs) auto
    then show ?thesis using True by (subst qsort.simps) simp
  next
    case False
    define v where "v = xs ! (length xs div 2)"
    obtain ys l r where part: "sort_partition compare xs (int (length xs div 2)) 0 (int (length xs) - 1) = Inr (ys, l, r)"
      and ok: "partitioned xs v ys l r"
      using partition_whole [of xs] False by (auto simp: v_def)
    define k where "k = nat r + 1"
    define m where "m = nat l"
    have len: "length ys = length xs" using ok by (auto simp: partitioned_def dest: mset_eq_length)
    have km: "k \<le> m" "m \<le> length xs" "k < length xs" "1 \<le> m" "\<not> r < 0" "\<not> l > int (length xs)"
      using ok by (auto simp: partitioned_def k_def m_def)
    have low_v: "below (ys ! j) v" if "j < m" for j
      using ok that by (auto simp: partitioned_def parted_def m_def dest: spec [of _ "int j"])
    have high_v: "below v (ys ! j)" if "k \<le> j" "j < length xs" for j
      using ok that len by (auto simp: partitioned_def parted_def k_def dest: spec [of _ "int j"])
    obtain low where low: "qsort compare (take k ys) = Some (Inr low)" "mset low = mset (take k ys)" "sorted_wrt below low"
      using less.hyps [of "take k ys"] km len by auto
    have low_len: "length low = k" using mset_eq_length [OF low(2)] km len by simp
    let ?mid = "take (m - k) (drop k ys)"
    have zs: "drop m (low @ drop k ys) = drop m ys" "take m (low @ drop k ys) = low @ ?mid"
      using km low_len by simp_all
    obtain high where high: "qsort compare (drop m ys) = Some (Inr high)" "mset high = mset (drop m ys)" "sorted_wrt below high"
      using less.hyps [of "drop m ys"] km len by fastforce
    have "qsort compare xs = Some (Inr ((low @ ?mid) @ high))"
      using False part km low(1) high(1) zs by (subst qsort.simps) (simp add: k_def m_def)
    moreover have "mset ((low @ ?mid) @ high) = mset xs"
    proof -
      have split: "ys = take k ys @ ?mid @ drop m ys"
        using km by (metis append_assoc append_take_drop_id drop_drop le_add_diff_inverse2 take_add)
      have "mset ((low @ ?mid) @ high) = mset (take k ys @ ?mid @ drop m ys)" using low(2) high(2) by simp
      also have "\<dots> = mset xs" using split ok by (simp add: partitioned_def)
      finally show ?thesis .
    qed
    moreover have "sorted_wrt below (low @ ?mid @ high)"
    proof (rule sorted_pieces [OF low(3) high(3)])
      show "\<forall>x\<in>set low. below x v"
        using low_v km mset_eq_setD [OF low(2)] by (auto simp: in_set_conv_nth)
      show "\<forall>x\<in>set ?mid. below x v \<and> below v x"
        using low_v high_v km len by (auto simp: in_set_conv_nth)
      show "\<forall>x\<in>set high. below v x"
        using high_v km len mset_eq_setD [OF high(2)] by (auto simp: in_set_conv_nth)
    qed
    ultimately show ?thesis by auto
  qed
qed

end

interpretation untyped_order: comparator compare_untyped_info
  by unfold_locales (auto simp: compare_untyped_info_def)

interpretation region_order: comparator power_of_two_region_compare
  by unfold_locales (auto simp: power_of_two_region_compare_def)



lemma int_cmp_overflows: "int_cmp (2 ^ 31 - 1) (- 1) = Inl Undefined"
  by (simp add: int_cmp_def)

section \<open>The programs' view of untyped memory\<close>

text \<open>
  \<open>setup_memory_information\<close> of \<open>user/userland.c\<close>: from the sizes in the boot information (an 8-bit
  member each) to the sorted table.
\<close>

definition memory_table :: "u8 list \<Rightarrow> untyped_info list" where
  "memory_table sizes = map (\<lambda>i. \<lparr>ui_size_bits = ucast (sizes ! i), ui_index = of_nat i, ui_in_use = False\<rparr>) [0..<length sizes]"

definition setup_memory_information :: "u8 list \<Rightarrow> (fault + untyped_info list) option" where
  "setup_memory_information sizes =
     (if length sizes \<le> 256 then qsort compare_untyped_info (memory_table sizes) else Some (Inl Undefined))"

lemma memory_table_sorted:
  assumes "length sizes \<le> 256"
  shows "\<exists>ys. setup_memory_information sizes = Some (Inr ys) \<and> mset ys = mset (memory_table sizes)
    \<and> sorted_wrt (\<lambda>a b. sint (ui_size_bits b) \<le> sint (ui_size_bits a)) ys"
  using untyped_order.qsort_sorts [of "memory_table sizes"] assms
  by (simp add: setup_memory_information_def untyped_order.below_def [abs_def] compare_untyped_info_def)

end
