(* ===== verification/Chacha.thy ===== *)
theory Chacha
  imports C_String
begin

text \<open>
  The ChaCha stream cipher (\<open>lib/chacha.c\<close>, \<open>include/chacha.h\<close>) and the random number generator built
  on it (\<open>lib/rng.c\<close>). The state of a block is the list of its 16 words, a buffer the list of its bytes.
  The theory shows that the rounds are a permutation of the states, that the cipher undoes itself, that
  a stream may be cut at a block boundary, and that the block function gives the test vector of its
  specification, RFC 8439.
\<close>

section \<open>The block function\<close>

definition rol :: "u32 \<Rightarrow> nat \<Rightarrow> u32" where
  "rol x n = push_bit n x OR drop_bit (32 - n) x"

definition quarter_round :: "nat \<Rightarrow> nat \<Rightarrow> nat \<Rightarrow> nat \<Rightarrow> u32 list \<Rightarrow> u32 list" where
  "quarter_round a b c d st =
     (let st = st[a := st ! a + st ! b];
          st = st[d := rol (st ! d XOR st ! a) 16];
          st = st[c := st ! c + st ! d];
          st = st[b := rol (st ! b XOR st ! c) 12];
          st = st[a := st ! a + st ! b];
          st = st[d := rol (st ! d XOR st ! a) 8];
          st = st[c := st ! c + st ! d]
      in st[b := rol (st ! b XOR st ! c) 7])"

text \<open>The eight quarter rounds of one turn of the loop: the columns, then the diagonals.\<close>

definition round_pattern :: "(nat \<times> nat \<times> nat \<times> nat) list" where
  "round_pattern = [(0, 4, 8, 12), (1, 5, 9, 13), (2, 6, 10, 14), (3, 7, 11, 15),
     (0, 5, 10, 15), (1, 6, 11, 12), (2, 7, 8, 13), (3, 4, 9, 14)]"

definition double_round :: "u32 list \<Rightarrow> u32 list" where
  "double_round st = fold (\<lambda>(a, b, c, d). quarter_round a b c d) round_pattern st"

definition do_chacha_block :: "u32 list \<Rightarrow> nat \<Rightarrow> bool \<Rightarrow> u32 list" where
  "do_chacha_block st rounds re_add =
     (let st' = (double_round ^^ (rounds div 2)) st
      in if re_add then map2 (+) st' st else st')"

section \<open>The cipher\<close>

record chacha =
  cc_counter :: u32
  cc_key :: "u8 list"
  cc_nonce :: "u8 list"

text \<open>What \<open>memcpy\<close> from bytes to words, and reading a word array bytewise, do on this machine.\<close>

fun bytes_to_words :: "u8 list \<Rightarrow> u32 list" where
  "bytes_to_words (b0 # b1 # b2 # b3 # bs) =
     (ucast b0 OR push_bit 8 (ucast b1) OR push_bit 16 (ucast b2) OR push_bit 24 (ucast b3)) # bytes_to_words bs"
| "bytes_to_words _ = []"

definition word_bytes :: "u32 \<Rightarrow> u8 list" where
  "word_bytes w = map (\<lambda>i. ucast (drop_bit (8 * i) w)) [0, 1, 2, 3]"

definition chacha_constants :: "u32 list" where
  "chacha_constants = [0x61707865, 0x3320646E, 0x79622D32, 0x6B206574]"

definition initial_state :: "chacha \<Rightarrow> u32 list" where
  "initial_state cc =
     chacha_constants @ bytes_to_words (cc_key cc) @ [cc_counter cc] @ bytes_to_words (cc_nonce cc)"

definition key_stream_block :: "chacha \<Rightarrow> nat \<Rightarrow> u8 list" where
  "key_stream_block cc rounds = concat (map word_bytes (do_chacha_block (initial_state cc) rounds True))"

definition next_block :: "chacha \<Rightarrow> chacha" where
  "next_block cc = cc\<lparr>cc_counter := cc_counter cc + 1\<rparr>"

function xor_chacha :: "chacha \<Rightarrow> u8 list \<Rightarrow> nat \<Rightarrow> chacha \<times> u8 list" where
  "xor_chacha cc buf rounds =
     (let block = map2 (XOR) (take 64 buf) (key_stream_block cc rounds);
          cc' = next_block cc
      in if length buf \<le> 64 then (cc', block)
         else (case xor_chacha cc' (drop 64 buf) rounds of (cc'', rest) \<Rightarrow> (cc'', block @ rest)))"
  by auto
termination by (relation "measure (\<lambda>(cc, buf, rounds). length buf)") auto

declare xor_chacha.simps [simp del]

section \<open>The generator\<close>

definition seed_bytes :: "word_t \<Rightarrow> u8 list" where
  "seed_bytes seed = map (\<lambda>i. ucast (drop_bit (8 * i) seed)) [0 ..< 8]"

definition init_random :: "word_t \<Rightarrow> chacha \<Rightarrow> chacha" where
  "init_random seed cc = cc\<lparr>cc_counter := 1, cc_key := seed_bytes seed @ drop 8 (cc_key cc)\<rparr>"

text \<open>
  \<open>random_u64\<close> does not initialise the variable it encrypts: \<open>junk\<close> is what the memory of the variable
  holds. The result is the eight bytes of the variable as the cipher leaves them.
\<close>

definition random_u64 :: "u8 list \<Rightarrow> chacha \<Rightarrow> chacha \<times> u8 list" where
  "random_u64 junk cc = xor_chacha cc junk 20"

section \<open>Properties\<close>

text \<open>Each quarter round can be undone.\<close>

definition ror :: "u32 \<Rightarrow> nat \<Rightarrow> u32" where
  "ror x n = drop_bit n x OR push_bit (32 - n) x"

lemma ror_rol: "0 < n \<Longrightarrow> n < 32 \<Longrightarrow> ror (rol x n) n = x"
proof (rule bit_word_eqI)
  fix i assume "0 < n" "n < 32" "i < LENGTH(32)"
  moreover have "32 + (i + n - 32) - n = i" if "32 \<le> i + n" using that by simp
  ultimately show "bit (ror (rol x n) n) i = bit x i"
    by (cases "i + n < 32")
      (auto simp: ror_def rol_def bit_or_iff bit_push_bit_iff bit_drop_bit_eq add.commute dest: bit_imp_le_length)
qed

definition quarter_round_back :: "nat \<Rightarrow> nat \<Rightarrow> nat \<Rightarrow> nat \<Rightarrow> u32 list \<Rightarrow> u32 list" where
  "quarter_round_back a b c d st =
     (let st = st[b := ror (st ! b) 7 XOR st ! c];
          st = st[c := st ! c - st ! d];
          st = st[d := ror (st ! d) 8 XOR st ! a];
          st = st[a := st ! a - st ! b];
          st = st[b := ror (st ! b) 12 XOR st ! c];
          st = st[c := st ! c - st ! d];
          st = st[d := ror (st ! d) 16 XOR st ! a]
      in st[a := st ! a - st ! b])"

lemma length_quarter_round [simp]: "length (quarter_round a b c d st) = length st"
  by (simp add: quarter_round_def Let_def)

lemma xor_cancel: "(x XOR y) XOR y = (x :: 'a :: ring_bit_operations)"
  by (simp add: xor.assoc)

lemma quarter_round_undone:
  assumes "distinct [a, b, c, d]" and "\<forall>i\<in>set [a, b, c, d]. i < length st"
  shows "quarter_round_back a b c d (quarter_round a b c d st) = st"
  using assms
  by (intro nth_equalityI)
    (auto simp: quarter_round_def quarter_round_back_def Let_def nth_list_update ror_rol xor_cancel)

lemma rounds_distinct:
  "length st = 16 \<Longrightarrow> (a, b, c, d) \<in> set round_pattern \<Longrightarrow> distinct [a, b, c, d] \<and> (\<forall>i\<in>set [a, b, c, d]. i < length st)"
  by (auto simp: round_pattern_def)

lemma length_fold_rounds [simp]: "length (fold (\<lambda>(a, b, c, d). quarter_round a b c d) ps st) = length st"
  by (induction ps arbitrary: st) auto

lemma length_double_round [simp]: "length (double_round st) = length st"
  by (simp add: double_round_def)

lemma length_double_rounds [simp]: "length ((double_round ^^ n) st) = length st"
  by (induction n) simp_all

lemma quarter_rounds_inj:
  assumes "\<forall>(a, b, c, d)\<in>set ps. distinct [a, b, c, d] \<and> (\<forall>i\<in>set [a, b, c, d]. i < 16)"
    and "length st = 16" and "length st' = 16"
    and "fold (\<lambda>(a, b, c, d). quarter_round a b c d) ps st = fold (\<lambda>(a, b, c, d). quarter_round a b c d) ps st'"
  shows "st = st'"
  using assms
proof (induction ps arbitrary: st st')
  case (Cons p ps)
  obtain a b c d where p: "p = (a, b, c, d)" by (cases p) auto
  have "quarter_round a b c d st = quarter_round a b c d st'"
    using Cons.IH [of "quarter_round a b c d st" "quarter_round a b c d st'"] Cons.prems by (simp add: p)
  then have "quarter_round_back a b c d (quarter_round a b c d st) = quarter_round_back a b c d (quarter_round a b c d st')"
    by simp
  moreover have "quarter_round_back a b c d (quarter_round a b c d s) = s" if "length s = 16" for s
    using Cons.prems(1) that by (intro quarter_round_undone) (auto simp: p)
  ultimately show ?case using Cons.prems by simp
qed simp

lemma double_round_inj: "length st = 16 \<Longrightarrow> length st' = 16 \<Longrightarrow> double_round st = double_round st' \<Longrightarrow> st = st'"
  unfolding double_round_def by (rule quarter_rounds_inj [of round_pattern]) (auto simp: round_pattern_def)

lemma double_rounds_inj:
  "length st = 16 \<Longrightarrow> length st' = 16 \<Longrightarrow> (double_round ^^ n) st = (double_round ^^ n) st' \<Longrightarrow> st = st'"
  by (induction n arbitrary: st st') (auto dest!: double_round_inj [rotated 2])

text \<open>The lengths.\<close>

definition chacha_ok :: "chacha \<Rightarrow> bool" where
  "chacha_ok cc \<longleftrightarrow> length (cc_key cc) = 32 \<and> length (cc_nonce cc) = 12"

lemma length_bytes_to_words: "length (bytes_to_words bs) = length bs div 4"
  by (induction bs rule: bytes_to_words.induct) auto

lemma length_initial_state: "chacha_ok cc \<Longrightarrow> length (initial_state cc) = 16"
  by (simp add: initial_state_def chacha_constants_def chacha_ok_def length_bytes_to_words)

lemma length_concat_word_bytes: "length (concat (map word_bytes ws)) = 4 * length ws" for ws
  by (induction ws) (auto simp: word_bytes_def)

lemma length_key_stream [simp]: "chacha_ok cc \<Longrightarrow> length (key_stream_block cc rounds) = 64"
  by (simp add: key_stream_block_def do_chacha_block_def Let_def length_concat_word_bytes length_initial_state del: map_map)

lemma next_block_ok [simp]: "chacha_ok (next_block cc) \<longleftrightarrow> chacha_ok cc"
  by (simp add: next_block_def chacha_ok_def)

lemma length_xor_chacha: "chacha_ok cc \<Longrightarrow> length (snd (xor_chacha cc buf rounds)) = length buf"
proof (induction cc buf rounds rule: xor_chacha.induct)
  case (1 cc buf rounds)
  show ?case
    using "1.prems" "1.IH" [OF refl refl]
    by (subst xor_chacha.simps) (auto simp: Let_def split: prod.split)
qed

text \<open>How many blocks a call uses: one even for an empty buffer.\<close>

definition blocks :: "nat \<Rightarrow> nat" where
  "blocks n = max 1 ((n + 63) div 64)"

lemma blocks_step: "64 < n \<Longrightarrow> blocks n = Suc (blocks (n - 64))"
  by (simp add: blocks_def)

lemma counter_after: "fst (xor_chacha cc buf rounds) = cc\<lparr>cc_counter := cc_counter cc + of_nat (blocks (length buf))\<rparr>"
proof (induction cc buf rounds rule: xor_chacha.induct)
  case (1 cc buf rounds)
  show ?case
  proof (cases "length buf \<le> 64")
    case True
    then have "blocks (length buf) = 1" by (simp add: blocks_def)
    then show ?thesis using True by (subst xor_chacha.simps) (simp add: Let_def next_block_def)
  next
    case False
    then have "blocks (length buf) = Suc (blocks (length (drop 64 buf)))" by (simp add: blocks_step)
    then show ?thesis using "1.IH" [OF refl refl] False
      by (subst xor_chacha.simps) (auto simp: Let_def next_block_def add.assoc split: prod.split)
  qed
qed

lemma map2_xor_xor:
  "length xs \<le> length ks \<Longrightarrow> map2 (XOR) (map2 (XOR) xs ks) ks = (xs :: u8 list)"
  by (induction xs ks rule: list_induct2') (auto simp: xor_cancel)

lemma xor_chacha_twice: "chacha_ok cc \<Longrightarrow> snd (xor_chacha cc (snd (xor_chacha cc buf rounds)) rounds) = buf"
proof (induction cc buf rounds rule: xor_chacha.induct)
  case (1 cc buf rounds)
  let ?block = "map2 (XOR) (take 64 buf) (key_stream_block cc rounds)"
  have block: "map2 (XOR) ?block (key_stream_block cc rounds) = take 64 buf" "length ?block = min 64 (length buf)"
    using "1.prems" by (auto simp: map2_xor_xor)
  show ?case
  proof (cases "length buf \<le> 64")
    case True
    then have "snd (xor_chacha cc buf rounds) = ?block" by (subst xor_chacha.simps) (simp add: Let_def)
    moreover have "snd (xor_chacha cc ?block rounds) = buf"
      using True block by (subst xor_chacha.simps) (simp add: Let_def min_def)
    ultimately show ?thesis by simp
  next
    case False
    let ?rest = "snd (xor_chacha (next_block cc) (drop 64 buf) rounds)"
    have rest: "length ?rest = length buf - 64" using "1.prems" by (simp add: length_xor_chacha)
    have "snd (xor_chacha cc buf rounds) = ?block @ ?rest"
      using False by (subst xor_chacha.simps) (simp add: Let_def split: prod.split)
    moreover have "snd (xor_chacha cc (?block @ ?rest) rounds) =
        take 64 buf @ snd (xor_chacha (next_block cc) ?rest rounds)"
      using False block rest by (subst xor_chacha.simps) (simp add: Let_def min_def split: prod.split)
    ultimately show ?thesis using "1.IH" [OF refl refl] "1.prems" False by simp
  qed
qed

text \<open>A buffer may be encrypted in pieces, if all but the last consist of whole blocks.\<close>

lemma xor_chacha_append:
  assumes "length xs = 64 * Suc k" and "ys \<noteq> []"
  shows "xor_chacha cc (xs @ ys) rounds =
    (case xor_chacha cc xs rounds of (cc', xs') \<Rightarrow>
       case xor_chacha cc' ys rounds of (cc'', ys') \<Rightarrow> (cc'', xs' @ ys'))"
  using assms
proof (induction k arbitrary: cc xs)
  case 0
  have "0 < length ys" using 0 by simp
  then have "\<not> length (xs @ ys) \<le> 64" using 0(1) unfolding length_append by linarith
  then show ?case using 0 by (subst xor_chacha.simps, subst (2) xor_chacha.simps) (simp add: Let_def split: prod.split)
next
  case (Suc k)
  have xs: "\<not> length xs \<le> 64" "\<not> length (xs @ ys) \<le> 64" "length (drop 64 xs) = 64 * Suc k" using Suc.prems by simp_all
  then show ?case using Suc.IH [OF xs(3) Suc.prems(2)]
    by (subst xor_chacha.simps, subst (2) xor_chacha.simps) (simp add: Let_def split: prod.split)
qed

text \<open>
  The test vector of RFC 8439, section 2.3.2: the key 0, 1, .., 31, the nonce 0, 0, 0, 9, 0, 0, 0, 0x4A,
  0, 0, 0, 0 and the counter 1, in steps of one double round.
\<close>

definition rfc_block :: chacha where
  "rfc_block = \<lparr>cc_counter = 1, cc_key = map of_nat [0 ..< 32], cc_nonce = [0, 0, 0, 9, 0, 0, 0, 0x4A, 0, 0, 0, 0]\<rparr>"

lemma rfc_initial_state:
  "initial_state rfc_block =
     [0x61707865, 0x3320646E, 0x79622D32, 0x6B206574, 0x03020100, 0x07060504, 0x0B0A0908, 0x0F0E0D0C,
      0x13121110, 0x17161514, 0x1B1A1918, 0x1F1E1D1C, 0x00000001, 0x09000000, 0x4A000000, 0x00000000]"
  by code_simp

lemma rfc_double_rounds:
  "double_round [0x61707865, 0x3320646E, 0x79622D32, 0x6B206574, 0x03020100, 0x07060504, 0x0B0A0908, 0x0F0E0D0C,
      0x13121110, 0x17161514, 0x1B1A1918, 0x1F1E1D1C, 0x00000001, 0x09000000, 0x4A000000, 0x00000000] =
     [0xCD52E917, 0x85AB03B4, 0xB3457395, 0xF96DE7DD, 0xC4B7CD22, 0x5C2E187A, 0xC95EB461, 0x316C801A,
      0x7BF7D740, 0x7EDDD644, 0xF1A1BDF5, 0x761246CA, 0x6B0D58A3, 0x6798471A, 0xD737F167, 0xF173888D]"
  "double_round [0xCD52E917, 0x85AB03B4, 0xB3457395, 0xF96DE7DD, 0xC4B7CD22, 0x5C2E187A, 0xC95EB461, 0x316C801A,
      0x7BF7D740, 0x7EDDD644, 0xF1A1BDF5, 0x761246CA, 0x6B0D58A3, 0x6798471A, 0xD737F167, 0xF173888D] =
     [0xCF1A7584, 0x048927EC, 0x54051FDA, 0xC244FF28, 0x901D2F40, 0x7974B81C, 0x378DCFB4, 0xCD47FD0E,
      0x2DAFB216, 0x27C89CD6, 0xCD3C9AA0, 0x79FC89C7, 0x10AEF18D, 0x16218765, 0x68F76705, 0x04D6EE22]"
  "double_round [0xCF1A7584, 0x048927EC, 0x54051FDA, 0xC244FF28, 0x901D2F40, 0x7974B81C, 0x378DCFB4, 0xCD47FD0E,
      0x2DAFB216, 0x27C89CD6, 0xCD3C9AA0, 0x79FC89C7, 0x10AEF18D, 0x16218765, 0x68F76705, 0x04D6EE22] =
     [0x03A14032, 0x66B15927, 0x9D6B6B42, 0xB84C4109, 0xA7143AE0, 0xA09B33DD, 0xA5DAAF88, 0x2FD91A73,
      0xC90C6B18, 0x5A202413, 0xC20E01B6, 0x72CD6B74, 0xBA35D777, 0xB360F1BF, 0x8178315B, 0x2CD11B1A]"
  "double_round [0x03A14032, 0x66B15927, 0x9D6B6B42, 0xB84C4109, 0xA7143AE0, 0xA09B33DD, 0xA5DAAF88, 0x2FD91A73,
      0xC90C6B18, 0x5A202413, 0xC20E01B6, 0x72CD6B74, 0xBA35D777, 0xB360F1BF, 0x8178315B, 0x2CD11B1A] =
     [0x9A2D3589, 0x0B23FC4E, 0x40AF3B6B, 0xCEEA8144, 0x0A1BFFC6, 0x5E5993F7, 0x9904C2E7, 0x0D334718,
      0xE46C6354, 0xC9503229, 0x04FEF5AA, 0xF8933F72, 0x2687D476, 0x54E65231, 0x3594FFC5, 0x2B3BB2CA]"
  "double_round [0x9A2D3589, 0x0B23FC4E, 0x40AF3B6B, 0xCEEA8144, 0x0A1BFFC6, 0x5E5993F7, 0x9904C2E7, 0x0D334718,
      0xE46C6354, 0xC9503229, 0x04FEF5AA, 0xF8933F72, 0x2687D476, 0x54E65231, 0x3594FFC5, 0x2B3BB2CA] =
     [0xC53318C5, 0xCA325D96, 0x7E7D11CB, 0x3404E2CA, 0x26D7CF73, 0x6088D379, 0xC0F0E9BD, 0xE310CDB9,
      0xAE2CA8DB, 0x42F67C72, 0x71669ACA, 0x975C171D, 0x9E5EC228, 0x7D85A9F3, 0x201D0756, 0x63FA6953]"
  "double_round [0xC53318C5, 0xCA325D96, 0x7E7D11CB, 0x3404E2CA, 0x26D7CF73, 0x6088D379, 0xC0F0E9BD, 0xE310CDB9,
      0xAE2CA8DB, 0x42F67C72, 0x71669ACA, 0x975C171D, 0x9E5EC228, 0x7D85A9F3, 0x201D0756, 0x63FA6953] =
     [0x04A3131A, 0x66176309, 0x0415BAB1, 0x61B880A2, 0x36CC86C7, 0xBF8A4465, 0xF77DD720, 0xFC0BDC90,
      0x07D13ACA, 0xEB0BE9AF, 0x61599491, 0x918512DC, 0x33B6686D, 0x795CC671, 0xC0049972, 0xA0A81BDE]"
  "double_round [0x04A3131A, 0x66176309, 0x0415BAB1, 0x61B880A2, 0x36CC86C7, 0xBF8A4465, 0xF77DD720, 0xFC0BDC90,
      0x07D13ACA, 0xEB0BE9AF, 0x61599491, 0x918512DC, 0x33B6686D, 0x795CC671, 0xC0049972, 0xA0A81BDE] =
     [0x9B70F51F, 0x7EA8AC11, 0x21E54DA9, 0xCA393B2F, 0x93B08686, 0x6A4C50AE, 0x19212A5A, 0x9B032958,
      0xD839165E, 0x4C06E28A, 0xD3FDE99E, 0x26ACC13D, 0xA609F555, 0x2C246549, 0x95151853, 0x2C847A0D]"
  "double_round [0x9B70F51F, 0x7EA8AC11, 0x21E54DA9, 0xCA393B2F, 0x93B08686, 0x6A4C50AE, 0x19212A5A, 0x9B032958,
      0xD839165E, 0x4C06E28A, 0xD3FDE99E, 0x26ACC13D, 0xA609F555, 0x2C246549, 0x95151853, 0x2C847A0D] =
     [0xCA5C85DD, 0x93A4F90E, 0xD9F0DF58, 0x26DD82DD, 0x982563F8, 0x712AA9FF, 0x279A61E8, 0x970F72BD,
      0x1C25931A, 0x5180BB10, 0x779C27E7, 0x54077E08, 0xA9B751FB, 0x382F3CE2, 0x8DB1757D, 0xCC38080B]"
  "double_round [0xCA5C85DD, 0x93A4F90E, 0xD9F0DF58, 0x26DD82DD, 0x982563F8, 0x712AA9FF, 0x279A61E8, 0x970F72BD,
      0x1C25931A, 0x5180BB10, 0x779C27E7, 0x54077E08, 0xA9B751FB, 0x382F3CE2, 0x8DB1757D, 0xCC38080B] =
     [0xB6B87DE6, 0x9A016148, 0x93859815, 0x4915E6CC, 0xDC33C122, 0x98E18FA3, 0x5FFBE8FC, 0xF7154B8B,
      0x28C1FCB3, 0xC4B38F9D, 0x83E2F5D7, 0x7D24B98B, 0x21078B22, 0xB193E7A3, 0xB2F49389, 0x6CDE6026]"
  "double_round [0xB6B87DE6, 0x9A016148, 0x93859815, 0x4915E6CC, 0xDC33C122, 0x98E18FA3, 0x5FFBE8FC, 0xF7154B8B,
      0x28C1FCB3, 0xC4B38F9D, 0x83E2F5D7, 0x7D24B98B, 0x21078B22, 0xB193E7A3, 0xB2F49389, 0x6CDE6026] =
     [0x837778AB, 0xE238D763, 0xA67AE21E, 0x5950BB2F, 0xC4F2D0C7, 0xFC62BB2F, 0x8FA018FC, 0x3F5EC7B7,
      0x335271C2, 0xF29489F3, 0xEABDA8FC, 0x82E46EBD, 0xD19C12B4, 0xB04E16DE, 0x9E83D0CB, 0x4E3C50A2]"
  by code_simp+

lemma rfc_test_vector:
  "do_chacha_block (initial_state rfc_block) 20 True =
     [0xE4E7F110, 0x15593BD1, 0x1FDD0F50, 0xC47120A3, 0xC7F4D1C7, 0x0368C033, 0x9AAA2204, 0x4E6CD4C3,
      0x466482D2, 0x09AA9F07, 0x05D7C214, 0xA2028BD9, 0xD19C12B5, 0xB94E16DE, 0xE883D0CB, 0x4E3C50A2]"
proof -
  have ten: "(f ^^ 10) x = f (f (f (f (f (f (f (f (f (f x)))))))))" for f :: "u32 list \<Rightarrow> u32 list" and x
    by (simp add: eval_nat_numeral)
  show ?thesis
    unfolding do_chacha_block_def rfc_initial_state by (simp add: ten rfc_double_rounds)
qed

text \<open>Two blocks of one key stream never start from states that the rounds map to the same state.\<close>

lemma key_stream_states_differ:
  assumes "chacha_ok cc" and "cc_counter cc' \<noteq> cc_counter cc" and "cc_key cc' = cc_key cc" and "cc_nonce cc' = cc_nonce cc"
  shows "do_chacha_block (initial_state cc') rounds False \<noteq> do_chacha_block (initial_state cc) rounds False"
proof
  assume "do_chacha_block (initial_state cc') rounds False = do_chacha_block (initial_state cc) rounds False"
  moreover have "chacha_ok cc'" using assms by (simp add: chacha_ok_def)
  ultimately have "initial_state cc' = initial_state cc"
    using assms(1) double_rounds_inj by (auto simp: do_chacha_block_def Let_def length_initial_state)
  then show False using assms by (simp add: initial_state_def)
qed



text \<open>A random number is the key stream only up to what the uninitialised variable held.\<close>

lemma random_depends_on_junk:
  assumes "chacha_ok cc" and "length junk = 8"
  shows "snd (random_u64 junk cc) = map2 (XOR) junk (key_stream_block cc 20)"
  using assms by (subst random_u64_def, subst xor_chacha.simps) (simp add: Let_def)

end
