(* ===== verification/Slot_Alloc.thy ===== *)
theory Slot_Alloc
  imports C_String
begin

text \<open>
  The allocator of capability slots in user programs (\<open>lib/cptr_alloc.c\<close>): a bitmap of the slots of the
  root node, with a search for one slot and for a range of slots. The array is zero before
  \<open>cptr_alloc_init\<close> and always has 512 words.
\<close>

section \<open>The slot bitmap\<close>

abbreviation (input) BITMAP_SIZE :: nat where "BITMAP_SIZE \<equiv> 512"
abbreviation (input) BITS_PER_WORD :: nat where "BITS_PER_WORD \<equiv> 64"

type_synonym bitmap = "word_t list"

definition slot_used :: "bitmap \<Rightarrow> nat \<Rightarrow> bool" where
  "slot_used bm i \<longleftrightarrow> bit (bm ! (i div BITS_PER_WORD)) (i mod BITS_PER_WORD)"

definition use_slot :: "nat \<Rightarrow> bitmap \<Rightarrow> bitmap" where
  "use_slot i bm = bm[i div BITS_PER_WORD := bm ! (i div BITS_PER_WORD) OR push_bit (i mod BITS_PER_WORD) 1]"

definition free_slot :: "nat \<Rightarrow> bitmap \<Rightarrow> bitmap" where
  "free_slot i bm = bm[i div BITS_PER_WORD := bm ! (i div BITS_PER_WORD) AND NOT (push_bit (i mod BITS_PER_WORD) 1)]"

text \<open>\<open>for (i = start; i < end; i++)\<close> with \<open>n\<close> iterations; an index behind the array is undefined.\<close>

fun each_slot :: "(nat \<Rightarrow> bitmap \<Rightarrow> bitmap) \<Rightarrow> nat \<Rightarrow> nat \<Rightarrow> bitmap \<Rightarrow> fault + bitmap" where
  "each_slot f i 0 bm = Inr bm"
| "each_slot f i (Suc n) bm = (if i div BITS_PER_WORD < length bm then each_slot f (Suc i) n (f i bm) else Inl Undefined)"

definition cptr_set_range :: "cptr_t \<Rightarrow> cptr_t \<Rightarrow> bitmap \<Rightarrow> fault + bitmap" where
  "cptr_set_range start end_ptr bm = each_slot use_slot (unat start) (unat end_ptr - unat start) bm"

definition cptr_clear_range :: "cptr_t \<Rightarrow> cptr_t \<Rightarrow> bitmap \<Rightarrow> fault + bitmap" where
  "cptr_clear_range start end_ptr bm = each_slot free_slot (unat start) (unat end_ptr - unat start) bm"

text \<open>The empty range of the boot information is free, the other slots of the root node are in use.\<close>

definition cptr_alloc_init :: "cptr_t \<Rightarrow> cptr_t \<Rightarrow> bitmap \<Rightarrow> fault + bitmap" where
  "cptr_alloc_init empty_start empty_end bm =
     ebind (cptr_set_range 0 (push_bit 12 1) bm) (cptr_clear_range empty_start empty_end)"

text \<open>
  \<open>cptr_alloc\<close> shifts the \<open>int\<close> 1, which overflows from bit 31 on. The inner loop over bit \<open>j\<close> has \<open>k\<close>
  iterations left.
\<close>

fun alloc_bit :: "word_t \<Rightarrow> nat \<Rightarrow> nat \<Rightarrow> fault + nat option" where
  "alloc_bit w j 0 = Inr None"
| "alloc_bit w j (Suc k) =
     (if j \<ge> 31 then Inl Undefined
      else if w AND push_bit j 1 = 0 then Inr (Some j) else alloc_bit w (Suc j) k)"

fun cptr_alloc_from :: "nat \<Rightarrow> nat \<Rightarrow> bitmap \<Rightarrow> fault + (cptr_t \<times> bitmap)" where
  "cptr_alloc_from i 0 bm = Inr (- 1, bm)"
| "cptr_alloc_from i (Suc k) bm =
     (if bm ! i \<noteq> 0xFFFFFFFFFFFFFFFF
      then ebind (alloc_bit (bm ! i) 0 64) (\<lambda>found. case found of
          Some j \<Rightarrow> Inr (of_nat (i * 64 + j), use_slot (i * 64 + j) bm)
        | None \<Rightarrow> cptr_alloc_from (Suc i) k bm)
      else cptr_alloc_from (Suc i) k bm)"

definition cptr_alloc :: "bitmap \<Rightarrow> fault + (cptr_t \<times> bitmap)" where
  "cptr_alloc bm = cptr_alloc_from 0 BITMAP_SIZE bm"

text \<open>The check whether \<open>n\<close> slots from word \<open>i\<close>, bit \<open>j\<close> on are free, from the \<open>k\<close>-th slot on.\<close>

fun range_free :: "bitmap \<Rightarrow> nat \<Rightarrow> nat \<Rightarrow> nat \<Rightarrow> nat \<Rightarrow> bool" where
  "range_free bm i j k 0 = True"
| "range_free bm i j k (Suc n) =
     (let idx = i + (j + k) div BITS_PER_WORD; b = (j + k) mod BITS_PER_WORD in
      if idx \<ge> BITMAP_SIZE \<or> bm ! idx AND push_bit b 1 \<noteq> 0 then False else range_free bm i j (Suc k) n)"

fun mark_range :: "nat \<Rightarrow> nat \<Rightarrow> nat \<Rightarrow> nat \<Rightarrow> bitmap \<Rightarrow> bitmap" where
  "mark_range i j k 0 bm = bm"
| "mark_range i j k (Suc n) bm =
     (let idx = (i * BITS_PER_WORD + j + k) div BITS_PER_WORD; b = (j + k) mod BITS_PER_WORD in
      mark_range i j (Suc k) n (bm[idx := bm ! idx OR push_bit b 1]))"

text \<open>The loop over the bits \<open>j\<close> of a word; an enclosing loop repeats it, which changes nothing.\<close>

fun first_fit :: "bitmap \<Rightarrow> nat \<Rightarrow> nat \<Rightarrow> nat \<Rightarrow> nat \<Rightarrow> nat option" where
  "first_fit bm i n j 0 = None"
| "first_fit bm i n j (Suc k) = (if range_free bm i j 0 n then Some j else first_fit bm i n (Suc j) k)"

fun cptr_alloc_range_from :: "nat \<Rightarrow> nat \<Rightarrow> nat \<Rightarrow> bitmap \<Rightarrow> cptr_t \<times> bitmap" where
  "cptr_alloc_range_from n i 0 bm = (- 1, bm)"
| "cptr_alloc_range_from n i (Suc k) bm =
     (if bm ! i \<noteq> 0xFFFFFFFFFFFFFFFF
      then (case first_fit bm i n 0 64 of
          Some j \<Rightarrow> (of_nat (i * BITS_PER_WORD + j), mark_range i j 0 n bm)
        | None \<Rightarrow> cptr_alloc_range_from n (Suc i) k bm)
      else cptr_alloc_range_from n (Suc i) k bm)"

definition cptr_alloc_range :: "word_t \<Rightarrow> bitmap \<Rightarrow> cptr_t \<times> bitmap" where
  "cptr_alloc_range n bm = cptr_alloc_range_from (unat n) 0 BITMAP_SIZE bm"

definition cptr_free :: "cptr_t \<Rightarrow> bitmap \<Rightarrow> fault + bitmap" where
  "cptr_free cptr bm =
     (if unat cptr mod 64 \<ge> 31 \<or> unat cptr div 64 \<ge> length bm then Inl Undefined else Inr (free_slot (unat cptr) bm))"

section \<open>Allocating a range\<close>

lemma word_bit_free: "b < 64 \<Longrightarrow> (w :: word_t) AND push_bit b 1 = 0 \<longleftrightarrow> \<not> bit w b"
  by (simp add: and_exp_eq_0_iff_not_bit)

lemma word_position: "i * 64 + j + k = 64 * (i + (j + k) div 64) + (j + k) mod (64 :: nat)"
  by simp

lemma position_parts:
  "(i * 64 + j + k) div 64 = i + (j + k) div 64" "(i * 64 + j + k) mod 64 = (j + k) mod (64 :: nat)"
  by (simp_all add: add.assoc)

lemma range_free_iff:
  assumes "length bm = BITMAP_SIZE"
  shows "range_free bm i j k n \<longleftrightarrow>
    (\<forall>p. i * 64 + j + k \<le> p \<and> p < i * 64 + j + k + n \<longrightarrow> p < 32768 \<and> \<not> slot_used bm p)"
proof (induction n arbitrary: k)
  case 0
  show ?case by auto
next
  case (Suc n)
  let ?p = "i * 64 + j + k"
  have here: "\<not> (i + (j + k) div 64 \<ge> BITMAP_SIZE \<or> bm ! (i + (j + k) div 64) AND push_bit ((j + k) mod 64) 1 \<noteq> 0)
      \<longleftrightarrow> ?p < 32768 \<and> \<not> slot_used bm ?p"
    by (auto simp: slot_used_def position_parts word_bit_free simp del: push_bit_of_1)
  have "(\<forall>p. q \<le> p \<and> p < q + Suc n \<longrightarrow> P p) \<longleftrightarrow> P q \<and> (\<forall>p. Suc q \<le> p \<and> p < Suc q + n \<longrightarrow> P p)" for P q
    unfolding Suc_le_eq by (auto simp: le_less)
  from this [of ?p] show ?case using Suc.IH [of "Suc k"] here by (auto simp: Let_def simp del: push_bit_of_1)
qed

lemma slot_used_use_slot:
  assumes "q div 64 < length bm"
  shows "slot_used (use_slot q bm) p \<longleftrightarrow> slot_used bm p \<or> p = q"
proof -
  have "p = q \<longleftrightarrow> p div 64 = q div 64 \<and> p mod 64 = q mod 64" by (metis div_mult_mod_eq)
  then show ?thesis
    using assms by (auto simp: slot_used_def use_slot_def nth_list_update bit_or_iff bit_push_bit_iff bit_1_iff simp del: push_bit_of_1)
qed

lemma mark_range_step:
  "mark_range i j k (Suc n) bm = mark_range i j (Suc k) n (use_slot (i * 64 + j + k) bm)"
  by (simp add: Let_def use_slot_def position_parts)

lemma mark_range_used:
  assumes "length bm = BITMAP_SIZE" and "i * 64 + j + k + n \<le> 32768"
  shows "length (mark_range i j k n bm) = BITMAP_SIZE \<and>
    (slot_used (mark_range i j k n bm) p \<longleftrightarrow> slot_used bm p \<or> i * 64 + j + k \<le> p \<and> p < i * 64 + j + k + n)"
  using assms
proof (induction n arbitrary: k bm)
  case 0
  then show ?case by auto
next
  case (Suc n)
  let ?q = "i * 64 + j + k"
  let ?bm = "use_slot ?q bm"
  have "?q div 64 < length bm" using Suc.prems by simp
  note used = slot_used_use_slot [OF this, of p]
  have "length (mark_range i j (Suc k) n ?bm) = BITMAP_SIZE \<and>
      (slot_used (mark_range i j (Suc k) n ?bm) p \<longleftrightarrow> slot_used ?bm p \<or> ?q + 1 \<le> p \<and> p < ?q + 1 + n)"
    using Suc.IH [of ?bm "Suc k"] Suc.prems by (simp add: use_slot_def)
  then show ?case unfolding mark_range_step used by auto
qed

lemma first_fit_Some:
  "first_fit bm i n j k = Some m \<Longrightarrow> j \<le> m \<and> m < j + k \<and> range_free bm i m 0 n"
  by (induction bm i n j k rule: first_fit.induct) (auto split: if_splits)

lemma first_fit_None:
  "first_fit bm i n j k = None \<Longrightarrow> j \<le> m \<Longrightarrow> m < j + k \<Longrightarrow> \<not> range_free bm i m 0 n"
proof (induction bm i n j k rule: first_fit.induct)
  case (2 bm i n j k)
  then show ?case by (cases "m = j") (auto split: if_splits)
qed simp

text \<open>What a search from word \<open>i\<close> on returns: a free range, or nothing when none starts there.\<close>

lemma alloc_range_search:
  assumes "length bm = BITMAP_SIZE" and "0 < n"
  shows "i + k = BITMAP_SIZE \<Longrightarrow>
    (\<exists>q. cptr_alloc_range_from n i k bm = (of_nat q, mark_range (q div 64) (q mod 64) 0 n bm) \<and> q < 32768
       \<and> (\<forall>p. q \<le> p \<and> p < q + n \<longrightarrow> p < 32768 \<and> \<not> slot_used bm p))
    \<or> (cptr_alloc_range_from n i k bm = (- 1, bm)
       \<and> (\<forall>q. i * 64 \<le> q \<longrightarrow> (\<exists>p. q \<le> p \<and> p < q + n \<and> (32768 \<le> p \<or> slot_used bm p))))"
proof (induction k arbitrary: i)
  case 0
  then show ?case using assms(2) by auto
next
  case (Suc k)
  have free: "range_free bm i j 0 n \<longleftrightarrow> (\<forall>p. i * 64 + j \<le> p \<and> p < i * 64 + j + n \<longrightarrow> p < 32768 \<and> \<not> slot_used bm p)" for j
    using range_free_iff [OF assms(1), of i j 0 n] by simp
  have later: ?case if none: "\<And>j. j < 64 \<Longrightarrow> \<not> range_free bm i j 0 n"
    and eq: "cptr_alloc_range_from n i (Suc k) bm = cptr_alloc_range_from n (Suc i) k bm"
  proof -
    have "\<exists>p. q \<le> p \<and> p < q + n \<and> (32768 \<le> p \<or> slot_used bm p)" if "i * 64 \<le> q" "q < Suc i * 64" for q
      using none [of "q - i * 64"] that unfolding free by (auto simp: not_less)
    then show ?thesis using Suc.IH [of "Suc i"] Suc.prems unfolding eq by (metis add_Suc_right add_Suc not_le)
  qed
  show ?case
  proof (cases "bm ! i = 0xFFFFFFFFFFFFFFFF")
    case True
    have "0xFFFFFFFFFFFFFFFF = (- 1 :: word_t)" by simp
    then have full: "bm ! i = - 1" using True by metis
    have "\<not> range_free bm i j 0 n" if "j < 64" for j
    proof -
      have "slot_used bm (i * 64 + j)" using that full by (simp add: slot_used_def)
      then show ?thesis using assms(2) unfolding free by auto
    qed
    then show ?thesis using True by (intro later) auto
  next
    case False
    show ?thesis
    proof (cases "first_fit bm i n 0 64")
      case None
      then show ?thesis using False first_fit_None [OF None] by (intro later) auto
    next
      case (Some j)
      then have j: "j < 64" "range_free bm i j 0 n" using first_fit_Some by fastforce+
      have "i * 64 + j < 32768" using Suc.prems j(1) by simp
      then show ?thesis using False Some j free by (intro disjI1 exI [of _ "i * 64 + j"]) simp
    qed
  qed
qed



end
