(* ===== verification/User_Library.thy ===== *)
theory User_Library
  imports User_Stubs Slot_Alloc
begin

text \<open>
  The library of user programs (\<open>lib/lib.c\<close>, parts of \<open>lib/exec.c\<close> and of \<open>lib/lib.h\<close>): the wrappers of
  the system calls, allocation and mapping of memory. A program runs in its own state: its IPC buffer,
  the slot bitmap, the next mappable address, its memory, and the state of everything outside of it. One
  execution of the \<open>syscall\<close> instruction is an argument: it turns the call number, the two arguments,
  the buffer, the memory and the outside into the returned word, the buffer, the memory and the outside.
  Output is dropped.
\<close>

section \<open>System calls\<close>

record 'k user_state =
  us_buffer :: ipc_buffer
  us_bitmap :: bitmap
  us_mappable :: addr
  us_memory :: memory
  us_env :: 'k

type_synonym 'k syscall_instr = "u32 \<Rightarrow> word_t \<Rightarrow> word_t \<Rightarrow> ipc_buffer \<Rightarrow> memory \<Rightarrow> 'k \<Rightarrow> word_t \<times> ipc_buffer \<times> memory \<times> 'k"

definition syscall2 :: "'k syscall_instr \<Rightarrow> u32 \<Rightarrow> word_t \<Rightarrow> word_t \<Rightarrow> ('k user_state, word_t) kern" where
  "syscall2 instr num a1 a2 s =
     (case instr num a1 a2 (us_buffer s) (us_memory s) (us_env s) of (r, b, m, k) \<Rightarrow>
        Inr (r, s\<lparr>us_buffer := b, us_memory := m, us_env := k\<rparr>))"

definition syscall1 :: "'k syscall_instr \<Rightarrow> u32 \<Rightarrow> word_t \<Rightarrow> ('k user_state, word_t) kern" where
  "syscall1 instr num a1 = syscall2 instr num a1 0"

definition syscall0 :: "'k syscall_instr \<Rightarrow> u32 \<Rightarrow> ('k user_state, word_t) kern" where
  "syscall0 instr num = syscall2 instr num 0 0"

text \<open>The badge that a caller asks for with a pointer that is not null.\<close>

definition sender_badge :: "('k user_state, word_t) kern" where
  "sender_badge = kget (\<lambda>s. us_buffer s IPC_SENDER_BADGE)"

definition user_send :: "'k syscall_instr \<Rightarrow> cptr_t \<Rightarrow> message_tag_t \<Rightarrow> ('k user_state, unit) kern" where
  "user_send instr c info = kbind (syscall2 instr SYS_SEND c (message_info_to_word info)) (\<lambda>_. kret ())"

definition user_nbsend :: "'k syscall_instr \<Rightarrow> cptr_t \<Rightarrow> message_tag_t \<Rightarrow> ('k user_state, unit) kern" where
  "user_nbsend instr c info = kbind (syscall2 instr SYS_NBSEND c (message_info_to_word info)) (\<lambda>_. kret ())"

definition user_signal :: "'k syscall_instr \<Rightarrow> cptr_t \<Rightarrow> ('k user_state, unit) kern" where
  "user_signal instr c = kbind (syscall1 instr SYS_SEND c) (\<lambda>_. kret ())"

definition user_call :: "'k syscall_instr \<Rightarrow> cptr_t \<Rightarrow> message_tag_t \<Rightarrow> ('k user_state, message_tag_t \<times> word_t) kern" where
  "user_call instr c info = kbind (syscall2 instr SYS_CALL c (message_info_to_word info)) (\<lambda>w.
     kbind sender_badge (\<lambda>badge. kret (message_info_from_word w, badge)))"

definition user_recv :: "'k syscall_instr \<Rightarrow> cptr_t \<Rightarrow> ('k user_state, message_tag_t \<times> word_t) kern" where
  "user_recv instr c = kbind (syscall1 instr SYS_RECV c) (\<lambda>w.
     kbind sender_badge (\<lambda>badge. kret (message_info_from_word w, badge)))"

definition user_nbrecv :: "'k syscall_instr \<Rightarrow> cptr_t \<Rightarrow> ('k user_state, message_tag_t \<times> word_t) kern" where
  "user_nbrecv instr c = kbind (syscall1 instr SYS_NBRECV c) (\<lambda>w.
     kbind sender_badge (\<lambda>badge. kret (message_info_from_word w, badge)))"

definition user_wait :: "'k syscall_instr \<Rightarrow> cptr_t \<Rightarrow> ('k user_state, word_t) kern" where
  "user_wait instr c = kbind (syscall1 instr SYS_RECV c) (\<lambda>_. sender_badge)"

definition user_reply :: "'k syscall_instr \<Rightarrow> message_tag_t \<Rightarrow> ('k user_state, message_tag_t) kern" where
  "user_reply instr info = kbind (syscall2 instr SYS_REPLY 0 (message_info_to_word info)) (\<lambda>w. kret (message_info_from_word w))"

definition user_reply_recv :: "'k syscall_instr \<Rightarrow> cptr_t \<Rightarrow> message_tag_t \<Rightarrow> ('k user_state, message_tag_t \<times> word_t) kern" where
  "user_reply_recv instr c info = kbind (syscall2 instr SYS_REPLYRECV c (message_info_to_word info)) (\<lambda>w.
     kbind sender_badge (\<lambda>badge. kret (message_info_from_word w, badge)))"

definition user_yield :: "'k syscall_instr \<Rightarrow> ('k user_state, unit) kern" where
  "user_yield instr = kbind (syscall0 instr SYS_YIELD) (\<lambda>_. kret ())"

text \<open>A method stub: its arguments and tag, a call, and the label of the answer.\<close>

definition invoke_method :: "'k syscall_instr \<Rightarrow> cptr_t \<Rightarrow> method_call \<Rightarrow> ('k user_state, word_t) kern" where
  "invoke_method instr obj m =
     kbind (kget (\<lambda>s. stub_of m (us_buffer s))) (\<lambda>(b, info).
     kseq (kmod (\<lambda>s. s\<lparr>us_buffer := b\<rparr>))
          (kbind (user_call instr obj info) (\<lambda>(tag, _). kret (message_label tag))))"

definition user_get_mr :: "nat \<Rightarrow> ('k user_state, word_t) kern" where
  "user_get_mr i = kget (\<lambda>s. us_buffer s i)"

definition put_mr :: "nat \<Rightarrow> word_t \<Rightarrow> ('k user_state, unit) kern" where
  "put_mr i v = kmod (\<lambda>s. s\<lparr>us_buffer := user_set_mr i v (us_buffer s)\<rparr>)"

text \<open>A call whose error code is not looked at.\<close>

definition call_method :: "'k syscall_instr \<Rightarrow> cptr_t \<Rightarrow> method_call \<Rightarrow> ('k user_state, unit) kern" where
  "call_method instr obj m = kbind (invoke_method instr obj m) (\<lambda>_. kret ())"

text \<open>Output and the end of a program; what follows \<open>exit\<close> is unreachable.\<close>

definition user_write :: "'k syscall_instr \<Rightarrow> addr \<Rightarrow> word_t \<Rightarrow> ('k user_state, word_t) kern" where
  "user_write instr str len = kbind (syscall2 instr SYS_DEBUG_WRITE str len) (\<lambda>_. kret len)"

definition user_exit :: "'k syscall_instr \<Rightarrow> ('k user_state, unit) kern" where
  "user_exit instr = kbind (syscall0 instr SYS_EXIT) (\<lambda>_. kfail Undefined)"

text \<open>The slot for a capability that a message brings.\<close>

definition user_get_cap :: "nat \<Rightarrow> ('k user_state, word_t) kern" where
  "user_get_cap i = kget (\<lambda>s. us_buffer s (IPC_CAPS_OR_BADGES + i))"

definition set_receive_path :: "cptr_t \<Rightarrow> word_t \<Rightarrow> u8 \<Rightarrow> ('k user_state, unit) kern" where
  "set_receive_path root_cnode index depth = kmod (\<lambda>s. s\<lparr>us_buffer := (us_buffer s)(
     IPC_RECEIVE_CNODE := root_cnode, IPC_RECEIVE_INDEX := index, IPC_RECEIVE_DEPTH := ucast depth)\<rparr>)"

section \<open>Memory\<close>

definition take_range :: "word_t \<Rightarrow> ('k user_state, cptr_t) kern" where
  "take_range n = (\<lambda>s. case cptr_alloc_range n (us_bitmap s) of (c, bm) \<Rightarrow> Inr (c, s\<lparr>us_bitmap := bm\<rparr>))"

text \<open>\<open>INIT_CAP_ROOT_CNODE\<close> is slot 2. The result of the retype is not looked at.\<close>

definition allocate_with_size :: "'k syscall_instr \<Rightarrow> cptr_t \<Rightarrow> word_t \<Rightarrow> word_t \<Rightarrow> u8 \<Rightarrow> ('k user_state, cptr_t) kern" where
  "allocate_with_size instr untyped type n size_bits =
     kbind (take_range n) (\<lambda>cptr.
     kbind (invoke_method instr untyped (Untyped_Retype type (ucast size_bits) 2 2 64 cptr n)) (\<lambda>_. kret cptr))"

definition allocate :: "'k syscall_instr \<Rightarrow> cptr_t \<Rightarrow> word_t \<Rightarrow> word_t \<Rightarrow> ('k user_state, cptr_t) kern" where
  "allocate instr untyped type n =
     kbind (take_range n) (\<lambda>cptr.
     kbind (invoke_method instr untyped (Untyped_Retype type 0 2 2 64 cptr n)) (\<lambda>_. kret cptr))"

text \<open>One table of the given level, which the kernel reported as missing.\<close>

definition install_table :: "'k syscall_instr \<Rightarrow> cptr_t \<Rightarrow> cptr_t \<Rightarrow> addr \<Rightarrow> word_t \<Rightarrow> ('k user_state, unit) kern" where
  "install_table instr untyped vspace a level =
     (if level = 3 then kbind (allocate instr untyped CAP_X86_64_PDPT 1) (\<lambda>t.
        kbind (invoke_method instr t (X86_64_Pdpt_Map vspace a 7)) (\<lambda>err. kassert (err = NO_ERROR)))
      else if level = 2 then kbind (allocate instr untyped CAP_X86_64_PD 1) (\<lambda>t.
        kbind (invoke_method instr t (X86_64_Pd_Map vspace a 7)) (\<lambda>err. kassert (err = NO_ERROR)))
      else if level = 1 then kbind (allocate instr untyped CAP_X86_64_PT 1) (\<lambda>t.
        kbind (invoke_method instr t (X86_64_Pt_Map vspace a 7)) (\<lambda>err. kassert (err = NO_ERROR)))
      else kfail AssertFailed)"

text \<open>
  \<open>map_page\<close> tries until the kernel does not report a missing table. How often depends on the kernel:
  the fuel is the number of attempts; \<open>map_page_attempts\<close> shows how many are enough.
\<close>

fun map_page_loop :: "nat \<Rightarrow> 'k syscall_instr \<Rightarrow> cptr_t \<Rightarrow> cptr_t \<Rightarrow> cptr_t \<Rightarrow> addr \<Rightarrow> ('k user_state, word_t) kern" where
  "map_page_loop 0 instr untyped vspace page a = kfail Diverges"
| "map_page_loop (Suc fuel) instr untyped vspace page a =
     kbind (invoke_method instr page (X86_64_Page_Map vspace a 7)) (\<lambda>err.
     if err \<noteq> FAILED_LOOKUP then kret err
     else kbind (user_get_mr 0) (\<lambda>level.
          kseq (install_table instr untyped vspace a level) (map_page_loop fuel instr untyped vspace page a)))"

definition map_page :: "'k syscall_instr \<Rightarrow> cptr_t \<Rightarrow> cptr_t \<Rightarrow> cptr_t \<Rightarrow> addr \<Rightarrow> ('k user_state, word_t) kern" where
  "map_page instr untyped vspace page a = map_page_loop 4 instr untyped vspace page a"

record buffer =
  buf_cptr_base :: cptr_t
  buf_pages :: word_t

definition create_buffer :: "'k syscall_instr \<Rightarrow> cptr_t \<Rightarrow> word_t \<Rightarrow> ('k user_state, buffer) kern" where
  "create_buffer instr untyped pages =
     kbind (allocate instr untyped CAP_X86_64_PAGE pages) (\<lambda>base. kret \<lparr>buf_cptr_base = base, buf_pages = pages\<rparr>)"

fun map_buffer_from :: "nat \<Rightarrow> nat \<Rightarrow> 'k syscall_instr \<Rightarrow> cptr_t \<Rightarrow> cptr_t \<Rightarrow> buffer \<Rightarrow> addr \<Rightarrow> ('k user_state, word_t) kern" where
  "map_buffer_from i 0 instr untyped vspace buf a = kret NO_ERROR"
| "map_buffer_from i (Suc n) instr untyped vspace buf a =
     kbind (map_page instr untyped vspace (buf_cptr_base buf + of_nat i) (a + of_nat i * 0x1000)) (\<lambda>err.
     if err \<noteq> 0 then kret err else map_buffer_from (Suc i) n instr untyped vspace buf a)"

definition map_buffer :: "'k syscall_instr \<Rightarrow> cptr_t \<Rightarrow> cptr_t \<Rightarrow> buffer \<Rightarrow> addr \<Rightarrow> ('k user_state, word_t) kern" where
  "map_buffer instr untyped vspace buf a = map_buffer_from 0 (unat (buf_pages buf)) instr untyped vspace buf a"

definition map_buffer_to_mappable_space :: "'k syscall_instr \<Rightarrow> cptr_t \<Rightarrow> cptr_t \<Rightarrow> buffer \<Rightarrow> ('k user_state, addr) kern" where
  "map_buffer_to_mappable_space instr untyped vspace buf =
     kbind (kget us_mappable) (\<lambda>a.
     kbind (map_buffer instr untyped vspace buf a) (\<lambda>err.
     kseq (kmod (\<lambda>s. s\<lparr>us_mappable := us_mappable s + buf_pages buf * 0x1000\<rparr>))
          (kret (if err \<noteq> 0 then 0 else a))))"

text \<open>
  If the kernel reports the missing tables of an address one by one, at most three of them, and each
  table that is installed is no longer missing, then four attempts are enough.
\<close>

lemma map_page_attempts:
  assumes attempt: "\<And>s. P s \<Longrightarrow> \<exists>err t. invoke_method instr page (X86_64_Page_Map vspace a 7) s = Inr (err, t)
      \<and> (if missing s = 0 then err \<noteq> FAILED_LOOKUP
         else err = FAILED_LOOKUP \<and> us_buffer t 0 = of_nat (missing s) \<and> P t \<and> missing t = missing s)"
    and install: "\<And>s. P s \<Longrightarrow> 0 < missing s \<Longrightarrow>
      \<exists>t. install_table instr untyped vspace a (of_nat (missing s)) s = Inr ((), t) \<and> P t \<and> missing t = missing s - 1"
    and start: "P s" "missing s \<le> (3 :: nat)"
  shows "\<exists>err t. map_page instr untyped vspace page a s = Inr (err, t) \<and> err \<noteq> FAILED_LOOKUP"
proof -
  have "\<exists>err t. map_page_loop n instr untyped vspace page a s = Inr (err, t) \<and> err \<noteq> FAILED_LOOKUP"
    if "P s" "missing s < n" for n s
    using that
  proof (induction n arbitrary: s)
    case (Suc n)
    obtain err t where t: "invoke_method instr page (X86_64_Page_Map vspace a 7) s = Inr (err, t)"
        "if missing s = 0 then err \<noteq> FAILED_LOOKUP
         else err = FAILED_LOOKUP \<and> us_buffer t 0 = of_nat (missing s) \<and> P t \<and> missing t = missing s"
      using attempt [OF Suc.prems(1)] by blast
    show ?case
    proof (cases "missing s = 0")
      case True
      then show ?thesis using t by (simp add: kern_simps)
    next
      case False
      then have pt: "P t" "0 < missing t" "missing t = missing s" "us_buffer t 0 = of_nat (missing t)"
        using t(2) by simp_all
      obtain u where u: "install_table instr untyped vspace a (of_nat (missing t)) t = Inr ((), u)" "P u"
          "missing u = missing t - 1"
        using install [OF pt(1,2)] by blast
      then show ?thesis
        using Suc.IH [OF u(2)] Suc.prems(2) False pt t by (simp add: kern_simps user_get_mr_def)
    qed
  qed simp
  from this [of s 4] show ?thesis using start by (simp add: map_page_def)
qed

end
