(* ===== verification/Pci_Manager.thy ===== *)
theory Pci_Manager
  imports User_Library Boot
begin

text \<open>
  The program that owns the configuration ports of the PCI bus (\<open>user/pci_manager.c\<close>,
  \<open>lib/pci_util.h\<close>). It answers requests on an endpoint; the badge of a request says for which device
  the client holds a capability, and 0 is the owner of all devices. The program runs over an arbitrary
  kernel, the argument \<open>instr\<close>; recording the system calls it makes shows what it does with its ports.
\<close>

section \<open>The configuration ports\<close>

abbreviation (input) PCI_ENDPOINT_CAP :: cptr_t where "PCI_ENDPOINT_CAP \<equiv> 0"
abbreviation (input) PCI_PORT_CAP :: cptr_t where "PCI_PORT_CAP \<equiv> 1"
abbreviation (input) PCI_CNODE_CAP :: cptr_t where "PCI_CNODE_CAP \<equiv> 2"
abbreviation (input) PCI_TMP_CAP :: cptr_t where "PCI_TMP_CAP \<equiv> 3"

abbreviation (input) PCI_MANAGER_ISSUE :: word_t where "PCI_MANAGER_ISSUE \<equiv> 0"
abbreviation (input) PCI_MANAGER_READ :: word_t where "PCI_MANAGER_READ \<equiv> 1"
abbreviation (input) PCI_MANAGER_WRITE :: word_t where "PCI_MANAGER_WRITE \<equiv> 2"
abbreviation (input) PCI_MANAGER_DEVICE_INFO :: word_t where "PCI_MANAGER_DEVICE_INFO \<equiv> 3"
abbreviation (input) PCI_MANAGER_ENUMERATE :: word_t where "PCI_MANAGER_ENUMERATE \<equiv> 4"

abbreviation (input) PCI_CONFIG_ADDRESS :: word_t where "PCI_CONFIG_ADDRESS \<equiv> 0xCF8"
abbreviation (input) PCI_CONFIG_DATA :: word_t where "PCI_CONFIG_DATA \<equiv> 0xCFC"

text \<open>The answer of a method is in the message registers; the error code is not looked at.\<close>

definition on_port :: "'k syscall_instr \<Rightarrow> method_call \<Rightarrow> ('k user_state, unit) kern" where
  "on_port instr m = call_method instr PCI_PORT_CAP m"

definition pci_read_l :: "'k syscall_instr \<Rightarrow> u32 \<Rightarrow> ('k user_state, u32) kern" where
  "pci_read_l instr a =
     kseq (on_port instr (X86_64_Io_Port_Out32 PCI_CONFIG_ADDRESS (ucast a)))
    (kseq (on_port instr (X86_64_Io_Port_In32 PCI_CONFIG_DATA))
          (kbind (user_get_mr 0) (\<lambda>v. kret (ucast v))))"

definition pci_read_w :: "'k syscall_instr \<Rightarrow> u32 \<Rightarrow> ('k user_state, u16) kern" where
  "pci_read_w instr a =
     kseq (on_port instr (X86_64_Io_Port_Out32 PCI_CONFIG_ADDRESS (ucast a)))
    (kseq (on_port instr (X86_64_Io_Port_In16 PCI_CONFIG_DATA))
          (kbind (user_get_mr 0) (\<lambda>v. kret (ucast v))))"

definition pci_read_b :: "'k syscall_instr \<Rightarrow> u32 \<Rightarrow> ('k user_state, u8) kern" where
  "pci_read_b instr a =
     kseq (on_port instr (X86_64_Io_Port_Out32 PCI_CONFIG_ADDRESS (ucast a)))
    (kseq (on_port instr (X86_64_Io_Port_In8 PCI_CONFIG_DATA))
          (kbind (user_get_mr 0) (\<lambda>v. kret (ucast v))))"

definition pci_write_l :: "'k syscall_instr \<Rightarrow> u32 \<Rightarrow> u32 \<Rightarrow> ('k user_state, unit) kern" where
  "pci_write_l instr a v =
     kseq (on_port instr (X86_64_Io_Port_Out32 PCI_CONFIG_ADDRESS (ucast a)))
          (on_port instr (X86_64_Io_Port_Out32 PCI_CONFIG_DATA (ucast v)))"

definition pci_write_w :: "'k syscall_instr \<Rightarrow> u32 \<Rightarrow> u16 \<Rightarrow> ('k user_state, unit) kern" where
  "pci_write_w instr a v =
     kseq (on_port instr (X86_64_Io_Port_Out32 PCI_CONFIG_ADDRESS (ucast a)))
          (on_port instr (X86_64_Io_Port_Out16 PCI_CONFIG_DATA (ucast v)))"

definition pci_write_b :: "'k syscall_instr \<Rightarrow> u32 \<Rightarrow> u8 \<Rightarrow> ('k user_state, unit) kern" where
  "pci_write_b instr a v =
     kseq (on_port instr (X86_64_Io_Port_Out32 PCI_CONFIG_ADDRESS (ucast a)))
          (on_port instr (X86_64_Io_Port_Out8 PCI_CONFIG_DATA (ucast v)))"

section \<open>Requests\<close>

definition answer :: "word_t \<Rightarrow> word_t \<Rightarrow> ('k user_state, message_tag_t) kern" where
  "answer err n = kret (new_message_tag err 0 0 n)"

text \<open>Eight pairs of registers, then the answer; the words are collected before any is written.\<close>

fun read_config_space :: "'k syscall_instr \<Rightarrow> u32 \<Rightarrow> nat \<Rightarrow> nat \<Rightarrow> ('k user_state, word_t list) kern" where
  "read_config_space instr a i 0 = kret []"
| "read_config_space instr a i (Suc n) =
     kbind (pci_read_l instr (a + of_nat i * 8)) (\<lambda>low.
     kbind (pci_read_l instr (a + of_nat i * 8 + 4)) (\<lambda>high.
     kbind (read_config_space instr a (Suc i) n) (\<lambda>rest.
       kret ((push_bit 32 (ucast high) OR ucast low) # rest))))"

definition put_mrs :: "word_t list \<Rightarrow> ('k user_state, unit) kern" where
  "put_mrs ws = kfor 0 (length ws) (\<lambda>i. put_mr i (ws ! i))"

definition handle_device_info :: "'k syscall_instr \<Rightarrow> word_t \<Rightarrow> ('k user_state, message_tag_t) kern" where
  "handle_device_info instr badge =
     kbind (user_get_mr 0) (\<lambda>m. let pci_address = (ucast m :: u32) in
     if badge \<noteq> 0 \<and> badge \<noteq> ucast pci_address then answer ILLEGAL_OPERATION 0
     else kbind (read_config_space instr pci_address 0 8) (\<lambda>ws. kseq (put_mrs ws) (answer NO_ERROR 8)))"

text \<open>
  The array \<open>mrs\<close> of the enumeration holds 64 words; the bound that stops the loop is that of a message,
  so writing a word behind the array is the fault of the model. The result of the loop over one bus says
  whether that bound was reached (\<open>goto done\<close>).
\<close>

fun scan_bus :: "'k syscall_instr \<Rightarrow> nat \<Rightarrow> nat \<Rightarrow> nat \<Rightarrow> word_t list \<Rightarrow> ('k user_state, bool \<times> word_t list) kern" where
  "scan_bus instr bus j 0 mrs = kret (False, mrs)"
| "scan_bus instr bus j (Suc n) mrs =
     (let a = pci_addr (of_nat bus) (of_nat (j div 8)) (of_nat (j mod 8)) 0 in
      kbind (pci_read_l instr a) (\<lambda>info.
      if info \<noteq> 0xFFFFFFFF \<and> length mrs \<ge> 64 then kfail Undefined
      else let mrs' = (if info \<noteq> 0xFFFFFFFF then mrs @ [push_bit 32 (ucast a) OR ucast info] else mrs) in
           if length mrs' \<ge> MESSAGE_MAX_LENGTH then kret (True, mrs')
           else scan_bus instr bus (Suc j) n mrs'))"

fun scan_buses :: "'k syscall_instr \<Rightarrow> nat \<Rightarrow> nat \<Rightarrow> word_t list \<Rightarrow> ('k user_state, word_t list) kern" where
  "scan_buses instr bus 0 mrs = kret mrs"
| "scan_buses instr bus (Suc n) mrs =
     kbind (pci_read_l instr (pci_addr (of_nat bus) 0 0 0)) (\<lambda>info.
     if info = 0xFFFFFFFF then scan_buses instr (Suc bus) n mrs
     else kbind (scan_bus instr bus 0 256 mrs) (\<lambda>(finished, mrs').
       if finished then kret mrs' else scan_buses instr (Suc bus) n mrs'))"

definition handle_enumerate :: "'k syscall_instr \<Rightarrow> word_t \<Rightarrow> ('k user_state, message_tag_t) kern" where
  "handle_enumerate instr badge =
     (if badge \<noteq> 0 then answer ILLEGAL_OPERATION 0
      else kbind (scan_buses instr 0 256 []) (\<lambda>mrs.
           kseq (put_mrs mrs) (answer NO_ERROR (of_nat (length mrs)))))"

text \<open>The badge argument of the mint is read from the message registers after the delete has used them.\<close>

definition handle_issue :: "'k syscall_instr \<Rightarrow> message_tag_t \<Rightarrow> word_t \<Rightarrow> ('k user_state, message_tag_t) kern" where
  "handle_issue instr info badge =
     (if badge \<noteq> 0 then answer ILLEGAL_OPERATION 0
      else if message_length info < 1 then kseq (put_mr 0 1) (answer TRUNCATED_MESSAGE 1)
      else kbind (invoke_method instr PCI_CNODE_CAP (Cnode_Delete PCI_TMP_CAP 64)) (\<lambda>_.
           kbind (user_get_mr 1) (\<lambda>new_badge.
           kbind (invoke_method instr PCI_CNODE_CAP
             (Cnode_Mint PCI_TMP_CAP 64 PCI_CNODE_CAP PCI_ENDPOINT_CAP 64 CAP_RIGHTS_ALL new_badge)) (\<lambda>_.
           kseq (kmod (\<lambda>s. s\<lparr>us_buffer := user_set_cap 0 PCI_TMP_CAP (us_buffer s)\<rparr>))
                (kret (new_message_tag NO_ERROR 0 1 0))))))"

definition config_address :: "word_t \<Rightarrow> word_t \<Rightarrow> u32" where
  "config_address badge offset = ucast (badge OR (offset AND 0xFF))"

definition handle_read :: "'k syscall_instr \<Rightarrow> message_tag_t \<Rightarrow> word_t \<Rightarrow> ('k user_state, message_tag_t) kern" where
  "handle_read instr info badge =
     (if message_length info < 2 then kseq (put_mr 0 2) (answer TRUNCATED_MESSAGE 1)
      else kbind (user_get_mr 0) (\<lambda>offset. kbind (user_get_mr 1) (\<lambda>width.
        let a = config_address badge offset in
        if width = 1 then kbind (pci_read_b instr a) (\<lambda>v. kseq (put_mr 0 (ucast v)) (answer NO_ERROR 1))
        else if width = 2 then kbind (pci_read_w instr a) (\<lambda>v. kseq (put_mr 0 (ucast v)) (answer NO_ERROR 1))
        else if width = 4 then kbind (pci_read_l instr a) (\<lambda>v. kseq (put_mr 0 (ucast v)) (answer NO_ERROR 1))
        else kseq (put_mr 0 1) (answer INVALID_ARGUMENT 1))))"

definition handle_write :: "'k syscall_instr \<Rightarrow> message_tag_t \<Rightarrow> word_t \<Rightarrow> ('k user_state, message_tag_t) kern" where
  "handle_write instr info badge =
     (if message_length info < 3 then kseq (put_mr 0 3) (answer TRUNCATED_MESSAGE 1)
      else kbind (user_get_mr 0) (\<lambda>offset. kbind (user_get_mr 1) (\<lambda>v. kbind (user_get_mr 2) (\<lambda>width.
        let a = config_address badge offset in
        if width = 1 then kseq (pci_write_b instr a (ucast v)) (answer NO_ERROR 0)
        else if width = 2 then kseq (pci_write_w instr a (ucast v)) (answer NO_ERROR 0)
        else if width = 4 then kseq (pci_write_l instr a (ucast v)) (answer NO_ERROR 0)
        else kseq (put_mr 0 1) (answer INVALID_ARGUMENT 1)))))"

definition handle_request :: "'k syscall_instr \<Rightarrow> message_tag_t \<Rightarrow> word_t \<Rightarrow> ('k user_state, message_tag_t) kern" where
  "handle_request instr info badge =
     (let label = message_label info in
      if label = PCI_MANAGER_ISSUE then handle_issue instr info badge
      else if label = PCI_MANAGER_READ then handle_read instr info badge
      else if label = PCI_MANAGER_WRITE then handle_write instr info badge
      else if label = PCI_MANAGER_DEVICE_INFO then handle_device_info instr badge
      else if label = PCI_MANAGER_ENUMERATE then handle_enumerate instr badge
      else kseq (put_mr 0 0) (answer INVALID_ARGUMENT 1))"

text \<open>The server never ends: the first \<open>n\<close> requests.\<close>

fun serve :: "nat \<Rightarrow> 'k syscall_instr \<Rightarrow> message_tag_t \<Rightarrow> word_t \<Rightarrow> ('k user_state, message_tag_t \<times> word_t) kern" where
  "serve 0 instr info badge = kret (info, badge)"
| "serve (Suc n) instr info badge =
     kbind (handle_request instr info badge) (\<lambda>resp.
     kbind (user_reply_recv instr PCI_ENDPOINT_CAP resp) (\<lambda>(info', badge'). serve n instr info' badge'))"

definition pci_main :: "nat \<Rightarrow> 'k syscall_instr \<Rightarrow> ('k user_state, message_tag_t \<times> word_t) kern" where
  "pci_main n instr = kbind (user_recv instr PCI_ENDPOINT_CAP) (\<lambda>(info, badge). serve n instr info badge)"

end
