(* ===== verification/Pci_Properties.thy ===== *)
theory Pci_Properties
  imports Pci_Manager
begin

text \<open>
  What a client of the PCI manager can reach. The calls that the manager makes while it handles a
  request are recorded in front of an arbitrary kernel; with a badge for one device every access it
  makes selects a register of that device.
\<close>

section \<open>Recording system calls\<close>

type_synonym call_record = "u32 \<times> word_t \<times> word_t \<times> ipc_buffer"

definition recorded :: "'k syscall_instr \<Rightarrow> (call_record list \<times> 'k) syscall_instr" where
  "recorded instr num a1 a2 b m env =
     (case instr num a1 a2 b m (snd env) of (r, b', m', k) \<Rightarrow> (r, b', m', (fst env @ [(num, a1, a2, b)], k)))"

definition adds_calls :: "(call_record \<Rightarrow> bool) \<Rightarrow> call_record list \<Rightarrow> (call_record list \<times> 'k) user_state \<Rightarrow> bool" where
  "adds_calls P calls s \<longleftrightarrow> (\<exists>new. fst (us_env s) = calls @ new \<and> (\<forall>c\<in>set new. P c))"

lemma adds_calls_keep: "adds_calls P calls s \<Longrightarrow> us_env t = us_env s \<Longrightarrow> adds_calls P calls t"
  by (simp add: adds_calls_def)

lemma recorded_call:
  fixes instr :: "'k syscall_instr"
  assumes "\<And>b. P (num, a1, a2, b)"
  shows "inv_on (adds_calls P calls) F (syscall2 (recorded instr) num a1 a2)"
proof (rule inv_onI)
  fix s :: "(call_record list \<times> 'k) user_state"
  assume "adds_calls P calls s"
  then obtain new where "fst (us_env s) = calls @ new" "\<forall>c\<in>set new. P c" by (auto simp: adds_calls_def)
  then have "fst (us_env s) @ [(num, a1, a2, us_buffer s)] = calls @ (new @ [(num, a1, a2, us_buffer s)])"
    "\<forall>c\<in>set (new @ [(num, a1, a2, us_buffer s)]). P c"
    using assms by auto
  then show "case syscall2 (recorded instr) num a1 a2 s of Inl e \<Rightarrow> e \<in> F | Inr (x, t) \<Rightarrow> adds_calls P calls t"
    unfolding syscall2_def recorded_def adds_calls_def by (auto split: prod.split)
qed

text \<open>A method call, whose record depends on the buffer that the stub fills in.\<close>

lemma recorded_method:
  fixes instr :: "'k syscall_instr"
  assumes "\<And>b b' tag. stub_of m b = (b', tag) \<Longrightarrow> P (SYS_CALL, obj, message_info_to_word tag, b')"
  shows "inv_on (adds_calls P calls) F (invoke_method (recorded instr) obj m)"
proof (rule inv_onI)
  fix s :: "(call_record list \<times> 'k) user_state"
  assume s: "adds_calls P calls s"
  obtain b' tag where stub: "stub_of m (us_buffer s) = (b', tag)" by (cases "stub_of m (us_buffer s)") auto
  obtain r b'' m' k where call: "instr SYS_CALL obj (message_info_to_word tag) b' (us_memory s) (snd (us_env s)) = (r, b'', m', k)"
    by (cases "instr SYS_CALL obj (message_info_to_word tag) b' (us_memory s) (snd (us_env s))") auto
  obtain new where "fst (us_env s) = calls @ new" "\<forall>c\<in>set new. P c" using s by (auto simp: adds_calls_def)
  then have "fst (us_env s) @ [(SYS_CALL, obj, message_info_to_word tag, b')] = calls @ (new @ [(SYS_CALL, obj, message_info_to_word tag, b')])"
    "\<forall>c\<in>set (new @ [(SYS_CALL, obj, message_info_to_word tag, b')]). P c"
    using assms [OF stub] by auto
  then show "case invoke_method (recorded instr) obj m s of Inl e \<Rightarrow> e \<in> F | Inr (x, t) \<Rightarrow> adds_calls P calls t"
    unfolding invoke_method_def user_call_def sender_badge_def adds_calls_def
    by (auto simp: kern_simps stub syscall2_def recorded_def call)
qed

section \<open>Confinement\<close>

definition on_device :: "word_t \<Rightarrow> call_record \<Rightarrow> bool" where
  "on_device badge = (\<lambda>(num, obj, tag, b).
     num = SYS_CALL \<and> obj = PCI_PORT_CAP \<and> b 0 \<in> {PCI_CONFIG_ADDRESS, PCI_CONFIG_DATA} \<and>
     (b 0 = PCI_CONFIG_ADDRESS \<longrightarrow> message_label tag = METHOD_X86_64_IO_PORT_OUT32 \<and>
        drop_bit 8 (ucast (b 1) :: u32) = drop_bit 8 (ucast badge)))"

lemma on_port_inv:
  assumes "\<And>b b' tag. stub_of m b = (b', tag) \<Longrightarrow> on_device badge (SYS_CALL, PCI_PORT_CAP, message_info_to_word tag, b')"
  shows "inv_on (adds_calls (on_device badge) calls) {} (on_port (recorded instr) m)"
  unfolding on_port_def call_method_def by (intro inv_rules recorded_method assms)

lemma address_round_trip [simp]: "ucast (ucast (a :: u32) :: word_t) = a"
  by (rule bit_word_eqI) (simp add: bit_ucast_iff)

lemma select_inv [inv_rules]:
  "drop_bit 8 a = drop_bit 8 (ucast badge :: u32) \<Longrightarrow>
     inv_on (adds_calls (on_device badge) calls) {} (on_port (recorded instr) (X86_64_Io_Port_Out32 PCI_CONFIG_ADDRESS (ucast a)))"
  by (rule on_port_inv) (auto simp: stub_defs on_device_def message_info_to_word_def)

lemma data_inv [inv_rules]:
  "inv_on (adds_calls (on_device badge) calls) {} (on_port (recorded instr) (X86_64_Io_Port_In8 PCI_CONFIG_DATA))"
  "inv_on (adds_calls (on_device badge) calls) {} (on_port (recorded instr) (X86_64_Io_Port_In16 PCI_CONFIG_DATA))"
  "inv_on (adds_calls (on_device badge) calls) {} (on_port (recorded instr) (X86_64_Io_Port_In32 PCI_CONFIG_DATA))"
  "inv_on (adds_calls (on_device badge) calls) {} (on_port (recorded instr) (X86_64_Io_Port_Out8 PCI_CONFIG_DATA v))"
  "inv_on (adds_calls (on_device badge) calls) {} (on_port (recorded instr) (X86_64_Io_Port_Out16 PCI_CONFIG_DATA v))"
  "inv_on (adds_calls (on_device badge) calls) {} (on_port (recorded instr) (X86_64_Io_Port_Out32 PCI_CONFIG_DATA v))"
  by (rule on_port_inv; auto simp: stub_defs on_device_def)+

lemma access_inv [inv_rules]:
  assumes "drop_bit 8 a = drop_bit 8 (ucast badge)"
  shows "inv_on (adds_calls (on_device badge) calls) {} (pci_read_l (recorded instr) a)"
    "inv_on (adds_calls (on_device badge) calls) {} (pci_read_w (recorded instr) a)"
    "inv_on (adds_calls (on_device badge) calls) {} (pci_read_b (recorded instr) a)"
    "inv_on (adds_calls (on_device badge) calls) {} (pci_write_l (recorded instr) a x)"
    "inv_on (adds_calls (on_device badge) calls) {} (pci_write_w (recorded instr) a y)"
    "inv_on (adds_calls (on_device badge) calls) {} (pci_write_b (recorded instr) a z)"
  unfolding pci_read_l_def pci_read_w_def pci_read_b_def pci_write_l_def pci_write_w_def pci_write_b_def user_get_mr_def
  by (intro inv_rules assms)+

lemma buffer_inv [inv_rules]:
  "inv_on (adds_calls P calls) {} (put_mr i v)" "inv_on (adds_calls P calls) {} (put_mrs ws)"
  "inv_on (adds_calls P calls) {} (answer err n)" "inv_on (adds_calls P calls) {} (user_get_mr i)"
proof -
  show mr: "inv_on (adds_calls P calls) {} (put_mr i v)" for i v
    unfolding put_mr_def by (intro inv_rules) (simp add: adds_calls_keep)
  show "inv_on (adds_calls P calls) {} (put_mrs ws)" unfolding put_mrs_def by (intro inv_rules mr)
  show "inv_on (adds_calls P calls) {} (answer err n)" "inv_on (adds_calls P calls) {} (user_get_mr i)"
    unfolding answer_def user_get_mr_def by (intro inv_rules)+
qed

text \<open>The offset of a request reaches only the lowest eight bits of the address.\<close>

lemma config_address_device: "drop_bit 8 (config_address badge offset) = drop_bit 8 (ucast badge)"
proof -
  have "config_address badge offset = ucast (badge OR (offset AND mask 8))"
    by (simp add: config_address_def mask_eq_exp_minus_1)
  then show ?thesis
    by (intro bit_word_eqI) (auto simp: bit_drop_bit_eq bit_or_iff bit_and_iff bit_ucast_iff bit_mask_iff)
qed

text \<open>The registers of a device that the information request reads lie in its first 64 bytes.\<close>

lemma low_offset_device:
  assumes "a AND 0xFF = (0 :: u32)" and "k < 256"
  shows "drop_bit 8 (a + of_nat k) = drop_bit 8 a"
proof -
  have ff: "(0xFF :: u32) = mask 8" by (simp add: mask_eq_exp_minus_1)
  have k: "take_bit 8 (of_nat k :: u32) = of_nat k"
    using assms(2) by (simp add: take_bit_of_nat take_bit_nat_eq_self)
  have "a AND of_nat k = (a AND mask 8) AND of_nat k"
    by (subst k [symmetric]) (simp add: take_bit_eq_mask and.assoc and.commute and.left_commute)
  then have "a AND of_nat k = 0" using assms(1) by (simp add: ff)
  then have "a + of_nat k = a OR of_nat k" by (rule disjunctive_add_eq_or)
  moreover have "drop_bit 8 (of_nat k :: u32) = 0" by (subst k [symmetric]) (simp add: drop_bit_take_bit)
  ultimately show ?thesis by simp
qed

lemma read_config_space_inv:
  assumes "badge AND 0xFF = 0" and "badge = ucast a" and "i + n \<le> 8"
  shows "inv_on (adds_calls (on_device badge) calls) {} (read_config_space (recorded instr) a i n)"
  using assms(3)
proof (induction n arbitrary: i)
  case 0
  then show ?case by (auto intro: inv_rules)
next
  case (Suc n)
  have "ucast (ucast a AND 0xFF :: word_t) = a AND (0xFF :: u32)"
    by (rule bit_word_eqI) (simp add: bit_ucast_iff bit_and_iff)
  then have low: "a AND 0xFF = 0" using assms by simp
  have dev: "drop_bit 8 (a + of_nat k) = drop_bit 8 (ucast badge)" if "k < 256" for k
    using low_offset_device [OF low that] assms(2) by simp
  have reg: "a + of_nat i * 8 = a + of_nat (i * 8)" "a + of_nat i * 8 + 4 = a + of_nat (i * 8 + 4)"
    by (simp_all add: algebra_simps)
  have low_reg: "drop_bit 8 (a + of_nat i * 8) = drop_bit 8 (ucast badge)" unfolding reg(1) using Suc.prems by (intro dev) simp
  have high_reg: "drop_bit 8 (a + of_nat i * 8 + 4) = drop_bit 8 (ucast badge)"
    unfolding reg(2) using Suc.prems by (intro dev) simp
  have others: "inv_on (adds_calls (on_device badge) calls) {} (read_config_space (recorded instr) a (Suc i) n)"
    using Suc.IH [of "Suc i"] Suc.prems by simp
  show ?case unfolding read_config_space.simps by (intro inv_rules low_reg high_reg others)
qed

lemma handle_request_inv:
  assumes "badge \<noteq> 0" and "badge AND 0xFF = 0"
  shows "inv_on (adds_calls (on_device badge) calls) {} (handle_request (recorded instr) info badge)"
proof -
  have issue: "inv_on (adds_calls (on_device badge) calls) {} (handle_issue (recorded instr) info badge)"
    "inv_on (adds_calls (on_device badge) calls) {} (handle_enumerate (recorded instr) badge)"
    using assms(1) by (simp_all add: handle_issue_def handle_enumerate_def buffer_inv)
  have device_info: "inv_on (adds_calls (on_device badge) calls) {} (handle_device_info (recorded instr) badge)"
    unfolding handle_device_info_def Let_def
    using assms by (intro inv_rules read_config_space_inv) auto
  have accesses: "inv_on (adds_calls (on_device badge) calls) {} (handle_read (recorded instr) info badge)"
    "inv_on (adds_calls (on_device badge) calls) {} (handle_write (recorded instr) info badge)"
    unfolding handle_read_def handle_write_def Let_def by (intro inv_rules config_address_device)+
  show ?thesis
    unfolding handle_request_def Let_def by (intro inv_rules issue device_info accesses)
qed

lemma same_device:
  assumes "drop_bit 8 a = drop_bit 8 (b :: u32)"
  shows "pci_bus a = pci_bus b \<and> pci_device a = pci_device b \<and> pci_function a = pci_function b"
proof -
  have "drop_bit (8 + n) a = drop_bit (8 + n) b" for n
    using arg_cong [OF assms, of "drop_bit n"] by (simp add: add.commute)
  from this [of 0] this [of 3] this [of 8] show ?thesis
    by (simp add: pci_bus_def pci_device_def pci_function_def)
qed



text \<open>
  The capability that the manager issues does not carry the device that was asked for: the badge is
  taken from message register 1 after the stub of the delete has put the depth 64 there. If the kernel
  leaves the registers alone, as it does when the delete succeeds, every capability is for badge 64.
\<close>

lemma issue_ignores_address:
  assumes "1 \<le> message_length info"
    and quiet: "\<And>num a1 a2 b m k. instr num a1 a2 b m k = (r, b, m, k)"
  shows "\<exists>t tag. handle_issue (recorded instr) info 0 s = Inr (new_message_tag NO_ERROR 0 1 0, t)
    \<and> (case last (fst (us_env t)) of (num, obj, tag, b) \<Rightarrow>
         num = SYS_CALL \<and> obj = PCI_CNODE_CAP \<and> message_label tag = METHOD_CNODE_MINT \<and> b 5 = 64)"
proof -
  have "\<not> message_length info < 1" using assms(1) by (simp only: not_less)
  then have "message_length info \<noteq> 0" by simp
  then show ?thesis
    by (simp add: handle_issue_def invoke_method_def user_call_def sender_badge_def user_get_mr_def syscall2_def
        recorded_def quiet stub_defs kern_simps message_info_to_word_def)
qed

end
