(* ===== verification/User_Programs.thy ===== *)
theory User_Programs
  imports User_Library
begin

text \<open>
  The small servers (\<open>user/calculator_server.c\<close>, \<open>user/serial_driver.c\<close>, the client part of
  \<open>user/serial_driver.h\<close>): what they do with one message. The serial port is reached through the
  kernel; what a read of a port returns is an argument.
\<close>

section \<open>The calculator\<close>

abbreviation (input) CALCULATOR_QUIT :: word_t where "CALCULATOR_QUIT \<equiv> 0"
abbreviation (input) CALCULATOR_RET42 :: word_t where "CALCULATOR_RET42 \<equiv> 1"
abbreviation (input) CALCULATOR_DOUBLE :: word_t where "CALCULATOR_DOUBLE \<equiv> 2"
abbreviation (input) CALCULATOR_INC :: word_t where "CALCULATOR_INC \<equiv> 3"
abbreviation (input) CALCULATOR_ADD :: word_t where "CALCULATOR_ADD \<equiv> 4"
abbreviation (input) CALCULATOR_ERROR_UNKNOWN :: word_t where "CALCULATOR_ERROR_UNKNOWN \<equiv> 5"

text \<open>One message: whether the server ends, the tag of its answer, and its buffer.\<close>

definition calculator_step :: "message_tag_t \<Rightarrow> ipc_buffer \<Rightarrow> bool \<times> message_tag_t \<times> ipc_buffer" where
  "calculator_step info b =
     (let label = message_label info;
          finished = (label = CALCULATOR_QUIT);
          b' = (if label = CALCULATOR_RET42 then user_set_mr 0 42 b
                else if label = CALCULATOR_DOUBLE then user_set_mr 0 (b 0 * 2) b
                else if label = CALCULATOR_INC then user_set_mr 0 (b 0 + 1) b
                else if label = CALCULATOR_ADD then user_set_mr 0 (b 0 + b 1) b
                else b);
          err = (if label \<in> {CALCULATOR_QUIT, CALCULATOR_RET42, CALCULATOR_DOUBLE, CALCULATOR_INC, CALCULATOR_ADD}
                 then 0 else CALCULATOR_ERROR_UNKNOWN);
          resp = (if err \<noteq> 0 then new_message_tag err 0 0 0 else new_message_tag label 0 0 1)
      in (finished, resp, b'))"

text \<open>The loop of the server over the messages it gets, with its answers; it ends with a quit.\<close>

fun calculator :: "message_tag_t list \<Rightarrow> (nat \<Rightarrow> ipc_buffer) \<Rightarrow> nat \<Rightarrow> (message_tag_t \<times> word_t) list" where
  "calculator [] bufs i = []"
| "calculator (info # msgs) bufs i =
     (case calculator_step info (bufs i) of (finished, resp, b) \<Rightarrow>
        (resp, b 0) # (if finished then [] else calculator msgs bufs (Suc i)))"

lemma calculator_adds:
  "calculator_step (new_message_tag CALCULATOR_ADD 0 0 2) b = (False, new_message_tag CALCULATOR_ADD 0 0 1, b(0 := b 0 + b 1))"
  by (simp add: calculator_step_def user_set_mr_def)

text \<open>The label of an unknown request is the label 5 itself: the client cannot tell it from an answer.\<close>

section \<open>The serial driver\<close>

abbreviation (input) SERIAL_BUFFER_SIZE :: nat where "SERIAL_BUFFER_SIZE \<equiv> 256"

record serial_state =
  ser_buffer :: "u8 list"
  ser_written :: "u8 list"

text \<open>
  \<open>write_uart\<close>: the words of the message go through an array of 128 bytes, as port accesses use the
  same IPC buffer; a longer message runs over the array.
\<close>

definition write_uart :: "message_tag_t \<Rightarrow> ipc_buffer \<Rightarrow> serial_state \<Rightarrow> fault + serial_state" where
  "write_uart info b s =
     (let n = unat (message_length info) in
      if n > 128 then Inl Undefined
      else Inr (s\<lparr>ser_written := ser_written s @ map (\<lambda>i. ucast (b i)) [0..<n]\<rparr>))"

text \<open>\<open>read_uart\<close>: the buffered bytes, as sign-extended \<open>char\<close> values, or an error if there are none.\<close>

definition read_uart :: "serial_state \<Rightarrow> ipc_buffer \<Rightarrow> serial_state \<times> message_tag_t \<times> ipc_buffer" where
  "read_uart s b =
     (if ser_buffer s = [] then (s, new_message_tag WOULD_BLOCK 0 0 0, b)
      else let n = length (ser_buffer s) in
        (s\<lparr>ser_buffer := []\<rparr>, new_message_tag 0 0 0 (of_nat n),
         (\<lambda>i. if i < n then scast (ser_buffer s ! i) else b i)))"

text \<open>
  The interrupt: the port has the bytes \<open>rx\<close> for the driver. The inner loop takes bytes while there
  are some and the buffer has room; the outer loop goes on while there are bytes, signalling the
  reader each time. The result counts the signals; \<open>None\<close> is a loop that does not end.
\<close>

fun take_bytes :: "u8 list \<Rightarrow> u8 list \<Rightarrow> u8 list \<times> u8 list" where
  "take_bytes [] buf = ([], buf)"
| "take_bytes (x # rx) buf = (if length buf < SERIAL_BUFFER_SIZE then take_bytes rx (buf @ [x]) else (x # rx, buf))"

partial_function (option) serial_irq :: "u8 list \<Rightarrow> serial_state \<Rightarrow> nat \<Rightarrow> (serial_state \<times> nat) option" where
  "serial_irq rx s signals =
     (if rx = [] then Some (s, signals)
      else case take_bytes rx (ser_buffer s) of (rx', buf) \<Rightarrow> serial_irq rx' (s\<lparr>ser_buffer := buf\<rparr>) (Suc signals))"

lemma take_bytes_room:
  "length buf + length rx \<le> SERIAL_BUFFER_SIZE \<Longrightarrow> take_bytes rx buf = ([], buf @ rx)"
  by (induction rx arbitrary: buf) auto

lemma take_bytes_full: "length buf = SERIAL_BUFFER_SIZE \<Longrightarrow> take_bytes rx buf = (rx, buf)"
  by (cases rx) auto

text \<open>While the bytes fit into the buffer, the interrupt takes all of them and signals once.\<close>

lemma serial_irq_takes_all:
  assumes "rx \<noteq> []" and "length (ser_buffer s) + length rx \<le> SERIAL_BUFFER_SIZE"
  shows "serial_irq rx s n = Some (s\<lparr>ser_buffer := ser_buffer s @ rx\<rparr>, Suc n)"
proof -
  have "serial_irq [] t m = Some (t, m)" for t m by (subst serial_irq.simps) simp
  then show ?thesis using assms by (subst serial_irq.simps) (simp add: take_bytes_room)
qed

text \<open>
  With a full buffer and another byte at the port the handler does not return: the inner loop takes
  nothing, and the outer loop waits for the port to be empty.
\<close>

lemma serial_irq_needs_room:
  assumes "serial_irq rx s n = Some r"
  shows "rx \<noteq> [] \<longrightarrow> length (ser_buffer s) \<noteq> SERIAL_BUFFER_SIZE"
proof (rule serial_irq.raw_induct[where P = "\<lambda>rx s n r. rx \<noteq> [] \<longrightarrow> length (ser_buffer s) \<noteq> SERIAL_BUFFER_SIZE", OF _ assms])
  fix f :: "u8 list \<Rightarrow> serial_state \<Rightarrow> nat \<Rightarrow> (serial_state \<times> nat) option"
    and rx s n r
  assume later: "\<And>rx s n r. f rx s n = Some r \<Longrightarrow> rx \<noteq> [] \<longrightarrow> length (ser_buffer s) \<noteq> SERIAL_BUFFER_SIZE"
    and now: "(if rx = [] then Some (s, n)
      else case take_bytes rx (ser_buffer s) of (rx', buf) \<Rightarrow> f rx' (s\<lparr>ser_buffer := buf\<rparr>) (Suc n)) = Some r"
  show "rx \<noteq> [] \<longrightarrow> length (ser_buffer s) \<noteq> SERIAL_BUFFER_SIZE"
  proof (intro impI notI)
    assume full: "rx \<noteq> []" "length (ser_buffer s) = SERIAL_BUFFER_SIZE"
    with now have "f rx (s\<lparr>ser_buffer := ser_buffer s\<rparr>) (Suc n) = Some r" by (simp add: take_bytes_full)
    from later[OF this] full show False by simp
  qed
qed

lemma serial_irq_full_never_returns:
  "rx \<noteq> [] \<Longrightarrow> length (ser_buffer s) = SERIAL_BUFFER_SIZE \<Longrightarrow> serial_irq rx s n = None"
  using serial_irq_needs_room by (cases "serial_irq rx s n") blast+

end
