(* ===== verification/Exec.thy ===== *)
theory Exec
  imports User_Library Boot
begin

text \<open>
  Starting a program from a program (\<open>lib/exec.c\<close>, \<open>struct thread_data\<close> and \<open>struct frame\<close> of
  \<open>lib/lib.h\<close>): the image is copied segment by segment through pages that are mapped into the starter and
  into the new address space, then the thread gets an IPC buffer, a stack and its first registers. The
  theory runs over an arbitrary kernel and shows where the parts of the new address space lie.
\<close>

section \<open>The image\<close>

definition get_phdr :: "memory \<Rightarrow> addr \<Rightarrow> nat \<Rightarrow> addr" where
  "get_phdr m ehdr i = ehdr + e_phoff (read_ehdr m ehdr) + of_nat i * ucast (e_phentsize (read_ehdr m ehdr))"

definition data_for_phdr :: "memory \<Rightarrow> addr \<Rightarrow> addr \<Rightarrow> addr" where
  "data_for_phdr m ehdr p = ehdr + p_offset (read_phdr m p)"

text \<open>The fields of the program header are read from memory where the code reads them.\<close>

definition get_segment :: "addr \<Rightarrow> ('k user_state, elf_phdr) kern" where
  "get_segment p = kget (\<lambda>s. read_phdr (us_memory s) p)"

definition map_phdr :: "'k syscall_instr \<Rightarrow> cptr_t \<Rightarrow> cptr_t \<Rightarrow> addr \<Rightarrow> addr \<Rightarrow> ('k user_state, buffer) kern" where
  "map_phdr instr untyped vspace ehdr p =
     kbind (get_segment p) (\<lambda>h.
     let offset = p_vaddr h AND 0xFFF in
     kbind (create_buffer instr untyped ((p_memsz h + offset + 0xFFF) div 0x1000)) (\<lambda>buf.
     kbind (map_buffer_to_mappable_space instr untyped vspace buf) (\<lambda>mapped_addr.
     kseq (kmod (\<lambda>s. s\<lparr>us_memory := memcpy (mapped_addr + offset) (data_for_phdr (us_memory s) ehdr p)
              (p_filesz (read_phdr (us_memory s) p)) (us_memory s)\<rparr>))
          (kret buf))))"

text \<open>The headers from number \<open>i\<close> on; the result is the highest end of a segment.\<close>

fun map_segments :: "nat \<Rightarrow> nat \<Rightarrow> 'k syscall_instr \<Rightarrow> addr \<Rightarrow> cptr_t \<Rightarrow> cptr_t \<Rightarrow> cptr_t \<Rightarrow> addr \<Rightarrow> ('k user_state, addr) kern" where
  "map_segments i 0 instr ehdr untyped vspace our_vspace highest_addr = kret highest_addr"
| "map_segments i (Suc n) instr ehdr untyped vspace our_vspace highest_addr =
     kbind (kget (\<lambda>s. get_phdr (us_memory s) ehdr i)) (\<lambda>p.
     kbind (get_segment p) (\<lambda>h.
     if p_type h \<noteq> PT_LOAD then map_segments (Suc i) n instr ehdr untyped vspace our_vspace highest_addr
     else kbind (map_phdr instr untyped our_vspace ehdr p) (\<lambda>buf.
          kbind (get_segment p) (\<lambda>h1.
          kbind (map_buffer instr untyped vspace buf (p_vaddr h1)) (\<lambda>_.
          kbind (get_segment p) (\<lambda>h2.
            map_segments (Suc i) n instr ehdr untyped vspace our_vspace
              (if p_vaddr h2 + p_memsz h2 > highest_addr then p_vaddr h2 + p_memsz h2 else highest_addr)))))))"

definition map_elf_to_new_vspace :: "'k syscall_instr \<Rightarrow> addr \<Rightarrow> cptr_t \<Rightarrow> cptr_t \<Rightarrow> cptr_t \<Rightarrow> ('k user_state, addr) kern" where
  "map_elf_to_new_vspace instr ehdr untyped vspace our_vspace =
     kbind (kget (\<lambda>s. e_phnum (read_ehdr (us_memory s) ehdr))) (\<lambda>phnum.
       map_segments 0 (unat phnum) instr ehdr untyped vspace our_vspace 0)"

section \<open>The thread\<close>

abbreviation (input) DEFAULT_STACK_PAGES :: word_t where "DEFAULT_STACK_PAGES \<equiv> 4"

text \<open>A name is its address and the object it points to; the null pointer is \<open>None\<close>.\<close>

record thread_data =
  td_elf_header :: addr
  td_untyped :: cptr_t
  td_scratch_vspace :: cptr_t
  td_stack_pages :: word_t
  td_cspace_root :: cptr_t
  td_arguments :: "word_t list"
  td_name :: "(addr \<times> u8 list) option"
  td_tcb :: cptr_t
  td_vspace :: cptr_t
  td_ipc_buffer :: buffer
  td_stack_buffer :: buffer

definition page_align_up :: "addr \<Rightarrow> addr" where
  "page_align_up a = (a + 0xFFF) AND NOT 0xFFF"

definition ipc_addr_for :: "addr \<Rightarrow> addr" where
  "ipc_addr_for highest_addr = page_align_up (highest_addr + 0x1000)"

definition stack_base_for :: "addr \<Rightarrow> addr" where
  "stack_base_for highest_addr = ipc_addr_for highest_addr + 0x2000"

definition stack_addr_for :: "addr \<Rightarrow> word_t \<Rightarrow> addr" where
  "stack_addr_for highest_addr stack_pages = stack_base_for highest_addr + stack_pages * 0x1000"

text \<open>The 22 words of \<open>frame_t\<close> in memory, at the address of the local variable \<open>regs\<close>.\<close>

definition first_registers :: "addr \<Rightarrow> addr \<Rightarrow> addr \<Rightarrow> word_t list \<Rightarrow> word_t list" where
  "first_registers entry stack_addr ipc_addr args =
     [ipc_addr, 0, 0, 0, 0, 0, args ! 5, args ! 4,
      args ! 0, args ! 1, 0, 0, args ! 2, args ! 3, 0,
      0, 0, entry, 0x23, 0, stack_addr, 0x1B]"

definition store64 :: "addr \<Rightarrow> word_t \<Rightarrow> memory \<Rightarrow> memory" where
  "store64 a v m = fold (\<lambda>i m. m(a + of_nat i := ucast (drop_bit (8 * i) v))) [0..<8] m"

fun store_words :: "addr \<Rightarrow> word_t list \<Rightarrow> memory \<Rightarrow> memory" where
  "store_words a [] m = m"
| "store_words a (v # vs) m = store_words (a + 8) vs (store64 a v m)"

definition name_thread :: "'k syscall_instr \<Rightarrow> cptr_t \<Rightarrow> (addr \<times> u8 list) option \<Rightarrow> ('k user_state, unit) kern" where
  "name_thread instr tcb name =
     (case name of
        None \<Rightarrow> kret ()
      | Some (p, obj) \<Rightarrow>
          (case strlen obj of
             Inl e \<Rightarrow> kfail e
           | Inr len \<Rightarrow> kbind (invoke_method instr tcb (Tcb_Set_Name p len)) (\<lambda>_. kret ())))"

definition spawn_thread :: "'k syscall_instr \<Rightarrow> addr \<Rightarrow> thread_data \<Rightarrow> ('k user_state, word_t \<times> thread_data) kern" where
  "spawn_thread instr regs td =
     (let ehdr = td_elf_header td; untyped = td_untyped td; our_vspace = td_scratch_vspace td;
          stack_pages = (if td_stack_pages td \<noteq> 0 then td_stack_pages td else DEFAULT_STACK_PAGES);
          cspace_root = (if td_cspace_root td \<noteq> 0 then td_cspace_root td else INIT_CAP_ROOT_CNODE)
      in kbind (kget (\<lambda>s. is_elf (us_memory s) ehdr)) (\<lambda>ok.
         if \<not> ok then kret (INVALID_ARGUMENT, td)
         else
           kbind (allocate instr untyped CAP_TCB 1) (\<lambda>tcb.
           kbind (allocate instr untyped CAP_X86_64_PML4 1) (\<lambda>vspace.
           kbind (create_buffer instr untyped 1) (\<lambda>ipc_buffer.
           kbind (create_buffer instr untyped stack_pages) (\<lambda>stack_buffer.
           kbind (map_elf_to_new_vspace instr ehdr untyped vspace our_vspace) (\<lambda>highest_addr.
           kbind (map_buffer instr untyped vspace ipc_buffer (ipc_addr_for highest_addr)) (\<lambda>_.
           kbind (map_buffer instr untyped vspace stack_buffer (stack_base_for highest_addr)) (\<lambda>_.
           kbind (invoke_method instr tcb (Tcb_Configure 0 cspace_root vspace (ipc_addr_for highest_addr) (buf_cptr_base ipc_buffer))) (\<lambda>_.
           kseq (kmod (\<lambda>s. s\<lparr>us_memory := store_words regs
                  (first_registers (e_entry (read_ehdr (us_memory s) ehdr)) (stack_addr_for highest_addr stack_pages)
                     (ipc_addr_for highest_addr) (td_arguments td)) (us_memory s)\<rparr>))
          (kbind (invoke_method instr tcb (Tcb_Write_Registers False 0 176 regs)) (\<lambda>_.
           kseq (name_thread instr tcb (td_name td))
                (kret (0, td\<lparr>td_tcb := tcb, td_vspace := vspace, td_ipc_buffer := ipc_buffer, td_stack_buffer := stack_buffer\<rparr>))))))))))))))"

section \<open>The layout of the new address space\<close>

text \<open>What is not an image gets nothing: the call returns an error before it allocates or maps anything.\<close>

lemma spawn_rejects_other_files:
  "\<not> is_elf (us_memory s) (td_elf_header td) \<Longrightarrow> spawn_thread instr regs td s = Inr ((INVALID_ARGUMENT, td), s)"
  by (simp add: spawn_thread_def Let_def kbind_def kget_def kret_def split del: if_split)

text \<open>
  Behind the highest byte of the image at least one page stays free; then come the page of the IPC
  buffer, one more free page, and the stack, all aligned, if they fit into the address space at all.
\<close>

lemma unat_page_align_up:
  assumes "unat a + 0xFFF < 2 ^ 64"
  shows "unat (page_align_up a) = (unat a + 0xFFF) div 0x1000 * 0x1000"
proof -
  have "page_align_up a = (a + 0xFFF) AND NOT (mask 12)"
    by (simp add: page_align_up_def mask_eq_exp_minus_1)
  moreover have "unat (a + 0xFFF) = unat a + 0xFFF"
    using assms by (simp add: unat_word_ariths)
  ultimately show ?thesis by (simp add: unat_align_down)
qed

lemma new_space_layout:
  assumes "unat highest_addr + unat stack_pages * 0x1000 + 0x4000 < 2 ^ 64"
  shows "unat highest_addr + 0x1000 \<le> unat (ipc_addr_for highest_addr)"
    and "unat (ipc_addr_for highest_addr) < unat highest_addr + 0x2000"
    and "0x1000 dvd unat (ipc_addr_for highest_addr)"
    and "unat (stack_base_for highest_addr) = unat (ipc_addr_for highest_addr) + 0x2000"
    and "unat (stack_addr_for highest_addr stack_pages) = unat (stack_base_for highest_addr) + unat stack_pages * 0x1000"
proof -
  have "unat (highest_addr + 0x1000) = unat highest_addr + 0x1000" using assms by (simp add: unat_word_ariths)
  then have ipc: "unat (ipc_addr_for highest_addr) = (unat highest_addr + 0x1000 + 0xFFF) div 0x1000 * 0x1000"
    unfolding ipc_addr_for_def using assms by (subst unat_page_align_up) simp_all
  moreover have "n \<le> (n + 0xFFF) div 0x1000 * 0x1000 \<and> (n + 0xFFF) div 0x1000 * 0x1000 < n + 0x1000" for n :: nat
    using div_mod_decomp [of "n + 0xFFF" "0x1000"] mod_less_divisor [of "0x1000" "n + 0xFFF"] by linarith
  ultimately show low: "unat highest_addr + 0x1000 \<le> unat (ipc_addr_for highest_addr)"
    and high: "unat (ipc_addr_for highest_addr) < unat highest_addr + 0x2000"
    by (metis, fastforce)
  show "0x1000 dvd unat (ipc_addr_for highest_addr)" unfolding ipc by simp
  show base: "unat (stack_base_for highest_addr) = unat (ipc_addr_for highest_addr) + 0x2000"
    using high assms by (simp add: stack_base_for_def unat_word_ariths)
  have "unat (stack_pages * 0x1000) = unat stack_pages * 0x1000" using assms by (simp add: unat_word_ariths)
  then show "unat (stack_addr_for highest_addr stack_pages) = unat (stack_base_for highest_addr) + unat stack_pages * 0x1000"
    using base high assms by (simp add: stack_addr_for_def unat_word_ariths)
qed

end
