(* ===== verification/Userland.thy ===== *)
theory Userland
  imports User_Programs Exec Pci_Manager C_Sort
begin

text \<open>
  The first program (\<open>user/userland.c\<close>, \<open>read_serial\<close> of \<open>user/serial_driver.h\<close>): it hands capabilities to
  the servers, starts them, and is their client. The boot information is an argument, output is
  dropped except for the numbers that the Fibonacci loop prints, and \<open>regs\<close> is the address of the local
  variable of \<open>spawn_thread\<close>. The programs run over an arbitrary kernel \<open>instr\<close>.
\<close>

section \<open>Clients of the servers\<close>

definition calc_add :: "'k syscall_instr \<Rightarrow> cptr_t \<Rightarrow> word_t \<Rightarrow> word_t \<Rightarrow> ('k user_state, word_t) kern" where
  "calc_add instr calculator_endpoint a b =
     kseq (put_mr 0 a) (kseq (put_mr 1 b)
       (kbind (user_call instr calculator_endpoint (new_message_tag CALCULATOR_ADD 0 0 2)) (\<lambda>_. user_get_mr 0)))"

text \<open>The endless loop with its break, for at most \<open>fuel\<close> rounds, and the numbers it prints.\<close>

fun fibonacci_loop :: "nat \<Rightarrow> 'k syscall_instr \<Rightarrow> cptr_t \<Rightarrow> word_t \<Rightarrow> word_t \<Rightarrow> word_t \<Rightarrow> ('k user_state, word_t list) kern" where
  "fibonacci_loop 0 instr ep up_to a b = kfail Diverges"
| "fibonacci_loop (Suc fuel) instr ep up_to a b =
     kbind (calc_add instr ep a b) (\<lambda>tmp.
     if b > up_to then kret [b]
     else kbind (fibonacci_loop fuel instr ep up_to b tmp) (\<lambda>printed. kret (b # printed)))"

definition calculate_fibonacci_numbers :: "nat \<Rightarrow> 'k syscall_instr \<Rightarrow> cptr_t \<Rightarrow> word_t \<Rightarrow> ('k user_state, word_t list) kern" where
  "calculate_fibonacci_numbers fuel instr ep up_to = fibonacci_loop fuel instr ep up_to 0 1"

abbreviation (input) SERIAL_DRIVER_WRITE :: word_t where "SERIAL_DRIVER_WRITE \<equiv> 1"
abbreviation (input) SERIAL_DRIVER_READ :: word_t where "SERIAL_DRIVER_READ \<equiv> 2"

fun print_to_serial :: "'k syscall_instr \<Rightarrow> cptr_t \<Rightarrow> u8 list \<Rightarrow> ('k user_state, unit) kern" where
  "print_to_serial instr ep [] = kfail Undefined"
| "print_to_serial instr ep (c # message) =
     (if c = 0 then kret ()
      else kseq (put_mr 0 (scast c)) (kseq (user_send instr ep (new_message_tag 1 0 0 1)) (print_to_serial instr ep message)))"

fun print_to_e9 :: "'k syscall_instr \<Rightarrow> cptr_t \<Rightarrow> u8 list \<Rightarrow> ('k user_state, unit) kern" where
  "print_to_e9 instr port_cap [] = kfail Undefined"
| "print_to_e9 instr port_cap (c # message) =
     (if c = 0 then kret ()
      else kbind (invoke_method instr port_cap (X86_64_Io_Port_Out8 0xE9 (scast c))) (\<lambda>_. print_to_e9 instr port_cap message))"

text \<open>Asking for input until there is some, for at most \<open>fuel\<close> rounds.\<close>

fun read_serial :: "nat \<Rightarrow> 'k syscall_instr \<Rightarrow> cptr_t \<Rightarrow> cptr_t \<Rightarrow> ('k user_state, message_tag_t) kern" where
  "read_serial 0 instr ep ntfn = kfail Diverges"
| "read_serial (Suc fuel) instr ep ntfn =
     kbind (user_call instr ep (new_message_tag SERIAL_DRIVER_READ 0 0 0)) (\<lambda>(info, _).
     if message_label info \<noteq> WOULD_BLOCK then kret info
     else kbind (user_wait instr ntfn) (\<lambda>_. read_serial fuel instr ep ntfn))"

definition capitalize :: "word_t \<Rightarrow> word_t" where
  "capitalize m = (let byte = (ucast m :: u8) in if 0x61 \<le> byte \<and> byte \<le> 0x7A then ucast byte + 0x41 - 0x61 else m)"

text \<open>One round of the server that echoes its input in capitals.\<close>

definition capitalization_round :: "nat \<Rightarrow> 'k syscall_instr \<Rightarrow> cptr_t \<Rightarrow> cptr_t \<Rightarrow> ('k user_state, unit) kern" where
  "capitalization_round fuel instr ep ntfn =
     kbind (read_serial fuel instr ep ntfn) (\<lambda>info.
     let regs = message_length info in
     if regs = 0 then kret ()
     else kseq (kfor 0 (unat regs) (\<lambda>i. kbind (user_get_mr i) (\<lambda>m. put_mr i (capitalize m))))
               (user_send instr ep (new_message_tag SERIAL_DRIVER_WRITE 0 0 regs)))"

text \<open>The addresses of the devices, then the information on each of them.\<close>

fun ask_devices :: "'k syscall_instr \<Rightarrow> cptr_t \<Rightarrow> u32 list \<Rightarrow> ('k user_state, word_t list list) kern" where
  "ask_devices instr ep [] = kret []"
| "ask_devices instr ep (a # as) =
     kseq (put_mr 0 (ucast a))
    (kbind (user_call instr ep (new_message_tag PCI_MANAGER_DEVICE_INFO 0 0 1)) (\<lambda>_.
     kbind (kget (\<lambda>s. map (us_buffer s) [0..<8])) (\<lambda>ws.
     kbind (ask_devices instr ep as) (\<lambda>rest. kret (ws # rest)))))"

definition enumerate_pci_devices :: "'k syscall_instr \<Rightarrow> cptr_t \<Rightarrow> ('k user_state, word_t list list) kern" where
  "enumerate_pci_devices instr ep =
     kbind (user_call instr ep (new_message_tag PCI_MANAGER_ENUMERATE 0 0 0)) (\<lambda>(info, _).
     kbind (kget (\<lambda>s. map (\<lambda>i. ucast (drop_bit 32 (us_buffer s i)) :: u32) [0..<unat (message_length info)])) (\<lambda>addrs.
       ask_devices instr ep addrs))"

section \<open>Starting the servers\<close>

definition find_program :: "'f boot_info \<Rightarrow> u8 list \<Rightarrow> ('k user_state, addr option) kern" where
  "find_program bi name =
     (\<lambda>s. case find_tar_entry (bi_initrd bi) (memory_object (us_memory s) (bi_initrd bi) (bi_initrd_size bi)) (bi_initrd bi) name of
        None \<Rightarrow> Inl Diverges
      | Some (Inl e) \<Rightarrow> Inl e
      | Some (Inr r) \<Rightarrow> Inr (r, s))"

text \<open>Names with their addresses in the program, each with its terminating zero.\<close>

record program_names =
  pn_calculator :: "addr \<times> u8 list"
  pn_serial :: "addr \<times> u8 list"
  pn_cdt_test :: "addr \<times> u8 list"
  pn_pci_manager :: "addr \<times> u8 list"

definition thread_for :: "addr \<Rightarrow> cptr_t \<Rightarrow> cptr_t \<Rightarrow> word_t \<Rightarrow> (addr \<times> u8 list) \<Rightarrow> thread_data" where
  "thread_for elf untyped cspace_root arg name =
     \<lparr>td_elf_header = elf, td_untyped = untyped, td_scratch_vspace = INIT_CAP_INIT_VSPACE, td_stack_pages = 0,
      td_cspace_root = cspace_root, td_arguments = [arg, 0, 0, 0, 0, 0], td_name = Some name,
      td_tcb = 0, td_vspace = 0, td_ipc_buffer = \<lparr>buf_cptr_base = 0, buf_pages = 0\<rparr>,
      td_stack_buffer = \<lparr>buf_cptr_base = 0, buf_pages = 0\<rparr>\<rparr>"

text \<open>Copying a capability of the root node into a slot of another node.\<close>

definition give :: "'k syscall_instr \<Rightarrow> cptr_t \<Rightarrow> word_t \<Rightarrow> cptr_t \<Rightarrow> ('k user_state, unit) kern" where
  "give instr cnode index c = call_method instr cnode (Cnode_Copy index 64 INIT_CAP_ROOT_CNODE c 64 CAP_RIGHTS_ALL)"

definition spawn_calculator_thread :: "'k syscall_instr \<Rightarrow> addr \<Rightarrow> 'f boot_info \<Rightarrow> program_names \<Rightarrow> cptr_t \<Rightarrow> cptr_t \<Rightarrow> ('k user_state, unit) kern" where
  "spawn_calculator_thread instr regs bi names untyped calculator_endpoint =
     kbind (find_program bi (snd (pn_calculator names))) (\<lambda>elf.
     case elf of None \<Rightarrow> kret ()
     | Some e \<Rightarrow> kbind (spawn_thread instr regs (thread_for e untyped 0 calculator_endpoint (pn_calculator names))) (\<lambda>(err, td).
         if err \<noteq> 0 then kret () else call_method instr (td_tcb td) Tcb_Resume))"

abbreviation (input) SERIAL_TCB_CAP :: word_t where "SERIAL_TCB_CAP \<equiv> 1"
abbreviation (input) SERIAL_CNODE_CAP :: word_t where "SERIAL_CNODE_CAP \<equiv> 2"
abbreviation (input) SERIAL_SERIAL_PORT_CAP :: word_t where "SERIAL_SERIAL_PORT_CAP \<equiv> 3"
abbreviation (input) SERIAL_ENDPOINT_CAP :: word_t where "SERIAL_ENDPOINT_CAP \<equiv> 4"
abbreviation (input) SERIAL_READ_NOTIFICATION_CAP :: word_t where "SERIAL_READ_NOTIFICATION_CAP \<equiv> 5"
abbreviation (input) SERIAL_NOTIFICATION_CAP :: word_t where "SERIAL_NOTIFICATION_CAP \<equiv> 6"
abbreviation (input) SERIAL_IRQ_CAP :: word_t where "SERIAL_IRQ_CAP \<equiv> 7"
abbreviation (input) SERIAL_IRQ_NOTIFICATION_CAP :: word_t where "SERIAL_IRQ_NOTIFICATION_CAP \<equiv> 8"

definition fill_serial_cnode :: "'k syscall_instr \<Rightarrow> cptr_t \<Rightarrow> cptr_t \<Rightarrow> cptr_t \<Rightarrow> cptr_t \<Rightarrow> ('k user_state, unit) kern" where
  "fill_serial_cnode instr untyped cnode serial_endpoint serial_read_ntfn =
     kseq (give instr cnode SERIAL_CNODE_CAP cnode)
    (kseq (call_method instr INIT_CAP_IO_PORT_CONTROL (X86_64_Io_Port_Control_Issue 0x3F8 0x3FF cnode SERIAL_SERIAL_PORT_CAP 64))
    (kseq (give instr cnode SERIAL_ENDPOINT_CAP serial_endpoint)
    (kseq (give instr cnode SERIAL_READ_NOTIFICATION_CAP serial_read_ntfn)
    (kseq (call_method instr INIT_CAP_IRQ_CONTROL (Irq_Control_Get 4 cnode SERIAL_IRQ_CAP 64))
    (kseq (call_method instr untyped (Untyped_Retype CAP_NOTIFICATION 0 INIT_CAP_ROOT_CNODE cnode 64 SERIAL_NOTIFICATION_CAP 1))
          (call_method instr cnode (Cnode_Mint SERIAL_IRQ_NOTIFICATION_CAP 64 cnode SERIAL_NOTIFICATION_CAP 64 CAP_RIGHTS_ALL 0xFFFF)))))))"

text \<open>An error of \<open>spawn_thread\<close> is only reported; the copy and the resume follow all the same.\<close>

definition spawn_serial_driver :: "'k syscall_instr \<Rightarrow> addr \<Rightarrow> 'f boot_info \<Rightarrow> program_names \<Rightarrow> cptr_t \<Rightarrow> cptr_t \<Rightarrow> cptr_t \<Rightarrow> ('k user_state, unit) kern" where
  "spawn_serial_driver instr regs bi names untyped serial_endpoint serial_read_ntfn =
     kbind (find_program bi (snd (pn_serial names))) (\<lambda>elf.
     case elf of None \<Rightarrow> kret ()
     | Some e \<Rightarrow>
         kbind (allocate_with_size instr untyped CAP_CNODE 1 4) (\<lambda>cnode.
         kseq (fill_serial_cnode instr untyped cnode serial_endpoint serial_read_ntfn)
        (kbind (spawn_thread instr regs (thread_for e untyped cnode 0 (pn_serial names))) (\<lambda>(err, td).
         kseq (give instr cnode SERIAL_TCB_CAP (td_tcb td)) (call_method instr (td_tcb td) Tcb_Resume)))))"

definition spawn_cdt_test :: "'k syscall_instr \<Rightarrow> addr \<Rightarrow> 'f boot_info \<Rightarrow> program_names \<Rightarrow> cptr_t \<Rightarrow> cptr_t \<Rightarrow> ('k user_state, unit) kern" where
  "spawn_cdt_test instr regs bi names main_untyped test_untyped =
     kbind (find_program bi (snd (pn_cdt_test names))) (\<lambda>elf.
     case elf of None \<Rightarrow> kret ()
     | Some e \<Rightarrow>
         kbind (allocate_with_size instr main_untyped CAP_CNODE 1 7) (\<lambda>cnode.
         kseq (give instr cnode 0 cnode)
        (kseq (give instr cnode 1 test_untyped)
        (kseq (call_method instr cnode Cnode_Debug_Print)
        (kbind (spawn_thread instr regs (thread_for e main_untyped cnode 0 (pn_cdt_test names))) (\<lambda>(err, td).
         if err \<noteq> 0 then kret () else call_method instr (td_tcb td) Tcb_Resume))))))"

text \<open>The endpoint of the started PCI manager, or 0.\<close>

definition spawn_pci_manager :: "'k syscall_instr \<Rightarrow> addr \<Rightarrow> 'f boot_info \<Rightarrow> program_names \<Rightarrow> cptr_t \<Rightarrow> cptr_t \<Rightarrow> ('k user_state, cptr_t) kern" where
  "spawn_pci_manager instr regs bi names untyped port =
     kbind (find_program bi (snd (pn_pci_manager names))) (\<lambda>elf.
     case elf of None \<Rightarrow> kret 0
     | Some e \<Rightarrow>
         kbind (allocate_with_size instr untyped CAP_CNODE 1 4) (\<lambda>cnode.
         kbind (allocate instr untyped CAP_ENDPOINT 1) (\<lambda>ep.
         kseq (give instr cnode PCI_ENDPOINT_CAP ep)
        (kseq (give instr cnode PCI_PORT_CAP port)
        (kseq (give instr cnode PCI_CNODE_CAP cnode)
        (kbind (spawn_thread instr regs (thread_for e untyped cnode 0 (pn_pci_manager names))) (\<lambda>(err, td).
         if err \<noteq> 0 then kret 0 else kseq (call_method instr (td_tcb td) Tcb_Resume) (kret ep))))))))"

section \<open>The framebuffer\<close>

text \<open>
  The pixels are numbered from the start of the buffer; an index is computed in 64 bits. These routines
  are kept in the program but not called at present.
\<close>

record framebuffer_info =
  fb_address :: addr
  fb_width :: word_t
  fb_height :: word_t
  fb_bpp :: word_t

type_synonym pixels = "word_t \<Rightarrow> u32"

fun fill_row :: "word_t \<Rightarrow> nat \<Rightarrow> u32 \<Rightarrow> pixels \<Rightarrow> pixels" where
  "fill_row i 0 color px = px"
| "fill_row i (Suc n) color px = fill_row (i + 1) n color (px(i := color))"

text \<open>A loop \<open>for (x = x0; x < x1; x++)\<close> over words takes this many rounds.\<close>

definition rounds_between :: "word_t \<Rightarrow> word_t \<Rightarrow> nat" where
  "rounds_between x0 x1 = unat x1 - unat x0"

fun fill_rows :: "word_t \<Rightarrow> word_t \<Rightarrow> nat \<Rightarrow> word_t \<Rightarrow> nat \<Rightarrow> u32 \<Rightarrow> pixels \<Rightarrow> pixels" where
  "fill_rows width row 0 c n color px = px"
| "fill_rows width row (Suc k) c n color px =
     fill_rows width (row + 1) k c n color (fill_row (row * width + c) n color px)"

definition clear_fb :: "framebuffer_info \<Rightarrow> u32 \<Rightarrow> pixels \<Rightarrow> pixels" where
  "clear_fb fb color px = fill_rows (fb_width fb) 0 (unat (fb_height fb)) 0 (unat (fb_width fb)) color px"

definition draw_square :: "framebuffer_info \<Rightarrow> word_t \<Rightarrow> word_t \<Rightarrow> word_t \<Rightarrow> word_t \<Rightarrow> u32 \<Rightarrow> pixels \<Rightarrow> pixels" where
  "draw_square fb r c w h color px =
     fill_rows (fb_width fb) r (rounds_between r (r + h)) c (rounds_between c (c + w)) color px"

definition in_circle :: "framebuffer_info \<Rightarrow> word_t \<Rightarrow> word_t \<Rightarrow> word_t \<Rightarrow> word_t \<Rightarrow> word_t \<Rightarrow> bool" where
  "in_circle fb r c radius row col \<longleftrightarrow>
     \<not> row \<ge> fb_height fb \<and> \<not> col \<ge> fb_width fb \<and>
     (let rr = row - r; cc = col - c in rr * rr + cc * cc < radius * radius)"

fun circle_row :: "framebuffer_info \<Rightarrow> word_t \<Rightarrow> word_t \<Rightarrow> word_t \<Rightarrow> word_t \<Rightarrow> word_t \<Rightarrow> nat \<Rightarrow> u32 \<Rightarrow> pixels \<Rightarrow> pixels" where
  "circle_row fb r c radius row col 0 color px = px"
| "circle_row fb r c radius row col (Suc n) color px =
     circle_row fb r c radius row (col + 1) n color
       (if in_circle fb r c radius row col then px(row * fb_width fb + col := color) else px)"

fun circle_rows :: "framebuffer_info \<Rightarrow> word_t \<Rightarrow> word_t \<Rightarrow> word_t \<Rightarrow> word_t \<Rightarrow> nat \<Rightarrow> u32 \<Rightarrow> pixels \<Rightarrow> pixels" where
  "circle_rows fb r c radius row 0 color px = px"
| "circle_rows fb r c radius row (Suc k) color px =
     circle_rows fb r c radius (row + 1) k color
       (circle_row fb r c radius row (c - radius) (rounds_between (c - radius) (c + radius)) color px)"

definition draw_circle :: "framebuffer_info \<Rightarrow> word_t \<Rightarrow> word_t \<Rightarrow> word_t \<Rightarrow> u32 \<Rightarrow> pixels \<Rightarrow> pixels" where
  "draw_circle fb r c radius color px =
     circle_rows fb r c radius (r - radius) (rounds_between (r - radius) (r + radius)) color px"

definition take_slot :: "('k user_state, cptr_t) kern" where
  "take_slot = (\<lambda>s. case cptr_alloc (us_bitmap s) of Inl e \<Rightarrow> Inl e | Inr (c, bm) \<Rightarrow> Inr (c, s\<lparr>us_bitmap := bm\<rparr>))"

text \<open>The device memory of the framebuffer, page by page; 0 is the null pointer.\<close>

fun map_fb_pages :: "nat \<Rightarrow> 'k syscall_instr \<Rightarrow> cptr_t \<Rightarrow> cptr_t \<Rightarrow> addr \<Rightarrow> word_t \<Rightarrow> word_t \<Rightarrow> ('k user_state, addr) kern" where
  "map_fb_pages 0 instr fbuntyped untyped fbaddr fbsize off = kret fbaddr"
| "map_fb_pages (Suc n) instr fbuntyped untyped fbaddr fbsize off =
     (if \<not> off < fbsize then kret fbaddr
      else kbind take_slot (\<lambda>c.
           kbind (invoke_method instr fbuntyped (Untyped_Retype CAP_X86_64_PAGE 12 INIT_CAP_ROOT_CNODE INIT_CAP_ROOT_CNODE 64 c 1)) (\<lambda>err.
           if err \<noteq> NO_ERROR then kret 0
           else kbind (map_page instr untyped INIT_CAP_INIT_VSPACE c (fbaddr + off)) (\<lambda>err.
                if err \<noteq> NO_ERROR then kret 0
                else map_fb_pages n instr fbuntyped untyped fbaddr fbsize (off + 0x1000)))))"

fun find_device :: "'f boot_info \<Rightarrow> addr \<Rightarrow> nat \<Rightarrow> nat \<Rightarrow> cptr_t" where
  "find_device bi a i 0 = 0"
| "find_device bi a i (Suc n) =
     (if ud_is_device (bi_untypeds bi i) \<and> ud_base (bi_untypeds bi i) = a then of_nat (INIT_CAP_FIRST_UNTYPED + i)
      else find_device bi a (Suc i) n)"

text \<open>There are no more than \<open>2 ^ 52\<close> pages below any size.\<close>

definition map_framebuffer :: "'k syscall_instr \<Rightarrow> framebuffer_info boot_info \<Rightarrow> cptr_t \<Rightarrow> ('k user_state, addr) kern" where
  "map_framebuffer instr bi untyped =
     (let fb = bi_framebuffer_info bi;
          fbsize = fb_height fb * fb_width fb * fb_bpp fb div 8;
          fbaddr = fb_address fb - 0xFFFF800000000000;
          fbuntyped = find_device bi fbaddr 0 (unat (bi_n_untypeds bi))
      in if fbuntyped = 0 then kret 0
         else map_fb_pages (2 ^ 52) instr fbuntyped untyped fbaddr fbsize 0)"

section \<open>The main program\<close>

definition set_up_slots :: "'f boot_info \<Rightarrow> ('k user_state, unit) kern" where
  "set_up_slots bi = (\<lambda>s.
     case cptr_alloc_init (cr_start (bi_empty_range bi)) (cr_end (bi_empty_range bi)) (us_bitmap s) of
       Inl e \<Rightarrow> Inl e | Inr bm \<Rightarrow> Inr ((), s\<lparr>us_bitmap := bm\<rparr>))"

definition sorted_untypeds :: "'f boot_info \<Rightarrow> ('k user_state, untyped_info list) kern" where
  "sorted_untypeds bi = (\<lambda>s.
     case setup_memory_information (map (\<lambda>i. ud_size_bits (bi_untypeds bi i)) [0..<unat (bi_n_untypeds bi)]) of
       None \<Rightarrow> Inl Diverges | Some (Inl e) \<Rightarrow> Inl e | Some (Inr us) \<Rightarrow> Inr (us, s))"

text \<open>The array is static: its elements behind the used ones are zero.\<close>

definition untyped_cap_at :: "untyped_info list \<Rightarrow> nat \<Rightarrow> cptr_t" where
  "untyped_cap_at us i = of_nat INIT_CAP_FIRST_UNTYPED + (if i < length us then scast (ui_index (us ! i)) else 0)"

text \<open>Everything up to the last, endless loop, of which \<open>rounds\<close> rounds are run.\<close>

definition userland_main :: "nat \<Rightarrow> nat \<Rightarrow> 'k syscall_instr \<Rightarrow> addr \<Rightarrow> 'f boot_info \<Rightarrow> program_names \<Rightarrow> u8 list \<Rightarrow> u8 list \<Rightarrow> ('k user_state, word_t list) kern" where
  "userland_main fuel rounds instr regs bi names e9_text serial_text =
     kseq (set_up_slots bi)
    (kbind (sorted_untypeds bi) (\<lambda>us.
     let untyped = untyped_cap_at us 0; test_untyped = untyped_cap_at us 1 in
     kbind take_slot (\<lambda>pci_io_port.
     kseq (call_method instr INIT_CAP_IO_PORT_CONTROL (X86_64_Io_Port_Control_Issue 0xCF8 0xCFF INIT_CAP_ROOT_CNODE pci_io_port 64))
    (kbind (spawn_pci_manager instr regs bi names untyped pci_io_port) (\<lambda>pci.
     kseq (if pci \<noteq> 0 then kbind (enumerate_pci_devices instr pci) (\<lambda>_. kret ()) else kret ())
    (kbind take_slot (\<lambda>e9_io_port.
     kseq (call_method instr INIT_CAP_IO_PORT_CONTROL (X86_64_Io_Port_Control_Issue 0xE9 0xE9 INIT_CAP_ROOT_CNODE e9_io_port 64))
    (kseq (print_to_e9 instr e9_io_port e9_text)
    (kbind (allocate instr untyped CAP_ENDPOINT 1) (\<lambda>calculator_endpoint.
     kbind (allocate instr untyped CAP_ENDPOINT 1) (\<lambda>serial_endpoint.
     kbind (allocate instr untyped CAP_NOTIFICATION 1) (\<lambda>serial_ntfn.
     kseq (spawn_cdt_test instr regs bi names untyped test_untyped)
    (kseq (spawn_calculator_thread instr regs bi names untyped calculator_endpoint)
    (kseq (spawn_serial_driver instr regs bi names untyped serial_endpoint serial_ntfn)
    (kseq (print_to_serial instr serial_endpoint serial_text)
    (kbind (calculate_fibonacci_numbers fuel instr calculator_endpoint 10000) (\<lambda>printed.
     kseq (kfor 0 rounds (\<lambda>_. capitalization_round fuel instr serial_endpoint serial_ntfn)) (kret printed))))))))))))))))))"

end
