(* ===== verification/Userland_Properties.thy ===== *)
theory Userland_Properties
  imports Userland
begin

text \<open>
  Programs together: the Fibonacci loop of the first program as a client of the calculator, and the
  bounds of the drawing routines.
\<close>

section \<open>The calculator behind an endpoint\<close>

text \<open>
  A call on the endpoint of a server that waits for it, as Ipc_Properties proves it for the kernel: the
  words of the request reach the server's buffer, the server's step runs, and the words of its answer
  reach the caller. The state is the server's buffer.
\<close>

definition calculator_kernel :: "cptr_t \<Rightarrow> ipc_buffer syscall_instr" where
  "calculator_kernel ep num a1 a2 b m sb =
     (if num = SYS_CALL \<and> a1 = ep then
        let info = message_info_from_word a2;
            request = (\<lambda>i. if i < unat (message_length info) then b i else sb i)
        in case calculator_step info request of (finished, resp, sb') \<Rightarrow>
             (message_info_to_word resp, (\<lambda>i. if i < unat (message_length resp) then sb' i else b i), m, sb')
      else (0, b, m, sb))"

lemma calc_add_sum: "\<exists>t. calc_add (calculator_kernel ep) ep a b s = Inr (a + b, t)"
  by (simp add: calc_add_def put_mr_def user_get_mr_def user_call_def sender_badge_def syscall2_def
      calculator_kernel_def calculator_step_def message_info_to_word_def message_info_from_word_def user_set_mr_def
      kern_simps Let_def)

fun fib :: "nat \<Rightarrow> nat" where
  "fib 0 = 0"
| "fib (Suc 0) = 1"
| "fib (Suc (Suc n)) = fib n + fib (Suc n)"

lemma fib_grows: "n \<le> fib (Suc n)"
proof (induction n rule: fib.induct)
  case (3 n)
  have "0 < fib (Suc n)" by (induction n rule: fib.induct) auto
  then show ?case using 3 by simp
qed auto

lemma fibonacci_from:
  assumes "\<forall>j\<le>i + d. fib j \<le> unat up_to" and "unat up_to < fib (Suc (i + d))" and "fib (Suc (i + d)) < 2 ^ 64"
  shows "\<exists>t. fibonacci_loop (Suc d) (calculator_kernel ep) ep up_to (of_nat (fib i)) (of_nat (fib (Suc i))) s =
    Inr (map (\<lambda>j. of_nat (fib (Suc j))) [i..<Suc (i + d)], t)"
  using assms
proof (induction d arbitrary: i s)
  case 0
  then have "(of_nat (fib (Suc i)) :: word_t) > up_to" by (simp add: word_less_nat_alt unat_of_small_nat)
  then show ?case
    using calc_add_sum [of ep "of_nat (fib i)" "of_nat (fib (Suc i))" s] by (auto simp: kern_simps)
next
  case (Suc d)
  have small: "fib (Suc i) \<le> unat up_to" using Suc.prems(1) by auto
  moreover have "unat up_to < 2 ^ 64" using unsigned_less [of up_to, where 'a = nat] by simp
  ultimately have more: "\<not> (of_nat (fib (Suc i)) :: word_t) > up_to" by (simp add: word_less_nat_alt unat_of_small_nat)
  obtain t where sum: "calc_add (calculator_kernel ep) ep (of_nat (fib i)) (of_nat (fib (Suc i))) s =
      Inr (of_nat (fib (Suc (Suc i))), t)"
    using calc_add_sum [of ep "of_nat (fib i)" "of_nat (fib (Suc i))" s] by auto
  have up: "[i..<Suc (i + Suc d)] = i # [Suc i..<Suc (Suc i + d)]" by (simp add: upt_conv_Cons del: upt_Suc)
  obtain t' where "fibonacci_loop (Suc d) (calculator_kernel ep) ep up_to (of_nat (fib (Suc i))) (of_nat (fib (Suc (Suc i)))) t =
      Inr (map (\<lambda>j. of_nat (fib (Suc j))) [Suc i..<Suc (Suc i + d)], t')"
    using Suc.IH [of "Suc i" t] Suc.prems by auto
  then show ?case unfolding up by (subst fibonacci_loop.simps) (simp add: kern_simps sum more del: fib.simps fibonacci_loop.simps upt_Suc)
qed

text \<open>C22: The client and the calculator compute the Fibonacci numbers: for every limit below 2^63 the loop
ends, after as many rounds as it prints numbers, and prints fib 1, fib 2, .. up to and including the
first one that is greater than the limit.\<close>

theorem fibonacci_client:
  assumes "unat up_to < 2 ^ 63"
  shows "\<exists>k t. 0 < k \<and> (\<forall>i<k. fib i \<le> unat up_to) \<and> unat up_to < fib k
    \<and> calculate_fibonacci_numbers k (calculator_kernel ep) ep up_to s =
        Inr (map (\<lambda>i. of_nat (fib i)) [1..<Suc k], t)"
proof -
  define k where "k = (LEAST k. unat up_to < fib k)"
  have "unat up_to < fib (Suc (Suc (unat up_to)))" using fib_grows [of "Suc (unat up_to)"] by simp
  then have above: "unat up_to < fib k" unfolding k_def by (rule LeastI)
  have below: "fib i \<le> unat up_to" if "i < k" for i using that not_less_Least unfolding k_def by fastforce
  have "0 < k" using above by (cases k) auto
  then obtain d where d: "k = Suc d" by (cases k) auto
  have "fib k < 2 ^ 64"
  proof (cases d)
    case (Suc e)
    then have "fib k = fib e + fib d" by (simp add: d)
    then show ?thesis using below [of e] below [of d] assms by (simp add: d Suc)
  qed (simp add: d)
  then obtain t where "fibonacci_loop (Suc d) (calculator_kernel ep) ep up_to (of_nat (fib 0)) (of_nat (fib (Suc 0))) s =
      Inr (map (\<lambda>j. of_nat (fib (Suc j))) [0..<Suc (0 + d)], t)"
    using fibonacci_from [of 0 d up_to ep s] above below by (auto simp: d less_Suc_eq_le)
  moreover have "map (\<lambda>j. of_nat (fib (Suc j)) :: word_t) [0..<Suc (0 + d)] = map (\<lambda>i. of_nat (fib i)) [1..<Suc k]"
    by (simp add: d map_Suc_upt [symmetric] comp_def del: upt_Suc fib.simps)
  ultimately have "calculate_fibonacci_numbers k (calculator_kernel ep) ep up_to s = Inr (map (\<lambda>i. of_nat (fib i)) [1..<Suc k], t)"
    unfolding calculate_fibonacci_numbers_def d [symmetric]
    by (simp del: fibonacci_loop.simps upt_Suc)
  then show ?thesis using \<open>0 < k\<close> above below by blast
qed

text \<open>The limit of the program is 10000.\<close>

theorem fibonacci_client_witness:
  "\<exists>k t. 0 < k \<and> (\<forall>i<k. fib i \<le> 10000) \<and> 10000 < fib k
    \<and> calculate_fibonacci_numbers k (calculator_kernel 30) 30 10000
        \<lparr>us_buffer = (\<lambda>_. 0), us_bitmap = [], us_mappable = 0, us_memory = (\<lambda>_. 0), us_env = (\<lambda>_. 0)\<rparr> =
        Inr (map (\<lambda>i. of_nat (fib i)) [1..<Suc k], t)"
  using fibonacci_client [of 10000 30] by simp

section \<open>Drawing\<close>

text \<open>A circle never touches memory outside of the framebuffer.\<close>

lemma pixel_inside:
  assumes "unat (fb_width fb) * unat (fb_height fb) < 2 ^ 64" and "in_circle fb r c radius row col"
  shows "unat (row * fb_width fb + col) < unat (fb_width fb) * unat (fb_height fb)"
proof -
  have row: "Suc (unat row) \<le> unat (fb_height fb)" and col: "unat col < unat (fb_width fb)"
    using assms(2) by (auto simp: in_circle_def word_less_nat_alt not_le)
  have "unat row * unat (fb_width fb) + unat col < Suc (unat row) * unat (fb_width fb)" using col by simp
  also have "\<dots> \<le> unat (fb_height fb) * unat (fb_width fb)" using row by (rule mult_le_mono1)
  finally have "unat row * unat (fb_width fb) + unat col < unat (fb_width fb) * unat (fb_height fb)"
    by (simp add: mult.commute)
  then show ?thesis using assms(1) by (simp add: unat_word_ariths)
qed

lemma circle_row_inside:
  assumes "unat (fb_width fb) * unat (fb_height fb) < 2 ^ 64" and "unat (fb_width fb) * unat (fb_height fb) \<le> unat i"
  shows "circle_row fb r c radius row col n color px i = px i"
proof (induction n arbitrary: col px)
  case (Suc n)
  then show ?case using pixel_inside [OF assms(1), of r c radius row col] assms(2) by auto
qed simp

lemma draw_circle_inside:
  assumes "unat (fb_width fb) * unat (fb_height fb) < 2 ^ 64" and "unat (fb_width fb) * unat (fb_height fb) \<le> unat i"
  shows "draw_circle fb r c radius color px i = px i"
proof -
  have "circle_rows fb r c radius row k color qx i = qx i" for row k qx
    by (induction k arbitrary: row qx) (simp_all add: circle_row_inside [OF assms])
  then show ?thesis by (simp add: draw_circle_def)
qed

text \<open>
  The comparisons with zero are meant to cut off what lies left of the screen or above it, but the
  coordinates are unsigned: a circle that reaches over the upper edge is not drawn at all.
\<close>

lemma circle_over_edge_not_drawn:
  assumes "r < radius" and "unat r + unat radius < 2 ^ 63"
  shows "draw_circle fb r c radius color px = px"
proof -
  have "unat (r + radius) = unat r + unat radius" using assms(2) by (simp add: unat_word_ariths)
  moreover have "unat (r - radius) = 2 ^ 64 + unat r - unat radius"
    using assms by (simp add: unat_sub_if_size word_size word_less_nat_alt)
  ultimately have "rounds_between (r - radius) (r + radius) = 0" using assms(2) by (simp add: rounds_between_def)
  then show ?thesis by (simp add: draw_circle_def)
qed

end
