(* ===== verification/Processor.thy ===== *)
theory Processor
  imports Boot Irq
begin

text \<open>
  What boot sets in the processor (\<open>kern/arch/x86_64/gdt.c\<close>, \<open>idt.c\<close>, \<open>syscall.c\<close>, \<open>sse.c\<close>, \<open>pic.c\<close>,
  \<open>lapic.c\<close>, \<open>smp.c\<close>, \<open>initrd.c\<close>, the register accessors of \<open>intrin.c\<close>): descriptor tables, the task
  state, model specific and control registers, and the local interrupt controller. The tables are
  modelled with the layout of their entries. The addresses of static objects and of the assembly entry
  points are arguments.
\<close>

section \<open>Registers\<close>

record gdt_entry =
  g_limit_low :: u16
  g_base_low :: u16
  g_base_middle :: u8
  g_access :: u8
  g_granularity :: u8
  g_base_high :: u8

record idt_entry =
  i_handler_low :: u16
  i_segment :: u16
  i_ist :: u8
  i_type :: u8
  i_handler_mid :: u16
  i_handler_high :: u32

record tss =
  tss_rsp :: "word_t list"
  tss_ist :: "word_t list"
  tss_iomap_base :: u16

record processor =
  cpu_gdt :: "gdt_entry list"
  cpu_gdtr :: "u16 \<times> addr"
  cpu_task_register :: u16
  cpu_tss :: tss
  cpu_kernel_stack_top :: addr
  cpu_idt :: "idt_entry list"
  cpu_idtr :: "u16 \<times> addr"
  cpu_msr :: "u32 \<Rightarrow> word_t"
  cpu_cr0 :: word_t
  cpu_cr4 :: word_t
  cpu_lapic :: "u32 \<Rightarrow> u32"

abbreviation (input) IA32_APIC_BASE :: u32 where "IA32_APIC_BASE \<equiv> 0x1B"
abbreviation (input) IA32_EFER :: u32 where "IA32_EFER \<equiv> 0xC0000080"
abbreviation (input) IA32_STAR :: u32 where "IA32_STAR \<equiv> 0xC0000081"
abbreviation (input) IA32_LSTAR :: u32 where "IA32_LSTAR \<equiv> 0xC0000082"
abbreviation (input) IA32_CSTAR :: u32 where "IA32_CSTAR \<equiv> 0xC0000083"
abbreviation (input) IA32_FMASK :: u32 where "IA32_FMASK \<equiv> 0xC0000084"
abbreviation (input) IA32_FS_BASE :: u32 where "IA32_FS_BASE \<equiv> 0xC0000100"
abbreviation (input) IA32_GS_BASE :: u32 where "IA32_GS_BASE \<equiv> 0xC0000101"

text \<open>The instructions take and give a model specific register in two halves.\<close>

definition write_msr :: "u32 \<Rightarrow> word_t \<Rightarrow> processor \<Rightarrow> processor" where
  "write_msr msr_id value p =
     (let low = (ucast (value AND 0xFFFFFFFF) :: u32); high = (ucast (drop_bit 32 value) :: u32)
      in p\<lparr>cpu_msr := (cpu_msr p)(msr_id := push_bit 32 (ucast high) OR ucast low)\<rparr>)"

definition read_msr :: "u32 \<Rightarrow> processor \<Rightarrow> word_t" where
  "read_msr msr_id p =
     (let low = (ucast (cpu_msr p msr_id) :: u32); high = (ucast (drop_bit 32 (cpu_msr p msr_id)) :: u32)
      in push_bit 32 (ucast high) OR ucast low)"

definition write_gsbase :: "addr \<Rightarrow> processor \<Rightarrow> processor" where
  "write_gsbase v = write_msr IA32_GS_BASE v"

definition write_fsbase :: "addr \<Rightarrow> processor \<Rightarrow> processor" where
  "write_fsbase v = write_msr IA32_FS_BASE v"

definition write_cr0 :: "word_t \<Rightarrow> processor \<Rightarrow> processor" where
  "write_cr0 v p = p\<lparr>cpu_cr0 := v\<rparr>"

definition write_cr4 :: "word_t \<Rightarrow> processor \<Rightarrow> processor" where
  "write_cr4 v p = p\<lparr>cpu_cr4 := v\<rparr>"

abbreviation (input) CR0_MP :: word_t where "CR0_MP \<equiv> 0x2"
abbreviation (input) CR0_EM :: word_t where "CR0_EM \<equiv> 0x4"
abbreviation (input) CR4_OSFXSR :: word_t where "CR4_OSFXSR \<equiv> 0x200"
abbreviation (input) CR4_OSXMMEXCPT :: word_t where "CR4_OSXMMEXCPT \<equiv> 0x400"
abbreviation (input) CR4_FSGSBASE :: word_t where "CR4_FSGSBASE \<equiv> 0x10000"

definition init_sse :: "processor \<Rightarrow> processor" where
  "init_sse p =
     (let p = write_cr0 ((cpu_cr0 p AND NOT CR0_EM) OR CR0_MP) p
      in write_cr4 (cpu_cr4 p OR (CR4_OSFXSR OR CR4_OSXMMEXCPT)) p)"

section \<open>Segments\<close>

abbreviation (input) KERNEL_CS :: word_t where "KERNEL_CS \<equiv> 0x08"
abbreviation (input) KERNEL_SS :: word_t where "KERNEL_SS \<equiv> 0x10"
abbreviation (input) USER_FAKE_SYSRET_CS :: word_t where "USER_FAKE_SYSRET_CS \<equiv> 0x13"
abbreviation (input) KERNEL_CODE :: u8 where "KERNEL_CODE \<equiv> 0x9A"
abbreviation (input) KERNEL_DATA :: u8 where "KERNEL_DATA \<equiv> 0x92"
abbreviation (input) USER_CODE :: u8 where "USER_CODE \<equiv> 0xFA"
abbreviation (input) USER_DATA :: u8 where "USER_DATA \<equiv> 0xF2"
abbreviation (input) TSS_ACCESS :: u8 where "TSS_ACCESS \<equiv> 0x89"
abbreviation (input) LONG_MODE :: u8 where "LONG_MODE \<equiv> 0x20"
abbreviation (input) TSS_SIZE :: u16 where "TSS_SIZE \<equiv> 104"

definition zero_gdt_entry :: gdt_entry where
  "zero_gdt_entry = \<lparr>g_limit_low = 0, g_base_low = 0, g_base_middle = 0, g_access = 0, g_granularity = 0, g_base_high = 0\<rparr>"

definition DESCRIPTOR :: "u8 \<Rightarrow> u8 \<Rightarrow> gdt_entry" where
  "DESCRIPTOR a g = zero_gdt_entry\<lparr>g_access := a, g_granularity := g\<rparr>"

definition bsp_gdt :: "gdt_entry list" where
  "bsp_gdt = [DESCRIPTOR 0 0, DESCRIPTOR KERNEL_CODE LONG_MODE, DESCRIPTOR KERNEL_DATA LONG_MODE,
     DESCRIPTOR USER_DATA LONG_MODE, DESCRIPTOR USER_CODE LONG_MODE,
     zero_gdt_entry\<lparr>g_access := TSS_ACCESS, g_limit_low := TSS_SIZE - 1\<rparr>, zero_gdt_entry]"

definition zero_tss :: tss where
  "zero_tss = \<lparr>tss_rsp = replicate 3 0, tss_ist = replicate 7 0, tss_iomap_base = 0\<rparr>"

text \<open>\<open>ltr\<close> marks the task state's descriptor as busy. \<open>base_upper\<close> is the first word of the union, which the two first members share.\<close>

definition set_base_upper :: "u32 \<Rightarrow> gdt_entry \<Rightarrow> gdt_entry" where
  "set_base_upper v e = e\<lparr>g_limit_low := ucast v, g_base_low := ucast (drop_bit 16 v)\<rparr>"

definition base_upper :: "gdt_entry \<Rightarrow> u32" where
  "base_upper e = ucast (g_limit_low e) OR push_bit 16 (ucast (g_base_low e))"

definition load_gdt :: "u16 \<times> addr \<Rightarrow> processor \<Rightarrow> processor" where
  "load_gdt g p = p\<lparr>cpu_gdtr := g, cpu_task_register := 0x28,
     cpu_gdt := (cpu_gdt p)[5 := (cpu_gdt p ! 5)\<lparr>g_access := g_access (cpu_gdt p ! 5) OR 2\<rparr>]\<rparr>"

definition init_fsgs :: "processor \<Rightarrow> processor" where
  "init_fsgs p = write_cr4 (cpu_cr4 p OR CR4_FSGSBASE) p"

text \<open>
  \<open>init_gdt\<close> with the addresses of the processor block and of its task state and table. The far jump and the clearing
  of the data segments leave the rest of the state alone.
\<close>

definition init_gdt :: "addr \<Rightarrow> addr \<Rightarrow> addr \<Rightarrow> processor \<Rightarrow> processor" where
  "init_gdt cpu tss gdt p =
     (let low = (cpu_gdt p ! 5)\<lparr>g_base_low := ucast tss, g_base_middle := ucast (drop_bit 16 tss), g_base_high := ucast (drop_bit 24 tss)\<rparr>;
          high = set_base_upper (ucast (drop_bit 32 tss)) (cpu_gdt p ! 6);
          p = p\<lparr>cpu_gdt := (cpu_gdt p)[5 := low, 6 := high]\<rparr>
      in write_gsbase cpu (init_fsgs (load_gdt (55, gdt) p)))"

definition init_bsp_gdt :: "addr \<Rightarrow> addr \<Rightarrow> addr \<Rightarrow> processor \<Rightarrow> processor" where
  "init_bsp_gdt cpu tss gdt p =
     init_gdt cpu tss gdt (p\<lparr>cpu_gdt := bsp_gdt, cpu_tss := zero_tss\<lparr>tss_iomap_base := TSS_SIZE\<rparr>\<rparr>)"

text \<open>Another processor starts from the table as the first one left it.\<close>

definition init_ap_gdt :: "addr \<Rightarrow> addr \<Rightarrow> addr \<Rightarrow> gdt_entry list \<Rightarrow> processor \<Rightarrow> processor" where
  "init_ap_gdt cpu tss gdt bsp p =
     init_gdt cpu tss gdt (p\<lparr>cpu_gdt := bsp[5 := (bsp ! 5)\<lparr>g_access := TSS_ACCESS\<rparr>],
        cpu_tss := zero_tss\<lparr>tss_iomap_base := TSS_SIZE\<rparr>\<rparr>)"

section \<open>Interrupts\<close>

abbreviation (input) TYPE_INT :: u8 where "TYPE_INT \<equiv> 0x8E"
abbreviation (input) TYPE_USER_INT :: u8 where "TYPE_USER_INT \<equiv> 0xEE"
abbreviation (input) IST_NMI :: u8 where "IST_NMI \<equiv> 1"
abbreviation (input) IST_DF :: u8 where "IST_DF \<equiv> 2"

definition set_idt_gate :: "nat \<Rightarrow> addr \<Rightarrow> u8 \<Rightarrow> u8 \<Rightarrow> idt_entry list \<Rightarrow> idt_entry list" where
  "set_idt_gate num base type ist idt = idt[num :=
     \<lparr>i_handler_low = ucast (base AND 0xFFFF), i_segment = ucast KERNEL_CS, i_ist = ist, i_type = type,
      i_handler_mid = ucast (drop_bit 16 base AND 0xFFFF), i_handler_high = ucast (drop_bit 32 base)\<rparr>]"

definition zero_idt_entry :: idt_entry where
  "zero_idt_entry = \<lparr>i_handler_low = 0, i_segment = 0, i_ist = 0, i_type = 0, i_handler_mid = 0, i_handler_high = 0\<rparr>"

text \<open>The calls of \<open>init_idt\<close> in order, with the addresses of the entry points \<open>isr\<close> and \<open>irq\<close>.\<close>

definition idt_gates :: "(nat \<Rightarrow> addr) \<Rightarrow> (nat \<Rightarrow> addr) \<Rightarrow> (nat \<times> addr \<times> u8 \<times> u8) list" where
  "idt_gates isr irq =
     map (\<lambda>n. (n, isr n, if n = 3 then TYPE_USER_INT else TYPE_INT, if n = 2 then IST_NMI else if n = 8 then IST_DF else 0)) [0..<32]
     @ map (\<lambda>n. (n, irq (n - 32), TYPE_INT, 0)) [32..<48]
     @ [(255, isr 255, TYPE_USER_INT, 0)]"

definition init_idt :: "(nat \<Rightarrow> addr) \<Rightarrow> (nat \<Rightarrow> addr) \<Rightarrow> addr \<Rightarrow> processor \<Rightarrow> processor" where
  "init_idt isr irq idt p =
     p\<lparr>cpu_idt := fold (\<lambda>(n, base, type, ist). set_idt_gate n base type ist) (idt_gates isr irq) (replicate 256 zero_idt_entry),
       cpu_idtr := (4095, idt)\<rparr>"

abbreviation (input) INT_STACK_SIZE :: addr where "INT_STACK_SIZE \<equiv> 0x1000"

text \<open>Both stacks for special interrupts are stored in the first element.\<close>

definition set_int_stacks :: "addr \<Rightarrow> addr \<Rightarrow> addr \<Rightarrow> processor \<Rightarrow> processor" where
  "set_int_stacks int_stack nmi_stack df_stack p =
     (let top = int_stack + INT_STACK_SIZE;
          t = cpu_tss p;
          t = t\<lparr>tss_rsp := (tss_rsp t)[0 := top]\<rparr>;
          t = t\<lparr>tss_ist := (tss_ist t)[0 := nmi_stack + INT_STACK_SIZE]\<rparr>;
          t = t\<lparr>tss_ist := (tss_ist t)[0 := df_stack + INT_STACK_SIZE]\<rparr>
      in p\<lparr>cpu_kernel_stack_top := top, cpu_tss := t\<rparr>)"

definition init_int_stacks :: "addr \<Rightarrow> processor \<Rightarrow> processor" where
  "init_int_stacks int_stacks p =
     set_int_stacks int_stacks (int_stacks + INT_STACK_SIZE) (int_stacks + 2 * INT_STACK_SIZE) p"

section \<open>System calls\<close>

abbreviation (input) FLAG_TF :: word_t where "FLAG_TF \<equiv> 0x100"
abbreviation (input) IA32_EFER_SCE :: word_t where "IA32_EFER_SCE \<equiv> 1"

definition init_syscall :: "addr \<Rightarrow> processor \<Rightarrow> processor" where
  "init_syscall syscall_entry p =
     (let star = push_bit 48 USER_FAKE_SYSRET_CS OR push_bit 32 KERNEL_CS;
          efer = read_msr IA32_EFER p;
          p = write_msr IA32_STAR star p;
          p = write_msr IA32_LSTAR syscall_entry p;
          p = write_msr IA32_CSTAR syscall_entry p;
          p = write_msr IA32_FMASK (FLAG_TF OR FLAG_IF) p
      in write_msr IA32_EFER (efer OR IA32_EFER_SCE) p)"

section \<open>Interrupt controllers and other processors\<close>

definition init_pic :: "(kstate, unit) kern" where
  "init_pic =
     kseq (write_port_b 0x20 0x11) (kseq (write_port_b 0x21 0x20) (kseq (write_port_b 0x21 0x04)
    (kseq (write_port_b 0x21 0x01) (kseq (write_port_b 0x21 0xFF)
    (kseq (write_port_b 0xA0 0x11) (kseq (write_port_b 0xA1 0x28) (kseq (write_port_b 0xA1 0x02)
    (kseq (write_port_b 0xA1 0x01) (write_port_b 0xA1 0xFF)))))))))"

abbreviation (input) LAPIC_BASE :: addr where "LAPIC_BASE \<equiv> 0xFEE00000"

text \<open>The registers lie in memory behind the direct map; the state pairs the kernel with the processor.\<close>

definition on_processor :: "(processor \<Rightarrow> processor) \<Rightarrow> (kstate \<times> processor, unit) kern" where
  "on_processor f = kmod (\<lambda>(s, p). (s, f p))"

definition on_kernel :: "(kstate, 'a) kern \<Rightarrow> (kstate \<times> processor, 'a) kern" where
  "on_kernel m = (\<lambda>(s, p). case m s of Inl e \<Rightarrow> Inl e | Inr (x, t) \<Rightarrow> Inr (x, (t, p)))"

definition lapic_write_register :: "u32 \<Rightarrow> u32 \<Rightarrow> (kstate \<times> processor, unit) kern" where
  "lapic_write_register reg v =
     kseq (on_kernel (direct_map_of (LAPIC_BASE + ucast reg))) (on_processor (\<lambda>p. p\<lparr>cpu_lapic := (cpu_lapic p)(reg := v)\<rparr>))"

definition init_lapic_timer :: "u32 \<Rightarrow> u32 \<Rightarrow> (kstate \<times> processor, unit) kern" where
  "init_lapic_timer divisor initial_count =
     kseq (lapic_write_register 0x320 (0x20000 OR 0x20))
    (kseq (lapic_write_register 0x3E0 divisor) (lapic_write_register 0x380 initial_count))"

definition init_lapic :: "(kstate \<times> processor, unit) kern" where
  "init_lapic =
     kseq (on_processor (\<lambda>p. write_msr IA32_APIC_BASE (read_msr IA32_APIC_BASE p OR 0x800) p))
    (kseq (on_kernel (kbind get_vm_root (\<lambda>root. kbind (direct_map_of LAPIC_BASE) (\<lambda>va.
             add_vm_mapping root va LAPIC_BASE (PTE_PRESENT OR PTE_WRITE)))))
    (kseq (lapic_write_register 0x280 0)
    (kseq (lapic_write_register 0xF0 (0x100 OR 0xFF))
    (kseq (lapic_write_register 0x350 0x8700)
    (kseq (lapic_write_register 0x360 0x8400) (init_lapic_timer 3 100000000))))))"

definition send_eoi :: "(kstate \<times> processor, unit) kern" where
  "send_eoi = lapic_write_register 0xB0 0"

record mp_info =
  mp_processor_id :: u32
  mp_lapic_id :: u32
  mp_goto_address :: addr

definition init_aps :: "addr \<Rightarrow> u32 \<Rightarrow> mp_info list \<Rightarrow> mp_info list" where
  "init_aps ap_entry bsp_lapic_id cpus =
     (if length cpus \<le> 1 then cpus
      else map (\<lambda>c. if mp_processor_id c \<ge> 64 then c
                    else if mp_lapic_id c = bsp_lapic_id then c
                    else c\<lparr>mp_goto_address := ap_entry\<rparr>) cpus)"

text \<open>The first module of the boot loader, if there is one: address and size.\<close>

definition get_initrd_info :: "(addr \<times> word_t) list \<Rightarrow> (addr \<times> word_t) option" where
  "get_initrd_info modules = (case modules of [] \<Rightarrow> None | m # _ \<Rightarrow> Some m)"

definition init_ap_int_stacks :: "(kstate \<times> processor, unit) kern" where
  "init_ap_int_stacks =
     kbind (on_kernel (with_regions alloc_page)) (\<lambda>int_stack.
     kbind (on_kernel (with_regions alloc_page)) (\<lambda>nmi_stack.
     kbind (on_kernel (with_regions alloc_page)) (\<lambda>df_stack.
       on_processor (set_int_stacks int_stack nmi_stack df_stack))))"

section \<open>From the boot loader to the first thread\<close>

text \<open>
  \<open>get_physical_extents\<close> and \<open>init_page_mmap\<close> on the table of free regions, and \<open>init_ioapic\<close>, whose
  registers are mapped first.
\<close>

definition init_memory :: "memmap_entry list \<Rightarrow> (kstate, unit) kern" where
  "init_memory mm = with_regions (\<lambda>rs.
     case init_page_mmap (get_physical_extents mm MAX_EXTENTS) rs of
       None \<Rightarrow> Inl Diverges | Some (Inl e) \<Rightarrow> Inl e | Some (Inr rs') \<Rightarrow> Inr ((), rs'))"

definition init_ioapic :: "(kstate, unit) kern" where
  "init_ioapic =
     kseq (kbind get_vm_root (\<lambda>root. kbind (direct_map_of 0xFEC00000) (\<lambda>va.
             add_vm_mapping root va 0xFEC00000 (PTE_PRESENT OR PTE_WRITE))))
          init_ioapic_entries"

text \<open>The addresses of static objects and of assembly code.\<close>

record image =
  im_cpu :: addr
  im_tss :: addr
  im_gdt :: addr
  im_idt :: addr
  im_isr :: "nat \<Rightarrow> addr"
  im_irq :: "nat \<Rightarrow> addr"
  im_syscall_entry :: addr
  im_int_stacks :: addr

definition init_processor :: "image \<Rightarrow> memmap_entry list \<Rightarrow> (kstate \<times> processor, unit) kern" where
  "init_processor im mm =
     kseq (on_processor (init_bsp_gdt (im_cpu im) (im_tss im) (im_gdt im)))
    (kseq (on_processor (init_idt (im_isr im) (im_irq im) (im_idt im)))
    (kseq (on_processor init_sse)
    (kseq (on_processor (init_syscall (im_syscall_entry im)))
    (kseq (on_kernel (init_memory mm))
    (kseq (on_processor (init_int_stacks (im_int_stacks im)))
    (kseq (on_kernel init_pic)
    (kseq init_lapic (on_kernel init_ioapic))))))))"

text \<open>\<open>_start\<close>; the other processors, which \<open>init_aps\<close> starts, run \<open>ap_entry\<close> on their own.\<close>

definition start :: "image \<Rightarrow> memmap_entry list \<Rightarrow> ('f, 'd) boot_env \<Rightarrow> (addr \<times> word_t) list \<Rightarrow> (kstate \<times> processor, kexit) kern" where
  "start im mm env modules = kseq (init_processor im mm) (on_kernel (kernel_main env (get_initrd_info modules)))"

section \<open>What the tables say\<close>

lemma write_msr_value: "write_msr i v p = p\<lparr>cpu_msr := (cpu_msr p)(i := v)\<rparr>"
proof -
  have "push_bit 32 (ucast (ucast (drop_bit 32 v) :: u32)) OR ucast (ucast (v AND 0xFFFFFFFF) :: u32) = v"
  proof (rule bit_word_eqI)
    fix n assume n: "n < LENGTH(64)"
    have ff: "(0xFFFFFFFF :: word_t) = mask 32" by (simp add: mask_eq_exp_minus_1)
    have "32 + (n - 32) = n" if "\<not> n < 32" using that by simp
    then show "bit (push_bit 32 (ucast (ucast (drop_bit 32 v) :: u32)) OR ucast (ucast (v AND 0xFFFFFFFF) :: u32) :: word_t) n = bit v n"
      unfolding ff using n
      by (cases "n < 32") (auto simp: bit_or_iff bit_push_bit_iff bit_ucast_iff bit_drop_bit_eq bit_and_iff bit_mask_iff)
  qed
  then show ?thesis by (simp add: write_msr_def Let_def)
qed

lemma read_msr_value: "read_msr i p = cpu_msr p i"
  by (rule bit_word_eqI) (auto simp: read_msr_def Let_def bit_or_iff bit_push_bit_iff bit_ucast_iff bit_drop_bit_eq)

text \<open>The address of a gate's handler, and who may raise its vector with an instruction.\<close>

definition gate_handler :: "idt_entry \<Rightarrow> addr" where
  "gate_handler e = ucast (i_handler_low e) OR push_bit 16 (ucast (i_handler_mid e)) OR push_bit 32 (ucast (i_handler_high e))"

definition gate_present :: "idt_entry \<Rightarrow> bool" where
  "gate_present e \<longleftrightarrow> bit (i_type e) 7"

definition gate_for_users :: "idt_entry \<Rightarrow> bool" where
  "gate_for_users e \<longleftrightarrow> gate_present e \<and> drop_bit 5 (i_type e) AND 3 = 3"

lemma gate_handler_set:
  "n < length t \<Longrightarrow> gate_handler (set_idt_gate n base ty ist t ! n) = base"
  "n < length t \<Longrightarrow> i_type (set_idt_gate n base ty ist t ! n) = ty"
proof -
  have ff: "(0xFFFF :: addr) = mask 16" by (simp add: mask_eq_exp_minus_1)
  assume n: "n < length t"
  show "gate_handler (set_idt_gate n base ty ist t ! n) = base"
  proof (rule bit_word_eqI)
    fix k assume k: "k < LENGTH(64)"
    have "16 + (k - 16) = k" if "\<not> k < 16" using that by simp
    moreover have "32 + (k - 32) = k" if "\<not> k < 32" using that by simp
    ultimately show "bit (gate_handler (set_idt_gate n base ty ist t ! n)) k = bit base k"
      unfolding set_idt_gate_def gate_handler_def ff using n k
      by (cases "k < 16"; cases "k < 32")
        (auto simp: bit_or_iff bit_push_bit_iff bit_ucast_iff bit_drop_bit_eq bit_and_iff bit_mask_iff)
  qed
  show "i_type (set_idt_gate n base ty ist t ! n) = ty" using n by (simp add: set_idt_gate_def)
qed

lemma fold_gates:
  assumes "distinct (map fst gs)" and "\<forall>g\<in>set gs. fst g < length t"
  shows "length (fold (\<lambda>(n, base, ty, ist). set_idt_gate n base ty ist) gs t) = length t"
    and "(n, base, ty, ist) \<in> set gs \<Longrightarrow>
      gate_handler (fold (\<lambda>(n, base, ty, ist). set_idt_gate n base ty ist) gs t ! n) = base \<and>
      i_type (fold (\<lambda>(n, base, ty, ist). set_idt_gate n base ty ist) gs t ! n) = ty"
    and "n \<notin> fst ` set gs \<Longrightarrow> fold (\<lambda>(n, base, ty, ist). set_idt_gate n base ty ist) gs t ! n = t ! n"
  using assms
proof (induction gs arbitrary: t)
  case (Cons g gs)
  obtain m b y i where g: "g = (m, b, y, i)" by (cases g) auto
  have len: "length (set_idt_gate m b y i t) = length t" for t by (simp add: set_idt_gate_def)
  { case (1 t)
    then have d: "distinct (map fst gs)" and b: "\<forall>g\<in>set gs. fst g < length (set_idt_gate m b y i t)" by (simp_all add: len)
    show ?case using Cons.IH(1) [OF d b] by (simp add: g len)
  next
    case (2 t)
    then have d: "distinct (map fst gs)" and b: "\<forall>g\<in>set gs. fst g < length (set_idt_gate m b y i t)" by (simp_all add: len)
    show ?case
    proof (cases "(n, base, ty, ist) \<in> set gs")
      case True
      then show ?thesis using Cons.IH(2) [OF _ d b] by (simp add: g)
    next
      case False
      then have eq: "n = m" "base = b" "ty = y" using 2 g by auto
      then have "n \<notin> fst ` set gs" using 2 g by simp
      then have "fold (\<lambda>(n, base, ty, ist). set_idt_gate n base ty ist) gs (set_idt_gate m b y i t) ! n = set_idt_gate m b y i t ! n"
        using Cons.IH(3) [OF _ d b] by simp
      then show ?thesis using gate_handler_set [of m t b y i] 2 by (simp add: g eq)
    qed
  next
    case (3 t)
    then have d: "distinct (map fst gs)" and b: "\<forall>g\<in>set gs. fst g < length (set_idt_gate m b y i t)" by (simp_all add: len)
    show ?case using Cons.IH(3) [OF _ d b] 3 by (simp add: g set_idt_gate_def)
  }
qed simp_all

lemma idt_gates_keys: "map fst (idt_gates isr irq) = [0..<32] @ [32..<48] @ [255]"
  by (simp add: idt_gates_def comp_def)


text \<open>An image whose handlers are 16 bytes long, on a processor that has just been reset.\<close>

definition reset_processor :: processor where
  "reset_processor = \<lparr>cpu_gdt = bsp_gdt, cpu_gdtr = (0, 0), cpu_task_register = 0, cpu_tss = zero_tss, cpu_kernel_stack_top = 0,
     cpu_idt = [], cpu_idtr = (0, 0), cpu_msr = (\<lambda>_. 0), cpu_cr0 = 0x10, cpu_cr4 = 0, cpu_lapic = (\<lambda>_. 0)\<rparr>"


text \<open>
  The task state has no stack for a double fault, whose gate asks for the second one: both stacks are
  written to the first element, so that the stack of the double fault is the one for the
  non-maskable interrupt, and the second element stays zero.
\<close>

lemma double_fault_has_no_stack:
  assumes "cpu_tss p = zero_tss\<lparr>tss_iomap_base := TSS_SIZE\<rparr>"
  shows "tss_ist (cpu_tss (init_int_stacks a p)) ! (unat IST_NMI - 1) = a + 3 * INT_STACK_SIZE"
    and "tss_ist (cpu_tss (init_int_stacks a p)) ! (unat IST_DF - 1) = 0"
  using assms by (simp_all add: init_int_stacks_def set_int_stacks_def Let_def zero_tss_def)

text \<open>The selectors agree with the table: index and privilege of what the code loads, and the task state.\<close>

definition selected :: "word_t \<Rightarrow> processor \<Rightarrow> gdt_entry" where
  "selected sel p = cpu_gdt p ! unat (drop_bit 3 sel)"

definition system_base :: "gdt_entry \<Rightarrow> gdt_entry \<Rightarrow> addr" where
  "system_base low high = ucast (g_base_low low) OR push_bit 16 (ucast (g_base_middle low)) OR
     push_bit 24 (ucast (g_base_high low)) OR push_bit 32 (ucast (base_upper high))"

lemma selectors_agree:
  fixes tss :: addr
  shows "g_access (selected KERNEL_CS (init_bsp_gdt cpu tss gdt p)) = KERNEL_CODE"
    and "g_access (selected USER_CS (init_bsp_gdt cpu tss gdt p)) = USER_CODE"
    and "g_access (selected USER_SS (init_bsp_gdt cpu tss gdt p)) = USER_DATA"
    and "drop_bit 48 (cpu_msr (init_syscall e q) IA32_STAR) + 16 = USER_CS"
    and "drop_bit 48 (cpu_msr (init_syscall e q) IA32_STAR) + 8 = USER_SS"
    and "drop_bit 32 (cpu_msr (init_syscall e q) IA32_STAR) AND 0xFFFF = KERNEL_CS"
  by (simp_all add: selected_def init_bsp_gdt_def init_gdt_def bsp_gdt_def DESCRIPTOR_def zero_gdt_entry_def
      load_gdt_def init_fsgs_def write_cr4_def write_gsbase_def write_msr_value init_syscall_def Let_def)

lemma base_of_parts:
  "system_base (low\<lparr>g_base_low := ucast v, g_base_middle := ucast (drop_bit 16 v), g_base_high := ucast (drop_bit 24 v)\<rparr>)
     (set_base_upper (ucast (drop_bit 32 v)) high) = v"
proof -
  have upper: "base_upper (set_base_upper w e) = w" for w e
  proof (rule bit_word_eqI)
    fix k assume k: "k < LENGTH(32)"
    have "16 + (k - 16) = k" if "\<not> k < 16" using that by simp
    then show "bit (base_upper (set_base_upper w e)) k = bit w k"
      using k by (cases "k < 16") (auto simp: base_upper_def set_base_upper_def bit_or_iff bit_push_bit_iff bit_ucast_iff bit_drop_bit_eq)
  qed
  show ?thesis
  proof (rule bit_word_eqI)
    fix k assume k: "k < LENGTH(64)"
    have "16 + (k - 16) = k" if "\<not> k < 16" using that by simp
    moreover have "24 + (k - 24) = k" if "\<not> k < 24" using that by simp
    moreover have "32 + (k - 32) = k" if "\<not> k < 32" using that by simp
    ultimately show "bit (system_base (low\<lparr>g_base_low := ucast v, g_base_middle := ucast (drop_bit 16 v), g_base_high := ucast (drop_bit 24 v)\<rparr>)
        (set_base_upper (ucast (drop_bit 32 v)) high)) k = bit v k"
      using k unfolding system_base_def upper
      by (cases "k < 16"; cases "k < 24"; cases "k < 32")
        (auto simp: bit_or_iff bit_push_bit_iff bit_ucast_iff bit_drop_bit_eq)
  qed
qed

lemma task_state_base:
  fixes tss :: addr
  shows "system_base (cpu_gdt (init_bsp_gdt cpu tss gdt p) ! 5) (cpu_gdt (init_bsp_gdt cpu tss gdt p) ! 6) = tss"
proof -
  have busy: "system_base (e\<lparr>g_access := a\<rparr>) h = system_base e h" for e h a by (simp add: system_base_def)
  show ?thesis
    by (simp add: init_bsp_gdt_def init_gdt_def bsp_gdt_def load_gdt_def init_fsgs_def write_cr4_def write_gsbase_def
        write_msr_value Let_def busy base_of_parts)
qed

text \<open>
  What another processor sets before it takes its first thread. It loads the shared interrupt table but
  calls neither \<open>init_syscall\<close> nor \<open>init_sse\<close>.
\<close>

definition init_ap_idt :: "addr \<Rightarrow> processor \<Rightarrow> processor" where
  "init_ap_idt idt p = p\<lparr>cpu_idtr := (4095, idt)\<rparr>"

definition ap_entry :: "addr \<Rightarrow> addr \<Rightarrow> addr \<Rightarrow> addr \<Rightarrow> gdt_entry list \<Rightarrow> (kstate \<times> processor, unit) kern" where
  "ap_entry idt cpu tss gdt bsp =
     kseq (on_processor (init_ap_idt idt))
    (kseq (on_processor (init_ap_gdt cpu tss gdt bsp))
    (kseq init_ap_int_stacks
    (kseq (on_kernel init_pic) init_lapic)))"

text \<open>
  So another processor keeps the registers of the system call instruction as they were at reset, with the
  instruction disabled, whatever its set-up does.
\<close>

definition keeps_msr :: "u32 \<Rightarrow> (kstate \<times> processor, 'a) kern \<Rightarrow> bool" where
  "keeps_msr i m \<longleftrightarrow> (\<forall>s p x t q. m (s, p) = Inr (x, (t, q)) \<longrightarrow> cpu_msr q i = cpu_msr p i)"

lemma keeps_msr_rules:
  "keeps_msr i m \<Longrightarrow> (\<And>x. keeps_msr i (f x)) \<Longrightarrow> keeps_msr i (kbind m f)"
  "keeps_msr i m \<Longrightarrow> keeps_msr i n \<Longrightarrow> keeps_msr i (kseq m n)"
  "keeps_msr i (on_kernel k)"
  "(\<And>p. cpu_msr (g p) i = cpu_msr p i) \<Longrightarrow> keeps_msr i (on_processor g)"
  by (fastforce simp: keeps_msr_def kseq_def kbind_def on_kernel_def on_processor_def kmod_def split: sum.splits prod.splits)+

lemma other_processors_take_no_system_calls:
  assumes "ap_entry idt cpu tss gdt bsp (s, p) = Inr (x, (t, q))"
  shows "cpu_msr q IA32_LSTAR = cpu_msr p IA32_LSTAR" and "cpu_msr q IA32_EFER = cpu_msr p IA32_EFER"
proof -
  have "keeps_msr i (ap_entry idt cpu tss gdt bsp)" if "i = IA32_LSTAR \<or> i = IA32_EFER" for i
    unfolding ap_entry_def init_ap_int_stacks_def init_lapic_def lapic_write_register_def init_lapic_timer_def
    by (intro keeps_msr_rules) (use that in \<open>auto simp: init_ap_idt_def init_ap_gdt_def init_gdt_def load_gdt_def init_fsgs_def
      write_cr4_def write_gsbase_def write_msr_value set_int_stacks_def Let_def\<close>)
  then show "cpu_msr q IA32_LSTAR = cpu_msr p IA32_LSTAR" and "cpu_msr q IA32_EFER = cpu_msr p IA32_EFER"
    using assms unfolding keeps_msr_def by blast+
qed

text \<open>The first one enables the instruction and sends it to its entry point, whatever follows in \<open>_start\<close>.\<close>

lemma first_processor_takes_system_calls:
  assumes "init_processor im mm (s, p) = Inr (x, (t, q))"
  shows "cpu_msr q IA32_LSTAR = im_syscall_entry im" and "bit (cpu_msr q IA32_EFER) 0"
proof -
  let ?set = "\<lambda>p. init_syscall (im_syscall_entry im) (init_sse (init_idt (im_isr im) (im_irq im) (im_idt im)
    (init_bsp_gdt (im_cpu im) (im_tss im) (im_gdt im) p)))"
  let ?rest = "kseq (on_kernel (init_memory mm))
    (kseq (on_processor (init_int_stacks (im_int_stacks im)))
    (kseq (on_kernel init_pic) (kseq init_lapic (on_kernel init_ioapic))))"
  have r: "?rest (s, ?set p) = Inr (x, (t, q))"
    using assms by (simp add: init_processor_def on_processor_def kseq_def kbind_def kmod_def)
  have k: "keeps_msr i ?rest" if "i = IA32_LSTAR \<or> i = IA32_EFER" for i
    unfolding init_lapic_def lapic_write_register_def init_lapic_timer_def
    by (intro keeps_msr_rules) (use that in \<open>auto simp: write_msr_value init_int_stacks_def set_int_stacks_def Let_def\<close>)
  have "cpu_msr q i = cpu_msr (?set p) i" if "i = IA32_LSTAR \<or> i = IA32_EFER" for i
    using k [OF that] r unfolding keeps_msr_def by blast
  then show "cpu_msr q IA32_LSTAR = im_syscall_entry im" and "bit (cpu_msr q IA32_EFER) 0"
    by (simp_all add: init_syscall_def Let_def write_msr_value bit_or_iff)
qed

text \<open>Of several processors exactly those with a small number that are not the first one are started.\<close>

lemma started_processors:
  assumes "1 < length cpus" and "\<forall>c\<in>set cpus. mp_goto_address c = 0" and "entry \<noteq> 0"
  shows "map mp_processor_id (filter (\<lambda>c. mp_goto_address c \<noteq> 0) (init_aps entry bsp cpus)) =
    map mp_processor_id (filter (\<lambda>c. mp_processor_id c < 64 \<and> mp_lapic_id c \<noteq> bsp) cpus)"
proof -
  have "map mp_processor_id (filter (\<lambda>c. mp_goto_address c \<noteq> 0) (map (\<lambda>c. if mp_processor_id c \<ge> 64 then c
      else if mp_lapic_id c = bsp then c else c\<lparr>mp_goto_address := entry\<rparr>) cs)) =
    map mp_processor_id (filter (\<lambda>c. mp_processor_id c < 64 \<and> mp_lapic_id c \<noteq> bsp) cs)"
    if "\<forall>c\<in>set cs. mp_goto_address c = 0" for cs
    using that assms(3) by (induction cs) (auto simp: not_less)
  then show ?thesis using assms by (simp add: init_aps_def)
qed

end
