(* ===== verification/Cdt_Test.thy ===== *)
theory Cdt_Test
  imports User_Library Syscall
begin

text \<open>
  The self test of the derivation list (\<open>user/cdt_test.c\<close>), run on the model of the kernel. The test is
  a program over the system call instruction like the other user programs; here the instruction is the
  modelled kernel entry itself, so that stubs, dispatch, lookup, retype, copy, mint and delete work
  together. A check counts itself and its failure; what it prints is dropped.
\<close>

section \<open>The kernel behind the system call instruction\<close>

text \<open>
  The instruction with the entry code of \<open>kern/arch/x86_64/syscall.S\<close>: the registers go into the frame at
  the top of the kernel stack, \<open>c_syscall_entry\<close> runs, and the program goes on with the returned word in
  \<open>rax\<close>. The state is \<open>None\<close> from the point on where the kernel stops or does not return to the thread.
\<close>

definition enter_kernel :: "addr \<Rightarrow> kstate option syscall_instr" where
  "enter_kernel f num a1 a2 b m k =
     (case k of None \<Rightarrow> (0, b, m, None)
      | Some s \<Rightarrow>
        (case current_tcb s of None \<Rightarrow> (0, b, m, None)
         | Some t \<Rightarrow>
           (case t_ipc_buffer (tcbs s t) of None \<Rightarrow> (0, b, m, None)
            | Some p \<Rightarrow>
              (case c_syscall_entry a1 a2 num f (s\<lparr>ipc_buffers := (ipc_buffers s)(p := b), user_mem := m,
                  frame_mem := (frame_mem s)(f := (new_user_frame 0x400000 0x7FFF0000)\<lparr>f_rdi := a1, f_rsi := a2, f_rax := ucast num\<rparr>)\<rparr>) of
                 Inr (ReturnToFrame, s') \<Rightarrow> (f_rax (frame_mem s' f), ipc_buffers s' p, user_mem s', Some s')
               | _ \<Rightarrow> (0, b, m, None)))))"

section \<open>The test\<close>

abbreviation (input) CDT_CNODE_CAP :: cptr_t where "CDT_CNODE_CAP \<equiv> 0"
abbreviation (input) CDT_UNTYPED_CAP :: cptr_t where "CDT_UNTYPED_CAP \<equiv> 1"
abbreviation (input) CDT_ENDPOINT_ORIG :: cptr_t where "CDT_ENDPOINT_ORIG \<equiv> 10"
abbreviation (input) CDT_ENDPOINT_COPY1 :: cptr_t where "CDT_ENDPOINT_COPY1 \<equiv> 11"
abbreviation (input) CDT_ENDPOINT_COPY2 :: cptr_t where "CDT_ENDPOINT_COPY2 \<equiv> 12"
abbreviation (input) CDT_ENDPOINT_COPY3 :: cptr_t where "CDT_ENDPOINT_COPY3 \<equiv> 13"
abbreviation (input) CDT_NOTIFICATION_ORIG :: cptr_t where "CDT_NOTIFICATION_ORIG \<equiv> 20"
abbreviation (input) CDT_NOTIFICATION_MINT1 :: cptr_t where "CDT_NOTIFICATION_MINT1 \<equiv> 21"
abbreviation (input) CDT_NOTIFICATION_MINT2 :: cptr_t where "CDT_NOTIFICATION_MINT2 \<equiv> 22"
abbreviation (input) CDT_ENDPOINT_MINT_ORIG :: cptr_t where "CDT_ENDPOINT_MINT_ORIG \<equiv> 30"
abbreviation (input) CDT_ENDPOINT_MINT1 :: cptr_t where "CDT_ENDPOINT_MINT1 \<equiv> 31"
abbreviation (input) CDT_ENDPOINT_MINT2 :: cptr_t where "CDT_ENDPOINT_MINT2 \<equiv> 32"
abbreviation (input) CDT_ENDPOINT_MINT3 :: cptr_t where "CDT_ENDPOINT_MINT3 \<equiv> 33"
abbreviation (input) CDT_TEMP1 :: cptr_t where "CDT_TEMP1 \<equiv> 40"
abbreviation (input) CDT_TEMP2 :: cptr_t where "CDT_TEMP2 \<equiv> 41"
abbreviation (input) CDT_TEMP3 :: cptr_t where "CDT_TEMP3 \<equiv> 42"

text \<open>The program's state with the two counters, all tests and the failed ones.\<close>

record 'k test_state =
  ts_user :: "'k user_state"
  total_tests :: nat
  failed_tests :: nat

definition in_test :: "('k user_state, 'a) kern \<Rightarrow> ('k test_state, 'a) kern" where
  "in_test m s = (case m (ts_user s) of Inl e \<Rightarrow> Inl e | Inr (x, u) \<Rightarrow> Inr (x, s\<lparr>ts_user := u\<rparr>))"

text \<open>The body shared by \<open>print_test\<close> and the \<open>assert_cap\<close> functions.\<close>

definition count_test :: "bool \<Rightarrow> ('k test_state, unit) kern" where
  "count_test ok = kmod (\<lambda>s. s\<lparr>total_tests := total_tests s + 1, failed_tests := failed_tests s + (if ok then 0 else 1)\<rparr>)"

definition get_cap_at_slot :: "'k syscall_instr \<Rightarrow> word_t \<Rightarrow> ('k test_state, cap_t) kern" where
  "get_cap_at_slot instr slot_index =
     kseq (in_test (call_method instr CDT_CNODE_CAP (Cnode_Debug_Get slot_index 64)))
    (kbind (in_test (user_get_mr 0)) (\<lambda>w0. kbind (in_test (user_get_mr 1)) (\<lambda>w1.
       kret \<lparr>cap_word0 = w0, cap_badge = w1\<rparr>)))"

definition print_test :: "word_t \<Rightarrow> word_t \<Rightarrow> ('k test_state, unit) kern" where
  "print_test actual expected = count_test (actual = expected)"

definition assert_cap_type :: "cap_t \<Rightarrow> word_t \<Rightarrow> ('k test_state, unit) kern" where
  "assert_cap_type cap expected_type = count_test (cap_type cap = expected_type)"

definition assert_cap_is_original :: "cap_t \<Rightarrow> bool \<Rightarrow> ('k test_state, unit) kern" where
  "assert_cap_is_original cap expected = count_test (cap_is_original cap = expected)"

definition assert_cap_badge :: "cap_t \<Rightarrow> word_t \<Rightarrow> ('k test_state, unit) kern" where
  "assert_cap_badge cap expected_badge = count_test (cap_badge cap = expected_badge)"

definition assert_cap_rights :: "cap_t \<Rightarrow> word_t \<Rightarrow> ('k test_state, unit) kern" where
  "assert_cap_rights cap expected_rights = count_test (cap_rights cap = expected_rights)"

definition assert_cap_is_null :: "cap_t \<Rightarrow> ('k test_state, unit) kern" where
  "assert_cap_is_null cap = count_test (cap_type cap = CAP_NULL)"

text \<open>A call of a method on the test's CNode or untyped memory.\<close>

definition method_on :: "'k syscall_instr \<Rightarrow> cptr_t \<Rightarrow> method_call \<Rightarrow> ('k test_state, word_t) kern" where
  "method_on instr obj m = in_test (invoke_method instr obj m)"

text \<open>The calls of the test, in which every CNode is its own and every depth 64.\<close>

definition retype :: "'k syscall_instr \<Rightarrow> word_t \<Rightarrow> word_t \<Rightarrow> cptr_t \<Rightarrow> ('k test_state, word_t) kern" where
  "retype instr type size_bits dest = method_on instr CDT_UNTYPED_CAP (Untyped_Retype type size_bits CDT_CNODE_CAP CDT_CNODE_CAP 64 dest 1)"

definition copy_slot :: "'k syscall_instr \<Rightarrow> cptr_t \<Rightarrow> cptr_t \<Rightarrow> word_t \<Rightarrow> ('k test_state, word_t) kern" where
  "copy_slot instr dest src rights = method_on instr CDT_CNODE_CAP (Cnode_Copy dest 64 CDT_CNODE_CAP src 64 rights)"

definition mint_slot :: "'k syscall_instr \<Rightarrow> cptr_t \<Rightarrow> cptr_t \<Rightarrow> word_t \<Rightarrow> ('k test_state, word_t) kern" where
  "mint_slot instr dest src badge = method_on instr CDT_CNODE_CAP (Cnode_Mint dest 64 CDT_CNODE_CAP src 64 CAP_RIGHTS_ALL badge)"

definition delete_slot :: "'k syscall_instr \<Rightarrow> cptr_t \<Rightarrow> ('k test_state, word_t) kern" where
  "delete_slot instr i = method_on instr CDT_CNODE_CAP (Cnode_Delete i 64)"

text \<open>A call that must answer with a given error code.\<close>

definition expect :: "('k test_state, word_t) kern \<Rightarrow> word_t \<Rightarrow> ('k test_state, unit) kern" where
  "expect m expected = kbind m (\<lambda>err. print_test err expected)"

text \<open>The checks on one slot: the capability is fetched once.\<close>

definition check_slot :: "'k syscall_instr \<Rightarrow> word_t \<Rightarrow> (cap_t \<Rightarrow> ('k test_state, unit) kern) list \<Rightarrow> ('k test_state, unit) kern" where
  "check_slot instr i checks = kbind (get_cap_at_slot instr i) (\<lambda>cap. foldr (\<lambda>c m. kseq (c cap) m) checks (kret ()))"

text \<open>The parts of \<open>main\<close> in their order.\<close>

text \<open>Endpoints and their copies.\<close>

definition test_copies :: "'k syscall_instr \<Rightarrow> ('k test_state, unit) kern" where
  "test_copies instr =
     kseq (expect (retype instr CAP_ENDPOINT 0 CDT_ENDPOINT_ORIG) NO_ERROR)
    (kseq (check_slot instr CDT_ENDPOINT_ORIG [\<lambda>c. assert_cap_type c CAP_ENDPOINT, \<lambda>c. assert_cap_is_original c True, \<lambda>c. assert_cap_badge c 0])
    (kseq (expect (copy_slot instr CDT_ENDPOINT_COPY1 CDT_ENDPOINT_ORIG CAP_RIGHTS_ALL) NO_ERROR)
    (kseq (check_slot instr CDT_ENDPOINT_COPY1 [\<lambda>c. assert_cap_type c CAP_ENDPOINT, \<lambda>c. assert_cap_is_original c False,
        \<lambda>c. assert_cap_badge c 0, \<lambda>c. assert_cap_rights c CAP_RIGHTS_ALL])
    (kseq (expect (copy_slot instr CDT_ENDPOINT_COPY2 CDT_ENDPOINT_ORIG CAP_RIGHTS_ALL) NO_ERROR)
    (kseq (check_slot instr CDT_ENDPOINT_COPY2 [\<lambda>c. assert_cap_is_original c False])
    (kseq (expect (copy_slot instr CDT_ENDPOINT_COPY3 CDT_ENDPOINT_COPY1 CAP_RIGHTS_ALL) NO_ERROR)
    (check_slot instr CDT_ENDPOINT_COPY3 [\<lambda>c. assert_cap_is_original c False])))))))"

text \<open>Badged endpoints.\<close>

definition test_mints :: "'k syscall_instr \<Rightarrow> ('k test_state, unit) kern" where
  "test_mints instr =
     kseq (expect (retype instr CAP_ENDPOINT 0 CDT_ENDPOINT_MINT_ORIG) NO_ERROR)
    (kseq (check_slot instr CDT_ENDPOINT_MINT_ORIG [\<lambda>c. assert_cap_badge c 0, \<lambda>c. assert_cap_is_original c True])
    (kseq (expect (mint_slot instr CDT_ENDPOINT_MINT1 CDT_ENDPOINT_MINT_ORIG 0x1234) NO_ERROR)
    (kseq (check_slot instr CDT_ENDPOINT_MINT1 [\<lambda>c. assert_cap_badge c 0x1234, \<lambda>c. assert_cap_is_original c True])
    (kseq (expect (mint_slot instr CDT_ENDPOINT_MINT2 CDT_ENDPOINT_MINT1 0x5678) ILLEGAL_OPERATION)
    (kseq (expect (mint_slot instr CDT_ENDPOINT_MINT3 CDT_ENDPOINT_MINT_ORIG 0xABCD) NO_ERROR)
    (check_slot instr CDT_ENDPOINT_MINT3 [\<lambda>c. assert_cap_badge c 0xABCD, \<lambda>c. assert_cap_is_original c True]))))))"

text \<open>Notifications.\<close>

definition test_notifications :: "'k syscall_instr \<Rightarrow> ('k test_state, unit) kern" where
  "test_notifications instr =
     kseq (expect (retype instr CAP_NOTIFICATION 0 CDT_NOTIFICATION_ORIG) NO_ERROR)
    (kseq (check_slot instr CDT_NOTIFICATION_ORIG [\<lambda>c. assert_cap_type c CAP_NOTIFICATION, \<lambda>c. assert_cap_is_original c True, \<lambda>c. assert_cap_badge c 0])
    (kseq (expect (mint_slot instr CDT_NOTIFICATION_MINT1 CDT_NOTIFICATION_ORIG 0xF00D) NO_ERROR)
    (kseq (check_slot instr CDT_NOTIFICATION_MINT1 [\<lambda>c. assert_cap_badge c 0xF00D, \<lambda>c. assert_cap_is_original c False])
    (kseq (expect (mint_slot instr CDT_NOTIFICATION_MINT2 CDT_NOTIFICATION_ORIG 0xBEEF) NO_ERROR)
    (check_slot instr CDT_NOTIFICATION_MINT2 [\<lambda>c. assert_cap_badge c 0xBEEF, \<lambda>c. assert_cap_is_original c False])))))"

text \<open>Deleting a copy that was copied itself.\<close>

definition test_deletes :: "'k syscall_instr \<Rightarrow> ('k test_state, unit) kern" where
  "test_deletes instr =
     kseq (check_slot instr CDT_ENDPOINT_COPY3 [\<lambda>c. assert_cap_type c CAP_ENDPOINT])
    (kseq (expect (delete_slot instr CDT_ENDPOINT_COPY1) NO_ERROR)
    (kseq (check_slot instr CDT_ENDPOINT_COPY1 [assert_cap_is_null])
    (kseq (check_slot instr CDT_ENDPOINT_COPY3 [\<lambda>c. assert_cap_type c CAP_ENDPOINT])
    (expect (delete_slot instr CDT_ENDPOINT_COPY3) NO_ERROR))))"

text \<open>A chain of copies.\<close>

definition test_chain :: "'k syscall_instr \<Rightarrow> ('k test_state, unit) kern" where
  "test_chain instr =
     kseq (expect (copy_slot instr CDT_TEMP1 CDT_ENDPOINT_ORIG CAP_RIGHTS_ALL) NO_ERROR)
    (kseq (check_slot instr CDT_TEMP1 [\<lambda>c. assert_cap_is_original c False])
    (kseq (expect (copy_slot instr CDT_TEMP2 CDT_TEMP1 CAP_RIGHTS_ALL) NO_ERROR)
    (kseq (check_slot instr CDT_TEMP2 [\<lambda>c. assert_cap_is_original c False])
    (kseq (expect (copy_slot instr CDT_TEMP3 CDT_TEMP2 CAP_RIGHTS_ALL) NO_ERROR)
    (kseq (check_slot instr CDT_TEMP3 [\<lambda>c. assert_cap_type c CAP_ENDPOINT])
    (kseq (expect (copy_slot instr 50 CDT_TEMP3 CAP_RIGHTS_ALL) NO_ERROR)
    (kbind (delete_slot instr 50) (\<lambda>_. kret ()))))))))"

text \<open>What must be refused.\<close>

definition test_refusals :: "'k syscall_instr \<Rightarrow> ('k test_state, unit) kern" where
  "test_refusals instr =
     kseq (expect (copy_slot instr CDT_UNTYPED_CAP CDT_ENDPOINT_COPY2 CAP_RIGHTS_ALL) DELETE_FIRST)
    (kseq (expect (mint_slot instr CDT_ENDPOINT_MINT_ORIG CDT_ENDPOINT_MINT_ORIG 0x9999) DELETE_FIRST)
    (kbind (retype instr CAP_CNODE 4 60) (\<lambda>err.
       if err = NO_ERROR then expect (mint_slot instr 61 60 0x1111) ILLEGAL_OPERATION else print_test err NO_ERROR)))"

text \<open>Rights.\<close>

definition test_rights :: "'k syscall_instr \<Rightarrow> ('k test_state, unit) kern" where
  "test_rights instr =
     kseq (expect (retype instr CAP_ENDPOINT 0 70) NO_ERROR)
    (kseq (check_slot instr 70 [\<lambda>c. assert_cap_rights c CAP_RIGHTS_ALL])
    (kseq (expect (copy_slot instr 71 70 1) NO_ERROR)
    (kseq (check_slot instr 71 [\<lambda>c. assert_cap_rights c 1])
    (kseq (expect (copy_slot instr 72 71 CAP_RIGHTS_ALL) NO_ERROR)
    (check_slot instr 72 [\<lambda>c. assert_cap_rights c 1])))))"

text \<open>\<open>main\<close> up to its output and \<open>exit\<close>: the numbers of passed and of all tests.\<close>

definition cdt_test_main :: "'k syscall_instr \<Rightarrow> ('k test_state, nat \<times> nat) kern" where
  "cdt_test_main instr =
     kseq (test_copies instr) (kseq (test_mints instr) (kseq (test_notifications instr) (kseq (test_deletes instr)
    (kseq (test_chain instr) (kseq (test_refusals instr) (kseq (test_rights instr)
    (kget (\<lambda>s. (total_tests s - failed_tests s, total_tests s)))))))))"

end
