(* ===== verification/Cdt_Test_Properties.thy ===== *)
theory Cdt_Test_Properties
  imports Cdt_Test Untyped_Properties
begin

text \<open>
  The self test of the derivation list passes: the program of theory Cdt_Test, the method stubs, the entry
  code, the dispatch, lookups and capability methods together. The proof follows what each call does to the
  capabilities in the test's slots; how the slots are linked does not matter.
\<close>

section \<open>A thread and its CNode\<close>

text \<open>
  Where the test's objects are: the thread, its IPC buffer, its CNode, its frame on the kernel stack, its
  untyped memory, and the offset of the direct map.
\<close>

record place =
  pl_thread :: addr
  pl_buffer :: addr
  pl_cnode :: addr
  pl_frame :: addr
  pl_region :: addr
  pl_direct :: addr

text \<open>What a test can see of a capability: type, originality, badge and rights.\<close>

type_synonym cap_view = "word_t \<times> bool \<times> word_t \<times> word_t"

definition view_of :: "cap_t \<Rightarrow> cap_view" where
  "view_of c = (cap_type c, cap_is_original c, cap_badge c, cap_rights c)"

definition is_own_cnode :: "place \<Rightarrow> cap_t \<Rightarrow> bool" where
  "is_own_cnode P c \<longleftrightarrow> cap_type c = CAP_CNODE \<and> cap_ptr c = pl_cnode P \<and> cap_size c = 128"

definition is_own_untyped :: "place \<Rightarrow> cap_t \<Rightarrow> bool" where
  "is_own_untyped P c \<longleftrightarrow> cap_type c = CAP_UNTYPED \<and> cap_ptr c = pl_region P \<and> 11 \<le> unat (cap_size_bits c)"

text \<open>The thread runs, its root is the CNode of 128 slots, and the slots show \<open>V\<close>.\<close>

definition running :: "place \<Rightarrow> kstate \<Rightarrow> (word_t \<Rightarrow> cap_view) \<Rightarrow> bool" where
  "running P s V \<longleftrightarrow>
     current_tcb s = Some (pl_thread P) \<and> return_to_tcb s = Some (pl_thread P) \<and>
     t_ipc_buffer (tcbs s (pl_thread P)) = Some (pl_buffer P) \<and> hhdm s = pl_direct P \<and> pl_direct P \<noteq> 0 \<and>
     is_own_cnode P (slot_cap (ctes s) (TcbCspaceRoot (pl_thread P))) \<and>
     is_own_cnode P (slot_cap (ctes s) (cte_at (pl_cnode P) 0)) \<and>
     is_own_untyped P (slot_cap (ctes s) (cte_at (pl_cnode P) 1)) \<and>
     (\<forall>i<128. view_of (slot_cap (ctes s) (cte_at (pl_cnode P) i)) = V i)"

definition in_call :: "place \<Rightarrow> kstate \<Rightarrow> (word_t \<Rightarrow> cap_view) \<Rightarrow> bool" where
  "in_call P s V \<longleftrightarrow> running P s V \<and> t_current_user_frame (tcbs s (pl_thread P)) = Some (pl_frame P)"

lemma cte_at_inject: "i < 128 \<Longrightarrow> j < 128 \<Longrightarrow> cte_at p i = cte_at p j \<longleftrightarrow> i = j"
proof -
  assume "i < 128" "j < 128"
  then have "unat (32 * i) = 32 * unat i" "unat (32 * j) = 32 * unat j" by (simp_all add: word_less_nat_alt unat_word_ariths)
  then have "32 * i = 32 * j \<longleftrightarrow> i = j" by (simp add: word_unat_eq_iff)
  then show ?thesis by (simp add: cte_at_def)
qed

lemma tcb_slot_not_element [simp]: "cte_at p i \<noteq> TcbCspaceRoot t" by (simp add: cte_at_def)

lemma running_facts:
  assumes "running P s V"
  shows "this_tcb s = Inr (pl_thread P, s)" and "has_buffer s (pl_buffer P)"
    and "i < 128 \<Longrightarrow> TRY_out (lookup_cap_slot_this_tcb i) f s = f (cte_at (pl_cnode P) i) s"
    and "i < 128 \<Longrightarrow> TRY_out (lookup_cap_slot (cte_at (pl_cnode P) 0) i 64) f s = f (cte_at (pl_cnode P) i) s"
proof -
  show t: "this_tcb s = Inr (pl_thread P, s)" using assms by (simp add: running_def this_tcb_def kern_simps)
  show "has_buffer s (pl_buffer P)" using assms by (simp add: running_def has_buffer_def)
  show "TRY_out (lookup_cap_slot (cte_at (pl_cnode P) 0) i 64) f s = f (cte_at (pl_cnode P) i) s" if "i < 128"
    using assms that by (subst TRY_out_found) (simp_all add: running_def is_own_cnode_def)
  have "TRY_out (lookup_cap_slot (TcbCspaceRoot (pl_thread P)) i 64) f s = f (cte_at (pl_cnode P) i) s" if "i < 128"
    using assms that by (subst TRY_out_found) (simp_all add: running_def is_own_cnode_def)
  then show "TRY_out (lookup_cap_slot_this_tcb i) f s = f (cte_at (pl_cnode P) i) s" if "i < 128"
    using that t by (simp add: lookup_cap_slot_this_tcb_def TRY_out_def kbind_def)
qed

text \<open>Replacing the capability of one slot other than the first two.\<close>

lemma in_call_set:
  assumes "in_call P s V" and "d < 128" "d \<noteq> 0" "d \<noteq> 1"
    and "\<And>c. c \<noteq> cte_at (pl_cnode P) d \<Longrightarrow> slot_cap h c = slot_cap (ctes s) c"
    and "view_of (slot_cap h (cte_at (pl_cnode P) d)) = v"
  shows "in_call P (s\<lparr>ctes := h\<rparr>) (V(d := v))"
proof -
  have "cte_at (pl_cnode P) i \<noteq> cte_at (pl_cnode P) d" if "i < 128" "i \<noteq> d" for i
    using that assms(2) cte_at_inject by simp
  then have "slot_cap h (cte_at (pl_cnode P) i) = slot_cap (ctes s) (cte_at (pl_cnode P) i)" if "i < 128" "i \<noteq> d" for i
    using that assms(5) by blast
  moreover have "slot_cap h (TcbCspaceRoot t) = slot_cap (ctes s) (TcbCspaceRoot t)" for t
    using assms(5) tcb_slot_not_element by metis
  ultimately show ?thesis using assms(1,3,4,6) by (simp add: in_call_def running_def)
qed

section \<open>What the methods answer\<close>

text \<open>
  The call \<open>m\<close> on slot \<open>obj\<close> ends with error code \<open>e\<close> and turns the slots from \<open>V\<close> into \<open>V'\<close>; the buffer
  satisfies \<open>Q\<close> afterwards.
\<close>

definition answers :: "place \<Rightarrow> cptr_t \<Rightarrow> method_call \<Rightarrow> (word_t \<Rightarrow> cap_view) \<Rightarrow> word_t \<Rightarrow> (word_t \<Rightarrow> cap_view) \<Rightarrow>
    (cte_heap \<Rightarrow> ipc_buffer \<Rightarrow> bool) \<Rightarrow> bool" where
  "answers P obj m V e V' Q \<longleftrightarrow> (\<forall>s. in_call P s V \<longrightarrow>
     (\<exists>tag s'. kernel_call m (cte_at (pl_cnode P) obj) s = Inr (tag, s') \<and> message_label tag = e \<and> \<not> msg_is_noreturn tag \<and>
        in_call P s' V' \<and> big_kernel_lock s' = big_kernel_lock s \<and> Q (ctes s) (ipc_buffers s' (pl_buffer P))))"

lemma small_errors_return [simp]:
  "\<not> msg_is_noreturn (msg_ok n)" "\<not> msg_is_noreturn msg_delete_first" "\<not> msg_is_noreturn msg_illegal_operation"
  by (simp_all add: msg_ok_def msg_delete_first_def msg_illegal_operation_def error_not_noreturn error_not_noreturn [of 0, unfolded msg_err_def])

lemma lookup_own_cnode: "in_call P s V \<Longrightarrow> lookup_argument 0 f s = f (cte_at (pl_cnode P) 0) s"
  using running_facts(3) [of P s V 0 f] by (simp add: in_call_def lookup_argument_def)

lemma own_types:
  assumes "in_call P s V"
  shows "cap_type (slot_cap (ctes s) (cte_at (pl_cnode P) 0)) = CAP_CNODE"
    and "cap_type (slot_cap (ctes s) (cte_at (pl_cnode P) 1)) = CAP_UNTYPED"
  using assms by (simp_all add: in_call_def running_def is_own_cnode_def is_own_untyped_def)

lemma view_at:
  assumes "in_call P s V" "i < 128" "V i = (ty, orig, badge, rights)"
  shows "cap_type (slot_cap (ctes s) (cte_at (pl_cnode P) i)) = ty" "cap_is_original (slot_cap (ctes s) (cte_at (pl_cnode P) i)) = orig"
    "cap_badge (slot_cap (ctes s) (cte_at (pl_cnode P) i)) = badge" "cap_rights (slot_cap (ctes s) (cte_at (pl_cnode P) i)) = rights"
proof -
  have "view_of (slot_cap (ctes s) (cte_at (pl_cnode P) i)) = (ty, orig, badge, rights)"
    using assms unfolding in_call_def running_def by simp
  then show "cap_type (slot_cap (ctes s) (cte_at (pl_cnode P) i)) = ty" "cap_is_original (slot_cap (ctes s) (cte_at (pl_cnode P) i)) = orig"
    "cap_badge (slot_cap (ctes s) (cte_at (pl_cnode P) i)) = badge" "cap_rights (slot_cap (ctes s) (cte_at (pl_cnode P) i)) = rights"
    by (simp_all add: view_of_def)
qed

lemma get_answers:
  assumes "i < 128"
  shows "answers P 0 (Cnode_Debug_Get i 64) V NO_ERROR V (\<lambda>h b. b 0 = cap_word0 (slot_cap h (cte_at (pl_cnode P) i)) \<and> b 1 = cap_badge (slot_cap h (cte_at (pl_cnode P) i)))"
  unfolding answers_def
proof (intro allI impI)
  fix s assume s: "in_call P s V"
  then have r: "running P s V" by (simp add: in_call_def)
  let ?c = "slot_cap (ctes s) (cte_at (pl_cnode P) i)"
  let ?t = "upd_ipc (pl_buffer P) 1 (cap_badge ?c) (upd_ipc (pl_buffer P) 0 (cap_word0 ?c) s)"
  have b: "has_buffer s (pl_buffer P)" using running_facts(2) [OF r] .
  have "kernel_call (Cnode_Debug_Get i 64) (cte_at (pl_cnode P) 0) s = Inr (msg_ok 2, ?t)"
    using own_types [OF s] running_facts(4) [OF r assms] set_mr_ret b
    by (simp add: require_type_eq cnode_debug_get_def kern_simps upd_ipc_def has_buffer_def)
  moreover have "in_call P ?t V" using s by (simp add: in_call_def running_def upd_ipc_def)
  ultimately show "\<exists>tag s'. kernel_call (Cnode_Debug_Get i 64) (cte_at (pl_cnode P) 0) s = Inr (tag, s') \<and> message_label tag = NO_ERROR \<and>
      \<not> msg_is_noreturn tag \<and> in_call P s' V \<and> big_kernel_lock s' = big_kernel_lock s \<and>
      ipc_buffers s' (pl_buffer P) 0 = cap_word0 ?c \<and> ipc_buffers s' (pl_buffer P) 1 = cap_badge ?c"
    by (intro exI [of _ "msg_ok 2"] exI [of _ ?t]) (simp add: upd_ipc_def)
qed

text \<open>The methods that change only the slots.\<close>

lemma slot_method_answers:
  assumes "\<And>s. in_call P s V \<Longrightarrow> \<exists>tag h. kernel_call m (cte_at (pl_cnode P) obj) s = Inr (tag, s\<lparr>ctes := h\<rparr>) \<and>
    message_label tag = e \<and> \<not> msg_is_noreturn tag \<and> in_call P (s\<lparr>ctes := h\<rparr>) V'"
  shows "answers P obj m V e V' (\<lambda>_ _. True)"
  using assms unfolding answers_def by fastforce

lemma with_ctes_result:
  "m (ctes s) = Inr (tag, h) \<Longrightarrow> TRY (with_ctes m) (kret (msg_ok 0)) s =
     Inr (if message_label tag = NO_ERROR then msg_ok 0 else tag, s\<lparr>ctes := h\<rparr>)"
  by (simp add: kern_simps with_ctes_def)

lemma copy_call:
  assumes "in_call P s V" "d < 128" "i < 128"
  shows "kernel_call (Cnode_Copy d 64 0 i 64 rights) (cte_at (pl_cnode P) 0) s =
    TRY (with_ctes (copy_cap (cte_at (pl_cnode P) d) (cte_at (pl_cnode P) i) rights)) (kret (msg_ok 0)) s"
proof -
  have r: "running P s V" using assms(1) by (simp add: in_call_def)
  show ?thesis
    using running_facts(4) [OF r assms(2)] running_facts(4) [OF r assms(3)] own_types [OF assms(1)] lookup_own_cnode [OF assms(1)]
    by (simp add: require_type_eq cnode_copy_def)
qed

lemma copy_answers:
  assumes "d < 128" "d \<noteq> 0" "d \<noteq> 1" "i < 128" "V i = (ty, orig, badge, r)" "ty \<noteq> CAP_UNTYPED" "ty \<noteq> CAP_NULL" "fst (V d) = CAP_NULL"
  shows "answers P 0 (Cnode_Copy d 64 0 i 64 rights) V NO_ERROR (V(d := (ty, False, badge, take_bit 5 (r AND rights)))) (\<lambda>_ _. True)"
proof (rule slot_method_answers)
  fix s assume s: "in_call P s V"
  let ?d = "cte_at (pl_cnode P) d" let ?i = "cte_at (pl_cnode P) i"
  obtain v where d: "V d = (CAP_NULL, v)" using assms(8) by (cases "V d") auto
  note from_slot = view_at [OF s assms(4,5)]
  have "cap_type (slot_cap (ctes s) ?d) = CAP_NULL" using view_at(1) [OF s assms(1)] d by (cases v) auto
  moreover have "?d \<noteq> ?i" using calculation from_slot(1) assms(7) by auto
  ultimately have c: "copy_cap ?d ?i rights (ctes s) = Inr (msg_ok 0,
      insert_cte_after ?d ?i (set_cap ?d (copied_cap (slot_cap (ctes s) ?i) rights) (ctes s)))" (is "_ = Inr (_, ?h)")
    using from_slot(1) assms(6) by (intro copy_cap_ok) auto
  have "in_call P (s\<lparr>ctes := ?h\<rparr>) (V(d := (ty, False, badge, take_bit 5 (r AND rights))))"
    by (rule in_call_set [OF s assms(1-3)])
      (use from_slot assms(6) in \<open>simp_all add: insert_keeps_caps set_cap_def view_of_def\<close>)
  then show "\<exists>tag h. kernel_call (Cnode_Copy d 64 0 i 64 rights) (cte_at (pl_cnode P) 0) s = Inr (tag, s\<lparr>ctes := h\<rparr>) \<and>
      message_label tag = NO_ERROR \<and> \<not> msg_is_noreturn tag \<and> in_call P (s\<lparr>ctes := h\<rparr>) (V(d := (ty, False, badge, take_bit 5 (r AND rights))))"
    using with_ctes_result [of "copy_cap ?d ?i rights", OF c] copy_call [OF s assms(1,4)] by auto
qed

lemma copy_refused:
  assumes "d < 128" "i < 128" "fst (V d) \<noteq> CAP_NULL"
  shows "answers P 0 (Cnode_Copy d 64 0 i 64 rights) V DELETE_FIRST V (\<lambda>_ _. True)"
proof (rule slot_method_answers)
  fix s assume s: "in_call P s V"
  obtain ty o' b r where d: "V d = (ty, o', b, r)" by (cases "V d") auto
  then have "copy_cap (cte_at (pl_cnode P) d) (cte_at (pl_cnode P) i) rights (ctes s) = Inr (msg_delete_first, ctes s)"
    using view_at(1) [OF s assms(1) d] assms(3) by (simp add: copy_cap_def)
  from with_ctes_result [of "copy_cap _ _ _", OF this] copy_call [OF s assms(1,2)]
  show "\<exists>tag h. kernel_call (Cnode_Copy d 64 0 i 64 rights) (cte_at (pl_cnode P) 0) s = Inr (tag, s\<lparr>ctes := h\<rparr>) \<and>
      message_label tag = DELETE_FIRST \<and> \<not> msg_is_noreturn tag \<and> in_call P (s\<lparr>ctes := h\<rparr>) V"
    using s by (intro exI [of _ msg_delete_first] exI [of _ "ctes s"]) simp
qed

lemma mint_call:
  assumes "in_call P s V" "d < 128" "i < 128"
  shows "kernel_call (Cnode_Mint d 64 0 i 64 rights badge) (cte_at (pl_cnode P) 0) s =
    TRY (with_ctes (mint_cap (cte_at (pl_cnode P) d) (cte_at (pl_cnode P) i) badge rights)) (kret (msg_ok 0)) s"
proof -
  have r: "running P s V" using assms(1) by (simp add: in_call_def)
  show ?thesis
    using running_facts(4) [OF r assms(2)] running_facts(4) [OF r assms(3)] own_types [OF assms(1)] lookup_own_cnode [OF assms(1)]
    by (simp add: require_type_eq cnode_mint_def)
qed

lemma mint_answers:
  assumes "d < 128" "d \<noteq> 0" "d \<noteq> 1" "i < 128" "V i = (ty, orig, 0, r)" "ty = CAP_ENDPOINT \<or> ty = CAP_NOTIFICATION" "fst (V d) = CAP_NULL"
  shows "answers P 0 (Cnode_Mint d 64 0 i 64 rights badge) V NO_ERROR
    (V(d := (ty, ty \<noteq> CAP_NOTIFICATION \<and> orig, badge, take_bit 5 (r AND rights)))) (\<lambda>_ _. True)"
proof (rule slot_method_answers)
  fix s assume s: "in_call P s V"
  let ?d = "cte_at (pl_cnode P) d" let ?i = "cte_at (pl_cnode P) i"
  obtain v where d: "V d = (CAP_NULL, v)" using assms(7) by (cases "V d") auto
  note from_slot = view_at [OF s assms(4,5)]
  have "cap_type (slot_cap (ctes s) ?d) = CAP_NULL" using view_at(1) [OF s assms(1)] d by (cases v) auto
  moreover have "?d \<noteq> ?i" using calculation from_slot(1) assms(6) by auto
  ultimately have c: "mint_cap ?d ?i badge rights (ctes s) = Inr (msg_ok 0,
      insert_cte_after ?d ?i (set_cap ?d (minted_cap (slot_cap (ctes s) ?i) badge rights) (ctes s)))" (is "_ = Inr (_, ?h)")
    using from_slot assms(6) by (intro mint_cap_ok) auto
  have "in_call P (s\<lparr>ctes := ?h\<rparr>) (V(d := (ty, ty \<noteq> CAP_NOTIFICATION \<and> orig, badge, take_bit 5 (r AND rights))))"
    by (rule in_call_set [OF s assms(1-3)])
      (use from_slot assms(6) in \<open>simp_all add: insert_keeps_caps set_cap_def view_of_def\<close>)
  then show "\<exists>tag h. kernel_call (Cnode_Mint d 64 0 i 64 rights badge) (cte_at (pl_cnode P) 0) s = Inr (tag, s\<lparr>ctes := h\<rparr>) \<and>
      message_label tag = NO_ERROR \<and> \<not> msg_is_noreturn tag \<and>
      in_call P (s\<lparr>ctes := h\<rparr>) (V(d := (ty, ty \<noteq> CAP_NOTIFICATION \<and> orig, badge, take_bit 5 (r AND rights))))"
    using with_ctes_result [of "mint_cap ?d ?i badge rights", OF c] mint_call [OF s assms(1,4)] by auto
qed

lemma mint_refused:
  assumes "d < 128" "i < 128" "V i = (ty, orig, b, r)"
    and "e = (if fst (V d) \<noteq> CAP_NULL then DELETE_FIRST else ILLEGAL_OPERATION)"
    and "fst (V d) \<noteq> CAP_NULL \<or> ty \<noteq> CAP_ENDPOINT \<and> ty \<noteq> CAP_NOTIFICATION \<or> b \<noteq> 0"
  shows "answers P 0 (Cnode_Mint d 64 0 i 64 rights badge) V e V (\<lambda>_ _. True)"
proof (rule slot_method_answers)
  fix s assume s: "in_call P s V"
  let ?tag = "if fst (V d) \<noteq> CAP_NULL then msg_delete_first else msg_illegal_operation"
  obtain ty' o' b' r' where d: "V d = (ty', o', b', r')" by (cases "V d") auto
  have "mint_cap (cte_at (pl_cnode P) d) (cte_at (pl_cnode P) i) badge rights (ctes s) = Inr (?tag, ctes s)"
    using view_at [OF s assms(1) d] view_at [OF s assms(2,3)] assms(5) d by (auto simp: mint_cap_def)
  from with_ctes_result [of "mint_cap _ _ _ _", OF this] mint_call [OF s assms(1,2)]
  show "\<exists>tag h. kernel_call (Cnode_Mint d 64 0 i 64 rights badge) (cte_at (pl_cnode P) 0) s = Inr (tag, s\<lparr>ctes := h\<rparr>) \<and>
      message_label tag = e \<and> \<not> msg_is_noreturn tag \<and> in_call P (s\<lparr>ctes := h\<rparr>) V"
    using s assms(4) by (intro exI [of _ ?tag] exI [of _ "ctes s"]) simp
qed

lemma unlink_keeps_caps: "slot_cap (unlink_cte c h) d = slot_cap h d"
  by (simp add: unlink_cte_def Let_def split: option.splits)

lemma delete_answers:
  assumes "d < 128" "d \<noteq> 0" "d \<noteq> 1" "V d = (ty, False, b, r)"
  shows "answers P 0 (Cnode_Delete d 64) V NO_ERROR (V(d := (CAP_NULL, False, 0, 0))) (\<lambda>_ _. True)"
proof (rule slot_method_answers)
  fix s assume s: "in_call P s V"
  let ?d = "cte_at (pl_cnode P) d"
  have r: "running P s V" using s by (simp add: in_call_def)
  have "\<not> is_child_cap (ctes s) c ?d" for c using view_at(2) [OF s assms(1,4)] by (simp add: is_child_cap_def split: option.split)
  then have c: "delete_cap ?d (ctes s) = Inr (msg_ok 0, clear_slot ?d (ctes s))"
    by (simp add: delete_cap_def delete_slots_def revoke_slots_loop)
  have "in_call P (s\<lparr>ctes := clear_slot ?d (ctes s)\<rparr>) (V(d := (CAP_NULL, False, 0, 0)))"
    by (rule in_call_set [OF s assms(1-3)])
      (simp_all add: clear_slot_def set_cap_def unlink_keeps_caps view_of_def new_null_cap_eq)
  then show "\<exists>tag h. kernel_call (Cnode_Delete d 64) (cte_at (pl_cnode P) 0) s = Inr (tag, s\<lparr>ctes := h\<rparr>) \<and>
      message_label tag = NO_ERROR \<and> \<not> msg_is_noreturn tag \<and> in_call P (s\<lparr>ctes := h\<rparr>) (V(d := (CAP_NULL, False, 0, 0)))"
    using with_ctes_result [of "delete_cap ?d", OF c] running_facts(4) [OF r assms(1)] own_types [OF s]
    by (intro exI [of _ "msg_ok 0"] exI [of _ "clear_slot ?d (ctes s)"]) (simp add: require_type_eq cnode_delete_def)
qed

section \<open>Retype\<close>

text \<open>
  Memory at an offset of the region that can hold an object of a given size, apart from the objects that the
  test runs on.
\<close>

definition object_fits :: "place \<Rightarrow> word_t \<Rightarrow> word_t \<Rightarrow> bool" where
  "object_fits P off sz \<longleftrightarrow> (let p = (pl_region P + off) OR pl_direct P in is_safe_cap_ptr p \<and>
     \<not> in_range p sz (pl_thread P) \<and> (\<forall>i<128. \<not> in_range p sz (pl_cnode P + 32 * i)))"

text \<open>The state after one object has been created, apart from the capabilities.\<close>

lemma create_one_frame:
  assumes "create_object u ty size_bits sz dst0 mem i s = Inr ((), s')" "p = (mem + i * sz) OR hhdm s"
  shows "\<exists>h l. s' = (clear_memory p sz s)\<lparr>lists := l, ctes := h\<rparr>"
proof -
  obtain l where l: "init_object ty p (clear_memory p sz s) = Inr ((), (clear_memory p sz s)\<lparr>lists := l\<rparr>)"
    using init_object_ret by blast
  then show ?thesis using assms(1)
    unfolding create_object_def Let_def
    by (auto simp: kern_simps direct_map_of_def assms(2) [symmetric] split: if_splits sum.splits) blast
qed

lemma retype_one_frame:
  assumes "untyped_retype slot ty size_bits root node_index 64 node_offset 1 s = Inr (msg_ok 0, s')"
    and "object_size ty size_bits = Inr sz" and "retype_ready s slot sz root node_index node_offset 1"
    and "sz * 1 \<le> BIT (cap_size_bits (slot_cap (ctes s) slot)) - retype_offset s slot sz"
  shows "\<exists>h l. s' = (clear_memory (object_at s (retype_base s slot sz) sz 0) sz s)\<lparr>lists := l, ctes := h\<rparr>"
proof -
  let ?d = "retype_dest s root node_index node_offset" let ?m = "retype_base s slot sz"
  note r = assms(3) [unfolded retype_ready_def]
  have fits: "\<not> BIT (cap_size_bits (slot_cap (ctes s) slot)) - retype_offset s slot sz < sz"
    "\<not> cap_size (slot_cap (ctes s) (retype_node s root node_index)) < node_offset + 1"
    using assms(4) r by (simp_all add: linorder_not_less)
  have u: "ucast (64 :: u8) = (64 :: word_t)" by simp
  obtain t where t: "create_object slot ty size_bits sz ?d ?m 0 s = Inr ((), t)"
    and s': "s' = t\<lparr>ctes := set_cap slot (cap_set_badge (retype_offset s slot sz + sz) (slot_cap (ctes t) slot)) (ctes t)\<rparr>"
    using assms(1) r fits assms(2)
    unfolding untyped_retype_def Let_def u create_objects_def
    by (auto simp: kern_simps lookup_found cte_for_def split: sum.splits prod.splits)
  from create_one_frame [OF t refl] show ?thesis unfolding s' by auto blast
qed

text \<open>A retype of one object at watermark \<open>w\<close> of the region.\<close>

lemma retype_answers:
  assumes "d < 128" "d \<noteq> 0" "d \<noteq> 1" and V1: "V 1 = (CAP_UNTYPED, orig, w, r)"
    and sz: "object_size ty size_bits = Inr sz" and off: "ALIGN_UP w sz = off" and fits: "object_fits P off sz" "unat off + unat sz \<le> 2048"
  shows "answers P 1 (Untyped_Retype ty size_bits 0 0 64 d 1) V NO_ERROR
    (V(d := (take_bit 5 ty, True, 0, CAP_RIGHTS_ALL), 1 := (CAP_UNTYPED, orig, off + sz, r))) (\<lambda>_ _. True)"
  unfolding answers_def
proof (intro allI impI)
  fix s assume s: "in_call P s V"
  let ?n = "cte_at (pl_cnode P) 0" let ?u = "cte_at (pl_cnode P) 1" let ?d = "cte_at (pl_cnode P) d"
  let ?p = "(pl_region P + off) OR pl_direct P"
  have cnode: "cap_type (slot_cap (ctes s) ?n) = CAP_CNODE" "cap_ptr (slot_cap (ctes s) ?n) = pl_cnode P" "cap_size (slot_cap (ctes s) ?n) = 128"
    using s by (simp_all add: in_call_def running_def is_own_cnode_def)
  have region: "cap_ptr (slot_cap (ctes s) ?u) = pl_region P" "11 \<le> unat (cap_size_bits (slot_cap (ctes s) ?u))"
    using s by (simp_all add: in_call_def running_def is_own_untyped_def)
  note mark = view_at [OF s _ V1]
  have w: "retype_offset s ?u sz = off" using mark(3) off by simp
  have at: "object_at s (retype_base s ?u sz) sz 0 = ?p" using s region(1) w by (simp add: in_call_def running_def)
  have slots: "slot_object (cte_at (pl_cnode P) i) = pl_cnode P + 32 * i" "slot_plus (cte_at (pl_cnode P) i) 0 = cte_at (pl_cnode P) i" for i
    by (simp_all add: cte_at_def)
  have p: "is_safe_cap_ptr ?p" "\<not> in_range ?p sz (pl_thread P)" "\<And>i. i < 128 \<Longrightarrow> \<not> in_range ?p sz (pl_cnode P + 32 * i)"
    using fits(1) by (simp_all add: object_fits_def Let_def)
  have dest: "retype_dest s ?n 0 d = ?d" using cnode by simp
  have "d + 1 \<le> 128" using assms(1) by (simp add: inc_le)
  moreover have "?u \<noteq> ?d" using cte_at_inject [of 1 d] assms(1,3) by simp
  ultimately have ready: "retype_ready s ?u sz ?n 0 d 1"
    using s cnode assms(1) p at p(3) [of 1] p(3) [OF assms(1)] dest slots
    by (simp add: retype_ready_def placeable_def in_call_def running_def)
  have bits: "unat (cap_size_bits (slot_cap (ctes s) ?u)) < 64" using unat_cap_size_bits by simp
  have "unat (BIT (cap_size_bits (slot_cap (ctes s) ?u))) = 2 ^ unat (cap_size_bits (slot_cap (ctes s) ?u))"
    using unat_BIT bits by simp
  then have "2048 \<le> unat (BIT (cap_size_bits (slot_cap (ctes s) ?u)))"
    using power_increasing [OF region(2), of "2 :: nat"] by simp
  then have enough: "sz * 1 \<le> BIT (cap_size_bits (slot_cap (ctes s) ?u)) - retype_offset s ?u sz"
    using fits(2) w by (simp add: word_le_nat_alt unat_sub)
  obtain s' where s': "untyped_retype ?u ty size_bits ?n 0 64 d 1 s = Inr (msg_ok 0, s')"
      "retyped s s' ?u ty size_bits sz ?n 0 d 1"
    using retype_succeeds [OF sz ready enough] by blast
  obtain h l where frame: "s' = (clear_memory ?p sz s)\<lparr>lists := l, ctes := h\<rparr>"
    using retype_one_frame [OF s'(1) sz ready enough] at by auto
  have caps: "slot_cap (ctes s') ?u = cap_set_badge (off + sz) (slot_cap (ctes s) ?u)"
      "created_at ty size_bits ?p (slot_cap (ctes s') ?d)"
      "\<And>c. c \<noteq> ?u \<Longrightarrow> c \<noteq> ?d \<Longrightarrow> \<not> in_range ?p sz (slot_object c) \<Longrightarrow> slot_cap (ctes s') c = slot_cap (ctes s) c"
    using s'(2) w at dest slots by (simp_all add: retyped_def)
  have others: "slot_cap (ctes s') (cte_at (pl_cnode P) i) = slot_cap (ctes s) (cte_at (pl_cnode P) i)" if "i < 128" "i \<noteq> d" "i \<noteq> 1" for i
    using caps(3) [of "cte_at (pl_cnode P) i"] that p(3) assms(1) cte_at_inject slots by simp
  have root: "slot_cap (ctes s') (TcbCspaceRoot (pl_thread P)) = slot_cap (ctes s) (TcbCspaceRoot (pl_thread P))"
    using caps(3) [of "TcbCspaceRoot (pl_thread P)"] p(2) tcb_slot_not_element [symmetric] by simp
  have "running P s' (V(d := (take_bit 5 ty, True, 0, CAP_RIGHTS_ALL), 1 := (CAP_UNTYPED, orig, off + sz, r)))"
    unfolding running_def
  proof (intro conjI allI impI)
    fix i :: word_t assume i: "i < 128"
    show "view_of (slot_cap (ctes s') (cte_at (pl_cnode P) i)) = (V(d := (take_bit 5 ty, True, 0, CAP_RIGHTS_ALL), 1 := (CAP_UNTYPED, orig, off + sz, r))) i"
      using s i caps(1,2) mark others [OF i] assms(3) by (auto simp: in_call_def running_def view_of_def created_at_def)
  qed (use s p frame root others [of 0] caps(1) assms(2) in
      \<open>simp_all add: in_call_def running_def clear_memory_def is_own_cnode_def is_own_untyped_def\<close>)
  moreover have "t_current_user_frame (tcbs s' (pl_thread P)) = Some (pl_frame P)" "big_kernel_lock s' = big_kernel_lock s"
    using s p(2) frame by (simp_all add: in_call_def clear_memory_def)
  moreover have "kernel_call (Untyped_Retype ty size_bits 0 0 64 d 1) ?u s = Inr (msg_ok 0, s')"
    using own_types [OF s] lookup_own_cnode [OF s] s'(1) by (simp add: require_type_eq)
  ultimately show "\<exists>tag s'. kernel_call (Untyped_Retype ty size_bits 0 0 64 d 1) ?u s = Inr (tag, s') \<and> message_label tag = NO_ERROR \<and>
      \<not> msg_is_noreturn tag \<and>
      in_call P s' (V(d := (take_bit 5 ty, True, 0, CAP_RIGHTS_ALL), 1 := (CAP_UNTYPED, orig, off + sz, r))) \<and>
      big_kernel_lock s' = big_kernel_lock s \<and> True"
    by (intro exI [of _ "msg_ok 0"] exI [of _ s']) (simp add: in_call_def)
qed

section \<open>From the program into the kernel and back\<close>

text \<open>The system call of a method stub on one of the first two slots.\<close>

lemma entry_answers:
  assumes answer: "answers P obj m V e V' Q" and obj: "obj = 0 \<or> obj = 1"
    and run: "running P s V" and free: "lock_free (big_kernel_lock s)"
    and buffer: "ipc_buffers s (pl_buffer P) = fst (stub_of m old)" and frame: "f_cs (frame_mem s (pl_frame P)) = USER_CS"
  shows "\<exists>tag s'. c_syscall_entry obj (message_info_to_word (snd (stub_of m old))) SYS_CALL (pl_frame P) s = Inr (ReturnToFrame, s') \<and>
    f_rax (frame_mem s' (pl_frame P)) = message_info_to_word tag \<and> message_label tag = e \<and>
    running P s' V' \<and> lock_free (big_kernel_lock s') \<and> Q (ctes s) (ipc_buffers s' (pl_buffer P))"
proof -
  let ?L = "big_kernel_lock s" let ?info = "snd (stub_of m old)"
  define s1 where "s1 = (upd_tcb (pl_thread P) (\<lambda>t. t\<lparr>t_current_user_frame := Some (pl_frame P)\<rparr>) s)
    \<lparr>big_kernel_lock := ?L\<lparr>lk_back := lk_back ?L + 1\<rparr>\<rparr>"
  have s1: "in_call P s1 V" using run by (simp add: s1_def in_call_def running_def upd_tcb_def)
  then have r1: "running P s1 V" by (simp add: in_call_def)
  have caps: "ctes s1 = ctes s" by (simp add: s1_def upd_tcb_def)
  have obj128: "obj < 128" using obj by auto
  have type: "cap_type (slot_cap (ctes s1) (cte_at (pl_cnode P) obj)) \<noteq> CAP_ENDPOINT" using obj own_types [OF s1] by auto
  obtain tag s2 where s2: "kernel_call m (cte_at (pl_cnode P) obj) s1 = Inr (tag, s2)" "message_label tag = e" "\<not> msg_is_noreturn tag"
      "in_call P s2 V'" "big_kernel_lock s2 = big_kernel_lock s1" "Q (ctes s) (ipc_buffers s2 (pl_buffer P))"
    using answer s1 caps unfolding answers_def by metis
  have "ipc_buffers s1 (pl_buffer P) = fst (stub_of m old)" using buffer by (simp add: s1_def upd_tcb_def)
  from stub_dispatch [OF running_facts(2) [OF r1] this, of "cte_at (pl_cnode P) obj"]
  have "dispatch_method (cte_at (pl_cnode P) obj) ?info s1 = Inr (tag, s2)" using s2(1) by simp
  then have "op_cap_syscall (cte_at (pl_cnode P) obj) ?info SYS_CALL s1 = Inr (tag, s2)"
    using type by (simp add: op_cap_syscall_def kern_simps)
  then have op: "op_syscall obj (message_info_to_word ?info) SYS_CALL s1 = Inr (tag, s2)"
    using running_facts(3) [OF r1 obj128]
    by (simp add: op_syscall_def message_info_from_word_def message_info_to_word_def Let_def)
  let ?s4 = "s2\<lparr>frame_mem := (frame_mem s2)(pl_frame P := set_frame_return (message_info_to_word tag) (frame_mem s2 (pl_frame P))),
    big_kernel_lock := release (big_kernel_lock s2)\<rparr>"
  have "save_frame_on_tcb (pl_frame P) s = Inr ((), upd_tcb (pl_thread P) (\<lambda>t. t\<lparr>t_current_user_frame := Some (pl_frame P)\<rparr>) s)"
    using run frame by (simp add: save_frame_on_tcb_def running_def kern_simps)
  moreover have "lock_big_kernel (upd_tcb (pl_thread P) (\<lambda>t. t\<lparr>t_current_user_frame := Some (pl_frame P)\<rparr>) s) = Inr ((), s1)"
    using free by (simp add: lock_big_kernel_def acquire_def lock_free_def s1_def upd_tcb_def Let_def)
  moreover have "set_ipc_result (pl_thread P) tag s2 = Inr ((), s2\<lparr>frame_mem := (frame_mem s2)(pl_frame P :=
      set_frame_return (message_info_to_word tag) (frame_mem s2 (pl_frame P)))\<rparr>)"
    using s2(4) by (simp add: set_ipc_result_def ipc_frame_def in_call_def running_def kern_simps read_frame_def write_frame_def)
  moreover have "this_tcb s2 = Inr (pl_thread P, s2)" using s2(4) unfolding in_call_def by (blast intro: running_facts(1))
  ultimately have "c_syscall_entry obj (message_info_to_word ?info) SYS_CALL (pl_frame P) s = Inr (ReturnToFrame, ?s4)"
    using op s2(3,4) by (simp add: c_syscall_entry_def do_syscall_def kern_simps unlock_big_kernel_def return_from_kernel_code_def
        in_call_def running_def)
  moreover have "running P ?s4 V'" using s2(4) by (simp add: in_call_def running_def)
  moreover have "lock_free (release (big_kernel_lock s2))"
    using free s2(5) by (simp add: s1_def upd_tcb_def lock_free_def release_def)
  ultimately show ?thesis using s2(2,6)
    by (intro exI [of _ tag] exI [of _ ?s4]) (simp add: set_frame_return_def)
qed

text \<open>The program's view: its kernel runs with the slots \<open>V\<close>.\<close>

definition sees :: "place \<Rightarrow> kstate option user_state \<Rightarrow> (word_t \<Rightarrow> cap_view) \<Rightarrow> bool" where
  "sees P u V \<longleftrightarrow> (case us_env u of None \<Rightarrow> False | Some s \<Rightarrow> running P s V \<and> lock_free (big_kernel_lock s))"

lemma invoke_answers:
  assumes "answers P obj m V e V' Q" "obj = 0 \<or> obj = 1" "us_env u = Some s" "sees P u V"
  shows "\<exists>u'. invoke_method (enter_kernel (pl_frame P)) obj m u = Inr (e, u') \<and> sees P u' V' \<and> Q (ctes s) (us_buffer u')"
proof -
  have run: "running P s V" "lock_free (big_kernel_lock s)" using assms(3,4) by (simp_all add: sees_def)
  then have cur: "current_tcb s = Some (pl_thread P)" "t_ipc_buffer (tcbs s (pl_thread P)) = Some (pl_buffer P)"
    by (simp_all add: running_def)
  obtain b info where st: "stub_of m (us_buffer u) = (b, info)" by (cases "stub_of m (us_buffer u)") auto
  let ?F = "(new_user_frame 0x400000 0x7FFF0000)\<lparr>f_rdi := obj, f_rsi := message_info_to_word info, f_rax := ucast SYS_CALL\<rparr>"
  let ?s = "s\<lparr>ipc_buffers := (ipc_buffers s)(pl_buffer P := b), user_mem := us_memory u, frame_mem := (frame_mem s)(pl_frame P := ?F)\<rparr>"
  have r: "running P ?s V" "lock_free (big_kernel_lock ?s)" using run by (simp_all add: running_def)
  have b: "ipc_buffers ?s (pl_buffer P) = fst (stub_of m (us_buffer u))" "f_cs (frame_mem ?s (pl_frame P)) = USER_CS"
    using st by (simp_all add: new_user_frame_def)
  obtain tag s' where s': "c_syscall_entry obj (message_info_to_word info) SYS_CALL (pl_frame P) ?s = Inr (ReturnToFrame, s')"
      "f_rax (frame_mem s' (pl_frame P)) = message_info_to_word tag" "message_label tag = e"
      "running P s' V'" "lock_free (big_kernel_lock s')" "Q (ctes s) (ipc_buffers s' (pl_buffer P))"
    using entry_answers [OF assms(1,2) r b] st by auto
  let ?u = "u\<lparr>us_buffer := ipc_buffers s' (pl_buffer P), us_memory := user_mem s', us_env := Some s'\<rparr>"
  have "invoke_method (enter_kernel (pl_frame P)) obj m u = Inr (e, ?u)"
    using st assms(3) cur s'(1,2,3)
    by (simp add: invoke_method_def user_call_def syscall2_def enter_kernel_def sender_badge_def kern_simps
        message_info_from_word_def message_info_to_word_def)
  moreover have "sees P ?u V'" using s'(4,5) by (simp add: sees_def)
  ultimately show ?thesis using s'(6) by auto
qed

section \<open>Running the test\<close>

text \<open>A part of the test that turns the slots from \<open>V\<close> into \<open>V'\<close> and counts \<open>n\<close> tests, none of them failed.\<close>

definition passes :: "place \<Rightarrow> (word_t \<Rightarrow> cap_view) \<Rightarrow> (kstate option test_state, unit) kern \<Rightarrow> nat \<Rightarrow> (word_t \<Rightarrow> cap_view) \<Rightarrow> bool" where
  "passes P V m n V' \<longleftrightarrow> (\<forall>t. sees P (ts_user t) V \<longrightarrow> (\<exists>u. m t = Inr ((), t\<lparr>ts_user := u, total_tests := total_tests t + n\<rparr>) \<and> sees P u V'))"

lemma passes_seq:
  assumes "passes P V m k V1" "passes P V1 m' l V2" "n = k + l"
  shows "passes P V (kseq m m') n V2"
  unfolding passes_def
proof (intro allI impI)
  fix t :: "kstate option test_state"
  assume "sees P (ts_user t) V"
  then obtain u where u: "m t = Inr ((), t\<lparr>ts_user := u, total_tests := total_tests t + k\<rparr>)" "sees P u V1"
    using assms(1) unfolding passes_def by blast
  let ?t = "t\<lparr>ts_user := u, total_tests := total_tests t + k\<rparr>"
  have "sees P (ts_user ?t) V1" using u(2) by simp
  then obtain u' where "m' ?t = Inr ((), ?t\<lparr>ts_user := u', total_tests := total_tests ?t + l\<rparr>)" "sees P u' V2"
    using assms(2) unfolding passes_def by blast
  then show "\<exists>u. kseq m m' t = Inr ((), t\<lparr>ts_user := u, total_tests := total_tests t + n\<rparr>) \<and> sees P u V2"
    using u(1) assms(3) by (auto simp: kern_simps add.assoc)
qed

lemma method_answers:
  fixes t :: "kstate option test_state"
  assumes "answers P obj m V e V' Q" "obj = 0 \<or> obj = 1" "sees P (ts_user t) V"
  shows "\<exists>u. method_on (enter_kernel (pl_frame P)) obj m t = Inr (e, t\<lparr>ts_user := u\<rparr>) \<and> sees P u V'"
proof -
  obtain s where "us_env (ts_user t) = Some s" using assms(3) by (auto simp: sees_def split: option.splits)
  from invoke_answers [OF assms(1,2) this assms(3)] show ?thesis by (auto simp: method_on_def in_test_def)
qed

lemma passes_expect:
  assumes "answers P obj m V e V' Q" "obj = 0 \<or> obj = 1"
  shows "passes P V (expect (method_on (enter_kernel (pl_frame P)) obj m) e) 1 V'"
  using method_answers [OF assms] unfolding passes_def expect_def print_test_def count_test_def
  by (fastforce simp: kern_simps)

text \<open>A check of one slot succeeds if each of its tests does on what the slot shows.\<close>

definition holds_for :: "cap_view \<Rightarrow> (cap_t \<Rightarrow> (kstate option test_state, unit) kern) \<Rightarrow> bool" where
  "holds_for v check \<longleftrightarrow> (\<forall>c. view_of c = v \<longrightarrow> check c = count_test True)"

lemma holds_for_checks:
  "holds_for (ty, orig, badge, r) (\<lambda>c. assert_cap_type c ty)"
  "holds_for (ty, orig, badge, r) (\<lambda>c. assert_cap_is_original c orig)"
  "holds_for (ty, orig, badge, r) (\<lambda>c. assert_cap_badge c badge)"
  "holds_for (ty, orig, badge, r) (\<lambda>c. assert_cap_rights c r)"
  "holds_for (CAP_NULL, orig, badge, r) assert_cap_is_null"
  by (auto simp: holds_for_def view_of_def assert_cap_type_def assert_cap_is_original_def assert_cap_badge_def
      assert_cap_rights_def assert_cap_is_null_def)

lemma run_checks:
  assumes "\<forall>check\<in>set checks. holds_for (view_of c) check"
  shows "foldr (\<lambda>check m. kseq (check c) m) checks (kret ()) t = Inr ((), t\<lparr>total_tests := total_tests t + length checks\<rparr>)"
  using assms
proof (induction checks arbitrary: t)
  case (Cons check checks)
  then have "check c = count_test True" by (simp add: holds_for_def)
  then show ?case using Cons by (simp add: kern_simps count_test_def)
qed (simp add: kret_def)

lemma passes_check:
  assumes "i < 128" "\<forall>check\<in>set checks. holds_for (V i) check" "n = length checks"
  shows "passes P V (check_slot (enter_kernel (pl_frame P)) i checks) n V"
  unfolding passes_def
proof (intro allI impI)
  fix t :: "kstate option test_state"
  assume t: "sees P (ts_user t) V"
  obtain s where s: "us_env (ts_user t) = Some s" using t by (auto simp: sees_def split: option.splits)
  let ?c = "slot_cap (ctes s) (cte_at (pl_cnode P) i)"
  obtain u where u: "invoke_method (enter_kernel (pl_frame P)) 0 (Cnode_Debug_Get i 64) (ts_user t) = Inr (NO_ERROR, u)" "sees P u V"
      "us_buffer u 0 = cap_word0 ?c" "us_buffer u 1 = cap_badge ?c"
    using invoke_answers [OF get_answers [OF assms(1)] _ s t] by auto
  have "get_cap_at_slot (enter_kernel (pl_frame P)) i t = Inr (?c, t\<lparr>ts_user := u\<rparr>)"
    using u by (simp add: get_cap_at_slot_def in_test_def call_method_def user_get_mr_def kern_simps)
  moreover have "view_of ?c = V i" using t s assms(1) by (simp add: sees_def running_def)
  ultimately show "\<exists>u. check_slot (enter_kernel (pl_frame P)) i checks t = Inr ((), t\<lparr>ts_user := u, total_tests := total_tests t + n\<rparr>) \<and> sees P u V"
    using run_checks [of checks ?c] assms(2,3) u(2) by (auto simp: check_slot_def kern_simps)
qed

text \<open>The calls of the test.\<close>

lemma passes_retype:
  assumes "V 1 = (CAP_UNTYPED, orig, w, r)" "object_size ty size_bits = Inr sz" "ALIGN_UP w sz = off"
    and "object_fits P off sz" "unat off + unat sz \<le> 2048" "d < 128" "d \<noteq> 0" "d \<noteq> 1" "ty' = take_bit 5 ty" "w' = off + sz"
  shows "passes P V (expect (retype (enter_kernel (pl_frame P)) ty size_bits d) NO_ERROR) 1
    (V(d := (ty', True, 0, CAP_RIGHTS_ALL), 1 := (CAP_UNTYPED, orig, w', r)))"
  unfolding retype_def assms(9,10)
  by (rule passes_expect, rule retype_answers [where V = V, OF assms(6-8) assms(1-5)]) simp

lemma passes_copy:
  assumes "ty = fst (V i)" "b = fst (snd (snd (V i)))" "r = snd (snd (snd (V i)))" "ty \<noteq> CAP_UNTYPED" "ty \<noteq> CAP_NULL" "fst (V d) = CAP_NULL"
    and "i < 128" "d < 128" "d \<noteq> 0" "d \<noteq> 1" "v = (ty, False, b, take_bit 5 (r AND rights))"
  shows "passes P V (expect (copy_slot (enter_kernel (pl_frame P)) d i rights) NO_ERROR) 1 (V(d := v))"
proof -
  have "V i = (ty, fst (snd (V i)), b, r)" using assms(1-3) by simp
  from copy_answers [where V = V, OF assms(8-10,7) this assms(4-6)]
  show ?thesis unfolding copy_slot_def assms(11) by (rule passes_expect) simp
qed

lemma passes_mint:
  assumes "V i = (ty, orig, 0, r)" "ty = CAP_ENDPOINT \<or> ty = CAP_NOTIFICATION" "fst (V d) = CAP_NULL"
    and "i < 128" "d < 128" "d \<noteq> 0" "d \<noteq> 1" "v = (ty, ty \<noteq> CAP_NOTIFICATION \<and> orig, badge, take_bit 5 (r AND CAP_RIGHTS_ALL))"
  shows "passes P V (expect (mint_slot (enter_kernel (pl_frame P)) d i badge) NO_ERROR) 1 (V(d := v))"
  unfolding mint_slot_def assms(8)
  by (rule passes_expect, rule mint_answers [where V = V, OF assms(5-7) assms(4,1-3)]) simp

lemma passes_delete:
  assumes "\<not> fst (snd (V d))" "d < 128" "d \<noteq> 0" "d \<noteq> 1"
  shows "passes P V (expect (delete_slot (enter_kernel (pl_frame P)) d) NO_ERROR) 1 (V(d := (CAP_NULL, False, 0, 0)))"
proof -
  obtain ty b r where "V d = (ty, False, b, r)" using assms(1) by (cases "V d") auto
  from delete_answers [where V = V, OF assms(2-4) this]
  show ?thesis unfolding delete_slot_def by (rule passes_expect) simp
qed

lemma passes_copy_refused:
  assumes "fst (V d) \<noteq> CAP_NULL" "d < 128" "i < 128"
  shows "passes P V (expect (copy_slot (enter_kernel (pl_frame P)) d i rights) DELETE_FIRST) 1 V"
  unfolding copy_slot_def by (rule passes_expect, rule copy_refused [where V = V, OF assms(2,3,1)]) simp

lemma passes_mint_refused:
  assumes "V i = (ty, orig, b, r)" "e = (if fst (V d) \<noteq> CAP_NULL then DELETE_FIRST else ILLEGAL_OPERATION)"
    and "fst (V d) \<noteq> CAP_NULL \<or> ty \<noteq> CAP_ENDPOINT \<and> ty \<noteq> CAP_NOTIFICATION \<or> b \<noteq> 0" "d < 128" "i < 128"
  shows "passes P V (expect (mint_slot (enter_kernel (pl_frame P)) d i badge) e) 1 V"
  unfolding mint_slot_def by (rule passes_expect, rule mint_refused [where V = V, OF assms(4,5) assms(1-3)]) simp

text \<open>A retype whose result decides what is tested next, and a call whose result is not looked at.\<close>

lemma passes_retype_then:
  assumes "V 1 = (CAP_UNTYPED, orig, w, r)" "object_size ty size_bits = Inr sz" "ALIGN_UP w sz = off"
    and "object_fits P off sz" "unat off + unat sz \<le> 2048" "d < 128" "d \<noteq> 0" "d \<noteq> 1"
    and "ty' = take_bit 5 ty" "w' = off + sz" "next NO_ERROR = m"
    and "passes P (V(d := (ty', True, 0, CAP_RIGHTS_ALL), 1 := (CAP_UNTYPED, orig, w', r))) m n V'"
  shows "passes P V (kbind (retype (enter_kernel (pl_frame P)) ty size_bits d) next) n V'"
  unfolding passes_def retype_def
proof (intro allI impI)
  fix t :: "kstate option test_state"
  assume "sees P (ts_user t) V"
  from method_answers [OF retype_answers [where V = V, OF assms(6-8) assms(1-5)] _ this]
  obtain u where u: "method_on (enter_kernel (pl_frame P)) 1 (Untyped_Retype ty size_bits 0 0 64 d 1) t = Inr (NO_ERROR, t\<lparr>ts_user := u\<rparr>)"
      "sees P u (V(d := (ty', True, 0, CAP_RIGHTS_ALL), 1 := (CAP_UNTYPED, orig, w', r)))" unfolding assms(9,10) by auto
  then have "sees P (ts_user (t\<lparr>ts_user := u\<rparr>)) (V(d := (ty', True, 0, CAP_RIGHTS_ALL), 1 := (CAP_UNTYPED, orig, w', r)))"
    by simp
  from assms(12) [unfolded assms(11) [symmetric] passes_def, rule_format, OF this] u(1)
  show "\<exists>u. kbind (method_on (enter_kernel (pl_frame P)) 1 (Untyped_Retype ty size_bits 0 0 64 d 1)) next t =
      Inr ((), t\<lparr>ts_user := u, total_tests := total_tests t + n\<rparr>) \<and> sees P u V'"
    by (auto simp: kern_simps)
qed

lemma passes_delete_only:
  assumes "\<not> fst (snd (V d))" "d < 128" "d \<noteq> 0" "d \<noteq> 1"
  shows "passes P V (kbind (delete_slot (enter_kernel (pl_frame P)) d) (\<lambda>_. kret ())) 0 (V(d := (CAP_NULL, False, 0, 0)))"
proof -
  obtain ty b r where "V d = (ty, False, b, r)" using assms(1) by (cases "V d") auto
  from method_answers [OF delete_answers [where V = V, OF assms(2-4) this]]
  show ?thesis unfolding passes_def delete_slot_def by (fastforce simp: kern_simps)
qed

lemmas test_eval = object_size_def checked_BIT_def BIT_def ALIGN_UP_def ALIGN_DOWN_def holds_for_checks

lemmas test_rules = passes_seq passes_retype passes_check passes_copy passes_mint passes_delete passes_delete_only
  passes_copy_refused passes_mint_refused passes_retype_then

text \<open>The parts of the test, from the slots that each of them needs.\<close>

abbreviation empty_slots :: "(word_t \<Rightarrow> cap_view) \<Rightarrow> word_t set \<Rightarrow> bool" where
  "empty_slots V A \<equiv> \<forall>i\<in>A. fst (V i) = CAP_NULL"

abbreviation (input) endpoint_view :: "bool \<Rightarrow> word_t \<Rightarrow> cap_view" where
  "endpoint_view orig badge \<equiv> (CAP_ENDPOINT, orig, badge, CAP_RIGHTS_ALL)"

lemma copies_pass:
  assumes "empty_slots V {10, 11, 12, 13}" "V 1 = (CAP_UNTYPED, orig, 0, r)" "object_fits P 0 16"
  shows "passes P V (test_copies (enter_kernel (pl_frame P))) 13 (V(10 := endpoint_view True 0, 1 := (CAP_UNTYPED, orig, 16, r),
    11 := endpoint_view False 0, 12 := endpoint_view False 0, 13 := endpoint_view False 0))"
  unfolding test_copies_def by (insert assms, (rule test_rules | (simp add: test_eval; fail))+)

lemma mints_pass:
  assumes "empty_slots V {30, 31, 32, 33}" "V 1 = (CAP_UNTYPED, orig, 16, r)" "object_fits P 16 16"
  shows "passes P V (test_mints (enter_kernel (pl_frame P))) 10 (V(30 := endpoint_view True 0, 1 := (CAP_UNTYPED, orig, 32, r),
    31 := endpoint_view True 0x1234, 33 := endpoint_view True 0xABCD))"
  unfolding test_mints_def by (insert assms, (rule test_rules | (simp add: test_eval; fail))+)

lemma notifications_pass:
  assumes "empty_slots V {20, 21, 22}" "V 1 = (CAP_UNTYPED, orig, 32, r)" "object_fits P 32 32"
  shows "passes P V (test_notifications (enter_kernel (pl_frame P))) 10 (V(20 := (CAP_NOTIFICATION, True, 0, CAP_RIGHTS_ALL),
    1 := (CAP_UNTYPED, orig, 64, r), 21 := (CAP_NOTIFICATION, False, 0xF00D, CAP_RIGHTS_ALL), 22 := (CAP_NOTIFICATION, False, 0xBEEF, CAP_RIGHTS_ALL)))"
  unfolding test_notifications_def by (insert assms, (rule test_rules | (simp add: test_eval; fail))+)

lemma deletes_pass:
  assumes "V 11 = endpoint_view False 0" "V 13 = endpoint_view False 0"
  shows "passes P V (test_deletes (enter_kernel (pl_frame P))) 5 (V(11 := (CAP_NULL, False, 0, 0), 13 := (CAP_NULL, False, 0, 0)))"
  unfolding test_deletes_def by (insert assms, (rule test_rules | (simp add: test_eval; fail))+)

lemma chain_passes:
  assumes "empty_slots V {40, 41, 42, 50}" "V 10 = endpoint_view True 0"
  shows "passes P V (test_chain (enter_kernel (pl_frame P))) 7 (V(40 := endpoint_view False 0, 41 := endpoint_view False 0,
    42 := endpoint_view False 0, 50 := endpoint_view False 0, 50 := (CAP_NULL, False, 0, 0)))"
  unfolding test_chain_def by (insert assms, (rule test_rules | (simp add: test_eval; fail))+)

lemma refusals_pass:
  assumes "empty_slots V {60, 61}" "V 1 = (CAP_UNTYPED, orig, 64, r)" "V 30 = endpoint_view True 0" "object_fits P 512 512"
  shows "passes P V (test_refusals (enter_kernel (pl_frame P))) 3 (V(60 := (CAP_CNODE, True, 0, CAP_RIGHTS_ALL), 1 := (CAP_UNTYPED, orig, 1024, r)))"
  unfolding test_refusals_def by (insert assms, (rule test_rules | (simp add: test_eval; fail))+)

lemma rights_pass:
  assumes "empty_slots V {70, 71, 72}" "V 1 = (CAP_UNTYPED, orig, 1024, r)" "object_fits P 1024 16"
  shows "passes P V (test_rights (enter_kernel (pl_frame P))) 6 (V(70 := endpoint_view True 0, 1 := (CAP_UNTYPED, orig, 1040, r),
    71 := (CAP_ENDPOINT, False, 0, 1), 72 := (CAP_ENDPOINT, False, 0, 1)))"
  unfolding test_rights_def by (insert assms, (rule test_rules | (simp add: test_eval; fail))+)

section \<open>The property\<close>

definition test_objects_fit :: "place \<Rightarrow> bool" where
  "test_objects_fit P \<longleftrightarrow> object_fits P 0 16 \<and> object_fits P 16 16 \<and> object_fits P 32 32 \<and> object_fits P 512 512 \<and> object_fits P 1024 16"

definition slots_of_test :: "word_t set" where
  "slots_of_test = {10, 11, 12, 13, 20, 21, 22, 30, 31, 32, 33, 40, 41, 42, 50, 60, 61, 70, 71, 72}"

lemma all_parts_pass:
  assumes "empty_slots V slots_of_test" "V 1 = (CAP_UNTYPED, orig, 0, r)" "test_objects_fit P" "I = enter_kernel (pl_frame P)"
  shows "\<exists>V'. passes P V (kseq (test_copies I) (kseq (test_mints I) (kseq (test_notifications I) (kseq (test_deletes I)
    (kseq (test_chain I) (kseq (test_refusals I) (test_rights I))))))) 54 V'"
  unfolding assms(4)
  by (insert assms(1-3), unfold slots_of_test_def test_objects_fit_def, rule exI,
    (rule passes_seq copies_pass mints_pass notifications_pass deletes_pass chain_passes refusals_pass rights_pass | (simp; fail))+)

text \<open>C4: The derivation list passes the repository's own test on the whole path of a system call. For every machine
on which the test's thread runs with a CNode of 128 slots as its root, its own capability in slot 0, unused
untyped memory in slot 1 and nothing in the slots it uses, however the slots are linked, the program ends: each
call goes through its stub, the kernel entry, dispatch and lookup and comes back to the thread, and all 54
tests pass.\<close>

theorem cdt_test_passes:
  assumes "us_env u = Some s" "running P s V" "lock_free (big_kernel_lock s)"
    and "\<forall>i\<in>slots_of_test. fst (V i) = CAP_NULL" "V 1 = (CAP_UNTYPED, orig, 0, r)" "test_objects_fit P"
  shows "\<exists>t. cdt_test_main (enter_kernel (pl_frame P)) \<lparr>ts_user = u, total_tests = 0, failed_tests = 0\<rparr> = Inr ((54, 54), t) \<and>
    us_env (ts_user t) \<noteq> None"
proof -
  let ?I = "enter_kernel (pl_frame P)" let ?t = "\<lparr>ts_user = u, total_tests = 0, failed_tests = 0\<rparr>"
  let ?parts = "kseq (test_copies ?I) (kseq (test_mints ?I) (kseq (test_notifications ?I) (kseq (test_deletes ?I)
    (kseq (test_chain ?I) (kseq (test_refusals ?I) (test_rights ?I))))))"
  obtain V' where "passes P V ?parts 54 V'" using all_parts_pass [OF assms(4-6) refl] by blast
  moreover have "sees P (ts_user ?t) V" using assms(1-3) by (simp add: sees_def)
  ultimately obtain u' where u': "?parts ?t = Inr ((), ?t\<lparr>ts_user := u', total_tests := total_tests ?t + 54\<rparr>)" "sees P u' V'"
    unfolding passes_def by blast
  have "cdt_test_main ?I ?t = kbind ?parts (\<lambda>_. kget (\<lambda>s. (total_tests s - failed_tests s, total_tests s))) ?t"
    by (simp add: cdt_test_main_def kseq_def kbind_assoc)
  then show ?thesis using u' by (auto simp: kern_simps sees_def split: option.splits)
qed

section \<open>A machine for the test\<close>

text \<open>
  What \<open>spawn_cdt_test\<close> gives the test: a CNode with 128 slots as its root, its own capability in slot 0
  and untyped memory of one megabyte in slot 1. The thread runs alone.
\<close>

abbreviation (input) test_cnode :: addr where "test_cnode \<equiv> 0xFFFF800000700000"
abbreviation (input) test_frame :: addr where "test_frame \<equiv> 0xFFFF800000400000"

definition ok_cap :: "fault + cap_t \<Rightarrow> cap_t" where
  "ok_cap r = (case r of Inl _ \<Rightarrow> zero_cap | Inr c \<Rightarrow> c)"

definition test_cnode_cap :: cap_t where
  "test_cnode_cap = cap_set_is_original False (ok_cap (new_cnode_cap test_cnode 7))"

definition test_untyped_cap :: cap_t where
  "test_untyped_cap = ok_cap (new_untyped_cap 0x800000 20)"

definition test_machine :: kstate where
  "test_machine = idle_machine\<lparr>
     ctes := (\<lambda>_. zero_cte)(TcbCspaceRoot thread_a := zero_cte\<lparr>cte_cap := test_cnode_cap\<rparr>,
       Slot test_cnode := zero_cte\<lparr>cte_cap := test_cnode_cap\<rparr>,
       Slot (test_cnode + 32) := zero_cte\<lparr>cte_cap := test_untyped_cap\<rparr>),
     lists := (\<lambda>_. zero_list_head)(RunQueue := \<lparr>l_next = Some RunQueue, l_prev = Some RunQueue\<rparr>),
     tcbs := (\<lambda>_. zero_tcb)(thread_a := zero_tcb\<lparr>t_state := TASK_STATE_RUNNING, t_ipc_buffer := Some buffer_a\<rparr>),
     current_tcb := Some thread_a, return_to_tcb := Some thread_a\<rparr>"

definition test_place :: place where
  "test_place = \<lparr>pl_thread = thread_a, pl_buffer = buffer_a, pl_cnode = test_cnode, pl_frame = test_frame,
     pl_region = 0x800000, pl_direct = 0xFFFF800000000000\<rparr>"

definition test_views :: "word_t \<Rightarrow> cap_view" where
  "test_views = (\<lambda>_. view_of zero_cap)(0 := view_of test_cnode_cap, 1 := view_of test_untyped_cap)"

lemma apart:
  fixes d sz i :: word_t
  assumes "i < 128" "d \<le> - 4096" "sz \<le> d"
  shows "\<not> d + 32 * i < sz"
proof -
  have "unat i < 128" using assms(1) by (simp add: word_less_nat_alt)
  then have i: "unat (32 * i) = 32 * unat i" by (simp add: unat_word_ariths)
  have "unat d \<le> 2 ^ 64 - 4096" using assms(2) by (simp add: word_le_nat_alt)
  then have "unat (d + 32 * i) = unat d + 32 * unat i" using i \<open>unat i < 128\<close> by (simp add: unat_word_ariths)
  then show ?thesis using assms(3) by (simp add: word_le_nat_alt word_less_nat_alt)
qed

lemma test_objects_apart: "test_objects_fit test_place"
proof -
  have "\<not> 32 * i - n < sz" if "i < 128" "- n \<le> - 4096" "sz \<le> - n" for i n sz :: word_t
    using apart [OF that] by simp
  then show ?thesis
    by (simp add: test_objects_fit_def object_fits_def Let_def test_place_def is_safe_cap_ptr_def in_range_def drop_bit_eq_div)
qed

lemma test_caps [simp]:
  "is_own_cnode test_place test_cnode_cap" "is_own_untyped test_place test_untyped_cap"
  "view_of test_untyped_cap = (CAP_UNTYPED, cap_is_original test_untyped_cap, 0, cap_rights test_untyped_cap)" "fst (view_of zero_cap) = CAP_NULL"
  by (code_simp, code_simp, simp add: view_of_def, code_simp+)

lemma test_machine_running: "running test_place test_machine test_views"
  unfolding running_def
proof (intro conjI allI impI)
  fix i :: word_t assume i: "i < 128"
  have "cte_at test_cnode i = cte_at test_cnode 0 \<longleftrightarrow> i = 0" "cte_at test_cnode i = cte_at test_cnode 1 \<longleftrightarrow> i = 1"
    using cte_at_inject [OF i, of 0 test_cnode] cte_at_inject [OF i, of 1 test_cnode] by simp_all
  then show "view_of (slot_cap (ctes test_machine) (cte_at (pl_cnode test_place) i)) = test_views i"
    by (auto simp: test_machine_def test_place_def test_views_def cte_at_def zero_cte_def)
qed (simp_all add: test_machine_def test_place_def idle_machine_def cte_at_def, simp_all add: test_place_def [symmetric])

theorem cdt_test_passes_witness:
  "\<exists>t. cdt_test_main (enter_kernel test_frame) \<lparr>ts_user = \<lparr>us_buffer = (\<lambda>_. 0), us_bitmap = [], us_mappable = 0,
       us_memory = (\<lambda>_. 0), us_env = Some test_machine\<rparr>, total_tests = 0, failed_tests = 0\<rparr> = Inr ((54, 54), t) \<and>
    us_env (ts_user t) \<noteq> None"
proof -
  have "lock_free (big_kernel_lock test_machine)" by (simp add: test_machine_def idle_machine_def lock_free_def)
  moreover have "\<forall>i\<in>slots_of_test. fst (test_views i) = CAP_NULL" by (simp add: slots_of_test_def test_views_def)
  moreover have "test_views 1 = (CAP_UNTYPED, cap_is_original test_untyped_cap, 0, cap_rights test_untyped_cap)" by (simp add: test_views_def)
  moreover note test_objects_apart
  ultimately show ?thesis
    using cdt_test_passes [of "\<lparr>us_buffer = (\<lambda>_. 0), us_bitmap = [], us_mappable = 0, us_memory = (\<lambda>_. 0), us_env = Some test_machine\<rparr>",
      OF _ test_machine_running] by (simp add: test_place_def)
qed

end
