(* ===== verification/Serial_Driver.thy ===== *)
theory Serial_Driver
  imports Userland
begin

text \<open>
  The serial driver as it runs (\<open>user/serial_driver.c\<close>): its port accesses go through the kernel, so that
  they are method calls over the system call instruction. Theory User_Programs has what it does with the bytes;
  here its interrupt handler is shown to do exactly that with the bytes of a serial port, and to return
  exactly when they fit into its buffer.
\<close>

section \<open>The program\<close>

abbreviation (input) SERIAL_PORT :: word_t where "SERIAL_PORT \<equiv> 0x3F8"
abbreviation (input) UART_DATA :: word_t where "UART_DATA \<equiv> 0"
abbreviation (input) UART_INT_ENABLE :: word_t where "UART_INT_ENABLE \<equiv> 1"
abbreviation (input) UART_BAUD_LOW :: word_t where "UART_BAUD_LOW \<equiv> 0"
abbreviation (input) UART_BAUD_HIGH :: word_t where "UART_BAUD_HIGH \<equiv> 1"
abbreviation (input) UART_FIFO_CONTROL :: word_t where "UART_FIFO_CONTROL \<equiv> 2"
abbreviation (input) UART_LINE_CONTROL :: word_t where "UART_LINE_CONTROL \<equiv> 3"
abbreviation (input) UART_MODEM_CONTROL :: word_t where "UART_MODEM_CONTROL \<equiv> 4"
abbreviation (input) UART_LINE_STATUS :: word_t where "UART_LINE_STATUS \<equiv> 5"

text \<open>The program's state with the first \<open>buffer_size\<close> bytes of its buffer.\<close>

record 'k driver_state =
  ds_user :: "'k user_state"
  ds_buffer :: "u8 list"

definition in_driver :: "('k user_state, 'a) kern \<Rightarrow> ('k driver_state, 'a) kern" where
  "in_driver m s = (case m (ds_user s) of Inl e \<Rightarrow> Inl e | Inr (x, u) \<Rightarrow> Inr (x, s\<lparr>ds_user := u\<rparr>))"

definition port_write :: "'k syscall_instr \<Rightarrow> word_t \<Rightarrow> u8 \<Rightarrow> ('k driver_state, unit) kern" where
  "port_write instr port v = in_driver (call_method instr SERIAL_SERIAL_PORT_CAP (X86_64_Io_Port_Out8 (SERIAL_PORT + port) (ucast v)))"

definition port_read :: "'k syscall_instr \<Rightarrow> word_t \<Rightarrow> ('k driver_state, u8) kern" where
  "port_read instr port =
     kseq (in_driver (call_method instr SERIAL_SERIAL_PORT_CAP (X86_64_Io_Port_In8 (SERIAL_PORT + port))))
          (kbind (in_driver (user_get_mr 0)) (\<lambda>w. kret (ucast w)))"

definition initialize_uart :: "'k syscall_instr \<Rightarrow> ('k driver_state, unit) kern" where
  "initialize_uart instr =
     kseq (port_write instr UART_BAUD_HIGH 0)
    (kseq (port_write instr UART_LINE_CONTROL 0x80)
    (kseq (port_write instr UART_BAUD_LOW 3)
    (kseq (port_write instr UART_BAUD_HIGH 0)
    (kseq (port_write instr UART_LINE_CONTROL 3)
    (kseq (port_write instr UART_FIFO_CONTROL 0xC7)
    (kseq (port_write instr UART_MODEM_CONTROL 0xB)
          (port_write instr UART_INT_ENABLE 9)))))))"

definition is_data_available :: "'k syscall_instr \<Rightarrow> ('k driver_state, bool) kern" where
  "is_data_available instr = kbind (port_read instr UART_LINE_STATUS) (\<lambda>v. kret (v AND 1 \<noteq> 0))"

text \<open>\<open>write_uart\<close>: the words go through an array of 128 bytes, since the port accesses use the IPC buffer.\<close>

definition driver_write_uart :: "'k syscall_instr \<Rightarrow> message_tag_t \<Rightarrow> ('k driver_state, unit) kern" where
  "driver_write_uart instr info =
     (let n = unat (message_length info) in
      if n > 128 then kfail Undefined
      else kbind (kget (\<lambda>s. map (\<lambda>i. ucast (us_buffer (ds_user s) i)) [0..<n])) (\<lambda>bytes.
           kfor 0 n (\<lambda>i. port_write instr UART_DATA (bytes ! i))))"

definition driver_read_uart :: "'k syscall_instr \<Rightarrow> ('k driver_state, unit) kern" where
  "driver_read_uart instr =
     kbind (kget ds_buffer) (\<lambda>buffer.
     if buffer = [] then kbind (in_driver (user_reply instr (new_message_tag WOULD_BLOCK 0 0 0))) (\<lambda>_. kret ())
     else let n = min (length buffer) MESSAGE_MAX_LENGTH in
       kseq (kfor 0 n (\<lambda>i. in_driver (put_mr i (scast (buffer ! i)))))
      (kseq (kmod (\<lambda>s. s\<lparr>ds_buffer := []\<rparr>))
            (kbind (in_driver (user_reply instr (new_message_tag 0 0 0 (of_nat n)))) (\<lambda>_. kret ()))))"

text \<open>The two loops of \<open>handle_irq\<close>, whose ends depend on the port; the fuel bounds their rounds.\<close>

primrec read_bytes :: "nat \<Rightarrow> 'k syscall_instr \<Rightarrow> ('k driver_state, unit) kern" where
  "read_bytes 0 instr = kfail Diverges"
| "read_bytes (Suc n) instr =
     kbind (is_data_available instr) (\<lambda>available.
     kbind (kget ds_buffer) (\<lambda>buffer.
     if available \<and> length buffer < SERIAL_BUFFER_SIZE
     then kbind (port_read instr UART_DATA) (\<lambda>b. kseq (kmod (\<lambda>s. s\<lparr>ds_buffer := ds_buffer s @ [b]\<rparr>)) (read_bytes n instr))
     else kret ()))"

primrec driver_handle_irq :: "nat \<Rightarrow> 'k syscall_instr \<Rightarrow> ('k driver_state, unit) kern" where
  "driver_handle_irq 0 instr = kfail Diverges"
| "driver_handle_irq (Suc n) instr =
     kbind (is_data_available instr) (\<lambda>available.
     if available
     then kseq (read_bytes n instr)
         (kseq (in_driver (user_signal instr SERIAL_READ_NOTIFICATION_CAP)) (driver_handle_irq n instr))
     else in_driver (call_method instr SERIAL_IRQ_CAP Irq_Handler_Ack))"

definition driver_message :: "nat \<Rightarrow> 'k syscall_instr \<Rightarrow> message_tag_t \<Rightarrow> word_t \<Rightarrow> ('k driver_state, unit) kern" where
  "driver_message fuel instr info badge =
     (if badge = 0xFFFF then driver_handle_irq fuel instr
      else if message_label info = SERIAL_DRIVER_WRITE then driver_write_uart instr info
      else if message_label info = SERIAL_DRIVER_READ then driver_read_uart instr
      else kret ())"

text \<open>The driver never ends: its start and the first \<open>n\<close> messages.\<close>

definition driver_thread_main :: "nat \<Rightarrow> nat \<Rightarrow> 'k syscall_instr \<Rightarrow> ('k driver_state, unit) kern" where
  "driver_thread_main n fuel instr =
     kseq (initialize_uart instr)
    (kseq (in_driver (call_method instr SERIAL_IRQ_CAP (Irq_Handler_Set_Notification SERIAL_IRQ_NOTIFICATION_CAP)))
    (kseq (in_driver (call_method instr SERIAL_TCB_CAP (Tcb_Bind_Notification SERIAL_IRQ_NOTIFICATION_CAP)))
          (kfor 0 n (\<lambda>_. kbind (in_driver (user_recv instr SERIAL_ENDPOINT_CAP)) (\<lambda>(info, badge).
             driver_message fuel instr info badge)))))"

section \<open>A serial port behind the kernel\<close>

text \<open>
  What the driver relies on: the method calls reach a 16550 port. \<open>rx\<close> gives the bytes that wait in the port
  and \<open>signals\<close> how often the reader has been signalled. The lowest bit of the line status says whether
  a byte waits, reading the data register takes the first one, and a signal and an acknowledgement
  leave the port alone. All bytes have arrived when the handler starts.
\<close>

definition method_result :: "'k syscall_instr \<Rightarrow> cptr_t \<Rightarrow> method_call \<Rightarrow> ipc_buffer \<Rightarrow> memory \<Rightarrow> 'k \<Rightarrow> word_t \<times> ipc_buffer \<times> memory \<times> 'k" where
  "method_result instr obj m b = (case stub_of m b of (b', info) \<Rightarrow> instr SYS_CALL obj (message_info_to_word info) b')"

definition serial_port :: "'k syscall_instr \<Rightarrow> ('k \<Rightarrow> u8 list) \<Rightarrow> ('k \<Rightarrow> nat) \<Rightarrow> bool" where
  "serial_port instr rx signals \<longleftrightarrow> (\<forall>b m k.
     (case method_result instr SERIAL_SERIAL_PORT_CAP (X86_64_Io_Port_In8 0x3FD) b m k of (r, b', m', k') \<Rightarrow>
        bit (b' 0) 0 = (rx k \<noteq> []) \<and> rx k' = rx k \<and> signals k' = signals k) \<and>
     (case method_result instr SERIAL_SERIAL_PORT_CAP (X86_64_Io_Port_In8 0x3F8) b m k of (r, b', m', k') \<Rightarrow>
        rx k \<noteq> [] \<longrightarrow> ucast (b' 0) = hd (rx k) \<and> rx k' = tl (rx k) \<and> signals k' = signals k) \<and>
     (case instr SYS_SEND SERIAL_READ_NOTIFICATION_CAP 0 b m k of (r, b', m', k') \<Rightarrow> rx k' = rx k \<and> signals k' = Suc (signals k)) \<and>
     (case method_result instr SERIAL_IRQ_CAP Irq_Handler_Ack b m k of (r, b', m', k') \<Rightarrow> rx k' = rx k \<and> signals k' = signals k))"

lemma port_laws:
  assumes "serial_port instr rx signals"
  shows "method_result instr SERIAL_SERIAL_PORT_CAP (X86_64_Io_Port_In8 0x3FD) b m k = (r, b', m', k') \<Longrightarrow>
      bit (b' 0) 0 = (rx k \<noteq> []) \<and> rx k' = rx k \<and> signals k' = signals k"
    and "method_result instr SERIAL_SERIAL_PORT_CAP (X86_64_Io_Port_In8 0x3F8) b m k = (r, b', m', k') \<Longrightarrow> rx k \<noteq> [] \<Longrightarrow>
      ucast (b' 0) = hd (rx k) \<and> rx k' = tl (rx k) \<and> signals k' = signals k"
    and "instr SYS_SEND SERIAL_READ_NOTIFICATION_CAP 0 b m k = (r, b', m', k') \<Longrightarrow> rx k' = rx k \<and> signals k' = Suc (signals k)"
    and "method_result instr SERIAL_IRQ_CAP Irq_Handler_Ack b m k = (r, b', m', k') \<Longrightarrow> rx k' = rx k \<and> signals k' = signals k"
proof -
  note laws = spec [OF spec [OF spec [OF assms [unfolded serial_port_def], of b], of m], of k]
  show "method_result instr SERIAL_SERIAL_PORT_CAP (X86_64_Io_Port_In8 0x3FD) b m k = (r, b', m', k') \<Longrightarrow>
      bit (b' 0) 0 = (rx k \<noteq> []) \<and> rx k' = rx k \<and> signals k' = signals k"
    and "method_result instr SERIAL_SERIAL_PORT_CAP (X86_64_Io_Port_In8 0x3F8) b m k = (r, b', m', k') \<Longrightarrow> rx k \<noteq> [] \<Longrightarrow>
      ucast (b' 0) = hd (rx k) \<and> rx k' = tl (rx k) \<and> signals k' = signals k"
    and "instr SYS_SEND SERIAL_READ_NOTIFICATION_CAP 0 b m k = (r, b', m', k') \<Longrightarrow> rx k' = rx k \<and> signals k' = Suc (signals k)"
    and "method_result instr SERIAL_IRQ_CAP Irq_Handler_Ack b m k = (r, b', m', k') \<Longrightarrow> rx k' = rx k \<and> signals k' = signals k"
    using laws by simp_all
qed

text \<open>The state of driver and port together.\<close>

definition driver_at :: "('k \<Rightarrow> u8 list) \<Rightarrow> ('k \<Rightarrow> nat) \<Rightarrow> 'k driver_state \<Rightarrow> u8 list \<times> u8 list \<times> nat" where
  "driver_at rx signals s = (rx (us_env (ds_user s)), ds_buffer s, signals (us_env (ds_user s)))"

lemma call_result:
  "in_driver (call_method instr obj m) s =
     (case method_result instr obj m (us_buffer (ds_user s)) (us_memory (ds_user s)) (us_env (ds_user s)) of (r, b, mm, k) \<Rightarrow>
        Inr ((), s\<lparr>ds_user := (ds_user s)\<lparr>us_buffer := b, us_memory := mm, us_env := k\<rparr>\<rparr>))"
  by (simp add: in_driver_def call_method_def invoke_method_def user_call_def syscall2_def sender_badge_def method_result_def
      kern_simps split: prod.split)

lemma driver_get_mr: "in_driver (user_get_mr i) s = Inr (us_buffer (ds_user s) i, s)"
  by (simp add: in_driver_def user_get_mr_def kern_simps)

lemma status_result:
  assumes "serial_port instr rx signals"
  shows "\<exists>t. is_data_available instr s = Inr (rx (us_env (ds_user s)) \<noteq> [], t) \<and> driver_at rx signals t = driver_at rx signals s"
proof -
  obtain r b m k where c: "method_result instr SERIAL_SERIAL_PORT_CAP (X86_64_Io_Port_In8 0x3FD)
      (us_buffer (ds_user s)) (us_memory (ds_user s)) (us_env (ds_user s)) = (r, b, m, k)"
    by (metis prod_cases4)
  note law = port_laws(1) [OF assms c]
  have "(ucast (b 0) :: u8) AND 1 \<noteq> 0 \<longleftrightarrow> bit (b 0) 0"
    by (simp add: and_one_eq odd_iff_mod_2_eq_one [symmetric] bit_0 [symmetric] bit_ucast_iff)
  then show ?thesis using c law
    by (simp add: is_data_available_def port_read_def call_result driver_get_mr kern_simps driver_at_def)
qed

lemma data_result:
  assumes "serial_port instr rx signals" "rx (us_env (ds_user s)) = x # xs"
  shows "\<exists>t. port_read instr UART_DATA s = Inr (x, t) \<and> driver_at rx signals t = (xs, ds_buffer s, signals (us_env (ds_user s)))"
proof -
  obtain r b m k where c: "method_result instr SERIAL_SERIAL_PORT_CAP (X86_64_Io_Port_In8 0x3F8)
      (us_buffer (ds_user s)) (us_memory (ds_user s)) (us_env (ds_user s)) = (r, b, m, k)"
    by (metis prod_cases4)
  have law: "ucast (b 0) = x" "rx k = xs" "signals k = signals (us_env (ds_user s))"
    using port_laws(2) [OF assms(1) c] assms(2) by simp_all
  then show ?thesis using c
    by (simp add: port_read_def call_result driver_get_mr kern_simps driver_at_def)
qed

lemma signal_result:
  assumes "serial_port instr rx signals"
  shows "\<exists>t. in_driver (user_signal instr SERIAL_READ_NOTIFICATION_CAP) s = Inr ((), t) \<and>
    driver_at rx signals t = (rx (us_env (ds_user s)), ds_buffer s, Suc (signals (us_env (ds_user s))))"
proof -
  obtain r b m k where c: "instr SYS_SEND SERIAL_READ_NOTIFICATION_CAP 0
      (us_buffer (ds_user s)) (us_memory (ds_user s)) (us_env (ds_user s)) = (r, b, m, k)"
    by (metis prod_cases4)
  note port_laws(3) [OF assms c]
  then show ?thesis using c by (simp add: in_driver_def user_signal_def syscall1_def syscall2_def kern_simps driver_at_def)
qed

lemma ack_result:
  assumes "serial_port instr rx signals"
  shows "\<exists>t. in_driver (call_method instr SERIAL_IRQ_CAP Irq_Handler_Ack) s = Inr ((), t) \<and> driver_at rx signals t = driver_at rx signals s"
proof -
  obtain r b m k where c: "method_result instr SERIAL_IRQ_CAP Irq_Handler_Ack
      (us_buffer (ds_user s)) (us_memory (ds_user s)) (us_env (ds_user s)) = (r, b, m, k)"
    by (metis prod_cases4)
  note port_laws(4) [OF assms c]
  then show ?thesis using c by (simp add: call_result driver_at_def)
qed

section \<open>The interrupt handler\<close>

text \<open>The inner loop is \<open>take_bytes\<close>.\<close>

lemma read_bytes_result:
  assumes "serial_port instr rx signals" "driver_at rx signals s = (bytes, buf, c)"
  shows "case read_bytes n instr s of Inl e \<Rightarrow> e = Diverges \<and> n \<le> length bytes
    | Inr (x, t) \<Rightarrow> driver_at rx signals t = (fst (take_bytes bytes buf), snd (take_bytes bytes buf), c)"
  using assms(2)
proof (induction n arbitrary: s bytes buf)
  case (Suc n)
  obtain t where t: "is_data_available instr s = Inr (bytes \<noteq> [], t)" "driver_at rx signals t = (bytes, buf, c)"
    using status_result [OF assms(1), of s] Suc.prems by (auto simp: driver_at_def)
  show ?case
  proof (cases "bytes \<noteq> [] \<and> length buf < SERIAL_BUFFER_SIZE")
    case False
    then have "read_bytes (Suc n) instr s = Inr ((), t)" using t by (auto simp: kern_simps driver_at_def)
    moreover have "take_bytes bytes buf = (bytes, buf)" using False by (cases bytes) auto
    ultimately show ?thesis using t(2) by simp
  next
    case True
    then obtain x xs where bytes: "bytes = x # xs" by (cases bytes) auto
    obtain u where u: "port_read instr UART_DATA t = Inr (x, u)" "driver_at rx signals u = (xs, buf, c)"
      using data_result [OF assms(1), of t x xs] t(2) bytes by (auto simp: driver_at_def)
    let ?u = "u\<lparr>ds_buffer := ds_buffer u @ [x]\<rparr>"
    have "driver_at rx signals ?u = (xs, buf @ [x], c)" using u(2) by (simp add: driver_at_def)
    from Suc.IH [OF this] show ?thesis
      using True t u bytes by (auto simp: kern_simps driver_at_def split: sum.splits)
  qed
qed (simp add: kfail_def)

lemma irq_returns:
  assumes "serial_port instr rx signals" "driver_at rx signals s = (bytes, buf, c)"
    and "length buf + length bytes \<le> SERIAL_BUFFER_SIZE" "length bytes + 2 \<le> n"
  shows "\<exists>t. driver_handle_irq n instr s = Inr ((), t) \<and> driver_at rx signals t = ([], buf @ bytes, if bytes = [] then c else Suc c)"
proof -
  obtain n' where n: "n = Suc (Suc n')" using assms(4) by (metis add_2_eq_Suc' le_Suc_ex add_Suc_right plus_nat.add_Suc)
  have quiet: "\<exists>t. driver_handle_irq (Suc m) instr s = Inr ((), t) \<and> driver_at rx signals t = driver_at rx signals s"
    if "rx (us_env (ds_user s)) = []" for m s
  proof -
    have "(rx (us_env (ds_user s)) \<noteq> []) = False" using that by simp
    then obtain t where t: "is_data_available instr s = Inr (False, t)" "driver_at rx signals t = driver_at rx signals s"
      using status_result [OF assms(1), of s] by (elim exE conjE) simp
    then show ?thesis using ack_result [OF assms(1), of t] by (auto simp: kern_simps)
  qed
  show ?thesis
  proof (cases "bytes = []")
    case True
    then show ?thesis using quiet [of s "Suc n'"] assms(2) by (auto simp: n driver_at_def)
  next
    case False
    obtain t where t: "is_data_available instr s = Inr (True, t)" "driver_at rx signals t = (bytes, buf, c)"
      using status_result [OF assms(1), of s] assms(2) False by (auto simp: driver_at_def)
    obtain u where u: "read_bytes (Suc n') instr t = Inr ((), u)" "driver_at rx signals u = ([], buf @ bytes, c)"
      using read_bytes_result [OF assms(1) t(2), of "Suc n'"] assms(4) n take_bytes_room [OF assms(3)]
      by (auto split: sum.splits)
    obtain v where v: "in_driver (user_signal instr SERIAL_READ_NOTIFICATION_CAP) u = Inr ((), v)"
        "driver_at rx signals v = ([], buf @ bytes, Suc c)"
      using signal_result [OF assms(1), of u] u(2) by (auto simp: driver_at_def)
    obtain w where "driver_handle_irq (Suc n') instr v = Inr ((), w)" "driver_at rx signals w = ([], buf @ bytes, Suc c)"
      using quiet [of v n'] v(2) by (auto simp: driver_at_def)
    then show ?thesis using t u v False by (auto simp: n kern_simps simp del: read_bytes.simps)
  qed
qed

lemma irq_hangs:
  assumes "serial_port instr rx signals" "driver_at rx signals s = (bytes, buf, c)"
    and "SERIAL_BUFFER_SIZE < length buf + length bytes" "length buf \<le> SERIAL_BUFFER_SIZE"
  shows "driver_handle_irq n instr s = Inl Diverges"
  using assms(2-4)
proof (induction n arbitrary: s bytes buf c)
  case (Suc n)
  have "bytes \<noteq> []" using Suc.prems by auto
  then obtain t where t: "is_data_available instr s = Inr (True, t)" "driver_at rx signals t = (bytes, buf, c)"
    using status_result [OF assms(1), of s] Suc.prems(1) by (auto simp: driver_at_def)
  show ?case
  proof (cases "read_bytes n instr t")
    case (Inl e)
    then have "e = Diverges" using read_bytes_result [OF assms(1) t(2), of n] by simp
    then show ?thesis using t Inl by (simp add: kern_simps)
  next
    case (Inr p)
    then obtain u where u: "read_bytes n instr t = Inr ((), u)" by (cases p) auto
    then have at: "driver_at rx signals u = (fst (take_bytes bytes buf), snd (take_bytes bytes buf), c)"
      using read_bytes_result [OF assms(1) t(2), of n] by simp
    obtain v where v: "in_driver (user_signal instr SERIAL_READ_NOTIFICATION_CAP) u = Inr ((), v)"
        "driver_at rx signals v = (fst (take_bytes bytes buf), snd (take_bytes bytes buf), Suc c)"
      using signal_result [OF assms(1), of u] at by (auto simp: driver_at_def)
    have "length (snd (take_bytes bytes buf)) + length (fst (take_bytes bytes buf)) = length buf + length bytes"
      "length (snd (take_bytes bytes buf)) \<le> SERIAL_BUFFER_SIZE"
      using Suc.prems(3) by (induction bytes buf rule: take_bytes.induct) auto
    then have "driver_handle_irq n instr v = Inl Diverges" using Suc.IH [OF v(2)] Suc.prems(2) by simp
    then show ?thesis using t u v(1) by (simp add: kern_simps)
  qed
qed (simp add: kfail_def)

text \<open>C23: The interrupt handler of the serial driver takes all bytes that wait at the port, in order, behind those
in its buffer, and signals the reader once if there were any, in at most two more rounds than there are bytes; but
only if they fit into the buffer of 256 bytes. If they do not it never returns, however long it runs.\<close>

theorem serial_interrupt_takes_all:
  assumes "serial_port instr rx signals" "length (ds_buffer s) \<le> SERIAL_BUFFER_SIZE"
    and "bytes = rx (us_env (ds_user s))"
  shows "if length (ds_buffer s) + length bytes \<le> SERIAL_BUFFER_SIZE
    then \<exists>t. driver_handle_irq (length bytes + 2) instr s = Inr ((), t) \<and> ds_buffer t = ds_buffer s @ bytes \<and>
      rx (us_env (ds_user t)) = [] \<and>
      signals (us_env (ds_user t)) = signals (us_env (ds_user s)) + (if bytes = [] then 0 else 1)
    else \<forall>n. driver_handle_irq n instr s = Inl Diverges"
proof -
  have at: "driver_at rx signals s = (bytes, ds_buffer s, signals (us_env (ds_user s)))" using assms(3) by (simp add: driver_at_def)
  show ?thesis
  proof (cases "length (ds_buffer s) + length bytes \<le> SERIAL_BUFFER_SIZE")
    case True
    from irq_returns [OF assms(1) at True, of "length bytes + 2"] True show ?thesis by (auto simp: driver_at_def)
  next
    case False
    then show ?thesis using irq_hangs [OF assms(1) at] assms(2) by simp
  qed
qed

text \<open>A port with two bytes.\<close>

definition serial_kernel :: "(u8 list \<times> nat) syscall_instr" where
  "serial_kernel num obj tag b m k =
     (case k of (rx, c) \<Rightarrow>
        if num = SYS_SEND then (0, b, m, (rx, Suc c))
        else if obj = SERIAL_SERIAL_PORT_CAP \<and> b 0 = 0x3FD then (0, b(0 := of_bool (rx \<noteq> [])), m, (rx, c))
        else if obj = SERIAL_SERIAL_PORT_CAP \<and> b 0 = 0x3F8 \<and> rx \<noteq> [] then (0, b(0 := ucast (hd rx)), m, (tl rx, c))
        else (0, b, m, (rx, c)))"

lemma serial_kernel_port: "serial_port serial_kernel fst snd"
  by (simp add: serial_port_def method_result_def serial_kernel_def stub_x86_64_io_port_in8_def stub_irq_handler_ack_def
      user_set_mr_def bit_0 split: prod.split)

theorem serial_interrupt_takes_all_witness:
  "\<exists>t. driver_handle_irq 4 serial_kernel \<lparr>ds_user = \<lparr>us_buffer = (\<lambda>_. 0), us_bitmap = [], us_mappable = 0,
       us_memory = (\<lambda>_. 0), us_env = ([0x68, 0x69], 0)\<rparr>, ds_buffer = []\<rparr> = Inr ((), t) \<and> ds_buffer t = [0x68, 0x69] \<and>
     us_env (ds_user t) = ([], 1)"
  using serial_interrupt_takes_all [OF serial_kernel_port, of "\<lparr>ds_user = \<lparr>us_buffer = (\<lambda>_. 0), us_bitmap = [], us_mappable = 0,
       us_memory = (\<lambda>_. 0), us_env = ([0x68, 0x69], 0)\<rparr>, ds_buffer = []\<rparr>" "[0x68, 0x69]"]
  by (simp add: prod_eq_iff eval_nat_numeral del: driver_handle_irq.simps)

end
