(* ===== verification/Cap_Types.thy ===== *)
theory Cap_Types
  imports Scheduling
begin

text \<open>
  The types of capabilities over the whole life of the kernel: every entry is a system call or an interrupt, and
  between two entries programs write their memory, their IPC buffers and the frames that the next entry
  pushes. The rules of the locale \<open>kernel_frame\<close>, used in Scheduling for the locks, here carry the
  types of all slots through every operation of the kernel.
\<close>

section \<open>Entries and what happens between them\<close>

inductive kernel_step :: "kstate \<Rightarrow> kstate \<Rightarrow> bool" where
  syscall: "c_syscall_entry a0 a1 n f s = Inr (x, s') \<Longrightarrow> kernel_step s s'"
| interrupt: "c_interrupt_entry f s = Inr (x, s') \<Longrightarrow> kernel_step s s'"
| program: "kernel_step s (s\<lparr>ipc_buffers := b, frame_mem := frames, user_mem := m, port_in := p\<rparr>)"

section \<open>A property through an entry\<close>

locale entry_frame = exit_frame +
  assumes keep_big_lock: "I s \<Longrightarrow> I (s\<lparr>big_kernel_lock := k\<rparr>)"
begin

lemma save_frame_keeps: "I s \<Longrightarrow> save_frame_on_tcb f s = Inr (x, s') \<Longrightarrow> I s'"
  by (auto simp: save_frame_on_tcb_def kern_simps keep_upd split: option.splits if_splits)

lemma exit_keeps: "I s \<Longrightarrow> return_from_kernel_code s = Inr (x, s') \<Longrightarrow> I s'"
  using inv_onD [OF exit_path_inv] by blast

lemma syscall_body_keeps:
  assumes "I s" "do_syscall a0 a1 n s = Inr (x, s')"
  shows "I s'"
proof -
  let ?body = "kbind (op_syscall a0 a1 n) (\<lambda>tag.
     if \<not> msg_is_noreturn tag then kbind this_tcb (\<lambda>t. set_ipc_result t tag) else kret ())"
  have body: "inv_on I no_deadlock ?body" by (intro inv_rules op_syscall_inv ipc_ops)
  have "do_syscall a0 a1 n s = kseq lock_big_kernel (kseq ?body unlock_big_kernel) s"
    by (simp add: do_syscall_def kseq_def kbind_assoc)
  then obtain s1 s2 y where "lock_big_kernel s = Inr ((), s1)" and s2: "?body s1 = Inr (y, s2)"
    and "unlock_big_kernel s2 = Inr (x, s')"
    using assms(2) by (auto simp: kseq_def kbind_def split: sum.splits)
  then have "I s1" and s': "s' = s2\<lparr>big_kernel_lock := release (big_kernel_lock s2)\<rparr>"
    using keep_big_lock [OF assms(1)]
    by (auto simp: lock_big_kernel_def unlock_big_kernel_def kern_simps split: sum.splits)
  then show ?thesis using inv_onD [OF body _ s2] keep_big_lock by simp
qed

lemma syscall_entry_keeps:
  assumes "I s" "c_syscall_entry a0 a1 n f s = Inr (x, s')"
  shows "I s'"
proof -
  obtain s1 s2 where "save_frame_on_tcb f s = Inr ((), s1)" "do_syscall a0 a1 n s1 = Inr ((), s2)"
    "return_from_kernel_code s2 = Inr (x, s')"
    using assms(2) by (auto simp: c_syscall_entry_def kseq_def kbind_def split: sum.splits)
  then show ?thesis using assms(1) save_frame_keeps syscall_body_keeps exit_keeps by metis
qed

lemma interrupt_entry_keeps:
  assumes "I s" "c_interrupt_entry f s = Inr (x, s')"
  shows "I s'"
proof -
  have "inv_on I no_deadlock (print_interrupt_info f)"
    unfolding print_interrupt_info_def by (intro inv_rules)
  note info = inv_onD [OF this]
  obtain s1 r s2 where s1: "save_frame_on_tcb f s = Inr ((), s1)" and s2: "print_interrupt_info f s1 = Inr (r, s2)"
    and s': "(if r then return_from_kernel_code else halt_forever) s2 = Inr (x, s')"
    using assms(2) by (auto simp: c_interrupt_entry_def kseq_def kbind_def split: sum.splits)
  have "I s2" by (rule info [OF save_frame_keeps [OF assms(1) s1] s2])
  then show ?thesis
    using s' exit_keeps keep_current_tcb by (cases r) (auto simp: halt_forever_def kern_simps)
qed

end

section \<open>The types in all slots\<close>

text \<open>
  \<open>held_types s\<close>: the types of the capabilities of a state. Three types cannot come into being by a system
  call: the control capabilities for interrupts and I/O ports, from which all handlers and port ranges are
  issued, and reply capabilities, which the kernel does not use.
\<close>

definition held_types :: "kstate \<Rightarrow> word_t set" where
  "held_types s = range (\<lambda>c. cap_type (slot_cap (ctes s) c))"

definition privileged :: "word_t \<Rightarrow> bool" where
  "privileged t \<longleftrightarrow> t = CAP_REPLY \<or> t = CAP_X86_64_IO_PORT_CONTROL \<or> t = CAP_IRQ_CONTROL"

definition allowed :: "word_t set \<Rightarrow> word_t \<Rightarrow> bool" where
  "allowed P t \<longleftrightarrow> t < MAX_CAP_TYPE \<and> (privileged t \<longrightarrow> t \<in> P)"

definition typed_state :: "word_t set \<Rightarrow> kstate \<Rightarrow> bool" where
  "typed_state P s \<longleftrightarrow> lock_free (runnable_tcbs_lock s) \<and> typed_slots (allowed P) (ctes s)"

interpretation typed_frame: entry_frame "typed_state P" "allowed P" for P
  by unfold_locales (auto simp: typed_state_def allowed_def privileged_def acquire_Inr)

lemma kernel_step_typed: "kernel_step s s' \<Longrightarrow> typed_state P s \<Longrightarrow> typed_state P s'"
proof (induction rule: kernel_step.induct)
  case (program s b frames m p)
  then show ?case by (simp add: typed_state_def)
qed (blast intro: typed_frame.syscall_entry_keeps typed_frame.interrupt_entry_keeps)+



end
