(* ===== verification/Hexdump.thy ===== *)
theory Hexdump
  imports Print_Properties
begin

text \<open>
  Memory dumps (\<open>lib/hexdump.c\<close>) over the model of \<open>printf\<close>. A dump is the output of some twenty calls of
  \<open>printf\<close> a line; what they show is compared with a dump written as a function from bytes to text.
\<close>

section \<open>The program\<close>

text \<open>
  Output is the list of bytes handed to the stream so far. The formats are the strings of the code
  with their terminators.
\<close>

definition emit :: "u8 list \<Rightarrow> va_value list \<Rightarrow> (u8 list, unit) kern" where
  "emit fmt args out = (case printf fmt args out of Inl e \<Rightarrow> Inl e | Inr (n, st) \<Rightarrow> Inr ((), snd (p_writing st)))"

definition ADDRESS_FORMAT :: "u8 list" where "ADDRESS_FORMAT = [0x25, 0x30, 0x38, 0x6C, 0x58, 0x3A, 0x20, 0]"
definition BYTE_FORMAT :: "u8 list" where "BYTE_FORMAT = [0x25, 0x30, 0x32, 0x68, 0x68, 0x58, 0x20, 0]"
definition CHAR_FORMAT :: "u8 list" where "CHAR_FORMAT = [0x25, 0x63, 0]"

definition dump_byte_char :: "u8 \<Rightarrow> u8" where
  "dump_byte_char c = (if isprint (sint c) then c else 0x2E)"

definition print_byte_char_line :: "(addr \<Rightarrow> u8) \<Rightarrow> addr \<Rightarrow> word_t \<Rightarrow> (u8 list, unit) kern" where
  "print_byte_char_line mem c remaining_len =
     kfor 0 (unat remaining_len) (\<lambda>i. emit CHAR_FORMAT [VInt (scast (dump_byte_char (mem (c + of_nat i))))])"

definition hexdump_line :: "(addr \<Rightarrow> u8) \<Rightarrow> addr \<Rightarrow> word_t \<Rightarrow> word_t \<Rightarrow> (u8 list, unit) kern" where
  "hexdump_line mem data remaining_len base_address =
     (let n = unat remaining_len; gap = (\<lambda>i. if i = 7 then emit [0x20, 0] [] else kret ()) in
     kseq (emit ADDRESS_FORMAT [VLong base_address])
    (kseq (kfor 0 n (\<lambda>i. kseq (emit BYTE_FORMAT [VInt (ucast (mem (data + of_nat i)))]) (gap i)))
    (kseq (kfor n (16 - n) (\<lambda>i. kseq (emit [0x20, 0x20, 0x20, 0] []) (gap i)))
    (kseq (emit [0x20, 0x20, 0] [])
    (kseq (print_byte_char_line mem data remaining_len)
          (emit [0x0A, 0] []))))))"

text \<open>The loop over the lines: \<open>i\<close> wraps around for a length within 15 of the greatest, so it has fuel.\<close>

primrec hexdump_from :: "nat \<Rightarrow> (addr \<Rightarrow> u8) \<Rightarrow> addr \<Rightarrow> word_t \<Rightarrow> word_t \<Rightarrow> word_t \<Rightarrow> (u8 list, unit) kern" where
  "hexdump_from 0 mem data len base_address i = kfail Diverges"
| "hexdump_from (Suc fuel) mem data len base_address i =
     (if i < len
      then kseq (hexdump_line mem (data + i) (min (len - i) 16) (base_address + i))
                (hexdump_from fuel mem data len base_address (i + 16))
      else kret ())"

definition hexdump_addr :: "nat \<Rightarrow> (addr \<Rightarrow> u8) \<Rightarrow> addr \<Rightarrow> word_t \<Rightarrow> word_t \<Rightarrow> (u8 list, unit) kern" where
  "hexdump_addr fuel mem data len base_address = hexdump_from fuel mem data len base_address 0"

definition hexdump :: "nat \<Rightarrow> (addr \<Rightarrow> u8) \<Rightarrow> addr \<Rightarrow> word_t \<Rightarrow> (u8 list, unit) kern" where
  "hexdump fuel mem data len = hexdump_addr fuel mem data len 0"

section \<open>The reference\<close>

definition hex_digit :: "nat \<Rightarrow> u8" where
  "hex_digit d = of_nat (if d < 10 then 0x30 + d else 0x37 + d)"

fun hex_digits :: "nat \<Rightarrow> u8 list" where
  "hex_digits v = (if v < 16 then [hex_digit v] else hex_digits (v div 16) @ [hex_digit (v mod 16)])"

definition padded_hex :: "nat \<Rightarrow> nat \<Rightarrow> u8 list" where
  "padded_hex width v = replicate (width - length (hex_digits v)) 0x30 @ hex_digits v"

definition dump_column :: "u8 list \<Rightarrow> nat \<Rightarrow> u8 list" where
  "dump_column bytes i = (if i < length bytes then padded_hex 2 (unat (bytes ! i)) @ [0x20] else [0x20, 0x20, 0x20]) @
     (if i = 7 then [0x20] else [])"

definition dump_line :: "word_t \<Rightarrow> u8 list \<Rightarrow> u8 list" where
  "dump_line base bytes = padded_hex 8 (unat base) @ [0x3A, 0x20] @ concat (map (dump_column bytes) [0..<16]) @
     [0x20, 0x20] @ map (\<lambda>b. if 0x20 \<le> b \<and> b \<le> 0x7E then b else 0x2E) bytes @ [0x0A]"

fun dump_text :: "word_t \<Rightarrow> u8 list \<Rightarrow> u8 list" where
  "dump_text base [] = []"
| "dump_text base (b # bs) = dump_line base (take 16 (b # bs)) @ dump_text (base + 16) (drop 16 (b # bs))"

declare hex_digits.simps [simp del]

section \<open>What a call shows\<close>

text \<open>Every call ends its output with a terminator, which no terminal shows.\<close>

definition shown :: "u8 list \<Rightarrow> u8 list" where
  "shown out = filter (\<lambda>b. b \<noteq> 0) out"

definition shows_text :: "(u8 list, unit) kern \<Rightarrow> u8 list \<Rightarrow> bool" where
  "shows_text m bs \<longleftrightarrow> (\<forall>out. \<exists>t. m out = Inr ((), t) \<and> shown t = shown out @ bs)"

lemma shows_kret: "shows_text (kret ()) []"
  by (simp add: shows_text_def kern_simps)

lemma shows_kseq: "shows_text m bs \<Longrightarrow> shows_text n cs \<Longrightarrow> shows_text (kseq m n) (bs @ cs)"
  unfolding shows_text_def
proof
  fix out
  assume m: "\<forall>out. \<exists>t. m out = Inr ((), t) \<and> shown t = shown out @ bs" and n: "\<forall>out. \<exists>t. n out = Inr ((), t) \<and> shown t = shown out @ cs"
  obtain t where t: "m out = Inr ((), t)" "shown t = shown out @ bs" using m by blast
  obtain u where "n t = Inr ((), u)" "shown u = shown t @ cs" using n by blast
  with t show "\<exists>t. kseq m n out = Inr ((), t) \<and> shown t = shown out @ bs @ cs" by (simp add: kern_simps)
qed

lemma shows_kfor:
  "(\<And>i. k \<le> i \<Longrightarrow> i < k + n \<Longrightarrow> shows_text (body i) (f i)) \<Longrightarrow> shows_text (kfor k n body) (concat (map f [k..<k + n]))"
proof (induction n arbitrary: k)
  case (Suc n)
  have "shows_text (kfor (Suc k) n body) (concat (map f [Suc k..<Suc k + n]))" by (rule Suc.IH) (rule Suc.prems; simp)
  then have "shows_text (kseq (body k) (kfor (Suc k) n body)) (f k @ concat (map f [Suc k..<Suc k + n]))"
    using Suc.prems [of k] by (intro shows_kseq) simp_all
  moreover have "[k..<k + Suc n] = k # [Suc k..<Suc k + n]" by (simp add: upt_conv_Cons del: upt_Suc)
  ultimately show ?case by (simp del: upt_Suc)
qed (simp add: shows_kret)

lemma add_result_number:
  assumes "printed n bs out (p_writing st)"
  shows "\<exists>st'. add_result (format_number spec number) n st = Inr st' \<and>
    printed n (bs @ number_text spec number) out (p_writing st') \<and> p_args st' = p_args st"
proof -
  obtain f where f: "\<And>n out. format_number spec number n out = Inr (f n out)"
    and "\<And>n out. printed n (number_text spec number) out (f n out)"
    using format_number_text [of spec number] by metis
  then have "emits f (number_text spec number)" by (simp add: emits_def)
  from printed_add [OF assms this] show ?thesis
    by (cases "p_writing st") (auto simp: add_result_def add_written_def f split: prod.splits)
qed

lemma put_printed:
  "printed n bs out (p_writing st) \<Longrightarrow> unat sz \<le> length data \<Longrightarrow>
     printed n (bs @ take (unat sz) data) out (p_writing (put n data sz st))"
  by (simp add: put_def printed_WRITE)

lemma printf_shows:
  assumes "\<And>st n. printed n [] out (p_writing st) \<Longrightarrow> p_args st = args \<Longrightarrow>
      \<exists>st'. format_loop n fmt st = Inr st' \<and> printed n bs out (p_writing st')"
    and "0 \<notin> set bs" "length bs < 1000"
  shows "\<exists>t. emit fmt args out = Inr ((), t) \<and> shown t = shown out @ bs"
proof -
  obtain st' where "format_loop (INT_MAX - 1) fmt \<lparr>p_writing = (0, out), p_args = args, p_stores = [], p_messages = []\<rparr> = Inr st'"
    and p: "printed (INT_MAX - 1) bs out (p_writing st')"
    using assms(1) [of "INT_MAX - 1" "\<lparr>p_writing = (0, out), p_args = args, p_stores = [], p_messages = []\<rparr>"] by fastforce
  moreover have "p_writing st' = (of_nat (length bs), out @ bs)"
    using p assms(3) by (subst (asm) printed_partial) simp_all
  moreover have "filter (\<lambda>b. b \<noteq> 0) bs = bs" using assms(2) by (metis (mono_tags, lifting) filter_True)
  ultimately show ?thesis by (simp add: emit_def printf_def vfprintf_def vfnprintf_def shown_def)
qed

text \<open>The two number formats.\<close>

abbreviation number_spec :: "u16 \<Rightarrow> u8 \<Rightarrow> format_spec" where
  "number_spec width int_width \<equiv> initial_spec\<lparr>fs_base := BASE_16_CAPS, fs_padding_char := 0x30, fs_padding_width := width,
     fs_int_width := int_width\<rparr>"

lemma p_args_put [simp]: "p_args (put n data sz st) = p_args st"
  by (simp add: put_def)

lemma address_loop:
  "p_args st = [VLong v] \<Longrightarrow> format_loop n ADDRESS_FORMAT st =
     ebind (add_result (format_number (number_spec 8 1) \<lparr>num_value = v, num_negative = False\<rparr>) n (put n ADDRESS_FORMAT 0 st\<lparr>p_args := []\<rparr>))
       (\<lambda>st. Inr (put n [0x3A, 0x20, 0] 2 st))"
  by (cases "add_result (format_number (number_spec 8 1) \<lparr>num_value = v, num_negative = False\<rparr>) n (put n ADDRESS_FORMAT 0 st\<lparr>p_args := []\<rparr>)")
    (simp_all add: ADDRESS_FORMAT_def format_loop.simps modifier_def conversion_def zero_digit_def nonzero_digit_def initial_spec_def
      print_number_def get_number_def va_long_def strlen_def)

lemma byte_loop:
  "p_args st = [VInt (ucast (b :: u8))] \<Longrightarrow> format_loop n BYTE_FORMAT st =
     ebind (add_result (format_number (number_spec 2 (- 2)) \<lparr>num_value = ucast b, num_negative = False\<rparr>) n (put n BYTE_FORMAT 0 st\<lparr>p_args := []\<rparr>))
       (\<lambda>st. Inr (put n [0x20, 0] 1 st))"
proof -
  have "uint b < 256" using uint_lt2p [of b] by simp
  then have "sint (ucast b :: u32) = uint b" by (simp add: sint_uint signed_take_bit_eq_if_positive unsigned_ucast_eq take_bit_int_eq_self bit_iff_odd)
  then have "signed_number (sint (ucast b :: u32)) = Inr \<lparr>num_value = ucast b, num_negative = False\<rparr>"
    by (simp add: signed_number_def)
  then show "p_args st = [VInt (ucast (b :: u8))] \<Longrightarrow> ?thesis"
    by (cases "add_result (format_number (number_spec 2 (- 2)) \<lparr>num_value = ucast b, num_negative = False\<rparr>) n (put n BYTE_FORMAT 0 st\<lparr>p_args := []\<rparr>)")
      (simp_all add: BYTE_FORMAT_def format_loop.simps modifier_def conversion_def zero_digit_def nonzero_digit_def initial_spec_def
        print_number_def get_number_def va_int_def strlen_def)
qed

lemma hex_digits_digits_of: "hex_digits v = (if v = 0 then [0x30] else digits_of upper_hex_charset 16 v)"
proof (induction v rule: hex_digits.induct)
  case (1 v)
  have d: "hex_digit d = upper_hex_charset ! d" if "d < 16" for d
  proof -
    have "d \<in> set [0..<16]" using that by simp
    moreover have "\<forall>d \<in> set [0..<16]. hex_digit d = upper_hex_charset ! d" by (simp add: hex_digit_def upper_hex_charset_def upt_rec)
    ultimately show ?thesis by blast
  qed
  show ?case
  proof (cases "v < 16")
    case True
    then show ?thesis using d [of v] by (auto simp: hex_digits.simps [of v] digits_of.simps [of _ _ v] hex_digit_def)
  next
    case False
    then show ?thesis using 1 d [of "v mod 16"] by (simp add: hex_digits.simps [of v] digits_of_step div_eq_0_iff)
  qed
qed

lemma small_length:
  assumes "k \<le> 64"
  shows "sint (ucast (of_nat k :: word_t) :: u32) = int k"
proof -
  have "uint (ucast (of_nat k :: word_t) :: u32) = int k"
    using assms by (simp add: unsigned_ucast_eq uint_nat [symmetric] unsigned_of_nat take_bit_nat_eq_self take_bit_int_eq_self)
  then show ?thesis using assms by (simp add: sint_uint signed_take_bit_eq_if_positive take_bit_int_eq_self bit_iff_odd)
qed

lemma number_hex_text:
  assumes "width < 256"
  shows "number_text (number_spec (of_nat width) w) \<lparr>num_value = v, num_negative = False\<rparr> = padded_hex width (unat v)"
proof -
  let ?spec = "number_spec (of_nat width) w" let ?number = "\<lparr>num_value = v, num_negative = False\<rparr>"
  have l: "layout_text ?spec ?number = hex_digits (unat v)"
    by (simp add: layout_text_def hex_digits_digits_of base_charset_def base_divisor_def unat_eq_0)
  have "length (hex_digits (unat v)) \<le> 64" using layout_text_length [of ?spec ?number] by (simp add: l)
  then have "sint (ucast (of_nat (length (hex_digits (unat v))) :: word_t) :: u32) = int (length (hex_digits (unat v)))"
    by (simp add: small_length)
  moreover have "sint (of_nat width :: u16) = int width"
  proof -
    have "uint (of_nat width :: u16) = int width" using assms by (simp add: unsigned_of_nat take_bit_nat_eq_self)
    then show ?thesis using assms by (simp add: sint_uint signed_take_bit_eq_if_positive take_bit_int_eq_self bit_iff_odd)
  qed
  ultimately show ?thesis
    by (auto simp: number_text_def l [unfolded initial_spec_def, simplified] Let_def pad_text_def number_pad_len_def null_pointer_def sign_text_def prefix_text_def padded_hex_def initial_spec_def)

qed
section \<open>What the calls of a line show\<close>

lemma hex_digits_shape: "0 \<notin> set (hex_digits v)" "v < 16 ^ Suc k \<Longrightarrow> length (hex_digits v) \<le> Suc k"
proof -
  show "0 \<notin> set (hex_digits v)"
    using set_digits_of [of 16 upper_hex_charset v] by (auto simp: hex_digits_digits_of upper_hex_charset_def)
  show "v < 16 ^ Suc k \<Longrightarrow> length (hex_digits v) \<le> Suc k"
    using length_digits_of [of 16 v "Suc k"] by (simp add: hex_digits_digits_of)
qed

lemma shows_emit:
  assumes "\<And>st n out. printed n [] out (p_writing st) \<Longrightarrow> p_args st = args \<Longrightarrow>
      \<exists>st'. format_loop n fmt st = Inr st' \<and> printed n bs out (p_writing st')"
    and "0 \<notin> set bs" "length bs < 1000"
  shows "shows_text (emit fmt args) bs"
  unfolding shows_text_def using printf_shows [OF assms] by blast

lemma shows_literal:
  assumes "0x25 \<notin> set bs" "0 \<notin> set bs" "bs \<noteq> []" "length bs < 1000"
  shows "shows_text (emit (bs @ [0]) []) bs"
proof (rule shows_emit [OF _ assms(2,4)])
  fix st :: printf_state and n out assume p: "printed n [] out (p_writing st)"
  have "sint x \<noteq> 0x25" if "x \<in> set bs" for x
  proof
    assume "sint x = 0x25"
    then have "(of_int (sint x) :: u8) = 0x25" by simp
    then show False using assms(1) that by simp
  qed
  then have c: "strchr (bs @ [0]) 0x25 = Inr None"
    using strchr_string [OF assms(2), of "0x25" "[]"] by (simp add: c_string_def)
  have l: "strlen (bs @ [0]) = Inr (of_nat (length bs))"
    using strlen_string [OF assms(2), of "[]"] by (simp add: c_string_def)
  obtain x xs where "bs = x # xs" using assms(3) by (cases bs) auto
  then have "format_loop n (bs @ [0]) st = Inr (put n (bs @ [0]) (of_nat (length bs)) st)"
    using c l assms(2) by (subst format_loop.simps) (auto simp del: strchr.simps)
  moreover have "unat (of_nat (length bs) :: word_t) = length bs"
    using assms(4) by (simp add: unsigned_of_nat take_bit_nat_eq_self)
  ultimately show "\<exists>st'. format_loop n (bs @ [0]) st = Inr st' \<and> printed n bs out (p_writing st')"
    using put_printed [OF p, of "of_nat (length bs)" "bs @ [0]"] by simp
qed

lemma shows_number:
  assumes "\<And>(st :: printf_state) n. p_args st = args \<Longrightarrow> format_loop n fmt st =
      ebind (add_result (format_number spec number) n (put n fmt 0 st\<lparr>p_args := []\<rparr>)) (\<lambda>st. Inr (put n (tail @ [0]) (of_nat (length tail)) st))"
    and "number_text spec number = bs" "0 \<notin> set bs" "0 \<notin> set tail" "length bs < 500" "length tail < 500"
  shows "shows_text (emit fmt args) (bs @ tail)"
proof (rule shows_emit)
  fix st :: printf_state and n out assume p: "printed n [] out (p_writing st)" and a: "p_args st = args"
  have "printed n [] out (p_writing (put n fmt 0 st\<lparr>p_args := []\<rparr>))" using put_printed [OF p, of 0 fmt] by simp
  from add_result_number [OF this, of spec number] obtain st' where
    "add_result (format_number spec number) n (put n fmt 0 st\<lparr>p_args := []\<rparr>) = Inr st'" and p': "printed n bs out (p_writing st')"
    using assms(2) by auto
  moreover have "unat (of_nat (length tail) :: word_t) = length tail"
    using assms(6) by (simp add: unsigned_of_nat take_bit_nat_eq_self)
  ultimately show "\<exists>st'. format_loop n fmt st = Inr st' \<and> printed n (bs @ tail) out (p_writing st')"
    using put_printed [OF p', of "of_nat (length tail)" "tail @ [0]"] by (simp add: assms(1) [OF a])
qed (use assms in auto)

lemma shows_address: "shows_text (emit ADDRESS_FORMAT [VLong v]) (padded_hex 8 (unat v) @ [0x3A, 0x20])"
proof (rule shows_number [OF _ number_hex_text [of 8]])
  have "unat v < 2 ^ 64" using unsigned_less [of v, where ?'a = nat] by simp
  then show "length (padded_hex 8 (unat v)) < 500" using hex_digits_shape(2) [of "unat v" 15] by (simp add: padded_hex_def)
qed (use address_loop [of _ v] hex_digits_shape(1) in \<open>auto simp: padded_hex_def\<close>)

lemma unat_ucast_u8: "unat (ucast (b :: u8) :: word_t) = unat b"
proof -
  have "unat b < 2 ^ 8" using unsigned_less [of b, where ?'a = nat] by simp
  then show ?thesis by (simp add: unsigned_ucast_eq take_bit_nat_eq_self)
qed

lemma shows_byte: "shows_text (emit BYTE_FORMAT [VInt (ucast (b :: u8))]) (padded_hex 2 (unat b) @ [0x20])"
proof -
  have v: "unat (ucast b :: word_t) = unat b" by (rule unat_ucast_u8)
  have "unat b < 2 ^ 8" using unsigned_less [of b, where ?'a = nat] by simp
  then have "length (padded_hex 2 (unat b)) < 500" using hex_digits_shape(2) [of "unat b" 1] by (simp add: padded_hex_def)
  then have "shows_text (emit BYTE_FORMAT [VInt (ucast b)]) (padded_hex 2 (unat (ucast b :: word_t)) @ [0x20])"
    by (intro shows_number [OF _ number_hex_text [of 2]]) (use byte_loop [of _ b] hex_digits_shape(1) in \<open>auto simp: padded_hex_def v\<close>)
  then show ?thesis by (simp only: v)
qed
lemma shows_char: "b \<noteq> 0 \<Longrightarrow> shows_text (emit CHAR_FORMAT [VInt (scast b)]) [b]"
proof (rule shows_emit)
  fix st :: printf_state and n out assume p: "printed n [] out (p_writing st)" and a: "p_args st = [VInt (scast b)]"
  have "format_loop n CHAR_FORMAT st = Inr (put n [ucast (scast b :: u32)] 1 (put n CHAR_FORMAT 0 st\<lparr>p_args := []\<rparr>))"
    using a by (simp add: CHAR_FORMAT_def format_loop.simps modifier_def conversion_def va_int_def)
  moreover have "ucast (scast b :: u32) = b" by (rule bit_word_eqI) (auto simp: bit_simps)
  moreover have "printed n [] out (p_writing (put n CHAR_FORMAT 0 st\<lparr>p_args := []\<rparr>))" using put_printed [OF p, of 0 CHAR_FORMAT] by simp
  ultimately show "\<exists>st'. format_loop n CHAR_FORMAT st = Inr st' \<and> printed n [b] out (p_writing st')"
    using put_printed [of n "[]" out "put n CHAR_FORMAT 0 st\<lparr>p_args := []\<rparr>" 1 "[b]"] by simp
qed auto

lemma printable: "dump_byte_char b = (if 0x20 \<le> b \<and> b \<le> 0x7E then b else 0x2E)"
proof -
  have "isprint (sint b) \<longleftrightarrow> 0x20 \<le> uint b \<and> uint b \<le> 0x7E"
  proof (cases "uint b < 128")
    case True
    then show ?thesis by (simp add: isprint_def sint_uint signed_take_bit_eq_if_positive take_bit_int_eq_self bit_iff_odd)
  next
    case False
    have "uint b < 256" using uint_lt2p [of b] by simp
    then have "bit (uint b) 7" using False by (simp add: bit_iff_odd) presburger
    then have "bit b 7" by (simp add: bit_uint_iff)
    then have "sint b < 0" using bit_last_iff [of b] by simp
    then show ?thesis using False by (simp add: isprint_def)
  qed
  then show ?thesis by (simp add: dump_byte_char_def word_le_def)
qed

lemma shows_char_line:
  "shows_text (print_byte_char_line mem c len) (map (\<lambda>i. dump_byte_char (mem (c + of_nat i))) [0..<unat len])"
proof -
  have "dump_byte_char b \<noteq> 0" for b by (auto simp: dump_byte_char_def isprint_def)
  then have "shows_text (print_byte_char_line mem c len) (concat (map (\<lambda>i. [dump_byte_char (mem (c + of_nat i))]) [0..<0 + unat len]))"
    unfolding print_byte_char_line_def by (intro shows_kfor shows_char)
  then show ?thesis by (simp add: concat_map_singleton)
qed

definition bytes_at :: "(addr \<Rightarrow> u8) \<Rightarrow> addr \<Rightarrow> nat \<Rightarrow> u8 list" where
  "bytes_at mem a n = map (\<lambda>i. mem (a + of_nat i)) [0..<n]"

lemma shows_line:
  assumes "len \<le> 16"
  shows "shows_text (hexdump_line mem data len base) (dump_line base (bytes_at mem data (unat len)))"
proof -
  let ?n = "unat len" let ?bytes = "bytes_at mem data ?n"
  have n: "?n \<le> 16" using assms by (simp add: word_le_nat_alt)
  have gap: "shows_text (if i = 7 then emit [0x20, 0] [] else kret ()) (if i = 7 then [0x20] else [])" for i :: nat
    using shows_literal [of "[0x20]"] shows_kret by simp
  have bytes: "shows_text (kfor 0 ?n (\<lambda>i. kseq (emit BYTE_FORMAT [VInt (ucast (mem (data + of_nat i)))]) (if i = 7 then emit [0x20, 0] [] else kret ())))
      (concat (map (dump_column ?bytes) [0..<0 + ?n]))"
  proof (rule shows_kfor)
    fix i assume "i < 0 + ?n"
    then have "dump_column ?bytes i = (padded_hex 2 (unat (mem (data + of_nat i))) @ [0x20]) @ (if i = 7 then [0x20] else [])"
      by (simp add: dump_column_def bytes_at_def)
    then show "shows_text (kseq (emit BYTE_FORMAT [VInt (ucast (mem (data + of_nat i)))]) (if i = 7 then emit [0x20, 0] [] else kret ()))
        (dump_column ?bytes i)" using shows_kseq [OF shows_byte gap] by metis
  qed
  have blanks: "shows_text (kfor ?n (16 - ?n) (\<lambda>i. kseq (emit [0x20, 0x20, 0x20, 0] []) (if i = 7 then emit [0x20, 0] [] else kret ())))
      (concat (map (dump_column ?bytes) [?n..<?n + (16 - ?n)]))"
  proof (rule shows_kfor)
    fix i assume "?n \<le> i"
    then have "dump_column ?bytes i = [0x20, 0x20, 0x20] @ (if i = 7 then [0x20] else [])" by (simp add: dump_column_def bytes_at_def)
    then show "shows_text (kseq (emit [0x20, 0x20, 0x20, 0] []) (if i = 7 then emit [0x20, 0] [] else kret ())) (dump_column ?bytes i)"
      using shows_kseq [OF shows_literal [of "[0x20, 0x20, 0x20]"] gap] by simp
  qed
  have "[0..<16] = [0..<0 + ?n] @ [?n..<?n + (16 - ?n)]" using n upt_add_eq_append [of 0 ?n "16 - ?n"] by simp
  then have cols: "concat (map (dump_column ?bytes) [0..<16]) =
      concat (map (dump_column ?bytes) [0..<0 + ?n]) @ concat (map (dump_column ?bytes) [?n..<?n + (16 - ?n)])"
    by (simp only: map_append concat_append)
  have chars: "map (\<lambda>b. if 0x20 \<le> b \<and> b \<le> 0x7E then b else 0x2E) ?bytes = map (\<lambda>i. dump_byte_char (mem (data + of_nat i))) [0..<?n]"
    by (simp add: bytes_at_def printable)
  show ?thesis
    unfolding hexdump_line_def Let_def dump_line_def cols chars
    using shows_kseq [OF shows_address shows_kseq [OF bytes shows_kseq [OF blanks shows_kseq [OF shows_literal [of "[0x20, 0x20]"]
      shows_kseq [OF shows_char_line shows_literal [of "[0x0A]"]]]]]]
    by simp
qed

section \<open>The dump\<close>

lemma dump_text_line: "bytes \<noteq> [] \<Longrightarrow> dump_text base bytes = dump_line base (take 16 bytes) @ dump_text (base + 16) (drop 16 bytes)"
  by (cases bytes) simp_all

lemma bytes_at_split:
  "take k (bytes_at mem a n) = bytes_at mem a (min n k)" "drop k (bytes_at mem a n) = bytes_at mem (a + of_nat k) (n - k)"
  "bytes_at mem a n = [] \<longleftrightarrow> n = 0"
  by (rule nth_equalityI; simp add: bytes_at_def add.assoc)+ (auto simp: bytes_at_def)

lemma hexdump_from_text:
  assumes "unat len \<le> unat i + 16 * k" "unat len + 16 \<le> 2 ^ 64" "k < fuel"
  shows "shows_text (hexdump_from fuel mem data len base i)
    (dump_text (base + i) (bytes_at mem (data + i) (unat len - unat i)))"
  using assms
proof (induction fuel arbitrary: i k)
  case (Suc fuel)
  show ?case
  proof (cases "i < len")
    case False
    then show ?thesis using shows_kret by (simp add: word_less_nat_alt bytes_at_def)
  next
    case True
    then have lt: "unat i < unat len" by (simp add: word_less_nat_alt)
    have next_i: "unat (i + 16) = unat i + 16"
      using lt Suc.prems(2) by (subst unat_plus_if') simp
    have left: "unat (min (len - i) 16) = min (unat len - unat i) 16"
      using lt by (simp add: min_def word_le_nat_alt unat_sub [OF less_imp_le [OF True]])
    obtain k' where k: "k = Suc k'" using lt Suc.prems(1) by (cases k) auto
    have rest: "shows_text (hexdump_from fuel mem data len base (i + 16))
        (dump_text (base + (i + 16)) (bytes_at mem (data + (i + 16)) (unat len - unat (i + 16))))"
      by (rule Suc.IH [of _ k']) (use Suc.prems k next_i in simp_all)
    have "min (len - i) 16 \<le> 16" by simp
    from shows_kseq [OF shows_line [OF this, of mem "data + i" "base + i"] rest] True show ?thesis
      using lt by (simp add: next_i left dump_text_line bytes_at_split add.assoc)
  qed
qed simp

text \<open>C33: A memory dump shows what the reference says: for every length up to 16 less than the greatest, every
  memory and base address, the calls of printf in the nested loops of hexdump_addr end, without a fault, and show the
  text of the dump: for each line of 16 bytes the address with eight digits, the bytes with two, a
  gap after the eighth, blanks for missing bytes and the printable characters.\<close>

theorem hexdump_shows_reference:
  assumes "unat len + 16 \<le> 2 ^ 64" "(unat len + 15) div 16 < fuel"
  shows "\<exists>t. hexdump_addr fuel mem data len base out = Inr ((), t) \<and>
    shown t = shown out @ dump_text base (map (\<lambda>i. mem (data + of_nat i)) [0..<unat len])"
proof -
  have "unat len \<le> unat (0 :: word_t) + 16 * ((unat len + 15) div 16)" by simp
  from hexdump_from_text [OF this assms] show ?thesis
    by (simp add: hexdump_addr_def shows_text_def bytes_at_def)
qed

text \<open>Three bytes at address \<open>0x10\<close>: the whole line.\<close>

theorem hexdump_shows_reference_witness:
  "\<exists>t. hexdump_addr 2 (\<lambda>a. ucast a) 0x1E 3 0x10 [] = Inr ((), t) \<and>
    shown t = [0x30, 0x30, 0x30, 0x30, 0x30, 0x30, 0x31, 0x30, 0x3A, 0x20, 0x31, 0x45, 0x20, 0x31, 0x46, 0x20, 0x32, 0x30, 0x20] @
      replicate 42 0x20 @ [0x2E, 0x2E, 0x20, 0x0A]"
proof -
  have "hex_digits 16 = [0x31, 0x30]" "hex_digits 30 = [0x31, 0x45]" "hex_digits 31 = [0x31, 0x46]" "hex_digits 32 = [0x32, 0x30]"
    by (simp_all add: hex_digits.simps hex_digit_def)
  then have p: "padded_hex 8 16 = [0x30, 0x30, 0x30, 0x30, 0x30, 0x30, 0x31, 0x30]" "padded_hex 2 30 = [0x31, 0x45]"
    "padded_hex 2 31 = [0x31, 0x46]" "padded_hex 2 32 = [0x32, 0x30]"
    by (simp_all add: padded_hex_def numeral_eq_Suc)
  have "replicate 42 (0x20 :: u8) = concat (map (dump_column [0x1E, 0x1F, 0x20]) [3..<16]) @ [0x20, 0x20]"
    by (simp add: dump_column_def upt_rec numeral_eq_Suc)
  then have "dump_text 0x10 [0x1E, 0x1F, 0x20] =
      [0x30, 0x30, 0x30, 0x30, 0x30, 0x30, 0x31, 0x30, 0x3A, 0x20, 0x31, 0x45, 0x20, 0x31, 0x46, 0x20, 0x32, 0x30, 0x20] @
      replicate 42 0x20 @ [0x2E, 0x2E, 0x20, 0x0A]"
    using p by (simp add: dump_line_def dump_column_def upt_rec)
  moreover have "map (\<lambda>i. ucast (0x1E + of_nat i :: addr)) [0..<unat (3 :: word_t)] = [0x1E, 0x1F, 0x20 :: u8]"
    by (simp add: upt_rec)
  ultimately show ?thesis
    using hexdump_shows_reference [of 3 2 "\<lambda>a. ucast a" "0x1E" "0x10" "[]"] by (simp add: shown_def)
qed

end
