(* ===== verification/Pci_Enumeration.thy ===== *)
theory Pci_Enumeration
  imports Pci_Properties Userland
begin

text \<open>
  The first program and the PCI manager together: the list of devices that \<open>enumerate_and_print_pci_devices\<close> of
  \<open>user/userland.c\<close> collects over the manager's endpoint, with the manager running over the configuration
  ports of a bus.
\<close>

section \<open>What the client makes of an answer\<close>

text \<open>The words of the answer, taken apart into the sixteen registers.\<close>

definition device_config :: "word_t list \<Rightarrow> u32 list" where
  "device_config mrs = concat (map (\<lambda>qword. [ucast (qword AND 0xFFFFFFFF), ucast (drop_bit 32 qword)]) mrs)"

record pci_bar =
  bar_idx :: nat
  bar_is_io :: bool
  bar_addr :: u32

record pci_device_info =
  pci_vendor_id :: u16
  pci_device_id :: u16
  pci_status :: u16
  pci_revision_id :: u8
  pci_prog_if :: u8
  pci_subclass :: u8
  pci_class_code :: u8
  pci_irq :: u8
  pci_bars :: "pci_bar list"

definition decode_bar :: "u32 list \<Rightarrow> nat \<Rightarrow> pci_bar option" where
  "decode_bar config idx =
     (let bar = config ! (4 + idx) in
      if bar = 0 then None
      else let is_io = bar AND 1 \<noteq> 0 in
        Some \<lparr>bar_idx = idx, bar_is_io = is_io, bar_addr = bar AND (if is_io then 0xFFFFFFFC else 0xFFFFFFF0)\<rparr>)"

definition decode_device :: "u32 list \<Rightarrow> pci_device_info" where
  "decode_device config = \<lparr>
     pci_vendor_id = ucast (config ! 0 AND 0xFFFF), pci_device_id = ucast (drop_bit 16 (config ! 0)),
     pci_status = ucast (drop_bit 16 (config ! 1)), pci_revision_id = ucast (config ! 2 AND 0xFF),
     pci_prog_if = ucast (drop_bit 8 (config ! 2) AND 0xFF), pci_subclass = ucast (drop_bit 16 (config ! 2) AND 0xFF),
     pci_class_code = ucast (drop_bit 24 (config ! 2) AND 0xFF), pci_irq = ucast (config ! 15 AND 0xFF),
     pci_bars = List.map_filter (decode_bar config) [0..<6]\<rparr>"

section \<open>A bus behind the configuration ports\<close>

text \<open>
  The manager's port accesses reach a bus whose registers hold \<open>cfg\<close>: writing the address port selects a register, and
  reading the data port gives its content.
\<close>

definition port_result :: "'k syscall_instr \<Rightarrow> method_call \<Rightarrow> ipc_buffer \<Rightarrow> memory \<Rightarrow> 'k \<Rightarrow> word_t \<times> ipc_buffer \<times> memory \<times> 'k" where
  "port_result instr m b = (case stub_of m b of (b', info) \<Rightarrow> instr SYS_CALL PCI_PORT_CAP (message_info_to_word info) b')"

definition config_ports :: "'k syscall_instr \<Rightarrow> (u32 \<Rightarrow> u32) \<Rightarrow> ('k \<Rightarrow> u32) \<Rightarrow> bool" where
  "config_ports instr cfg selected \<longleftrightarrow> (\<forall>b m k v.
     (case port_result instr (X86_64_Io_Port_Out32 PCI_CONFIG_ADDRESS v) b m k of (r, b', m', k') \<Rightarrow> selected k' = ucast v) \<and>
     (case port_result instr (X86_64_Io_Port_In32 PCI_CONFIG_DATA) b m k of (r, b', m', k') \<Rightarrow> ucast (b' 0) = cfg (selected k)))"

text \<open>
  The functions that the manager finds: on each bus with a device 0 that has a function 0, those whose
  identification is not all ones.
\<close>

definition function_at :: "nat \<Rightarrow> nat \<Rightarrow> u32" where
  "function_at bus j = pci_addr (of_nat bus) (of_nat (j div 8)) (of_nat (j mod 8)) 0"

abbreviation bus_functions :: "nat \<Rightarrow> u32 list" where
  "bus_functions bus \<equiv> map (function_at bus) [0..<256]"

fun found :: "(u32 \<Rightarrow> u32) \<Rightarrow> u32 list \<Rightarrow> u32 list" where
  "found cfg [] = []"
| "found cfg (a # as) = (if cfg a = 0xFFFFFFFF then found cfg as else a # found cfg as)"

definition on_buses :: "(u32 \<Rightarrow> u32) \<Rightarrow> nat list \<Rightarrow> u32 list" where
  "on_buses cfg buses = concat (map (\<lambda>bus. if cfg (function_at bus 0) = 0xFFFFFFFF then [] else found cfg (bus_functions bus)) buses)"

definition present_functions :: "(u32 \<Rightarrow> u32) \<Rightarrow> u32 list" where
  "present_functions cfg = on_buses cfg [0..<256]"

section \<open>The manager\<close>

lemma on_port_result:
  "on_port instr m s = (case port_result instr m (us_buffer s) (us_memory s) (us_env s) of (r, b, mm, k) \<Rightarrow>
     Inr ((), s\<lparr>us_buffer := b, us_memory := mm, us_env := k\<rparr>))"
  by (simp add: on_port_def call_method_def invoke_method_def user_call_def syscall2_def sender_badge_def port_result_def
      kern_simps split: prod.split)

lemma read_register:
  assumes "config_ports instr cfg selected"
  shows "\<exists>t. pci_read_l instr a s = Inr (cfg a, t)"
proof -
  obtain r b m k where c: "port_result instr (X86_64_Io_Port_Out32 PCI_CONFIG_ADDRESS (ucast a)) (us_buffer s) (us_memory s) (us_env s) = (r, b, m, k)"
    by (metis prod_cases4)
  obtain r' b' m' k' where d: "port_result instr (X86_64_Io_Port_In32 PCI_CONFIG_DATA) b m k = (r', b', m', k')"
    by (metis prod_cases4)
  have "case port_result instr (X86_64_Io_Port_Out32 PCI_CONFIG_ADDRESS (ucast a)) (us_buffer s) (us_memory s) (us_env s) of
      (r, b', m', k') \<Rightarrow> selected k' = ucast (ucast a :: word_t)"
    and "case port_result instr (X86_64_Io_Port_In32 PCI_CONFIG_DATA) b m k of (r, b', m', k') \<Rightarrow> ucast (b' 0) = cfg (selected k)"
    using assms [unfolded config_ports_def, rule_format] by (rule conjunct1, rule conjunct2)
  then have "ucast (b' 0) = cfg a" using c d by simp
  then show ?thesis using c d by (simp add: pci_read_l_def on_port_result user_get_mr_def kern_simps)
qed

definition device_word :: "(u32 \<Rightarrow> u32) \<Rightarrow> u32 \<Rightarrow> word_t" where
  "device_word cfg a = push_bit 32 (ucast a) OR ucast (cfg a)"

lemma scan_bus_result:
  assumes "config_ports instr cfg selected"
    and "length mrs + length (found cfg (map (function_at bus) [j..<j + n])) \<le> 64"
  shows "\<exists>t. scan_bus instr bus j n mrs s = Inr ((False, mrs @ map (device_word cfg) (found cfg (map (function_at bus) [j..<j + n]))), t)"
  using assms(2)
proof (induction n arbitrary: j mrs s)
  case (Suc n)
  have up: "[j..<j + Suc n] = j # [Suc j..<Suc j + n]" by (simp add: upt_conv_Cons del: upt_Suc)
  let ?a = "function_at bus j"
  obtain t where t: "pci_read_l instr ?a s = Inr (cfg ?a, t)" using read_register [OF assms(1)] by blast
  let ?mrs = "if cfg ?a \<noteq> 0xFFFFFFFF then mrs @ [device_word cfg ?a] else mrs"
  have len: "length ?mrs \<le> 64" "cfg ?a \<noteq> 0xFFFFFFFF \<Longrightarrow> length mrs < 64"
    using Suc.prems unfolding up by auto
  have "\<exists>t'. scan_bus instr bus (Suc j) n ?mrs t = Inr ((False, ?mrs @ map (device_word cfg) (found cfg (map (function_at bus) [Suc j..<Suc j + n]))), t')"
    by (rule Suc.IH) (use Suc.prems [unfolded up] in \<open>auto simp del: upt_Suc\<close>)
  then show ?case unfolding up using len t
    by (auto simp: kern_simps device_word_def function_at_def [symmetric] Let_def simp del: upt_Suc)
qed (simp add: kern_simps)

lemma scan_buses_result:
  assumes "config_ports instr cfg selected" and "length mrs + length (on_buses cfg [bus..<bus + n]) \<le> 64"
  shows "\<exists>t. scan_buses instr bus n mrs s = Inr (mrs @ map (device_word cfg) (on_buses cfg [bus..<bus + n]), t)"
  using assms(2)
proof (induction n arbitrary: bus mrs s)
  case (Suc n)
  have up: "[bus..<bus + Suc n] = bus # [Suc bus..<Suc bus + n]" by (simp add: upt_conv_Cons del: upt_Suc)
  have first: "pci_addr (of_nat bus) 0 0 0 = function_at bus 0" by (simp add: function_at_def)
  obtain t where t: "pci_read_l instr (function_at bus 0) s = Inr (cfg (function_at bus 0), t)"
    using read_register [OF assms(1)] by blast
  show ?case
  proof (cases "cfg (function_at bus 0) = 0xFFFFFFFF")
    case True
    then have skip: "on_buses cfg [bus..<bus + Suc n] = on_buses cfg [Suc bus..<Suc bus + n]"
      unfolding up by (simp add: on_buses_def)
    have "scan_buses instr bus (Suc n) mrs s = scan_buses instr (Suc bus) n mrs t"
      using t True by (simp add: first kern_simps)
    then show ?thesis using Suc.IH [of mrs "Suc bus" t] Suc.prems unfolding skip by simp
  next
    case False
    let ?new = "found cfg (bus_functions bus)"
    have split: "on_buses cfg [bus..<bus + Suc n] = ?new @ on_buses cfg [Suc bus..<Suc bus + n]"
      using False unfolding up by (simp add: on_buses_def)
    obtain t' where "scan_bus instr bus 0 256 mrs t = Inr ((False, mrs @ map (device_word cfg) ?new), t')"
      using scan_bus_result [OF assms(1), of mrs bus 0 256 t] Suc.prems unfolding split by auto
    then have "scan_buses instr bus (Suc n) mrs s = scan_buses instr (Suc bus) n (mrs @ map (device_word cfg) ?new) t'"
      using t False by (simp add: first kern_simps del: scan_bus.simps)
    then show ?thesis
      using Suc.IH [of "mrs @ map (device_word cfg) ?new" "Suc bus" t'] Suc.prems unfolding split by simp
  qed
qed (simp add: kern_simps on_buses_def)

lemma put_mrs_result:
  "\<exists>t. put_mrs ws s = Inr ((), t) \<and> us_buffer t = (\<lambda>i. if i < length ws then ws ! i else us_buffer s i)"
proof -
  have "\<exists>t. kfor k n (\<lambda>i. put_mr i (ws ! i)) s = Inr ((), t) \<and> us_buffer t = (\<lambda>i. if k \<le> i \<and> i < k + n then ws ! i else us_buffer s i)" for k n
  proof (induction n arbitrary: k s)
    case (Suc n)
    then show ?case by (fastforce simp: kern_simps put_mr_def user_set_mr_def)
  qed (auto simp: kern_simps fun_eq_iff)
  from this [of 0 "length ws"] show ?thesis by (simp add: put_mrs_def)
qed

lemma enumerate_result:
  assumes "config_ports instr cfg selected" and "length (present_functions cfg) \<le> 64"
  shows "\<exists>t. handle_enumerate instr 0 s = Inr (new_message_tag NO_ERROR 0 0 (of_nat (length (present_functions cfg))), t) \<and>
    (\<forall>i < length (present_functions cfg). us_buffer t i = device_word cfg (present_functions cfg ! i))"
proof -
  obtain t where "scan_buses instr 0 256 [] s = Inr (map (device_word cfg) (present_functions cfg), t)"
    using scan_buses_result [OF assms(1), of "[]" 0 256 s] assms(2) by (auto simp: present_functions_def)
  then show ?thesis
    using put_mrs_result [of "map (device_word cfg) (present_functions cfg)" t]
    by (auto simp: handle_enumerate_def answer_def kern_simps simp del: scan_buses.simps)
qed

definition config_word :: "(u32 \<Rightarrow> u32) \<Rightarrow> u32 \<Rightarrow> nat \<Rightarrow> word_t" where
  "config_word cfg a i = push_bit 32 (ucast (cfg (a + of_nat i * 8 + 4))) OR ucast (cfg (a + of_nat i * 8))"

lemma config_space_result:
  assumes "config_ports instr cfg selected"
  shows "\<exists>t. read_config_space instr a i n s = Inr (map (config_word cfg a) [i..<i + n], t)"
proof (induction n arbitrary: i s)
  case (Suc n)
  have up: "[i..<i + Suc n] = i # [Suc i..<Suc i + n]" by (simp add: upt_conv_Cons del: upt_Suc)
  obtain t u v where "pci_read_l instr (a + of_nat i * 8) s = Inr (cfg (a + of_nat i * 8), t)"
    "pci_read_l instr (a + of_nat i * 8 + 4) t = Inr (cfg (a + of_nat i * 8 + 4), u)"
    "read_config_space instr a (Suc i) n u = Inr (map (config_word cfg a) [Suc i..<Suc i + n], v)"
    using read_register [OF assms] Suc.IH by metis
  then show ?case unfolding up by (simp add: kern_simps config_word_def del: upt_Suc)
qed (simp add: kern_simps)

lemma device_info_result:
  assumes "config_ports instr cfg selected" and "us_buffer s 0 = ucast (a :: u32)"
  shows "\<exists>t. handle_device_info instr 0 s = Inr (new_message_tag NO_ERROR 0 0 8, t) \<and> (\<forall>i < 8. us_buffer t i = config_word cfg a i)"
proof -
  obtain t where "read_config_space instr a 0 8 s = Inr (map (config_word cfg a) [0..<8], t)"
    using config_space_result [OF assms(1), of a 0 8 s] by auto
  then show ?thesis
    using put_mrs_result [of "map (config_word cfg a) [0..<8]" t] assms(2)
    by (auto simp: handle_device_info_def answer_def user_get_mr_def kern_simps simp del: read_config_space.simps upt_Suc)
qed

section \<open>Client and manager\<close>

text \<open>
  A call on the manager's endpoint by the owner of the bus, whose badge is 0, with the manager waiting
  for it: as for the calculator in Userland_Properties. A fault of the manager answers nothing.
\<close>

definition manager_kernel :: "'k syscall_instr \<Rightarrow> cptr_t \<Rightarrow> 'k user_state syscall_instr" where
  "manager_kernel instr ep num a1 a2 b m ms =
     (if num = SYS_CALL \<and> a1 = ep then
        let info = message_info_from_word a2;
            request = (\<lambda>i. if i < unat (message_length info) then b i else us_buffer ms i)
        in case handle_request instr info 0 (ms\<lparr>us_buffer := request\<rparr>) of
             Inl e \<Rightarrow> (0, b, m, ms)
           | Inr (resp, ms') \<Rightarrow>
               (message_info_to_word resp, (\<lambda>i. if i < unat (message_length resp) then us_buffer ms' i else b i), m, ms')
      else (0, b, m, ms))"

lemma buffer_after_call: "us_buffer (s\<lparr>us_buffer := b, us_env := k\<rparr>) i = b i"
  by simp

lemma manager_call:
  assumes "handle_request instr info 0 ((us_env s)\<lparr>us_buffer :=
      (\<lambda>i. if i < unat (message_length info) then us_buffer s i else us_buffer (us_env s) i)\<rparr>) = Inr (resp, ms)"
  shows "\<exists>badge t. user_call (manager_kernel instr ep) ep info s = Inr ((resp, badge), t) \<and>
    (\<forall>i < unat (message_length resp). us_buffer t i = us_buffer ms i)"
  using assms by (auto simp: buffer_after_call user_call_def syscall2_def sender_badge_def kern_simps manager_kernel_def Let_def
      message_info_from_word_def message_info_to_word_def)

lemma ask_device_result:
  assumes "config_ports instr cfg selected"
  shows "\<exists>t. ask_devices (manager_kernel instr ep) ep as s = Inr (map (\<lambda>a. map (config_word cfg a) [0..<8]) as, t)"
proof (induction as arbitrary: s)
  case (Cons a as)
  let ?info = "new_message_tag PCI_MANAGER_DEVICE_INFO 0 0 1"
  let ?s = "s\<lparr>us_buffer := user_set_mr 0 (ucast a) (us_buffer s)\<rparr>"
  let ?ms = "(us_env ?s)\<lparr>us_buffer := (\<lambda>i. if i < unat (message_length ?info) then us_buffer ?s i else us_buffer (us_env ?s) i)\<rparr>"
  obtain ms where "handle_device_info instr 0 ?ms = Inr (new_message_tag NO_ERROR 0 0 8, ms)" and
    words: "\<forall>i < 8. us_buffer ms i = config_word cfg a i"
    using device_info_result [OF assms, of ?ms a] by (auto simp: user_set_mr_def)
  then have "handle_request instr ?info 0 ?ms = Inr (new_message_tag NO_ERROR 0 0 8, ms)"
    by (simp add: handle_request_def)
  from manager_call [OF this, of ep] obtain badge t where
    call: "user_call (manager_kernel instr ep) ep ?info ?s = Inr ((new_message_tag NO_ERROR 0 0 8, badge), t)"
    and buf: "\<forall>i < 8. us_buffer t i = us_buffer ms i" by auto
  have "map (us_buffer t) [0..<8] = map (config_word cfg a) [0..<8]" using words buf by simp
  moreover obtain u where "ask_devices (manager_kernel instr ep) ep as t = Inr (map (\<lambda>a. map (config_word cfg a) [0..<8]) as, u)"
    using Cons.IH by blast
  ultimately show ?case using call by (simp add: put_mr_def kern_simps del: upt_Suc)
qed (simp add: kern_simps)

lemma device_config_words:
  "device_config (map (config_word cfg a) [0..<8]) = map (\<lambda>j. cfg (a + of_nat (4 * j))) [0..<16]"
proof -
  have halves: "ucast (config_word cfg a i AND 0xFFFFFFFF) = cfg (a + of_nat (8 * i))"
    "ucast (drop_bit 32 (config_word cfg a i)) = cfg (a + of_nat (8 * i + 4))" for i
  proof -
    have m: "(0xFFFFFFFF :: word_t) = mask 32" by (simp add: mask_eq_exp_minus_1)
    show "ucast (config_word cfg a i AND 0xFFFFFFFF) = cfg (a + of_nat (8 * i))"
      unfolding m by (rule bit_word_eqI) (auto simp: config_word_def bit_simps mult.commute)
    show "ucast (drop_bit 32 (config_word cfg a i)) = cfg (a + of_nat (8 * i + 4))"
      by (rule bit_word_eqI) (auto simp: config_word_def bit_simps algebra_simps dest: bit_imp_le_length)
  qed
  show ?thesis by (simp add: device_config_def halves upt_rec)
qed


text \<open>A bus with the host bridge of the common emulated machine in device 0 and a disk controller in device 1, function 1.\<close>

definition example_bus :: "u32 \<Rightarrow> u32" where
  "example_bus a = (if a = 0x80000000 then 0x12378086 else if a = 0x80000900 then 0x70108086
     else if a = 0x80000908 then 0x01018000 else if a = 0x80000920 then 0xC041
     else if a AND 0xFFFFFF00 = 0x80000000 \<or> a AND 0xFFFFFF00 = 0x80000900 then 0 else 0xFFFFFFFF)"

definition example_ports :: "u32 syscall_instr" where
  "example_ports num a1 a2 b m k =
     (if message_label a2 = METHOD_X86_64_IO_PORT_OUT32 \<and> b 0 = PCI_CONFIG_ADDRESS then (0, b, m, ucast (b 1))
      else (0, b(0 := ucast (example_bus k)), m, k))"

definition example_client :: "u32 user_state user_state" where
  "example_client = \<lparr>us_buffer = (\<lambda>_. 0), us_bitmap = [], us_mappable = 0, us_memory = (\<lambda>_. 0),
     us_env = \<lparr>us_buffer = (\<lambda>_. 0), us_bitmap = [], us_mappable = 0, us_memory = (\<lambda>_. 0), us_env = 0\<rparr>\<rparr>"

lemma example_empty:
  "list_all (\<lambda>a. example_bus a = 0xFFFFFFFF) (map (function_at 0) [1..<9] @ map (function_at 0) [10..<256])"
  "list_all (\<lambda>a. example_bus a = 0xFFFFFFFF) (map (\<lambda>bus. function_at bus 0) [1..<256])"
  by (simp add: upt_rec function_at_def pci_addr_def, simp add: example_bus_def)+

lemma found_none: "list_all (\<lambda>a. cfg a = 0xFFFFFFFF) as \<Longrightarrow> found cfg (as @ bs) = found cfg bs"
  by (induction as) auto

lemma example_functions: "present_functions example_bus = [0x80000000, 0x80000900]"
proof -
  have split: "[0..<256] = 0 # [1..<9] @ 9 # [10..<256 :: nat]" "[0..<256] = 0 # [1..<256 :: nat]"
    by (simp_all add: upt_rec)
  have at: "function_at 0 0 = 0x80000000" "function_at 0 9 = 0x80000900" by (simp_all add: function_at_def pci_addr_def)
  have here: "example_bus 0x80000000 \<noteq> 0xFFFFFFFF" "example_bus 0x80000900 \<noteq> 0xFFFFFFFF" by (simp_all add: example_bus_def)
  have "list_all (\<lambda>a. example_bus a = 0xFFFFFFFF) (map (function_at 0) [1..<9])"
    "list_all (\<lambda>a. example_bus a = 0xFFFFFFFF) (map (function_at 0) [10..<256])"
    using example_empty(1) by (simp_all del: upt_Suc)
  then have bus0: "found example_bus (bus_functions 0) = [0x80000000, 0x80000900]"
    using found_none [of example_bus _ "[]"] here at by (simp add: split(1) found_none del: upt_Suc)
  have "on_buses example_bus [1..<256] = []"
    using example_empty(2) by (auto simp: on_buses_def list_all_iff simp del: upt_Suc)
  then show ?thesis
    using bus0 here(1) at(1) by (simp add: present_functions_def split(2) on_buses_def del: upt_Suc)
qed

lemma example_registers:
  "map (\<lambda>j. example_bus (0x80000000 + of_nat (4 * j))) [0..<16] = [0x12378086, 0, 0, 0, 0, 0, 0, 0, 0, 0, 0, 0, 0, 0, 0, 0]"
  "map (\<lambda>j. example_bus (0x80000900 + of_nat (4 * j))) [0..<16] = [0x70108086, 0, 0x01018000, 0, 0, 0, 0, 0, 0xC041, 0, 0, 0, 0, 0, 0, 0]"
  by (simp add: upt_rec, simp add: example_bus_def)+

lemma example_decoded:
  "decode_device [0x12378086, 0, 0, 0, 0, 0, 0, 0, 0, 0, 0, 0, 0, 0, 0, 0] = \<lparr>pci_vendor_id = 0x8086, pci_device_id = 0x1237,
     pci_status = 0, pci_revision_id = 0, pci_prog_if = 0, pci_subclass = 0, pci_class_code = 0, pci_irq = 0, pci_bars = []\<rparr>"
  "decode_device [0x70108086, 0, 0x01018000, 0, 0, 0, 0, 0, 0xC041, 0, 0, 0, 0, 0, 0, 0] = \<lparr>pci_vendor_id = 0x8086,
     pci_device_id = 0x7010, pci_status = 0, pci_revision_id = 0, pci_prog_if = 0x80, pci_subclass = 1, pci_class_code = 1,
     pci_irq = 0, pci_bars = [\<lparr>bar_idx = 4, bar_is_io = True, bar_addr = 0xC040\<rparr>]\<rparr>"
  by (simp_all add: decode_device_def decode_bar_def List.map_filter_simps upt_rec)


end
