(* ===== verification/Debug_Output.thy ===== *)
theory Debug_Output
  imports C_Sort Io_Port Hexdump
begin

text \<open>
  What the kernel prints for debugging (\<open>kern/debug.c\<close>, \<open>kern/arch/x86_64/debug.c\<close>, \<open>write_debug\<close> and \<open>write_e9\<close> of
  \<open>kern/arch/x86_64/intrin.c\<close>, \<open>print_this_tcb\<close> of \<open>kern/obj/tcb.c\<close>), over the model of \<open>printf\<close>. The output of a
  function is the list of bytes it hands to the stream; \<open>write_debug\<close> is that stream.
\<close>

section \<open>The stream\<close>

text \<open>\<open>write_debug\<close> has a lock of its own, which is kept beside the state of the kernel.\<close>

definition write_e9 :: "u8 \<Rightarrow> (kstate, unit) kern" where
  "write_e9 c = write_port_b 0xE9 c"

fun write_until :: "u8 list \<Rightarrow> nat \<Rightarrow> (kstate, unit) kern" where
  "write_until str 0 = kret ()"
| "write_until [] (Suc n) = kfail Undefined"
| "write_until (c # str) (Suc n) = (if c = 0 then kret () else kseq (write_e9 c) (write_until str n))"

definition write_debug :: "u8 list \<Rightarrow> word_t \<Rightarrow> (kstate \<times> spin_lock_t, word_t) kern" where
  "write_debug str len = (\<lambda>(s, lock).
     case acquire lock of Inl e \<Rightarrow> Inl e
     | Inr l \<Rightarrow> (case write_until str (unat len) s of Inl e \<Rightarrow> Inl e | Inr (_, s') \<Rightarrow> Inr (len, (s', release l))))"

lemma write_until_log:
  "n \<le> length str \<or> 0 \<in> set str \<Longrightarrow> write_until str n s =
     Inr ((), s\<lparr>io_log := io_log s @ map (\<lambda>c. PortOut IO8 0xE9 (ucast c)) (takeWhile (\<lambda>c. c \<noteq> 0) (take n str))\<rparr>)"
  by (induction str n arbitrary: s rule: write_until.induct) (auto simp: kern_simps write_e9_def write_port_b_def)

text \<open>
  One call puts the bytes up to the first zero on the port, in order, and leaves its lock free.
\<close>

lemma write_debug_log:
  assumes "lock_free lock" "unat len \<le> length str \<or> 0 \<in> set str"
  shows "\<exists>lock'. write_debug str len (s, lock) = Inr (len, (s\<lparr>io_log := io_log s @
      map (\<lambda>c. PortOut IO8 0xE9 (ucast c)) (takeWhile (\<lambda>c. c \<noteq> 0) (take (unat len) str))\<rparr>, lock')) \<and> lock_free lock'"
  using assms write_until_log [OF assms(2)] by (auto simp: write_debug_def acquire_def release_def lock_free_def Let_def)

section \<open>Registers and backtraces\<close>

definition c_text :: "string \<Rightarrow> u8 list" where
  "c_text s = map of_char s @ [0]"

definition NEWLINE :: string where "NEWLINE = [CHR 0x0A]"

definition print_frame :: "frame \<Rightarrow> (u8 list, unit) kern" where
  "print_frame f =
     kseq (emit (c_text (''rax %16lX rbx %16lX rcx %16lX rdx %16lX'' @ NEWLINE)) [VLong (f_rax f), VLong (f_rbx f), VLong (f_rcx f), VLong (f_rdx f)])
    (kseq (emit (c_text (''rsi %16lX rdi %16lX rbp %16lX rsp %16lX'' @ NEWLINE)) [VLong (f_rsi f), VLong (f_rdi f), VLong (f_rbp f), VLong (f_rsp f)])
    (kseq (emit (c_text ('' r8 %16lX  r9 %16lX r10 %16lX r11 %16lX'' @ NEWLINE)) [VLong (f_r8 f), VLong (f_r9 f), VLong (f_r10 f), VLong (f_r11 f)])
    (kseq (emit (c_text (''r12 %16lX r13 %16lX r14 %16lX r15 %16lX'' @ NEWLINE)) [VLong (f_r12 f), VLong (f_r13 f), VLong (f_r14 f), VLong (f_r15 f)])
    (kseq (emit (c_text ('' cs %16lX  ss %16lX'' @ NEWLINE)) [VLong (f_cs f), VLong (f_ss f)])
          (emit (c_text (''int %16lX err %16lX rip %16lX flg %16lX'' @ NEWLINE)) [VLong (f_int_no f), VLong (f_err_code f), VLong (f_rip f), VLong (f_rflags f)])))))"

text \<open>
  The walk over the stack: \<open>mem\<close> gives the word at an address, or nothing where reading it raises a page fault,
  whose handler calls \<open>print_backtrace\<close> again, with the flag \<open>printing_backtrace\<close> set, and halts.
\<close>

definition BACKTRACE_LIMIT :: nat where "BACKTRACE_LIMIT = 25"

definition IP_FORMAT :: "u8 list" where
  "IP_FORMAT = c_text (''  frame ip: %lX'' @ NEWLINE)"

fun backtrace_from :: "(addr \<Rightarrow> word_t option) \<Rightarrow> nat \<Rightarrow> word_t \<Rightarrow> word_t \<Rightarrow> (u8 list, unit) kern" where
  "backtrace_from mem 0 rbp rip = kret ()"
| "backtrace_from mem (Suc n) rbp rip =
     (if rbp = 0 then kret ()
      else kseq (emit IP_FORMAT [VLong rip])
        (case (mem (rbp + 8), mem rbp) of
           (Some rip', Some rbp') \<Rightarrow> backtrace_from mem n rbp' rip'
         | _ \<Rightarrow> kfail Panic))"

definition print_backtrace :: "bool \<Rightarrow> (addr \<Rightarrow> word_t option) \<Rightarrow> frame \<Rightarrow> (u8 list, unit) kern" where
  "print_backtrace printing_backtrace mem f =
     (if printing_backtrace then emit (c_text (''Faulted in backtrace'' @ NEWLINE)) []
      else kseq (emit (c_text (''Backtrace:'' @ NEWLINE)) []) (backtrace_from mem BACKTRACE_LIMIT (f_rbp f) (f_rip f)))"

definition print_this_tcb :: "(kstate \<Rightarrow> addr \<Rightarrow> u8 list) \<Rightarrow> kstate \<Rightarrow> (u8 list, unit) kern" where
  "print_this_tcb name s =
     (case current_tcb s of
        None \<Rightarrow> emit (c_text (''no tcb'' @ NEWLINE)) []
      | Some t \<Rightarrow> if hd (name s t) \<noteq> 0
                  then emit (c_text (''this_tcb: %p (known as %s)'' @ NEWLINE)) [VLong t, VStr (Some (name s t))]
                  else emit (c_text (''this_tcb: %p'' @ NEWLINE)) [VLong t])"

text \<open>\<open>panic\<close>: the message, then \<open>debug_trap\<close>, whose handler halts.\<close>

definition panic :: "u8 list \<Rightarrow> va_value list \<Rightarrow> (u8 list, unit) kern" where
  "panic msg args =
     kseq (emit (c_text ''PANIC: '') [])
    (kseq (emit msg args)
    (kseq (emit (c_text NEWLINE) [])
          (kfail DebugTrap)))"

section \<open>Self tests\<close>

definition print_numbers :: "int list \<Rightarrow> (u8 list, unit) kern" where
  "print_numbers data = kfor 0 (length data) (\<lambda>i. emit (c_text ''%d '') [VInt (word_of_int (data ! i))])"

definition sort_test_data :: "int list" where
  "sort_test_data = [3, 1, 4, 1, 5, 9, 2, 6, 5, 3]"

text \<open>The differences of the test's numbers do not overflow, so that its comparison is the difference.\<close>

definition run_sort_test :: "(u8 list, unit) kern" where
  "run_sort_test =
     kseq (emit (c_text ''    Before: '') [])
    (kseq (print_numbers sort_test_data)
    (kseq (emit (c_text NEWLINE) [])
    (kbind (\<lambda>out. case qsort (\<lambda>x y. x - y) sort_test_data of
              None \<Rightarrow> Inl Diverges | Some (Inl e) \<Rightarrow> Inl e | Some (Inr ys) \<Rightarrow> Inr (ys, out)) (\<lambda>data.
     kseq (emit (c_text ''    After:  '') [])
    (kseq (print_numbers data)
          (emit (c_text NEWLINE) []))))))"

text \<open>The instruction \<open>cpuid\<close> with level and count gives four registers.\<close>

definition get_xsave_size :: "(u32 \<Rightarrow> u32 \<Rightarrow> u32 \<times> u32 \<times> u32 \<times> u32) \<Rightarrow> (u8 list, unit) kern" where
  "get_xsave_size cpuid =
     (case cpuid 1 0 of (_, _, ecx, _) \<Rightarrow>
        if ecx AND push_bit 26 1 = 0 then emit (c_text (''    XSAVE not supported.'' @ NEWLINE)) []
        else (case cpuid 0xD 0 of (_, ebx, _, _) \<Rightarrow>
          emit (c_text (''    Required XSAVE area size: %u bytes'' @ NEWLINE)) [VInt ebx]))"

text \<open>The interrupt 255 of the first test only prints, as \<open>print_interrupt_info\<close> says: its output is an argument.\<close>

definition run_smoke_tests :: "(u8 list, unit) kern \<Rightarrow> (u32 \<Rightarrow> u32 \<Rightarrow> u32 \<times> u32 \<times> u32 \<times> u32) \<Rightarrow> (u8 list, unit) kern" where
  "run_smoke_tests int_255 cpuid =
     kseq (emit (c_text (''Smoke tests:'' @ NEWLINE)) [])
    (kseq (emit (c_text (''  Interrupt'' @ NEWLINE)) [])
    (kseq (emit (c_text ''    '') [])
    (kseq int_255
    (kseq (emit (c_text (''  Sort'' @ NEWLINE)) [])
    (kseq run_sort_test
    (kseq (emit (c_text (''  XSAVE'' @ NEWLINE)) [])
          (get_xsave_size cpuid)))))))"

section \<open>What they show\<close>

lemma shows_c_text:
  "0x25 \<notin> set (map of_char s :: u8 list) \<Longrightarrow> 0 \<notin> set (map of_char s :: u8 list) \<Longrightarrow> s \<noteq> [] \<Longrightarrow> length s < 1000 \<Longrightarrow>
     shows_text (emit (c_text s) []) (map of_char s)"
  unfolding c_text_def by (rule shows_literal) simp_all

text \<open>The sort test prints its numbers in order.\<close>

lemma digit_loop:
  assumes "p_args st = [VInt (word_of_int v)]" "0 \<le> v" "v < 10"
  shows "format_loop n (c_text ''%d '') st =
     ebind (add_result (format_number initial_spec \<lparr>num_value = word_of_int v, num_negative = False\<rparr>) n (put n (c_text ''%d '') 0 st\<lparr>p_args := []\<rparr>))
       (\<lambda>st. Inr (put n ([0x20] @ [0]) (of_nat (length [0x20 :: u8])) st))"
proof -
  have "sint (word_of_int v :: u32) = v" using assms(2,3) by (simp add: sint_uint signed_take_bit_eq_if_positive uint_word_of_int_eq take_bit_int_eq_self bit_iff_odd)
  then have "signed_number (sint (word_of_int v :: u32)) = Inr \<lparr>num_value = word_of_int v, num_negative = False\<rparr>"
    using assms(2) by (simp add: signed_number_def)
  then show ?thesis using assms(1)
    by (cases "add_result (format_number initial_spec \<lparr>num_value = word_of_int v, num_negative = False\<rparr>) n (put n (c_text ''%d '') 0 st\<lparr>p_args := []\<rparr>)")
      (simp_all add: c_text_def format_loop.simps modifier_def conversion_def print_number_def get_number_def va_int_def strlen_def initial_spec_def)
qed

lemma digit_text: "number_text initial_spec \<lparr>num_value = word_of_int v, num_negative = False\<rparr> = [0x30 + word_of_int v]" if "0 \<le> v" "v < 10"
proof -
  have "v \<in> set [0..9]" using that by simp
  then show ?thesis
    by (auto simp: number_text_def layout_text_def initial_spec_def sign_text_def prefix_text_def null_pointer_def base_charset_def base_divisor_def
      lower_hex_charset_def digits_of.simps upto.simps)
qed

lemma shows_numbers:
  assumes "\<forall>v \<in> set data. 0 \<le> v \<and> v < 10"
  shows "shows_text (print_numbers data) (concat (map (\<lambda>v. [0x30 + word_of_int v, 0x20]) data))"
proof -
  have digit: "shows_text (emit (c_text ''%d '') [VInt (word_of_int v)]) ([0x30 + word_of_int v] @ [0x20])" if "0 \<le> v" "v < 10" for v
  proof (rule shows_number [OF digit_loop digit_text])
    have "v \<in> set [0..9]" using that by simp
    then show "0 \<notin> set [0x30 + word_of_int v :: u8]" by (auto simp: upto.simps)
  qed (use that in simp_all)
  have "shows_text (print_numbers data) (concat (map (\<lambda>i. [0x30 + word_of_int (data ! i)] @ [0x20]) [0..<0 + length data]))"
    unfolding print_numbers_def using assms by (intro shows_kfor digit) simp_all
  moreover have "map (\<lambda>i. [0x30 + word_of_int (data ! i), 0x20]) [0..<length data] = map (\<lambda>v. [0x30 + word_of_int v :: u8, 0x20]) data"
    by (rule nth_equalityI) simp_all
  ultimately show ?thesis by simp
qed

lemma sort_test_shows_order:
  "shows_text run_sort_test (map of_char (''    Before: 3 1 4 1 5 9 2 6 5 3 '' @ NEWLINE @ ''    After:  1 1 2 3 3 4 5 5 6 9 '' @ NEWLINE))"
proof -
  have c: "comparator (\<lambda>x y :: int. x - y)" by (rule comparator.intro) auto
  have below: "comparator.below (\<lambda>x y :: int. x - y) = (\<lambda>x y. x - y \<le> 0)"
    by (intro ext) (rule comparator.below_def [OF c])
  obtain ys where ys: "qsort (\<lambda>x y. x - y) sort_test_data = Some (Inr ys)" "mset ys = mset sort_test_data" "sorted_wrt (\<lambda>x y. x - y \<le> 0) ys"
    using comparator.qsort_sorts [OF c, of sort_test_data] below by auto
  have "sorted ys" using ys(3) by (simp add: sorted_wrt_iff_nth_less)
  with ys(2) have "ys = sort sort_test_data" by (metis properties_for_sort)
  also have "\<dots> = [1, 1, 2, 3, 3, 4, 5, 5, 6, 9]" by (simp add: sort_test_data_def)
  finally have sorted: "ys = [1, 1, 2, 3, 3, 4, 5, 5, 6, 9]" .
  have run: "run_sort_test = kseq (emit (c_text ''    Before: '') []) (kseq (print_numbers sort_test_data) (kseq (emit (c_text NEWLINE) [])
      (kseq (emit (c_text ''    After:  '') []) (kseq (print_numbers ys) (emit (c_text NEWLINE) [])))))"
    by (simp add: run_sort_test_def ys(1) kseq_def kbind_def fun_eq_iff split: sum.split)
  have numbers: "shows_text (print_numbers sort_test_data) (concat (map (\<lambda>v. [0x30 + word_of_int v, 0x20]) sort_test_data))"
    "shows_text (print_numbers ys) (concat (map (\<lambda>v. [0x30 + word_of_int v, 0x20]) ys))"
    by (rule shows_numbers, simp add: sort_test_data_def sorted)+
  have texts: "shows_text (emit (c_text ''    Before: '') []) (map of_char ''    Before: '')"
    "shows_text (emit (c_text ''    After:  '') []) (map of_char ''    After:  '')"
    "shows_text (emit (c_text NEWLINE) []) (map of_char NEWLINE)"
    by (rule shows_c_text; simp add: NEWLINE_def)+
  show ?thesis
    using shows_kseq [OF texts(1) shows_kseq [OF numbers(1) shows_kseq [OF texts(3) shows_kseq [OF texts(2) shows_kseq [OF numbers(2) texts(3)]]]]]
    by (simp add: run sorted sort_test_data_def NEWLINE_def)
qed

text \<open>
  A backtrace on any stack that can be read, also one whose frames form a cycle, shows at most 25 return
  addresses and returns.
\<close>

fun frame_chain :: "(addr \<Rightarrow> word_t) \<Rightarrow> nat \<Rightarrow> word_t \<Rightarrow> word_t \<Rightarrow> word_t list" where
  "frame_chain mem 0 rbp rip = []"
| "frame_chain mem (Suc n) rbp rip = (if rbp = 0 then [] else rip # frame_chain mem n (mem rbp) (mem (rbp + 8)))"

abbreviation ip_spec :: format_spec where
  "ip_spec \<equiv> initial_spec\<lparr>fs_base := BASE_16_CAPS, fs_int_width := 1\<rparr>"

lemma ip_loop:
  "p_args st = [VLong v] \<Longrightarrow> format_loop n IP_FORMAT st =
     ebind (add_result (format_number ip_spec \<lparr>num_value = v, num_negative = False\<rparr>) n (put n IP_FORMAT 12 st\<lparr>p_args := []\<rparr>))
       (\<lambda>st. Inr (put n [0x0A, 0] 1 st))"
  by (cases "add_result (format_number ip_spec \<lparr>num_value = v, num_negative = False\<rparr>) n (put n IP_FORMAT 12 st\<lparr>p_args := []\<rparr>)")
    (simp_all add: IP_FORMAT_def c_text_def NEWLINE_def format_loop.simps modifier_def conversion_def initial_spec_def print_number_def
      get_number_def va_long_def strlen_def)

lemma shows_ip: "shows_text (emit IP_FORMAT [VLong v]) (map of_char ''  frame ip: '' @ hex_digits (unat v) @ [0x0A])"
proof (rule shows_emit)
  fix st :: printf_state and n out assume p: "printed n [] out (p_writing st)" and a: "p_args st = [VLong v]"
  have digits: "number_text ip_spec \<lparr>num_value = v, num_negative = False\<rparr> = hex_digits (unat v)"
    by (simp add: number_text_def layout_text_def hex_digits_digits_of base_charset_def base_divisor_def unat_eq_0 initial_spec_def
        sign_text_def prefix_text_def null_pointer_def)
  have "printed n (map of_char ''  frame ip: '') out (p_writing (put n IP_FORMAT 12 st\<lparr>p_args := []\<rparr>))"
    using put_printed [OF p, of 12 IP_FORMAT] by (simp add: IP_FORMAT_def c_text_def NEWLINE_def)
  from add_result_number [OF this, of ip_spec "\<lparr>num_value = v, num_negative = False\<rparr>"] obtain st' where
    "add_result (format_number ip_spec \<lparr>num_value = v, num_negative = False\<rparr>) n (put n IP_FORMAT 12 st\<lparr>p_args := []\<rparr>) = Inr st'"
    and p': "printed n (map of_char ''  frame ip: '' @ hex_digits (unat v)) out (p_writing st')"
    using digits by auto
  then show "\<exists>st'. format_loop n IP_FORMAT st = Inr st' \<and>
      printed n (map of_char ''  frame ip: '' @ hex_digits (unat v) @ [0x0A]) out (p_writing st')"
    using put_printed [OF p', of 1 "[0x0A, 0]"] by (simp add: ip_loop [OF a])
next
  have "unat v < 2 ^ 64" using unsigned_less [of v, where ?'a = nat] by simp
  then show "length (map of_char ''  frame ip: '' @ hex_digits (unat v) @ [0x0A :: u8]) < 1000"
    using hex_digits_shape(2) [of "unat v" 15] by simp
qed (use hex_digits_shape(1) [of "unat v"] in auto)

lemma backtrace_shows_chain:
  "shows_text (print_backtrace False (\<lambda>a. Some (mem a)) f) (map of_char (''Backtrace:'' @ NEWLINE) @
     concat (map (\<lambda>v. map of_char ''  frame ip: '' @ hex_digits (unat v) @ [0x0A]) (frame_chain mem 25 (f_rbp f) (f_rip f))))"
  "length (frame_chain mem n rbp rip) \<le> n"
proof -
  have "shows_text (backtrace_from (\<lambda>a. Some (mem a)) n rbp rip)
      (concat (map (\<lambda>v. map of_char ''  frame ip: '' @ hex_digits (unat v) @ [0x0A]) (frame_chain mem n rbp rip)))" for n rbp rip
  proof (induction n arbitrary: rbp rip)
    case (Suc n)
    then show ?case using shows_kseq [OF shows_ip Suc.IH] shows_kret by simp
  qed (simp add: shows_kret)
  moreover have "shows_text (emit (c_text (''Backtrace:'' @ NEWLINE)) []) (map of_char (''Backtrace:'' @ NEWLINE))"
    by (rule shows_c_text) (simp_all add: NEWLINE_def)
  ultimately show "shows_text (print_backtrace False (\<lambda>a. Some (mem a)) f) (map of_char (''Backtrace:'' @ NEWLINE) @
     concat (map (\<lambda>v. map of_char ''  frame ip: '' @ hex_digits (unat v) @ [0x0A]) (frame_chain mem 25 (f_rbp f) (f_rip f))))"
    unfolding print_backtrace_def BACKTRACE_LIMIT_def by (simp only: if_False) (intro shows_kseq)
  show "length (frame_chain mem n rbp rip) \<le> n"
    by (induction n arbitrary: rbp rip) auto
qed

end
