(* ===== verification/Spec2Isabelle.thy ===== *)
theory Spec2Isabelle
  imports Scheduling Authority Ipc_Properties Untyped_Properties Paging_Properties Device_Properties
    Spin_Lock Dispatch_Properties Boot_Properties C_Sort Chacha Pci_Properties Userland_Properties
    Processor Cdt_Test_Properties Serial_Driver Cap_Types
    Hexdump Pci_Enumeration Debug_Output
begin

text \<open>
  A verification development of tern, a small capability kernel for x86-64 and its user programs.

  The program. Threads enter the kernel through \<open>c_syscall_entry\<close> and \<open>c_interrupt_entry\<close>
  (\<open>kern/arch/x86_64/entry.c\<close>). A system call sends to, receives from or calls a capability, which the
  kernel looks up in the thread's CNode. Endpoints and notifications carry messages between threads;
  every other capability is an object with methods, and a call on it is dispatched by the label of the
  message (\<open>include/kern/syscall_dispatch.c\<close>, generated from \<open>interface.yml\<close>). All objects are created
  from untyped memory. Capabilities stand in one derivation list (\<open>kern/cdt.c\<close>), which says what revoke
  and delete remove. A thread that blocks or yields gives the processor to the head of the run queue
  when the kernel returns. Before the first thread runs, boot divides memory and fills its CNode. User
  programs reach the kernel through method stubs and a small library.

  The state. \<open>kstate\<close> (theory Kernel_State) is the memory of the kernel by kind of object: capability
  slots, list heads, threads, notifications, IPC buffers, page table words, interrupt handlers,
  registers of the I/O APIC, the log of port accesses, the two locks, and user memory. Pointers are
  constructors of datatypes where the code only passes them on, and words where it computes with them.
  An operation is a function \<open>kstate \<Rightarrow> fault + ('a \<times> kstate)\<close> (type \<open>kern\<close>, theory Prelude): a fault is a
  failed assertion, a null pointer, undefined behaviour of C, a halt or a deadlock. Machine words keep
  their widths, so all wrap-around is that of the code.

  The theories of the kernel, in the order of the code:
  \<^item> Prelude: machine types, faults, the state monad with its rules, the collection \<open>inv_rules\<close> of
    preservation rules, bit fields.
  \<^item> Intrusive_List (\<open>include/list.h\<close>), with the locale \<open>lifo_queue\<close> of what the schedulers and queues rely on;
    Capability (\<open>include/kern/cap.h\<close>); Message (\<open>include/sys/ipc.h\<close>, \<open>include/sys/syscall.h\<close>,
    \<open>include/kern/syscall.h\<close>); Page_Alloc (\<open>kern/alloc.c\<close>); Cdt and Authority (\<open>kern/cdt.c\<close>).
  \<^item> Kernel_State and Ipc (\<open>include/kern/ipc.h\<close>, \<open>frame.c\<close>); Cnode, Tcb, Notification, Endpoint, Untyped,
    Irq, Io_Port, Paging: one theory for each file of \<open>kern/obj\<close> and \<open>kern/arch/x86_64/obj\<close>, with every
    method on every branch.
  \<^item> Dispatch (\<open>syscall_dispatch.c\<close>) and Syscall (\<open>kern/syscall.c\<close>, \<open>entry.c\<close>, \<open>ints.c\<close>).
  \<^item> Spin_Lock (\<open>lib/spin_lock.c\<close>): the locks under every interleaving of several processors, as step
    relations with invariants; the rest of the kernel runs under the big lock on one processor.
  \<^item> Boot (\<open>kern/boot.c\<close>, \<open>kern/elf.c\<close>, \<open>kern/main.c\<close>, the boot part of \<open>kern/alloc.c\<close>); Processor
    (\<open>gdt.c\<close>, \<open>idt.c\<close>, \<open>lapic.c\<close>, \<open>pic.c\<close>, \<open>sse.c\<close>, \<open>syscall.c\<close>, \<open>smp.c\<close>, \<open>_start\<close>): what boot sets in the
    processor, with the layout of its tables.
  \<^item> Debug_Output (\<open>kern/debug.c\<close>, \<open>debug.c\<close>, \<open>write_debug\<close>): what the kernel prints.

  The C library and the programs:
  \<^item> C_String (\<open>lib/string.c\<close>, \<open>lib/num.c\<close>, \<open>include/ctype.h\<close>), C_Print (\<open>lib/print.c\<close>), Hexdump (\<open>lib/hexdump.c\<close>), C_Sort
    (\<open>lib/sort.c\<close>, with the locale \<open>comparator\<close>), Tar (\<open>lib/tar.c\<close>), Slot_Alloc (\<open>lib/cptr_alloc.c\<close>).
  \<^item> User_Stubs (\<open>include/sys/user_method_stubs.h\<close>), User_Library (\<open>lib/lib.c\<close>), User_Programs
    (\<open>user/calculator_server.c\<close>), Serial_Driver (\<open>user/serial_driver.c\<close>, with the buffer handling in User_Programs), Pci_Manager (\<open>user/pci_manager.c\<close>), Exec
    (\<open>lib/exec.c\<close>), Userland (\<open>user/userland.c\<close>), Chacha (\<open>lib/chacha.c\<close>, \<open>lib/rng.c\<close>). A program is a
    function over \<open>user_state\<close>: its IPC buffer, its slot bitmap, its memory, and the state of whatever
    answers the system call instruction, which is an argument. Cdt_Test (\<open>user/cdt_test.c\<close>) also makes the
    modelled kernel that argument. Properties hold for every kernel, by
    recording the calls a program makes, or for a kernel that passes the messages to a modelled server.

  What the lemmas show:
  \<^item> Scheduling: every system call and interrupt, from any state with free locks, releases the locks and
    leaves the kernel with a valid thread and frame; a yield implements a step of an abstract scheduler.
  \<^item> Cap_Types: the type invariant of all slots over any sequence of kernel entries and writes by programs, by
    the rules of the locales \<open>kernel_frame\<close>, \<open>exit_frame\<close> and \<open>entry_frame\<close>.
  \<^item> Authority: capability operations never create authority, keep the derivation list well formed, and
    always return; revoke removes exactly the children.
  \<^item> Untyped_Properties, Page_Alloc, Boot_Properties: new objects lie in free memory; no page is given out
    twice; boot hands out what the kernel does not use and nothing else.
  \<^item> Ipc_Properties: who gets which words, badge and tag, and which thread is blocked or runnable
    afterwards, in each order of arrival.
  \<^item> Paging_Properties: what mapping a page or a table does to the translation of every address.
  \<^item> Device_Properties: accesses of I/O port capabilities and the life cycle of an interrupt line.
  \<^item> Dispatch_Properties, User_Stubs: malformed invocations are refused; stubs and dispatch agree.
  \<^item> C_Sort, Tar, Print_Properties, C_String, Slot_Alloc: correctness of the library routines. Hexdump: a dump shows what a
    reference says.
  \<^item> Chacha: the test vector of the standard, and that the cipher undoes itself.
  \<^item> Pci_Properties: what a client of the PCI manager can reach. Userland_Properties: client and
    calculator together; drawing stays inside the framebuffer. Pci_Enumeration: the first program and the
    manager together list the bus. Serial_Driver: when its interrupt handler returns.
  \<^item> Cdt_Test_Properties: the repository's test of the derivation list passes on the modelled kernel, on
    the whole path of each system call.
  \<^item> Processor: which gate serves which vector; the tables agree with the selectors that the code loads.
  Several lemmas record where the code does not do what it means to, with a concrete run.

  Bounds and fuel. Loops over a counter are structural recursions on the number of rounds. Loops that may
  not end are partial functions with value \<open>None\<close> for not returning: revoke and delete over the
  derivation list, cutting extents, sorting, the archive walk and the serial interrupt; their theorems
  prove that they return. Mapping a page from a program retries at most as often as there are levels;
  the loop has fuel for four attempts, and a lemma shows that four are enough. The loops of
  \<open>calculate_fibonacci_numbers\<close>, \<open>read_serial\<close>, the first program's \<open>main\<close> and the serial driver's \<open>handle_irq\<close>
  depend on what the kernel answers and take fuel; the theorems on the first and the last one give the number
  of rounds that is enough.

  Parameters. The boot loader's answers, the devices behind the configuration ports, the system call
  instruction as a program sees it, and values read from ports are arguments of the definitions.

  Not modelled: assembly entry code, the calls of \<open>printf\<close> inside kernel operations and programs, what other processors do at the same time
  apart from the locks, the host test support, and the declarations of the boot loader's protocol
  (\<open>include/limine.h\<close>) beyond the records that the kernel reads.
\<close>

end
